(* ===== verification/Prelude.thy ===== *)
theory Prelude
  imports Main "HOL-Library.Word"
begin

text \<open>
  Shared vocabulary of the development: machine integers and byte buffers, the outcome of
  fallible Rust code, sequencing of decoders and of encoders, the draining loop
  \<^verbatim>\<open>while src.has_remaining()\<close>, big-endian integers and UTF-8 validity as the Rust
  standard library defines it.

  \<^item> \<open>outcome\<close> is the result of a Rust call: \<open>Ok\<close>/\<open>Err\<close> of \<^verbatim>\<open>Result\<close>, \<open>Panic\<close> for a panic
    (an explicit one, a read past the end of a buffer, an arithmetic overflow with overflow checks
    on), and \<open>Diverge\<close> for a loop whose iteration budget ran out. \<open>returns\<close> says that neither of
    the last two happened.
  \<^item> A decoder takes the unread bytes and returns a value with the bytes left.
  \<^item> An encoder takes the output buffer and returns the outcome with the new buffer: bytes written
    before an error stay in the buffer, as they do in the code.
\<close>

unbundle bit_operations_syntax

type_synonym u8 = "8 word"
type_synonym u16 = "16 word"
type_synonym u32 = "32 word"
type_synonym bytes = "u8 list"
type_synonym bytestring = bytes

named_theorems returns_intro \<open>introduction rules for calls that return\<close>
named_theorems writes_intro \<open>what an encoder appends to its buffer\<close>
named_theorems consumes_intro \<open>decoders that leave a shorter rest\<close>
named_theorems wire_simps \<open>evaluation of decoders and encoders on known bytes\<close>

section \<open>Outcomes of fallible calls\<close>

datatype ('e, 'a) outcome = Ok (ok_val: 'a) | Err 'e | Panic | Diverge

definition returns :: "('e, 'a) outcome \<Rightarrow> bool" where
  "returns r \<longleftrightarrow> r \<noteq> Panic \<and> r \<noteq> Diverge"

lemma returns_simps [simp]:
  "returns (Ok x)" "returns (Err e)" "\<not> returns Panic" "\<not> returns Diverge"
  by (simp_all add: returns_def)

lemma find_eq: "x \<in> set xs \<Longrightarrow> List.find (\<lambda>y. y = x) xs = Some x"
  by (induction xs) auto

text \<open>The \<^verbatim>\<open>?\<close> operator.\<close>

definition and_then :: "('e, 'a) outcome \<Rightarrow> ('a \<Rightarrow> ('e, 'b) outcome) \<Rightarrow> ('e, 'b) outcome" where
  "and_then m k = (case m of Ok x \<Rightarrow> k x | Err e \<Rightarrow> Err e | Panic \<Rightarrow> Panic | Diverge \<Rightarrow> Diverge)"

text \<open>The macro \<^verbatim>\<open>ensure!\<close>.\<close>

definition ensure :: "bool \<Rightarrow> 'e \<Rightarrow> ('e, 'a) outcome \<Rightarrow> ('e, 'a) outcome" where
  "ensure c e k = (if c then k else Err e)"

lemma and_then_simps [simp]:
  "and_then (Ok x) k = k x" "and_then (Err e) k = Err e"
  "and_then Panic k = Panic" "and_then Diverge k = Diverge"
  by (simp_all add: and_then_def)

lemma ensure_simps [simp]: "ensure True e k = k" "ensure False e k = Err e"
  by (simp_all add: ensure_def)

lemma and_then_eq_Ok [simp]: "and_then m k = Ok y \<longleftrightarrow> (\<exists>x. m = Ok x \<and> k x = Ok y)"
  by (cases m) auto

lemma ensure_eq_Ok [simp]: "ensure c e k = Ok y \<longleftrightarrow> c \<and> k = Ok y"
  by (simp add: ensure_def)

lemma returns_and_then [returns_intro]:
  "returns m \<Longrightarrow> (\<And>x. m = Ok x \<Longrightarrow> returns (k x)) \<Longrightarrow> returns (and_then m k)"
  by (cases m) auto

lemma returns_ensure [returns_intro]: "(c \<Longrightarrow> returns k) \<Longrightarrow> returns (ensure c e k)"
  by (simp add: ensure_def)

lemma returns_if [returns_intro]:
  "(c \<Longrightarrow> returns a) \<Longrightarrow> (\<not> c \<Longrightarrow> returns b) \<Longrightarrow> returns (if c then a else b)"
  by simp

lemma returns_Ok [returns_intro]: "returns (Ok x)"
  by simp

lemma returns_Err [returns_intro]: "returns (Err e)"
  by simp

lemma returns_case_prod [returns_intro]:
  "(\<And>a b. p = (a, b) \<Longrightarrow> returns (f a b)) \<Longrightarrow> returns (case p of (a, b) \<Rightarrow> f a b)"
  by (cases p) simp

lemma and_then_cong [fundef_cong]:
  "m = m' \<Longrightarrow> (\<And>x. m' = Ok x \<Longrightarrow> k x = k' x) \<Longrightarrow> and_then m k = and_then m' k'"
  by (cases m') auto

text \<open>Checked arithmetic: an overflow panics.\<close>

definition checked_sub :: "'l::len word \<Rightarrow> 'l word \<Rightarrow> ('e, 'l word) outcome" where
  "checked_sub a b = (if b \<le> a then Ok (a - b) else Panic)"

definition checked_add :: "'l::len word \<Rightarrow> 'l word \<Rightarrow> ('e, 'l word) outcome" where
  "checked_add a b = (if unat a + unat b < 2 ^ LENGTH('l) then Ok (a + b) else Panic)"

section \<open>Decoders\<close>

type_synonym ('e, 'a) decoder = "bytes \<Rightarrow> ('e, 'a \<times> bytes) outcome"

text \<open>\<^verbatim>\<open>Buf::get_u8\<close> and \<^verbatim>\<open>Buf::get_u16\<close>, \<^verbatim>\<open>get_u32\<close> panic on a short buffer; \<^verbatim>\<open>advance\<close> and
  \<^verbatim>\<open>split_to\<close> too. Multi-byte integers are big-endian.\<close>

definition get_u8 :: "('e, u8) decoder" where
  "get_u8 src = (case src of [] \<Rightarrow> Panic | b # rest \<Rightarrow> Ok (b, rest))"

definition be_u16 :: "u8 \<Rightarrow> u8 \<Rightarrow> u16" where
  "be_u16 a b = push_bit 8 (ucast a) OR ucast b"

definition be_u32 :: "u8 \<Rightarrow> u8 \<Rightarrow> u8 \<Rightarrow> u8 \<Rightarrow> u32" where
  "be_u32 a b c d =
     push_bit 24 (ucast a) OR push_bit 16 (ucast b) OR push_bit 8 (ucast c) OR ucast d"

definition get_u16 :: "('e, u16) decoder" where
  "get_u16 src = (case src of a # b # rest \<Rightarrow> Ok (be_u16 a b, rest) | _ \<Rightarrow> Panic)"

definition get_u32 :: "('e, u32) decoder" where
  "get_u32 src =
     (case src of a # b # c # d # rest \<Rightarrow> Ok (be_u32 a b c d, rest) | _ \<Rightarrow> Panic)"

definition split_to :: "nat \<Rightarrow> ('e, bytes) decoder" where
  "split_to n src = (if n \<le> length src then Ok (take n src, drop n src) else Panic)"

definition advance :: "nat \<Rightarrow> bytes \<Rightarrow> ('e, bytes) outcome" where
  "advance n src = (if n \<le> length src then Ok (drop n src) else Panic)"

definition u16_be :: "u16 \<Rightarrow> bytes" where
  "u16_be w = [ucast (drop_bit 8 w), ucast w]"

definition u32_be :: "u32 \<Rightarrow> bytes" where
  "u32_be w = [ucast (drop_bit 24 w), ucast (drop_bit 16 w), ucast (drop_bit 8 w), ucast w]"

lemma length_u16_be [simp]: "length (u16_be w) = 2"
  by (simp add: u16_be_def)

lemma length_u32_be [simp]: "length (u32_be w) = 4"
  by (simp add: u32_be_def)

lemma be_u16_u16_be: "be_u16 (ucast (drop_bit 8 w)) (ucast w) = w"
  by (rule bit_word_eqI) (auto simp: be_u16_def bit_simps)

lemma be_u32_u32_be:
  "be_u32 (ucast (drop_bit 24 w)) (ucast (drop_bit 16 w)) (ucast (drop_bit 8 w)) (ucast w) = w"
proof (rule bit_word_eqI)
  fix n
  assume "n < LENGTH(32)"
  then consider "n < 8" | "8 \<le> n" "n < 16" | "16 \<le> n" "n < 24" | "24 \<le> n" "n < 32"
    by fastforce
  then show "bit (be_u32 (ucast (drop_bit 24 w)) (ucast (drop_bit 16 w)) (ucast (drop_bit 8 w))
    (ucast w)) n = bit w n"
    by cases (auto simp: be_u32_def bit_simps)
qed

lemma get_u8_Cons [simp]: "get_u8 (b # rest) = Ok (b, rest)"
  by (simp add: get_u8_def)

lemma get_u16_u16_be [wire_simps]: "get_u16 (u16_be w @ rest) = Ok (w, rest)"
  by (simp add: get_u16_def u16_be_def be_u16_u16_be)

lemma get_u32_u32_be [wire_simps]: "get_u32 (u32_be w @ rest) = Ok (w, rest)"
  by (simp add: get_u32_def u32_be_def be_u32_u32_be)

lemma split_to_append [wire_simps]: "split_to (length xs) (xs @ rest) = Ok (xs, rest)"
  by (simp add: split_to_def)

lemma get_u8_Ok [simp]: "get_u8 src = Ok (b, rest) \<longleftrightarrow> src = b # rest"
  by (cases src) (auto simp: get_u8_def)

lemma get_u16_Ok_length: "get_u16 src = Ok (w, rest) \<Longrightarrow> length src = length rest + 2"
  by (auto simp: get_u16_def split: list.splits)

lemma get_u32_Ok_length: "get_u32 src = Ok (w, rest) \<Longrightarrow> length src = length rest + 4"
  by (auto simp: get_u32_def split: list.splits)

lemma split_to_Ok:
  "split_to n src = Ok (xs, rest) \<Longrightarrow> src = xs @ rest \<and> length xs = n"
  by (auto simp: split_to_def split: if_splits)

lemma returns_get_u8 [returns_intro]: "src \<noteq> [] \<Longrightarrow> returns (get_u8 src)"
  by (cases src) (auto simp: get_u8_def)

lemma length_ge_2: "2 \<le> length xs \<Longrightarrow> \<exists>a b ys. xs = a # b # ys"
  by (cases xs; cases "tl xs") auto

lemma length_ge_4: "4 \<le> length xs \<Longrightarrow> \<exists>a b c d ys. xs = a # b # c # d # ys"
  using length_ge_2 [of xs] length_ge_2 [of "drop 2 xs"] by auto

lemma returns_get_u16 [returns_intro]: "2 \<le> length src \<Longrightarrow> returns (get_u16 src)"
  by (auto simp: get_u16_def dest!: length_ge_2)

lemma returns_get_u32 [returns_intro]: "4 \<le> length src \<Longrightarrow> returns (get_u32 src)"
  by (auto simp: get_u32_def dest!: length_ge_4)

lemma returns_split_to [returns_intro]: "n \<le> length src \<Longrightarrow> returns (split_to n src)"
  by (simp add: split_to_def)

lemma returns_advance [returns_intro]: "n \<le> length src \<Longrightarrow> returns (advance n src)"
  by (simp add: advance_def)

text \<open>A decoder that leaves at most, or strictly less than, what it was given.\<close>

definition shrinking :: "('e, 'a) decoder \<Rightarrow> bool" where
  "shrinking d \<longleftrightarrow> (\<forall>src x rest. d src = Ok (x, rest) \<longrightarrow> length rest \<le> length src)"

definition consuming :: "('e, 'a) decoder \<Rightarrow> bool" where
  "consuming d \<longleftrightarrow> (\<forall>src x rest. d src = Ok (x, rest) \<longrightarrow> length rest < length src)"

lemma consumingD: "consuming d \<Longrightarrow> d src = Ok (x, rest) \<Longrightarrow> length rest < length src"
  by (auto simp: consuming_def)

lemma shrinkingD: "shrinking d \<Longrightarrow> d src = Ok (x, rest) \<Longrightarrow> length rest \<le> length src"
  by (auto simp: shrinking_def)

lemma consuming_shrinking [consumes_intro]: "consuming d \<Longrightarrow> shrinking d"
  by (auto simp: consuming_def shrinking_def intro: less_imp_le)

section \<open>Draining loops\<close>

text \<open>
  \<^verbatim>\<open>while src.has_remaining() { body }\<close>: the body updates loop variables \<open>st\<close> and reads from the
  buffer. The budget is the number of unread bytes; \<open>while_remaining_unfold\<close> shows that it is
  enough whenever each iteration reads at least one byte, and gives back the loop's own equation.
\<close>

type_synonym ('e, 's) body = "'s \<Rightarrow> ('e, 's) decoder"

fun drain :: "nat \<Rightarrow> ('e, 's) body \<Rightarrow> 's \<Rightarrow> bytes \<Rightarrow> ('e, 's) outcome" where
  "drain fuel body st [] = Ok st"
| "drain 0 body st (b # bs) = Diverge"
| "drain (Suc fuel) body st (b # bs) =
     and_then (body st (b # bs)) (\<lambda>(st', rest). drain fuel body st' rest)"

definition while_remaining :: "('e, 's) body \<Rightarrow> 's \<Rightarrow> bytes \<Rightarrow> ('e, 's) outcome" where
  "while_remaining body st src = drain (length src) body st src"

lemma drain_enough:
  assumes "\<And>st. consuming (body st)"
  shows "length src \<le> n \<Longrightarrow> drain n body st src = drain (length src) body st src"
proof (induction n arbitrary: st src rule: less_induct)
  case (less n)
  show ?case
  proof (cases src)
    case Nil
    then show ?thesis by simp
  next
    case (Cons b bs)
    with less.prems obtain m where m: "n = Suc m" "length bs \<le> m"
      by (cases n) auto
    have "drain m body st' rest = drain (length bs) body st' rest"
      if "body st (b # bs) = Ok (st', rest)" for st' rest
    proof -
      from consumingD [OF assms that] have "length rest \<le> length bs" by simp
      with m less.IH [of m rest st'] less.IH [of "length bs" rest st'] show ?thesis by simp
    qed
    with m Cons show ?thesis by (auto intro!: and_then_cong)
  qed
qed

lemma while_remaining_Nil [simp]: "while_remaining body st [] = Ok st"
  by (simp add: while_remaining_def)

lemma while_remaining_unfold:
  assumes "\<And>st. consuming (body st)" "src \<noteq> []"
  shows "while_remaining body st src =
    and_then (body st src) (\<lambda>(st', rest). while_remaining body st' rest)"
proof -
  obtain b bs where src: "src = b # bs" using assms(2) by (cases src) auto
  have "drain (length bs) body st' rest = drain (length rest) body st' rest"
    if "body st src = Ok (st', rest)" for st' rest
    using consumingD [OF assms(1) that] src by (intro drain_enough [OF assms(1)]) simp
  with src show ?thesis by (auto simp: while_remaining_def intro!: and_then_cong)
qed

text \<open>\<^verbatim>\<open>v.push(T::decode(src)?)\<close>.\<close>

definition push_body :: "('e, 'a) decoder \<Rightarrow> ('e, 'a list) body" where
  "push_body d acc src = and_then (d src) (\<lambda>(v, rest). Ok (acc @ [v], rest))"

text \<open>One iteration that is known to succeed.\<close>

lemma while_remaining_step:
  assumes "\<And>st. consuming (body st)" "body st (b # bs) = Ok (st', rest)"
  shows "while_remaining body st (b # bs) = while_remaining body st' rest"
  using while_remaining_unfold [of body "b # bs" st] assms by simp

lemma while_remaining_invar:
  assumes "\<And>st. consuming (body st)" and "while_remaining body st src = Ok st'" and "P st"
    and "\<And>st src st' rest. src \<noteq> [] \<Longrightarrow> P st \<Longrightarrow> body st src = Ok (st', rest) \<Longrightarrow> P st'"
  shows "P st'"
  using assms(2,3)
proof (induction "length src" arbitrary: src st rule: less_induct)
  case less
  show ?case
  proof (cases "src = []")
    case True
    with less.prems show ?thesis by simp
  next
    case False
    with less.prems obtain st1 rest where "body st src = Ok (st1, rest)"
      "while_remaining body st1 rest = Ok st'"
      by (auto simp: while_remaining_unfold [OF assms(1) False])
    with less consumingD [OF assms(1)] assms(4) [OF False] show ?thesis by blast
  qed
qed

lemma returns_while_remaining [returns_intro]:
  assumes "\<And>st. consuming (body st)" and "\<And>st src. src \<noteq> [] \<Longrightarrow> returns (body st src)"
  shows "returns (while_remaining body st src)"
proof (induction "length src" arbitrary: src st rule: less_induct)
  case less
  show ?case
  proof (cases "src = []")
    case False
    have "returns (while_remaining body st' rest)" if "body st src = Ok (st', rest)" for st' rest
      using less consumingD [OF assms(1) that] by blast
    with False show ?thesis
      by (auto simp: while_remaining_unfold [OF assms(1) False] intro!: returns_intro assms(2))
  qed simp
qed

section \<open>Encoders\<close>

type_synonym 'e encoder = "bytes \<Rightarrow> ('e, unit) outcome \<times> bytes"

definition put :: "bytes \<Rightarrow> 'e encoder" where
  "put bs = (\<lambda>buf. (Ok (), buf @ bs))"

definition enc_fail :: "('e, unit) outcome \<Rightarrow> 'e encoder" where
  "enc_fail r = (\<lambda>buf. (r, buf))"

definition enc_seq :: "'e encoder \<Rightarrow> 'e encoder \<Rightarrow> 'e encoder" where
  "enc_seq a b = (\<lambda>buf. case a buf of (Ok u, buf') \<Rightarrow> b buf' | (r, buf') \<Rightarrow> (r, buf'))"

text \<open>A block of statements, each ended by \<^verbatim>\<open>?\<close>, and a \<^verbatim>\<open>for\<close> loop.\<close>

fun steps :: "'e encoder list \<Rightarrow> 'e encoder" where
  "steps [] = put []"
| "steps (a # as) = enc_seq a (steps as)"

definition for_each :: "'a list \<Rightarrow> ('a \<Rightarrow> 'e encoder) \<Rightarrow> 'e encoder" where
  "for_each xs f = steps (map f xs)"

text \<open>An encoder that looks at the current length of the buffer, and one that needs a value that
  is computed by checked arithmetic.\<close>

definition with_len :: "(nat \<Rightarrow> 'e encoder) \<Rightarrow> 'e encoder" where
  "with_len f = (\<lambda>buf. f (length buf) buf)"

definition enc_val :: "('e, 'a) outcome \<Rightarrow> ('a \<Rightarrow> 'e encoder) \<Rightarrow> 'e encoder" where
  "enc_val m k = (case m of Ok x \<Rightarrow> k x | Err e \<Rightarrow> enc_fail (Err e)
     | Panic \<Rightarrow> enc_fail Panic | Diverge \<Rightarrow> enc_fail Diverge)"

definition writes :: "'e encoder \<Rightarrow> bytes \<Rightarrow> bool" where
  "writes a bs \<longleftrightarrow> (\<forall>buf. a buf = (Ok (), buf @ bs))"

lemma enc_val_Ok [simp]: "enc_val (Ok x) k = k x"
  by (simp add: enc_val_def)

lemma writes_put [writes_intro]: "writes (put bs) bs"
  by (simp add: writes_def put_def)

lemma writes_seq [writes_intro]:
  "writes a xs \<Longrightarrow> writes b ys \<Longrightarrow> writes (enc_seq a b) (xs @ ys)"
  by (simp add: writes_def enc_seq_def)

lemma writes_steps_Nil [writes_intro]: "writes (steps []) []"
  by (simp add: writes_def put_def)

lemma writes_steps_Cons [writes_intro]:
  "writes a xs \<Longrightarrow> writes (steps as) ys \<Longrightarrow> writes (steps (a # as)) (xs @ ys)"
  by (simp add: writes_seq)

lemma writes_for_each [writes_intro]:
  "(\<And>x. x \<in> set xs \<Longrightarrow> writes (f x) (g x)) \<Longrightarrow> writes (for_each xs f) (concat (map g xs))"
  unfolding for_each_def by (induction xs) (auto intro: writes_intro simp del: steps.simps)

lemma writes_if [writes_intro]:
  "(c \<Longrightarrow> writes a xs) \<Longrightarrow> (\<not> c \<Longrightarrow> writes b ys) \<Longrightarrow>
   writes (if c then a else b) (if c then xs else ys)"
  by simp

lemma writes_eqI: "writes a xs \<Longrightarrow> xs = ys \<Longrightarrow> writes a ys"
  by simp

lemma writes_unique: "writes a xs \<Longrightarrow> writes a ys \<Longrightarrow> xs = ys"
  by (auto simp: writes_def)

lemma writes_apply: "writes a bs \<Longrightarrow> a buf = (Ok (), buf @ bs)"
  by (simp add: writes_def)

text \<open>Encoders only ever append, also when they fail.\<close>

definition appends :: "'e encoder \<Rightarrow> bool" where
  "appends a \<longleftrightarrow> (\<forall>buf. \<exists>bs. snd (a buf) = buf @ bs)"

lemma appends_put [intro, simp]: "appends (put bs)"
  by (simp add: appends_def put_def)

lemma appends_fail [intro, simp]: "appends (enc_fail r)"
  by (simp add: appends_def enc_fail_def)

lemma appends_seq [intro!]:
  assumes "appends a" "appends b"
  shows "appends (enc_seq a b)"
  unfolding appends_def
proof
  fix buf
  obtain r buf' where a: "a buf = (r, buf')" by (cases "a buf")
  from assms(1) a obtain bs where "buf' = buf @ bs" by (metis appends_def snd_conv)
  moreover from assms(2) obtain cs where "snd (b buf') = buf' @ cs" by (auto simp: appends_def)
  ultimately show "\<exists>bs. snd (enc_seq a b buf) = buf @ bs"
    using a by (cases r) (auto simp: enc_seq_def)
qed

lemma appends_steps [intro!]: "(\<And>a. a \<in> set as \<Longrightarrow> appends a) \<Longrightarrow> appends (steps as)"
  by (induction as) auto

lemma appends_for_each [intro!]: "(\<And>x. x \<in> set xs \<Longrightarrow> appends (f x)) \<Longrightarrow> appends (for_each xs f)"
  unfolding for_each_def by (rule appends_steps) auto

lemma appends_enc_val [intro!]: "(\<And>x. m = Ok x \<Longrightarrow> appends (k x)) \<Longrightarrow> appends (enc_val m k)"
  by (cases m) (auto simp: enc_val_def)

lemma appends_with_len [intro!]: "(\<And>n. appends (f n)) \<Longrightarrow> appends (with_len f)"
  by (auto simp: appends_def with_len_def)

declare steps.simps [simp del]

section \<open>UTF-8\<close>

text \<open>The byte sequences \<^verbatim>\<open>core::str::from_utf8\<close> accepts.\<close>

definition utf8_cont :: "u8 \<Rightarrow> bool" where
  "utf8_cont b \<longleftrightarrow> 0x80 \<le> b \<and> b \<le> 0xBF"

fun valid_utf8 :: "bytes \<Rightarrow> bool" where
  "valid_utf8 [] = True"
| "valid_utf8 (a # bs) =
     (if a < 0x80 then valid_utf8 bs
      else if 0xC2 \<le> a \<and> a \<le> 0xDF then
        (case bs of b # cs \<Rightarrow> utf8_cont b \<and> valid_utf8 cs | _ \<Rightarrow> False)
      else if 0xE0 \<le> a \<and> a \<le> 0xEF then
        (case bs of b # c # cs \<Rightarrow>
           (if a = 0xE0 then 0xA0 else 0x80) \<le> b \<and> b \<le> (if a = 0xED then 0x9F else 0xBF) \<and>
           utf8_cont c \<and> valid_utf8 cs | _ \<Rightarrow> False)
      else if 0xF0 \<le> a \<and> a \<le> 0xF4 then
        (case bs of b # c # d # cs \<Rightarrow>
           (if a = 0xF0 then 0x90 else 0x80) \<le> b \<and> b \<le> (if a = 0xF4 then 0x8F else 0xBF) \<and>
           utf8_cont c \<and> utf8_cont d \<and> valid_utf8 cs | _ \<Rightarrow> False)
      else False)"

end
