(* ===== verification/Topic.thy ===== *)
theory Topic
  imports Prelude
begin

text \<open>
  Topic names and topic filters (\<^verbatim>\<open>src/topic.rs\<close>): the levels of a topic, parsing and printing,
  validity and the two instances of the \<^verbatim>\<open>matches!\<close> macro (a filter against a parsed topic and
  against the text of a topic).  A string is its list of UTF-8 bytes; the characters the code looks
  for are ASCII, so splitting at bytes and splitting at characters agree.

  The specification of matching is section 4.7 of the MQTT standard: \<open>filter_matches\<close> for the level by
  level rule and \<open>topic_matches\<close> for the exclusion of topics starting with \<open>$\<close> from filters that start
  with a wildcard.
\<close>

section \<open>Characters and strings\<close>

definition char_slash :: u8 where "char_slash = 0x2F"
definition char_plus :: u8 where "char_plus = 0x2B"
definition char_hash :: u8 where "char_hash = 0x23"
definition char_dollar :: u8 where "char_dollar = 0x24"

lemmas char_defs = char_slash_def char_plus_def char_hash_def char_dollar_def

text \<open>\<^verbatim>\<open>str::split\<close> at a character, and its inverse.\<close>

fun split_at :: "'a \<Rightarrow> 'a list \<Rightarrow> 'a list list" where
  "split_at d [] = [[]]"
| "split_at d (c # cs) =
    (if c = d then [] # split_at d cs
     else (c # hd (split_at d cs)) # tl (split_at d cs))"

fun join_with :: "'a \<Rightarrow> 'a list list \<Rightarrow> 'a list" where
  "join_with d [] = []"
| "join_with d [w] = w"
| "join_with d (w # ws) = w @ d # join_with d ws"

lemma split_at_not_Nil [simp]: "split_at d s \<noteq> []"
  by (cases s) auto

lemma join_with_Cons: "ws \<noteq> [] \<Longrightarrow> join_with d (w # ws) = w @ d # join_with d ws"
  by (cases ws) auto

lemma join_with_cons_hd: "ws \<noteq> [] \<Longrightarrow> join_with d ((c # hd ws) # tl ws) = c # join_with d ws"
  by (cases ws; cases "tl ws") auto

lemma join_split [simp]: "join_with d (split_at d s) = s"
  by (induction s) (auto simp: join_with_Cons join_with_cons_hd)

lemma split_at_no_sep: "d \<notin> set s \<Longrightarrow> split_at d s = [s]"
  by (induction s) auto

lemma split_at_append: "d \<notin> set w \<Longrightarrow> split_at d (w @ d # s) = w # split_at d s"
  by (induction w) auto

lemma split_join:
  "ws \<noteq> [] \<Longrightarrow> \<forall>w \<in> set ws. d \<notin> set w \<Longrightarrow> split_at d (join_with d ws) = ws"
proof (induction ws rule: list_nonempty_induct)
  case (single w)
  then show ?case by (simp add: split_at_no_sep)
next
  case (cons w ws)
  then show ?case by (simp add: join_with_Cons split_at_append)
qed

lemma split_at_no_slash: "w \<in> set (split_at d s) \<Longrightarrow> d \<notin> set w"
proof (induction s arbitrary: w)
  case (Cons c cs)
  have "hd (split_at d cs) \<in> set (split_at d cs)" by simp
  moreover have "set (tl (split_at d cs)) \<subseteq> set (split_at d cs)"
    by (cases "split_at d cs") auto
  ultimately show ?case using Cons by (auto split: if_splits)
qed simp

section \<open>Levels\<close>

datatype TopicError = InvalidTopic | InvalidLevel

datatype Level =
    Normal bytestring | Metadata bytestring | Blank | SingleWildcard | MultiWildcard

definition is_metadata :: "bytestring \<Rightarrow> bool" where
  "is_metadata s \<longleftrightarrow> s \<noteq> [] \<and> hd s = char_dollar"

definition has_wildcard :: "bytestring \<Rightarrow> bool" where
  "has_wildcard s \<longleftrightarrow> list_ex (\<lambda>c. c = char_plus \<or> c = char_hash) s"

definition Level_normal :: "bytestring \<Rightarrow> (TopicError, Level) outcome" where
  "Level_normal s =
    (if has_wildcard s then Panic else if is_metadata s then Panic else Ok (Normal s))"

definition Level_metadata :: "bytestring \<Rightarrow> (TopicError, Level) outcome" where
  "Level_metadata s =
    (if has_wildcard s then Panic else if \<not> is_metadata s then Panic else Ok (Metadata s))"

fun Level_value :: "Level \<Rightarrow> bytestring option" where
  "Level_value (Normal s) = Some s"
| "Level_value (Metadata s) = Some s"
| "Level_value _ = None"

fun Level_is_normal :: "Level \<Rightarrow> bool" where
  "Level_is_normal (Normal _) = True"
| "Level_is_normal _ = False"

fun Level_is_metadata :: "Level \<Rightarrow> bool" where
  "Level_is_metadata (Metadata _) = True"
| "Level_is_metadata _ = False"

fun Level_is_valid :: "Level \<Rightarrow> bool" where
  "Level_is_valid (Normal s) = (\<not> is_metadata s \<and> \<not> has_wildcard s)"
| "Level_is_valid (Metadata s) = (is_metadata s \<and> \<not> has_wildcard s)"
| "Level_is_valid _ = True"

definition Level_from_str :: "bytestring \<Rightarrow> (TopicError, Level) outcome" where
  "Level_from_str s =
    (if s = [char_plus] then Ok SingleWildcard
     else if s = [char_hash] then Ok MultiWildcard
     else if s = [] then Ok Blank
     else if has_wildcard s then Err InvalidLevel
     else if is_metadata s then Ok (Metadata s)
     else Ok (Normal s))"

text \<open>\<^verbatim>\<open>Display for Level\<close>: the text a level prints as.\<close>

fun Level_fmt :: "Level \<Rightarrow> bytestring" where
  "Level_fmt (Normal s) = s"
| "Level_fmt (Metadata s) = s"
| "Level_fmt Blank = []"
| "Level_fmt SingleWildcard = [char_plus]"
| "Level_fmt MultiWildcard = [char_hash]"

section \<open>Topics\<close>

type_synonym Topic = "Level list"

text \<open>\<^verbatim>\<open>Topic::is_valid\<close> looks for the position of an offending level, first by \<^verbatim>\<open>Level::is_valid\<close>,
  then by the place of the level in the topic.\<close>

definition level_misplaced :: "Topic \<Rightarrow> nat \<times> Level \<Rightarrow> bool" where
  "level_misplaced t = (\<lambda>(pos, level). case level of
      MultiWildcard \<Rightarrow> pos \<noteq> length t - 1
    | Metadata _ \<Rightarrow> pos \<noteq> 0
    | _ \<Rightarrow> False)"

definition Topic_is_valid :: "Topic \<Rightarrow> bool" where
  "Topic_is_valid t =
    (case List.find (\<lambda>l. \<not> Level_is_valid l) t of
       Some _ \<Rightarrow> False
     | None \<Rightarrow> List.find (level_misplaced t) (List.enumerate 0 t) = None)"

fun collect :: "('e, 'a) outcome list \<Rightarrow> ('e, 'a list) outcome" where
  "collect [] = Ok []"
| "collect (x # xs) = and_then x (\<lambda>v. and_then (collect xs) (\<lambda>vs. Ok (v # vs)))"

definition Topic_from_str :: "bytestring \<Rightarrow> (TopicError, Topic) outcome" where
  "Topic_from_str s =
    and_then (collect (map Level_from_str (split_at char_slash s)))
      (\<lambda>topic. if Topic_is_valid topic then Ok topic else Err InvalidTopic)"

text \<open>The printing loop writes a slash before every level but the first.\<close>

fun Topic_fmt_loop :: "bool \<Rightarrow> Topic \<Rightarrow> bytestring \<Rightarrow> bytestring" where
  "Topic_fmt_loop first [] out = out"
| "Topic_fmt_loop first (l # ls) out =
    Topic_fmt_loop False ls ((if first then out else out @ [char_slash]) @ Level_fmt l)"

definition Topic_fmt :: "Topic \<Rightarrow> bytestring" where
  "Topic_fmt t = Topic_fmt_loop True t []"

subsection \<open>Writing through \<^verbatim>\<open>io::Write\<close>\<close>

text \<open>\<^verbatim>\<open>write_level\<close> and \<^verbatim>\<open>write_topic\<close> for any writer: \<open>w\<close> is the writer's \<^verbatim>\<open>write\<close>, which returns the
  number of bytes it took (or an error) and changes the writer.\<close>

type_synonym ('e, 'w) writer = "bytes \<Rightarrow> 'w \<Rightarrow> ('e, nat) outcome \<times> 'w"

fun write_level :: "('e, 'w) writer \<Rightarrow> Level \<Rightarrow> 'w \<Rightarrow> ('e, nat) outcome \<times> 'w" where
  "write_level w (Normal s) st = w s st"
| "write_level w (Metadata s) st = w s st"
| "write_level w Blank st = (Ok 0, st)"
| "write_level w SingleWildcard st = w [char_plus] st"
| "write_level w MultiWildcard st = w [char_hash] st"

fun write_topic_loop ::
  "('e, 'w) writer \<Rightarrow> bool \<Rightarrow> Topic \<Rightarrow> nat \<Rightarrow> 'w \<Rightarrow> ('e, nat) outcome \<times> 'w" where
  "write_topic_loop w first [] n st = (Ok n, st)"
| "write_topic_loop w first (l # ls) n st =
    (case (if first then (Ok 0, st) else w [char_slash] st) of
       (Ok k, st') \<Rightarrow>
         (case write_level w l st' of
            (Ok j, st'') \<Rightarrow> write_topic_loop w False ls (n + k + j) st''
          | (e, st'') \<Rightarrow> (e, st''))
     | (e, st') \<Rightarrow> (e, st'))"

definition write_topic :: "('e, 'w) writer \<Rightarrow> Topic \<Rightarrow> 'w \<Rightarrow> ('e, nat) outcome \<times> 'w" where
  "write_topic w t st = write_topic_loop w True t 0 st"

text \<open>The writer \<^verbatim>\<open>Vec<u8>\<close> takes everything.\<close>

definition vec_write :: "('e, bytes) writer" where
  "vec_write bs st = (Ok (length bs), st @ bs)"

section \<open>Matching\<close>

fun Level_match_level :: "Level \<Rightarrow> Level \<Rightarrow> bool" where
  "Level_match_level self (Normal lhs) = (case self of Normal rhs \<Rightarrow> lhs = rhs | _ \<Rightarrow> False)"
| "Level_match_level self (Metadata lhs) = (case self of Metadata rhs \<Rightarrow> lhs = rhs | _ \<Rightarrow> False)"
| "Level_match_level self Blank = True"
| "Level_match_level self SingleWildcard = (\<not> Level_is_metadata self)"
| "Level_match_level self MultiWildcard = (\<not> Level_is_metadata self)"

fun str_match_level :: "bytestring \<Rightarrow> Level \<Rightarrow> bool" where
  "str_match_level self (Normal lhs) = (\<not> is_metadata self \<and> lhs = self)"
| "str_match_level self (Metadata lhs) = (is_metadata self \<and> lhs = self)"
| "str_match_level self Blank = (self = [])"
| "str_match_level self SingleWildcard = (\<not> is_metadata self)"
| "str_match_level self MultiWildcard = (\<not> is_metadata self)"

text \<open>The \<^verbatim>\<open>matches!\<close> macro: the iterator \<open>lhs\<close> over the filter is the list of the levels still to
  come; \<open>matches_end\<close> is the code after the loop, which \<^verbatim>\<open>break\<close> reaches too.\<close>

fun matches_end :: "Topic \<Rightarrow> bool" where
  "matches_end (MultiWildcard # _) = True"
| "matches_end (_ # _) = False"
| "matches_end [] = True"

fun matches_loop :: "('r \<Rightarrow> Level \<Rightarrow> bool) \<Rightarrow> Topic \<Rightarrow> 'r list \<Rightarrow> bool" where
  "matches_loop m lhs [] = matches_end lhs"
| "matches_loop m lhs (r # rs) =
    (case lhs of
       SingleWildcard # ls \<Rightarrow>
         if \<not> m r SingleWildcard then matches_end ls else matches_loop m ls rs
     | MultiWildcard # ls \<Rightarrow> m r MultiWildcard
     | level # ls \<Rightarrow> if m r level then matches_loop m ls rs else False
     | [] \<Rightarrow> False)"

definition Topic_matches :: "Topic \<Rightarrow> Topic \<Rightarrow> bool" where
  "Topic_matches self topic = matches_loop Level_match_level self topic"

definition Topic_matches_str :: "Topic \<Rightarrow> bytestring \<Rightarrow> bool" where
  "Topic_matches_str self topic = matches_loop str_match_level self (split_at char_slash topic)"

section \<open>The specification of matching\<close>

fun level_matches :: "Level \<Rightarrow> bytestring \<Rightarrow> bool" where
  "level_matches (Normal s) t = (t = s)"
| "level_matches (Metadata s) t = (t = s)"
| "level_matches Blank t = (t = [])"
| "level_matches SingleWildcard t = True"
| "level_matches MultiWildcard t = True"

fun filter_matches :: "Topic \<Rightarrow> bytestring list \<Rightarrow> bool" where
  "filter_matches (MultiWildcard # _) ts = True"
| "filter_matches (l # ls) (t # ts) = (level_matches l t \<and> filter_matches ls ts)"
| "filter_matches (l # ls) [] = False"
| "filter_matches [] ts = (ts = [])"

definition topic_matches :: "Topic \<Rightarrow> bytestring list \<Rightarrow> bool" where
  "topic_matches f ts \<longleftrightarrow>
    filter_matches f ts \<and>
    (case (f, ts) of
       (SingleWildcard # _, t # _) \<Rightarrow> \<not> is_metadata t
     | (MultiWildcard # _, t # _) \<Rightarrow> \<not> is_metadata t
     | _ \<Rightarrow> True)"
section \<open>Validity, parsing and printing\<close>

lemma find_None_iff_all: "List.find P xs = None \<longleftrightarrow> (\<forall>x \<in> set xs. \<not> P x)"
  by (auto simp: find_None_iff)

lemma Topic_is_valid_iff:
  "Topic_is_valid t \<longleftrightarrow>
    (\<forall>l \<in> set t. Level_is_valid l) \<and>
    (\<forall>i < length t. t ! i = MultiWildcard \<longrightarrow> i = length t - 1) \<and>
    (\<forall>i < length t. Level_is_metadata (t ! i) \<longrightarrow> i = 0)"
proof -
  have "List.find (level_misplaced t) (List.enumerate 0 t) = None \<longleftrightarrow>
      (\<forall>i < length t. \<not> level_misplaced t (i, t ! i))"
    by (auto simp: find_None_iff_all in_set_enumerate_eq Ball_def)
  moreover have "level_misplaced t (i, l) \<longleftrightarrow>
      (l = MultiWildcard \<and> i \<noteq> length t - 1) \<or> (Level_is_metadata l \<and> i \<noteq> 0)" for i l
    by (cases l) (auto simp: level_misplaced_def)
  ultimately show ?thesis
    by (auto simp: Topic_is_valid_def find_None_iff_all find_Some_iff split: option.split)
qed

lemma collect_map_Ok:
  "collect (map f xs) = Ok ys \<longleftrightarrow> list_all2 (\<lambda>x y. f x = Ok y) xs ys"
  by (induction xs arbitrary: ys) (auto simp: list_all2_Cons1)

lemma Level_fmt_from_str: "Level_from_str s = Ok l \<Longrightarrow> Level_fmt l = s \<and> Level_is_valid l"
  by (auto simp: Level_from_str_def split: if_splits)

text \<open>The levels that parsing can produce: valid ones whose name is not empty and has no slash.\<close>

fun level_wf :: "Level \<Rightarrow> bool" where
  "level_wf (Normal s) = (s \<noteq> [] \<and> char_slash \<notin> set s \<and> Level_is_valid (Normal s))"
| "level_wf (Metadata s) = (s \<noteq> [] \<and> char_slash \<notin> set s \<and> Level_is_valid (Metadata s))"
| "level_wf _ = True"

lemma level_wf_valid: "level_wf l \<Longrightarrow> Level_is_valid l"
  by (cases l) auto

lemma has_wildcard_single [simp]: "has_wildcard [char_plus]" "has_wildcard [char_hash]"
  by (auto simp: has_wildcard_def)

lemma Level_from_str_fmt: "level_wf l \<Longrightarrow> Level_from_str (Level_fmt l) = Ok l"
  by (cases l) (auto simp: Level_from_str_def has_wildcard_def char_defs)

lemma slash_notin_fmt: "level_wf l \<Longrightarrow> char_slash \<notin> set (Level_fmt l)"
  by (cases l) (auto simp: char_defs)

lemma level_wf_from_str:
  "Level_from_str s = Ok l \<Longrightarrow> char_slash \<notin> set s \<Longrightarrow> level_wf l"
  by (auto simp: Level_from_str_def split: if_splits)

lemma Topic_fmt_loop_False:
  "Topic_fmt_loop False ls out =
    out @ (if ls = [] then [] else char_slash # join_with char_slash (map Level_fmt ls))"
  by (induction ls arbitrary: out) (auto simp: join_with_Cons)

lemma Topic_fmt_eq: "Topic_fmt t = join_with char_slash (map Level_fmt t)"
  by (cases t) (auto simp: Topic_fmt_def Topic_fmt_loop_False join_with_Cons)

lemma list_all2_fmt:
  "list_all2 (\<lambda>x y. Level_from_str x = Ok y) ss ls \<Longrightarrow> map Level_fmt ls = ss"
  by (induction rule: list_all2_induct) (auto dest: Level_fmt_from_str)

lemma Topic_from_str_levels:
  assumes "Topic_from_str s = Ok t"
  shows "map Level_fmt t = split_at char_slash s" "\<forall>l \<in> set t. level_wf l" "t \<noteq> []"
    "Topic_is_valid t"
proof -
  from assms have 1: "list_all2 (\<lambda>x y. Level_from_str x = Ok y) (split_at char_slash s) t"
    and 2: "Topic_is_valid t"
    by (auto simp: Topic_from_str_def collect_map_Ok split: if_splits)
  show m: "map Level_fmt t = split_at char_slash s" by (rule list_all2_fmt [OF 1])
  then show "t \<noteq> []" by (metis list.map_disc_iff split_at_not_Nil)
  have "level_wf (t ! i)" if "i < length t" for i
  proof (rule level_wf_from_str)
    show "Level_from_str (split_at char_slash s ! i) = Ok (t ! i)"
      using 1 that by (simp add: list_all2_conv_all_nth)
    show "char_slash \<notin> set (split_at char_slash s ! i)"
      using 1 that split_at_no_slash [of "split_at char_slash s ! i" char_slash s]
      by (simp add: list_all2_conv_all_nth)
  qed
  then show "\<forall>l \<in> set t. level_wf l" by (auto simp: in_set_conv_nth)
  show "Topic_is_valid t" by (rule 2)
qed

lemma Topic_from_str_fmt:
  assumes "t \<noteq> []" "\<forall>l \<in> set t. level_wf l" "Topic_is_valid t"
  shows "Topic_from_str (Topic_fmt t) = Ok t"
proof -
  have "split_at char_slash (Topic_fmt t) = map Level_fmt t"
    using assms by (auto simp: Topic_fmt_eq slash_notin_fmt intro!: split_join)
  moreover have "collect (map Level_from_str (map Level_fmt t)) = Ok t"
    using assms(2)
    by (auto simp: collect_map_Ok list_all2_conv_all_nth Level_from_str_fmt simp del: map_map)
  ultimately show ?thesis using assms(3) by (simp add: Topic_from_str_def)
qed

lemma write_level_vec: "write_level vec_write l out = (Ok (length (Level_fmt l)), out @ Level_fmt l)"
  by (cases l) (auto simp: vec_write_def)

lemma vec_write_slash: "vec_write [char_slash] out = (Ok 1, out @ [char_slash])"
  by (simp add: vec_write_def)

lemma write_topic_loop_vec:
  "write_topic_loop vec_write first t n out =
    (Ok (n + length (Topic_fmt_loop first t out) - length out), Topic_fmt_loop first t out)"
proof (induction t arbitrary: first n out)
  case (Cons l ls)
  have mono: "length out \<le> length (Topic_fmt_loop b ls' out)" for b ls' out
    by (induction b ls' out rule: Topic_fmt_loop.induct) (auto split: if_splits)
  show ?case
    using mono [of "out @ Level_fmt l" False ls]
      mono [of "out @ char_slash # Level_fmt l" False ls]
    by (auto simp: Cons.IH write_level_vec vec_write_slash)
qed simp

section \<open>Matching against the specification\<close>

text \<open>What the loop needs of \<^verbatim>\<open>match_level\<close>: on parsed filter levels it compares the text of the topic
  level, and a wildcard takes every level that does not start with a dollar sign.  The law for blank
  filter levels is apart, because the instance for parsed levels does not keep it.\<close>

locale level_matcher =
  fixes match_level :: "'r \<Rightarrow> Level \<Rightarrow> bool"
    and level_text :: "'r \<Rightarrow> bytestring"
    and level_ok :: "'r \<Rightarrow> bool"
  assumes match_Normal:
      "\<lbrakk>level_ok r; level_wf (Normal s)\<rbrakk> \<Longrightarrow>
        match_level r (Normal s) \<longleftrightarrow> s = level_text r"
    and match_Metadata:
      "\<lbrakk>level_ok r; level_wf (Metadata s)\<rbrakk> \<Longrightarrow>
        match_level r (Metadata s) \<longleftrightarrow> s = level_text r"
    and match_wildcard:
      "level_ok r \<Longrightarrow> match_level r SingleWildcard \<longleftrightarrow> \<not> is_metadata (level_text r)"
      "level_ok r \<Longrightarrow> match_level r MultiWildcard \<longleftrightarrow> \<not> is_metadata (level_text r)"
begin

definition blank_ok :: "Topic \<Rightarrow> 'r list \<Rightarrow> bool" where
  "blank_ok ls rs \<longleftrightarrow>
    Blank \<in> set ls \<longrightarrow> (\<forall>r \<in> set rs. match_level r Blank \<longleftrightarrow> level_text r = [])"

lemma match_level_matches:
  "\<lbrakk>level_ok r; level_wf l; l \<noteq> SingleWildcard; l \<noteq> MultiWildcard;
    l = Blank \<Longrightarrow> match_level r Blank \<longleftrightarrow> level_text r = []\<rbrakk> \<Longrightarrow>
    match_level r l \<longleftrightarrow> level_matches l (level_text r)"
  by (cases l) (auto simp: match_Normal match_Metadata)

lemma loop_correct:
  "\<lbrakk>\<forall>r \<in> set rs. level_ok r \<and> \<not> is_metadata (level_text r);
    \<forall>l \<in> set ls. level_wf l; blank_ok ls rs\<rbrakk> \<Longrightarrow>
    matches_loop match_level ls rs \<longleftrightarrow> filter_matches ls (map level_text rs)"
proof (induction rs arbitrary: ls)
  case Nil
  then show ?case by (cases ls rule: matches_end.cases) auto
next
  case (Cons r rs)
  show ?case
  proof (cases ls)
    case ls: (Cons l ls')
    have "blank_ok ls' rs" using Cons.prems ls by (auto simp: blank_ok_def)
    then have IH: "matches_loop match_level ls' rs \<longleftrightarrow> filter_matches ls' (map level_text rs)"
      using Cons ls by simp
    have "l = Blank \<Longrightarrow> match_level r Blank \<longleftrightarrow> level_text r = []"
      using Cons.prems ls by (auto simp: blank_ok_def)
    then show ?thesis
      using IH Cons.prems ls match_level_matches [of r l]
      by (cases l) (auto simp: match_wildcard)
  qed simp
qed

text \<open>The loop meets the specification when only the first topic level may start with a dollar sign
  and, if it does, the filter does not start with the single level wildcard.\<close>

lemma matches_correct:
  assumes ok: "\<forall>r \<in> set (r0 # rs). level_ok r"
    and names: "\<forall>r \<in> set rs. \<not> is_metadata (level_text r)"
    and valid: "\<forall>l \<in> set f. level_wf l"
    and blank: "blank_ok f (r0 # rs)"
    and first: "is_metadata (level_text r0) \<Longrightarrow> f \<noteq> [] \<Longrightarrow> hd f \<noteq> SingleWildcard"
  shows "matches_loop match_level f (r0 # rs) \<longleftrightarrow> topic_matches f (map level_text (r0 # rs))"
proof (cases "is_metadata (level_text r0)")
  case False
  then have "matches_loop match_level f (r0 # rs) \<longleftrightarrow> filter_matches f (map level_text (r0 # rs))"
    using assms by (intro loop_correct) auto
  then show ?thesis using False by (auto simp: topic_matches_def split: list.split Level.split)
next
  case True
  show ?thesis
  proof (cases f)
    case (Cons l ls)
    have "matches_loop match_level ls rs \<longleftrightarrow> filter_matches ls (map level_text rs)"
      using assms Cons by (intro loop_correct) (auto simp: blank_ok_def)
    moreover have "l = Blank \<Longrightarrow> match_level r0 Blank \<longleftrightarrow> level_text r0 = []"
      using blank Cons by (auto simp: blank_ok_def)
    ultimately show ?thesis
      using assms Cons True match_level_matches [of r0 l]
      by (cases l) (auto simp: match_wildcard topic_matches_def)
  qed (simp add: topic_matches_def)
qed

end

text \<open>Text matching keeps the law for blank levels, too.\<close>

interpretation str_levels: level_matcher str_match_level "\<lambda>s. s" "\<lambda>_. True"
  by unfold_locales auto

interpretation parsed_levels: level_matcher Level_match_level Level_fmt level_wf
proof
  fix r s
  assume "level_wf r" "level_wf (Normal s)"
  then show "Level_match_level r (Normal s) \<longleftrightarrow> s = Level_fmt r"
    by (cases r) (auto simp: is_metadata_def has_wildcard_def)
next
  fix r s
  assume "level_wf r" "level_wf (Metadata s)"
  then show "Level_match_level r (Metadata s) \<longleftrightarrow> s = Level_fmt r"
    by (cases r) (auto simp: is_metadata_def has_wildcard_def)
next
  fix r
  assume "level_wf r"
  then show "Level_match_level r SingleWildcard \<longleftrightarrow> \<not> is_metadata (Level_fmt r)"
    and "Level_match_level r MultiWildcard \<longleftrightarrow> \<not> is_metadata (Level_fmt r)"
    by (cases r; simp add: is_metadata_def char_defs)+
qed

lemma str_blank_ok [simp]: "str_levels.blank_ok ls rs"
  by (simp add: str_levels.blank_ok_def)

section \<open>Properties\<close>

text \<open>Parsing and printing are inverse.  A text that parses is what the topic prints as, and the
  topic is valid; a valid topic whose level names are not empty and have no slash parses back from
  its text to itself.\<close>

theorem topic_roundtrip:
  "(Topic_from_str s = Ok t \<longrightarrow> Topic_fmt t = s \<and> Topic_is_valid t) \<and>
   (t \<noteq> [] \<and> list_all level_wf t \<and> Topic_is_valid t \<longrightarrow> Topic_from_str (Topic_fmt t) = Ok t)"
  using Topic_from_str_levels [of s t] Topic_from_str_fmt [of t]
  by (auto simp: Topic_fmt_eq list_all_iff)

theorem topic_roundtrip_witness:
  "Topic_fmt [Metadata [36, 83], SingleWildcard, MultiWildcard] = [36, 83, 47, 43, 47, 35] \<and>
   Topic_from_str (Topic_fmt [Metadata [36, 83], SingleWildcard, MultiWildcard]) =
     Ok [Metadata [36, 83], SingleWildcard, MultiWildcard]"
proof -
  let ?t = "[Metadata [36, 83], SingleWildcard, MultiWildcard]"
  have "?t \<noteq> [] \<and> list_all level_wf ?t \<and> Topic_is_valid ?t" by code_simp
  with topic_roundtrip [of "[]" ?t] show ?thesis by (simp add: Topic_fmt_eq char_defs)
qed

text \<open>\<^verbatim>\<open>Topic::is_valid\<close>, written as a search for the position of an offending level, holds exactly
  when every level is valid by itself, the multi-level wildcard is the last level and a metadata
  level is the first.\<close>

theorem topic_is_valid_correct:
  "Topic_is_valid t =
    (list_all Level_is_valid t \<and>
     (\<forall>i < length t. t ! i = MultiWildcard \<longrightarrow> i = length t - 1) \<and>
     (\<forall>i < length t. Level_is_metadata (t ! i) \<longrightarrow> i = 0))"
  by (simp only: Topic_is_valid_iff list_all_iff)

theorem topic_is_valid_correct_witness:
  "\<not> Topic_is_valid [MultiWildcard, Blank] \<and>
   \<not> (\<forall>i < length [MultiWildcard, Blank].
        [MultiWildcard, Blank] ! i = MultiWildcard \<longrightarrow> i = length [MultiWildcard, Blank] - 1)"
proof -
  have "\<not> (\<forall>i < length [MultiWildcard, Blank].
      [MultiWildcard, Blank] ! i = MultiWildcard \<longrightarrow> i = length [MultiWildcard, Blank] - 1)"
    by (auto intro!: exI [of _ 0])
  with topic_is_valid_correct [of "[MultiWildcard, Blank]"] show ?thesis by blast
qed

text \<open>C39: \<^verbatim>\<open>matches_str\<close> decides the matching relation of the MQTT standard, for every filter that came
  out of the parser and every topic name in which at most the first level starts with a dollar sign,
  unless that is the case and the filter starts with the single level wildcard.\<close>

theorem topic_matches_str_correct:
  assumes "Topic_from_str filter_text = Ok f"
    and "list_all (\<lambda>s. \<not> is_metadata s) (tl (split_at char_slash s))"
    and "is_metadata s \<longrightarrow> hd f \<noteq> SingleWildcard"
  shows "Topic_matches_str f s = topic_matches f (split_at char_slash s)"
proof -
  obtain r rs where split: "split_at char_slash s = r # rs" by (cases "split_at char_slash s") auto
  have "is_metadata r \<Longrightarrow> is_metadata s"
    using split by (cases s) (auto simp: is_metadata_def split: if_splits)
  then show ?thesis
    using assms split Topic_from_str_levels [OF assms(1)]
      str_levels.matches_correct [of r rs f]
    by (auto simp: Topic_matches_str_def list_all_iff)
qed

theorem topic_matches_str_correct_witness:
  "Topic_matches_str [Normal [97], SingleWildcard, MultiWildcard] [97, 47, 98] =
   topic_matches [Normal [97], SingleWildcard, MultiWildcard] (split_at char_slash [97, 47, 98])"
proof (rule topic_matches_str_correct)
  show "Topic_from_str [97, 47, 43, 47, 35] = Ok [Normal [97], SingleWildcard, MultiWildcard]"
    by code_simp
qed code_simp+

text \<open>C40: Matching a parsed topic (\<^verbatim>\<open>matches\<close>) and matching its text (\<^verbatim>\<open>matches_str\<close>) agree, for every
  filter without blank levels.\<close>

theorem topic_matches_agree:
  assumes "Topic_from_str filter_text = Ok f" "Blank \<notin> set f" "Topic_from_str s = Ok t"
  shows "Topic_matches f t = Topic_matches_str f s"
proof -
  have wf: "\<forall>l \<in> set f. level_wf l" using assms(1) by (rule Topic_from_str_levels)
  have "matches_loop Level_match_level g rs = matches_loop str_match_level g (map Level_fmt rs)"
    if "\<forall>r \<in> set rs. level_wf r" "\<forall>l \<in> set g. level_wf l" "Blank \<notin> set g" for g rs
    using that
  proof (induction rs arbitrary: g)
    case (Cons r rs)
    show ?case
    proof (cases g)
      case g: (Cons l ls)
      have "Level_match_level r l = str_match_level (Level_fmt r) l"
        using Cons.prems g parsed_levels.match_Normal parsed_levels.match_Metadata
          str_levels.match_Normal str_levels.match_Metadata
          parsed_levels.match_wildcard str_levels.match_wildcard
        by (cases l) auto
      then show ?thesis using Cons g by (cases l) auto
    qed simp
  qed simp
  then show ?thesis
    using assms wf Topic_from_str_levels [OF assms(3)]
    by (simp add: Topic_matches_def Topic_matches_str_def)
qed

theorem topic_matches_agree_witness:
  "Topic_matches [Normal [97], SingleWildcard] [Normal [97], Blank] =
   Topic_matches_str [Normal [97], SingleWildcard] [97, 47]"
proof (rule topic_matches_agree)
  show "Topic_from_str [97, 47, 43] = Ok [Normal [97], SingleWildcard]" by code_simp
  show "Topic_from_str [97, 47] = Ok [Normal [97], Blank]" by code_simp
qed simp

text \<open>The filter \<^verbatim>\<open>+\<close> matches every topic whose first level starts with a dollar sign, whatever
  number of levels the topic has: on a wildcard that does not match, the loop is left by \<^verbatim>\<open>break\<close> and
  the code after it only looks at the rest of the filter.  The standard excludes these topics.\<close>

theorem topic_plus_matches_metadata:
  assumes "is_metadata s"
  shows "Topic_matches_str [SingleWildcard] s \<and>
    \<not> topic_matches [SingleWildcard] (split_at char_slash s)"
proof -
  obtain r rs where split: "split_at char_slash s = r # rs" by (cases "split_at char_slash s") auto
  have "is_metadata r"
    using assms split by (cases s) (auto simp: is_metadata_def char_defs split: if_splits)
  then show ?thesis
    using split by (simp add: Topic_matches_str_def topic_matches_def)
qed

theorem topic_plus_matches_metadata_witness:
  "Topic_matches_str [SingleWildcard] [36, 83, 89, 83, 47, 97, 47, 98] \<and>
   \<not> topic_matches [SingleWildcard] (split_at char_slash [36, 83, 89, 83, 47, 97, 47, 98])"
  by (rule topic_plus_matches_metadata) (simp add: is_metadata_def char_defs)

text \<open>Against a parsed topic a blank filter level matches every level, while against the text it
  only matches the empty one: \<^verbatim>\<open>a//b\<close> matches the topic \<^verbatim>\<open>a/x/b\<close> when it was parsed.\<close>

theorem topic_blank_matches_any:
  assumes "level_wf l" "Level_fmt l \<noteq> []"
  shows "Topic_matches [Normal a, Blank, Normal b] [Normal a, l, Normal b] \<and>
    \<not> filter_matches [Normal a, Blank, Normal b] (map Level_fmt [Normal a, l, Normal b])"
  using assms by (simp add: Topic_matches_def)

theorem topic_blank_matches_any_witness:
  "Topic_matches [Normal [97], Blank, Normal [98]] [Normal [97], Normal [120], Normal [98]] \<and>
   \<not> filter_matches [Normal [97], Blank, Normal [98]]
       (map Level_fmt [Normal [97], Normal [120], Normal [98]])"
  by (rule topic_blank_matches_any) code_simp+

text \<open>\<^verbatim>\<open>write_topic\<close> to a byte vector appends the text that \<^verbatim>\<open>Display\<close> prints, and returns its
  length.\<close>

theorem write_topic_display:
  "write_topic vec_write t out =
    ((Ok (length (Topic_fmt t)) :: ('e, nat) outcome), out @ Topic_fmt t)"
proof -
  have "Topic_fmt_loop True t out = out @ Topic_fmt t"
    by (cases t) (auto simp: Topic_fmt_def Topic_fmt_loop_False)
  then show ?thesis by (simp add: write_topic_def write_topic_loop_vec)
qed

end
