(* ===== verification/Types.thy ===== *)
theory Types
  imports Prelude
begin

text \<open>
  The error enums of \<^verbatim>\<open>src/error.rs\<close>, the macro \<^verbatim>\<open>prim_enum!\<close> of \<^verbatim>\<open>src/utils.rs\<close> and the
  constants, flags and the \<^verbatim>\<open>QoS\<close> enum of \<^verbatim>\<open>src/types.rs\<close>. The interface that every
  \<^verbatim>\<open>prim_enum!\<close> type offers is the locale \<open>prim_enum\<close>; each enum interprets it.
\<close>

section \<open>Errors\<close>

text \<open>The payload of \<^verbatim>\<open>Utf8Error\<close> (the position of the bad byte) is not inspected by the crate and is
  left out.\<close>

datatype DecodeError =
    InvalidProtocol | InvalidLength | MalformedPacket | UnsupportedProtocolLevel
  | ConnectReservedFlagSet | ConnAckReservedFlagSet | InvalidClientId | UnsupportedPacketType
  | PacketIdRequired | MaxSizeExceeded | Utf8Error

datatype EncodeError = InvalidLength | MalformedPacket | PacketIdRequired | UnsupportedVersion

text \<open>The hand-written \<^verbatim>\<open>PartialEq\<close>: equal constructors, but \<^verbatim>\<open>Utf8Error\<close> equals nothing.\<close>

definition DecodeError_eq :: "DecodeError \<Rightarrow> DecodeError \<Rightarrow> bool" where
  "DecodeError_eq self other =
     (case self of
        InvalidProtocol \<Rightarrow> other = InvalidProtocol
      | DecodeError.InvalidLength \<Rightarrow> other = DecodeError.InvalidLength
      | UnsupportedProtocolLevel \<Rightarrow> other = UnsupportedProtocolLevel
      | ConnectReservedFlagSet \<Rightarrow> other = ConnectReservedFlagSet
      | ConnAckReservedFlagSet \<Rightarrow> other = ConnAckReservedFlagSet
      | InvalidClientId \<Rightarrow> other = InvalidClientId
      | UnsupportedPacketType \<Rightarrow> other = UnsupportedPacketType
      | DecodeError.PacketIdRequired \<Rightarrow> other = DecodeError.PacketIdRequired
      | MaxSizeExceeded \<Rightarrow> other = MaxSizeExceeded
      | DecodeError.MalformedPacket \<Rightarrow> other = DecodeError.MalformedPacket
      | Utf8Error \<Rightarrow> False)"

lemma DecodeError_eq_iff: "DecodeError_eq a b \<longleftrightarrow> a = b \<and> a \<noteq> Utf8Error"
  by (cases a) (auto simp: DecodeError_eq_def)

section \<open>Enums with a byte representation\<close>

text \<open>
  \<^verbatim>\<open>prim_enum!\<close> declares the variants with their values and generates \<^verbatim>\<open>From<$name> for u8\<close> and
  \<^verbatim>\<open>TryFrom<u8>\<close>, whose match has one arm per variant, in order, and otherwise fails.
\<close>

definition try_from_u8 :: "('a \<Rightarrow> u8) \<Rightarrow> 'a list \<Rightarrow> u8 \<Rightarrow> (DecodeError, 'a) outcome" where
  "try_from_u8 to_u8 variants v =
     (case List.find (\<lambda>x. to_u8 x = v) variants of
        Some x \<Rightarrow> Ok x | None \<Rightarrow> Err DecodeError.MalformedPacket)"

lemma returns_try_from_u8 [returns_intro]: "returns (try_from_u8 f xs v)"
  by (simp add: try_from_u8_def split: option.split)

locale prim_enum =
  fixes to_u8 :: "'a \<Rightarrow> u8" and variants :: "'a list"
  assumes complete: "x \<in> set variants"
    and distinct_values: "distinct (map to_u8 variants)"
begin

lemma to_u8_inject: "to_u8 x = to_u8 y \<longleftrightarrow> x = y"
  using distinct_values complete by (auto simp: distinct_map inj_on_def)

lemma try_from_to: "try_from_u8 to_u8 variants (to_u8 x) = Ok x"
  using find_eq [OF complete [of x]] by (simp add: try_from_u8_def to_u8_inject)

lemma try_from_Ok_iff: "try_from_u8 to_u8 variants v = Ok x \<longleftrightarrow> v = to_u8 x"
proof
  assume "try_from_u8 to_u8 variants v = Ok x"
  then show "v = to_u8 x"
    by (auto simp: try_from_u8_def find_Some_iff split: option.splits)
qed (simp add: try_from_to)

lemma try_from_returns: "returns (try_from_u8 to_u8 variants v)"
  by (rule returns_try_from_u8)

lemma try_from_unknown:
  "v \<notin> range to_u8 \<Longrightarrow> try_from_u8 to_u8 variants v = Err DecodeError.MalformedPacket"
  by (auto simp: try_from_u8_def find_Some_iff split: option.split)

end

section \<open>Protocol constants\<close>

definition MQTT :: bytes where "MQTT = [0x4D, 0x51, 0x54, 0x54]"
definition MQTT_LEVEL_3 :: u8 where "MQTT_LEVEL_3 = 4"
definition MQTT_LEVEL_5 :: u8 where "MQTT_LEVEL_5 = 5"
definition WILL_QOS_SHIFT :: nat where "WILL_QOS_SHIFT = 3"
definition MAX_PACKET_SIZE :: u32 where "MAX_PACKET_SIZE = 0xFFFFFFF"

datatype QoS = AtMostOnce | AtLeastOnce | ExactlyOnce

fun QoS_to_u8 :: "QoS \<Rightarrow> u8" where
  "QoS_to_u8 AtMostOnce = 0"
| "QoS_to_u8 AtLeastOnce = 1"
| "QoS_to_u8 ExactlyOnce = 2"

definition QoS_variants :: "QoS list" where
  "QoS_variants = [AtMostOnce, AtLeastOnce, ExactlyOnce]"

definition QoS_try_from :: "u8 \<Rightarrow> (DecodeError, QoS) outcome" where
  "QoS_try_from = try_from_u8 QoS_to_u8 QoS_variants"

interpretation QoS: prim_enum QoS_to_u8 QoS_variants
  rewrites "try_from_u8 QoS_to_u8 QoS_variants = QoS_try_from"
proof -
  show "prim_enum QoS_to_u8 QoS_variants"
  proof
    show "x \<in> set QoS_variants" for x by (cases x) (simp_all add: QoS_variants_def)
  qed (simp add: QoS_variants_def)
qed (simp add: QoS_try_from_def)

text \<open>Flag bytes as \<^verbatim>\<open>bitflags!\<close> types keep them: the byte itself, with the union of the declared
  constants as the set of known bits.\<close>

definition flags_from_bits :: "u8 \<Rightarrow> u8 \<Rightarrow> u8 option" where
  "flags_from_bits all b = (if b AND NOT all = 0 then Some b else None)"

definition flags_contains :: "u8 \<Rightarrow> u8 \<Rightarrow> bool" where
  "flags_contains fl f \<longleftrightarrow> fl AND f = f"

definition CF_USERNAME :: u8 where "CF_USERNAME = 0x80"
definition CF_PASSWORD :: u8 where "CF_PASSWORD = 0x40"
definition CF_WILL_RETAIN :: u8 where "CF_WILL_RETAIN = 0x20"
definition CF_WILL_QOS :: u8 where "CF_WILL_QOS = 0x18"
definition CF_WILL :: u8 where "CF_WILL = 0x04"
definition CF_CLEAN_START :: u8 where "CF_CLEAN_START = 0x02"

definition ConnectFlags_all :: u8 where
  "ConnectFlags_all = CF_USERNAME OR CF_PASSWORD OR CF_WILL_RETAIN OR CF_WILL_QOS OR CF_WILL
     OR CF_CLEAN_START"

definition CAF_SESSION_PRESENT :: u8 where "CAF_SESSION_PRESENT = 0x01"

definition ConnectAckFlags_all :: u8 where
  "ConnectAckFlags_all = CAF_SESSION_PRESENT"

lemmas connect_flag_defs =
  CF_USERNAME_def CF_PASSWORD_def CF_WILL_RETAIN_def CF_WILL_QOS_def CF_WILL_def CF_CLEAN_START_def
  ConnectFlags_all_def CAF_SESSION_PRESENT_def ConnectAckFlags_all_def

subsection \<open>Packet types\<close>

definition CONNECT :: u8 where "CONNECT = 0x10"
definition CONNACK :: u8 where "CONNACK = 0x20"
definition PUBLISH_START :: u8 where "PUBLISH_START = 0x30"
definition PUBLISH_END :: u8 where "PUBLISH_END = 0x3F"
definition PUBACK :: u8 where "PUBACK = 0x40"
definition PUBREC :: u8 where "PUBREC = 0x50"
definition PUBREL :: u8 where "PUBREL = 0x62"
definition PUBCOMP :: u8 where "PUBCOMP = 0x70"
definition SUBSCRIBE :: u8 where "SUBSCRIBE = 0x82"
definition SUBACK :: u8 where "SUBACK = 0x90"
definition UNSUBSCRIBE :: u8 where "UNSUBSCRIBE = 0xA2"
definition UNSUBACK :: u8 where "UNSUBACK = 0xB0"
definition PINGREQ :: u8 where "PINGREQ = 0xC0"
definition PINGRESP :: u8 where "PINGRESP = 0xD0"
definition DISCONNECT :: u8 where "DISCONNECT = 0xE0"
definition AUTH :: u8 where "AUTH = 0xF0"

lemmas packet_type_defs =
  CONNECT_def CONNACK_def PUBLISH_START_def PUBLISH_END_def PUBACK_def PUBREC_def PUBREL_def
  PUBCOMP_def SUBSCRIBE_def SUBACK_def UNSUBSCRIBE_def UNSUBACK_def PINGREQ_def PINGRESP_def
  DISCONNECT_def AUTH_def

record FixedHeader =
  first_byte :: u8
  remaining_length :: u32

end
