(* ===== verification/Utils.thy ===== *)
theory Utils
  imports Types
begin

text \<open>
  \<^verbatim>\<open>src/utils.rs\<close>: the \<^verbatim>\<open>Decode\<close> and \<^verbatim>\<open>Encode\<close> implementations of the primitive wire types and
  the MQTT variable-length integer. The contract that each primitive type fulfils is the locale
  \<open>wire\<close>: its encoder writes exactly its image, the image has the announced size, and decoding
  accepts exactly the images. Everything that packets do with primitive fields rests on it.
\<close>

section \<open>The wire contract\<close>

locale wire =
  fixes encode :: "'a \<Rightarrow> EncodeError encoder"
    and encoded_size :: "'a \<Rightarrow> nat"
    and decode :: "(DecodeError, 'a) decoder"
    and image :: "'a \<Rightarrow> bytes"
    and valid :: "'a \<Rightarrow> bool"
  assumes writes_image: "valid v \<Longrightarrow> writes (encode v) (image v)"
    and length_image: "length (image v) = encoded_size v"
    and size_pos: "0 < encoded_size v"
    and decode_iff: "decode src = Ok (v, rest) \<longleftrightarrow> valid v \<and> src = image v @ rest"
    and decode_returns: "returns (decode src)"
    and encode_appends: "appends (encode v)"
begin

lemma decode_image: "valid v \<Longrightarrow> decode (image v @ rest) = Ok (v, rest)"
  by (simp add: decode_iff)

lemma decode_valid: "decode src = Ok (v, rest) \<Longrightarrow> valid v"
  by (simp add: decode_iff)

lemma decode_consuming: "consuming decode"
  using size_pos by (auto simp: consuming_def decode_iff length_image)

lemma image_nonempty: "image v \<noteq> []"
  using size_pos [of v] length_image [of v] by auto

lemma image_prefix_free:
  "valid v \<Longrightarrow> valid w \<Longrightarrow> image v @ xs = image w @ ys \<Longrightarrow> v = w \<and> xs = ys"
  by (metis decode_image outcome.inject(1) prod.inject)

text \<open>A loop that pushes decoded values until the buffer is empty reads back a written list.\<close>

lemma push_body_consuming: "consuming (push_body decode acc)"
  using decode_consuming by (auto simp: consuming_def push_body_def)

lemma push_loop_images:
  "(\<And>v. v \<in> set vs \<Longrightarrow> valid v) \<Longrightarrow>
   while_remaining (push_body decode) acc (concat (map image vs)) = Ok (acc @ vs)"
proof (induction vs arbitrary: acc)
  case (Cons v vs)
  have "image v @ concat (map image vs) \<noteq> []" by (simp add: image_nonempty)
  note unfold = while_remaining_unfold [OF push_body_consuming this]
  from Cons.prems have "decode (image v @ concat (map image vs)) = Ok (v, concat (map image vs))"
    by (simp add: decode_image)
  with Cons show ?case
    by (simp add: unfold) (simp add: push_body_def)
qed simp

lemma push_loop_valid:
  assumes "while_remaining (push_body decode) acc src = Ok vs" and "\<forall>v \<in> set acc. valid v"
  shows "\<forall>v \<in> set vs. valid v"
proof (rule while_remaining_invar [where body = "push_body decode" and P = "\<lambda>vs. \<forall>v \<in> set vs. valid v"])
  show "\<forall>v \<in> set st'. valid v" if "\<forall>v \<in> set st. valid v" "push_body decode st src = Ok (st', rest)"
    for st src st' rest
    using that by (auto simp: push_body_def decode_iff)
qed (use assms push_body_consuming in auto)

lemma push_loop_returns: "returns (while_remaining (push_body decode) acc src)"
  by (intro returns_while_remaining push_body_consuming)
    (auto simp: push_body_def intro!: returns_intro decode_returns)

end

section \<open>Primitive types\<close>

text \<open>An optional field that is present when a flag says so.\<close>

definition decode_if :: "bool \<Rightarrow> ('e, 'a) decoder \<Rightarrow> ('e, 'a option) decoder" where
  "decode_if c d src =
     (if c then and_then (d src) (\<lambda>(v, src). Ok (Some v, src)) else Ok (None, src))"

lemma returns_decode_if [returns_intro]: "returns (d src) \<Longrightarrow> returns (decode_if c d src)"
  by (auto simp: decode_if_def intro!: returns_intro)

lemma decode_if_None [wire_simps]: "decode_if False d src = Ok (None, src)"
  by (simp add: decode_if_def)

lemma decode_if_Some [wire_simps]:
  "decode_if True d src = and_then (d src) (\<lambda>(v, src). Ok (Some v, src))"
  by (simp add: decode_if_def)

lemma decode_if_Ok:
  "decode_if c d src = Ok (v, rest) \<longleftrightarrow>
   (if c then \<exists>x. v = Some x \<and> d src = Ok (x, rest) else v = None \<and> rest = src)"
  by (auto simp: decode_if_def)

definition ok_or :: "'a option \<Rightarrow> 'e \<Rightarrow> ('e, 'a) outcome" where
  "ok_or v e = (case v of Some x \<Rightarrow> Ok x | None \<Rightarrow> Err e)"

lemma ok_or_simps [simp]: "ok_or (Some x) e = Ok x" "ok_or None e = Err e"
  by (simp_all add: ok_or_def)

lemma ok_or_eq_Ok [simp]: "ok_or v e = Ok x \<longleftrightarrow> v = Some x"
  by (cases v) simp_all

lemma returns_ok_or [returns_intro]: "returns (ok_or v e)"
  by (cases v) simp_all

subsection \<open>bool\<close>

definition bool_decode :: "(DecodeError, bool) decoder" where
  "bool_decode src =
     ensure (src \<noteq> []) DecodeError.InvalidLength
     (and_then (get_u8 src) (\<lambda>(v, src).
      ensure (v \<le> 1) DecodeError.MalformedPacket (Ok (v = 1, src))))"

definition bool_encoded_size :: "bool \<Rightarrow> nat" where
  "bool_encoded_size _ = 1"

definition bool_encode :: "bool \<Rightarrow> EncodeError encoder" where
  "bool_encode v = (if v then put [1] else put [0])"

definition bool_image :: "bool \<Rightarrow> bytes" where
  "bool_image v = (if v then [1] else [0])"

lemma u8_le_1: "(v::u8) \<le> 1 \<longleftrightarrow> v = 0 \<or> v = 1"
  by unat_arith

interpretation bool: wire bool_encode bool_encoded_size bool_decode bool_image "\<lambda>_. True"
proof
  show "bool_decode src = Ok (v, rest) \<longleftrightarrow> True \<and> src = bool_image v @ rest" for src v rest
    by (cases src) (auto simp: bool_decode_def bool_image_def u8_le_1 ensure_def)
  show "returns (bool_decode src)" for src
    by (auto simp: bool_decode_def intro!: returns_intro)
qed (auto simp: bool_encode_def bool_image_def bool_encoded_size_def intro: writes_intro)

subsection \<open>u16, u32 and their non-zero variants\<close>

text \<open>A \<^verbatim>\<open>NonZeroU16\<close> or \<^verbatim>\<open>NonZeroU32\<close> is a word that is known not to be 0; the decoders establish it.\<close>

definition u16_decode :: "(DecodeError, u16) decoder" where
  "u16_decode src = ensure (2 \<le> length src) DecodeError.InvalidLength (get_u16 src)"

definition u32_decode :: "(DecodeError, u32) decoder" where
  "u32_decode src = ensure (4 \<le> length src) DecodeError.InvalidLength (get_u32 src)"

definition NonZeroU32_decode :: "(DecodeError, u32) decoder" where
  "NonZeroU32_decode src = and_then (u32_decode src) (\<lambda>(v, src).
     if v \<noteq> 0 then Ok (v, src) else Err DecodeError.MalformedPacket)"

definition NonZeroU16_decode :: "(DecodeError, u16) decoder" where
  "NonZeroU16_decode src = and_then (u16_decode src) (\<lambda>(v, src).
     if v \<noteq> 0 then Ok (v, src) else Err DecodeError.MalformedPacket)"

definition u16_encoded_size :: "u16 \<Rightarrow> nat" where "u16_encoded_size _ = 2"
definition u32_encoded_size :: "u32 \<Rightarrow> nat" where "u32_encoded_size _ = 4"

definition u16_encode :: "u16 \<Rightarrow> EncodeError encoder" where
  "u16_encode v = put (u16_be v)"

definition u32_encode :: "u32 \<Rightarrow> EncodeError encoder" where
  "u32_encode v = put (u32_be v)"

definition NonZeroU16_encoded_size :: "u16 \<Rightarrow> nat" where "NonZeroU16_encoded_size _ = 2"
definition NonZeroU32_encoded_size :: "u32 \<Rightarrow> nat" where "NonZeroU32_encoded_size _ = 4"

definition NonZeroU16_encode :: "u16 \<Rightarrow> EncodeError encoder" where
  "NonZeroU16_encode v = u16_encode v"

definition NonZeroU32_encode :: "u32 \<Rightarrow> EncodeError encoder" where
  "NonZeroU32_encode v = u32_encode v"

lemma u16_be_be: "u16_be (be_u16 a b) = [a, b]"
  unfolding u16_be_def list.inject
  by (intro conjI bit_word_eqI) (auto simp: be_u16_def bit_simps dest: bit_imp_le_length)

lemma u32_be_be: "u32_be (be_u32 a b c d) = [a, b, c, d]"
  unfolding u32_be_def list.inject
  by (intro conjI bit_word_eqI) (auto simp: be_u32_def bit_simps dest: bit_imp_le_length)

lemma u16_decode_iff: "u16_decode src = Ok (v, rest) \<longleftrightarrow> src = u16_be v @ rest"
proof
  assume "u16_decode src = Ok (v, rest)"
  then show "src = u16_be v @ rest"
    by (auto simp: u16_decode_def get_u16_def u16_be_be split: list.splits)
qed (simp add: u16_decode_def wire_simps)

lemma u32_decode_iff: "u32_decode src = Ok (v, rest) \<longleftrightarrow> src = u32_be v @ rest"
proof
  assume "u32_decode src = Ok (v, rest)"
  then show "src = u32_be v @ rest"
    by (auto simp: u32_decode_def get_u32_def u32_be_be split: list.splits)
qed (simp add: u32_decode_def wire_simps)

lemma returns_u16_decode: "returns (u16_decode src)"
  by (auto simp: u16_decode_def intro!: returns_intro)

lemma returns_u32_decode: "returns (u32_decode src)"
  by (auto simp: u32_decode_def intro!: returns_intro)

interpretation u16: wire u16_encode u16_encoded_size u16_decode u16_be "\<lambda>_. True"
  by standard (auto simp: u16_encode_def u16_encoded_size_def u16_decode_iff returns_u16_decode
      intro!: writes_intro)

interpretation u32: wire u32_encode u32_encoded_size u32_decode u32_be "\<lambda>_. True"
  by standard (auto simp: u32_encode_def u32_encoded_size_def u32_decode_iff returns_u32_decode
      intro!: writes_intro)

interpretation NonZeroU16: wire NonZeroU16_encode NonZeroU16_encoded_size NonZeroU16_decode
  u16_be "\<lambda>v. v \<noteq> 0"
  by standard (auto simp: NonZeroU16_encode_def NonZeroU16_encoded_size_def NonZeroU16_decode_def
      u16_decode_iff u16.encode_appends split: if_splits
      intro!: returns_intro u16.writes_image u16.decode_returns)

interpretation NonZeroU32: wire NonZeroU32_encode NonZeroU32_encoded_size NonZeroU32_decode
  u32_be "\<lambda>v. v \<noteq> 0"
  by standard (auto simp: NonZeroU32_encode_def NonZeroU32_encoded_size_def NonZeroU32_decode_def
      u32_decode_iff u32.encode_appends split: if_splits
      intro!: returns_intro u32.writes_image u32.decode_returns)

subsection \<open>Bytes, ByteString and pairs of strings\<close>

definition Bytes_decode :: "(DecodeError, bytes) decoder" where
  "Bytes_decode src = and_then (u16_decode src) (\<lambda>(len, src).
     ensure (unat len \<le> length src) DecodeError.InvalidLength (split_to (unat len) src))"

definition ByteString_decode :: "(DecodeError, bytestring) decoder" where
  "ByteString_decode src = and_then (Bytes_decode src) (\<lambda>(bytes, src).
     if valid_utf8 bytes then Ok (bytes, src) else Err Utf8Error)"

definition Bytes_encoded_size :: "bytes \<Rightarrow> nat" where
  "Bytes_encoded_size v = 2 + length v"

definition Bytes_encode :: "bytes \<Rightarrow> EncodeError encoder" where
  "Bytes_encode v =
     (if length v \<le> 65535 then steps [put (u16_be (of_nat (length v))), put v]
      else enc_fail (Err EncodeError.InvalidLength))"

definition Slice_encoded_size :: "bytes \<Rightarrow> nat" where
  "Slice_encoded_size v = 2 + length v"

definition Slice_encode :: "bytes \<Rightarrow> EncodeError encoder" where
  "Slice_encode v =
     (if length v \<le> 65535 then steps [put (u16_be (of_nat (length v))), put v]
      else enc_fail (Err EncodeError.InvalidLength))"

definition ByteString_encoded_size :: "bytestring \<Rightarrow> nat" where
  "ByteString_encoded_size v = Slice_encoded_size v"

definition ByteString_encode :: "bytestring \<Rightarrow> EncodeError encoder" where
  "ByteString_encode v = Slice_encode v"

definition Pair_encoded_size :: "bytestring \<times> bytestring \<Rightarrow> nat" where
  "Pair_encoded_size p = ByteString_encoded_size (fst p) + ByteString_encoded_size (snd p)"

definition Pair_encode :: "bytestring \<times> bytestring \<Rightarrow> EncodeError encoder" where
  "Pair_encode p = steps [ByteString_encode (fst p), ByteString_encode (snd p)]"

definition UserProperty_decode :: "(DecodeError, bytestring \<times> bytestring) decoder" where
  "UserProperty_decode src = and_then (ByteString_decode src) (\<lambda>(key, src).
     and_then (ByteString_decode src) (\<lambda>(val, src). Ok ((key, val), src)))"

definition Bytes_image :: "bytes \<Rightarrow> bytes" where
  "Bytes_image v = u16_be (of_nat (length v)) @ v"

definition Pair_image :: "bytestring \<times> bytestring \<Rightarrow> bytes" where
  "Pair_image p = Bytes_image (fst p) @ Bytes_image (snd p)"

definition valid_Bytes :: "bytes \<Rightarrow> bool" where
  "valid_Bytes v \<longleftrightarrow> length v \<le> 65535"

definition valid_ByteString :: "bytestring \<Rightarrow> bool" where
  "valid_ByteString v \<longleftrightarrow> length v \<le> 65535 \<and> valid_utf8 v"

definition valid_Pair :: "bytestring \<times> bytestring \<Rightarrow> bool" where
  "valid_Pair p \<longleftrightarrow> valid_ByteString (fst p) \<and> valid_ByteString (snd p)"

lemma Slice_Bytes: "Slice_encode = Bytes_encode" "Slice_encoded_size = Bytes_encoded_size"
  by (simp_all add: fun_eq_iff Slice_encode_def Bytes_encode_def Slice_encoded_size_def
      Bytes_encoded_size_def)

lemma unat_le_u16: "unat (w::u16) \<le> 65535"
proof -
  have "unat w < 2 ^ LENGTH(16)" by (rule unsigned_less)
  then show ?thesis by simp
qed

lemma unat_of_nat_u16: "n \<le> 65535 \<Longrightarrow> unat (of_nat n :: u16) = n"
  by (simp add: unat_of_nat take_bit_nat_eq_self)

lemma Bytes_decode_iff:
  "Bytes_decode src = Ok (v, rest) \<longleftrightarrow> length v \<le> 65535 \<and> src = Bytes_image v @ rest"
proof
  assume "Bytes_decode src = Ok (v, rest)"
  then show "length v \<le> 65535 \<and> src = Bytes_image v @ rest"
    by (auto simp: Bytes_decode_def u16_decode_iff Bytes_image_def unat_le_u16
        dest!: split_to_Ok)
qed (auto simp: Bytes_decode_def Bytes_image_def u16.decode_image [simplified] unat_of_nat_u16
      split_to_append)

lemma returns_Bytes_decode: "returns (Bytes_decode src)"
  by (auto simp: Bytes_decode_def intro!: returns_intro u16.decode_returns)

lemma ByteString_decode_iff:
  "ByteString_decode src = Ok (v, rest) \<longleftrightarrow> valid_ByteString v \<and> src = Bytes_image v @ rest"
  by (auto simp: ByteString_decode_def Bytes_decode_iff valid_ByteString_def split: if_splits)

lemma returns_ByteString_decode: "returns (ByteString_decode src)"
  by (auto simp: ByteString_decode_def intro!: returns_intro returns_Bytes_decode)

lemma Bytes_encode_writes: "length v \<le> 65535 \<Longrightarrow> writes (Bytes_encode v) (Bytes_image v)"
  using writes_steps_Cons [OF writes_put writes_steps_Cons [OF writes_put writes_steps_Nil]]
  by (simp add: Bytes_encode_def Bytes_image_def)

lemma length_Bytes_image: "length (Bytes_image v) = 2 + length v"
  by (simp add: Bytes_image_def)

lemma appends_Bytes_encode: "appends (Bytes_encode v)"
  by (auto simp: Bytes_encode_def)

interpretation Bytes: wire Bytes_encode Bytes_encoded_size Bytes_decode Bytes_image valid_Bytes
  by standard (auto simp: valid_Bytes_def Bytes_encode_writes length_Bytes_image
      Bytes_encoded_size_def Bytes_decode_iff returns_Bytes_decode appends_Bytes_encode)

interpretation ByteString: wire ByteString_encode ByteString_encoded_size ByteString_decode
  Bytes_image valid_ByteString
  by standard (auto simp: valid_ByteString_def ByteString_encode_def Slice_Bytes Bytes_encode_writes
      ByteString_encoded_size_def Bytes.length_image Bytes.size_pos
      ByteString_decode_iff [unfolded valid_ByteString_def] returns_ByteString_decode
      appends_Bytes_encode)

lemma UserProperty_decode_iff:
  "UserProperty_decode src = Ok (p, rest) \<longleftrightarrow> valid_Pair p \<and> src = Pair_image p @ rest"
  by (cases p) (auto simp: UserProperty_decode_def ByteString_decode_iff valid_Pair_def Pair_image_def)

interpretation Pair: wire Pair_encode Pair_encoded_size UserProperty_decode Pair_image valid_Pair
proof
  show "writes (Pair_encode v) (Pair_image v)" if "valid_Pair v" for v
    using that writes_steps_Cons [OF _ writes_steps_Cons [OF _ writes_steps_Nil],
        of "ByteString_encode (fst v)" _ "ByteString_encode (snd v)"]
    by (simp add: Pair_encode_def Pair_image_def valid_Pair_def ByteString.writes_image)
  show "returns (UserProperty_decode src)" for src
    by (auto simp: UserProperty_decode_def intro!: returns_intro returns_ByteString_decode)
  show "appends (Pair_encode v)" for v
    by (auto simp: Pair_encode_def ByteString.encode_appends)
qed (auto simp: Pair_image_def Pair_encoded_size_def ByteString.length_image ByteString.size_pos
    UserProperty_decode_iff)

lemmas decode_returns_intros [returns_intro] =
  bool.decode_returns u16.decode_returns u32.decode_returns NonZeroU16.decode_returns
  NonZeroU32.decode_returns Bytes.decode_returns ByteString.decode_returns Pair.decode_returns

lemmas decode_consuming_intros [consumes_intro] =
  bool.decode_consuming u16.decode_consuming u32.decode_consuming NonZeroU16.decode_consuming
  NonZeroU32.decode_consuming Bytes.decode_consuming ByteString.decode_consuming
  Pair.decode_consuming

lemmas encode_appends_intros [intro, simp] =
  bool.encode_appends u16.encode_appends u32.encode_appends NonZeroU16.encode_appends
  NonZeroU32.encode_appends Bytes.encode_appends ByteString.encode_appends Pair.encode_appends

lemmas writes_image_intros [writes_intro] =
  bool.writes_image [OF TrueI] u16.writes_image [OF TrueI] u32.writes_image [OF TrueI]
  NonZeroU16.writes_image NonZeroU32.writes_image Bytes.writes_image ByteString.writes_image
  Pair.writes_image

lemmas decode_image_simps [wire_simps] =
  bool.decode_image [simplified] u16.decode_image [simplified] u32.decode_image [simplified]
  NonZeroU16.decode_image NonZeroU32.decode_image Bytes.decode_image ByteString.decode_image
  Pair.decode_image

lemmas image_length_simps [simp] =
  bool.length_image u16.length_image u32.length_image Bytes.length_image Pair.length_image

subsection \<open>Optional fields\<close>

text \<open>A value that is written, and valid, when it is there.\<close>

definition valid_opt :: "('a \<Rightarrow> bool) \<Rightarrow> 'a option \<Rightarrow> bool" where
  "valid_opt P v = (case v of None \<Rightarrow> True | Some x \<Rightarrow> P x)"

lemma valid_opt_simps [simp]: "valid_opt P None" "valid_opt P (Some x) = P x"
  by (simp_all add: valid_opt_def)

definition encode_opt :: "'a option \<Rightarrow> ('a \<Rightarrow> 'e encoder) \<Rightarrow> 'e encoder" where
  "encode_opt v f = (case v of Some x \<Rightarrow> f x | None \<Rightarrow> put [])"

definition opt_image :: "('a \<Rightarrow> bytes) \<Rightarrow> 'a option \<Rightarrow> bytes" where
  "opt_image f v = (case v of Some x \<Rightarrow> f x | None \<Rightarrow> [])"

lemma opt_image_simps [simp]: "opt_image f None = []" "opt_image f (Some x) = f x"
  by (simp_all add: opt_image_def)

lemma writes_encode_opt [writes_intro]:
  "(\<And>x. v = Some x \<Longrightarrow> writes (f x) (g x)) \<Longrightarrow> writes (encode_opt v f) (opt_image g v)"
  by (cases v) (auto simp: encode_opt_def intro: writes_intro)

end
