(* ===== verification/VarLen.thy ===== *)
theory VarLen
  imports Utils
begin

text \<open>
  The variable-length integer of MQTT: \<^verbatim>\<open>decode_variable_length\<close>, \<^verbatim>\<open>decode_variable_length_cursor\<close>,
  \<^verbatim>\<open>take_properties\<close> and \<^verbatim>\<open>write_variable_length\<close> of \<^verbatim>\<open>src/utils.rs\<close>, and the length functions
  \<^verbatim>\<open>var_int_len\<close>, \<^verbatim>\<open>var_int_len_u32\<close> and \<^verbatim>\<open>var_int_len_from_size\<close> of
  \<^verbatim>\<open>src/v5/codec/encode.rs\<close>. The reference is \<open>varlen_spec\<close>, the encoding loop of the MQTT
  standard; the unrolled writer, the table-driven length functions and the reading loop are
  compared with it.
\<close>

section \<open>Definitions\<close>

text \<open>The encoding algorithm of the MQTT standard, section 1.5.5 (2.2.3 in 3.1.1).\<close>

function varlen_spec :: "nat \<Rightarrow> bytes" where
  "varlen_spec n =
     (if n < 128 then [of_nat n] else of_nat (n mod 128 + 128) # varlen_spec (n div 128))"
  by pat_completeness auto
termination
  by (relation "measure id") auto

declare varlen_spec.simps [simp del]

fun varlen_loop :: "u32 \<Rightarrow> u32 \<Rightarrow> (DecodeError, u32) decoder" where
  "varlen_loop shift len [] = Err DecodeError.MalformedPacket"
| "varlen_loop shift len (val # src) =
     and_then (checked_add len (push_bit (unat shift) (ucast (val AND 0x7F)))) (\<lambda>len.
     if val AND 0x80 = 0 then Ok (len, src)
     else ensure (shift < 21) DecodeError.InvalidLength (varlen_loop (shift + 7) len src))"

definition decode_variable_length_cursor :: "(DecodeError, u32) decoder" where
  "decode_variable_length_cursor src = varlen_loop 0 0 src"

text \<open>\<^verbatim>\<open>Cursor::position\<close> after the read is the number of bytes taken from the slice.\<close>

definition decode_variable_length :: "bytes \<Rightarrow> (DecodeError, (u32 \<times> nat) option) outcome" where
  "decode_variable_length src =
     (case decode_variable_length_cursor src of
        Ok (len, rest) \<Rightarrow> Ok (Some (len, length src - length rest))
      | Err DecodeError.MalformedPacket \<Rightarrow> Ok None
      | Err e \<Rightarrow> Err e
      | Panic \<Rightarrow> Panic
      | Diverge \<Rightarrow> Diverge)"

definition take_properties :: "(DecodeError, bytes) decoder" where
  "take_properties src = and_then (decode_variable_length_cursor src) (\<lambda>(prop_len, src).
     ensure (unat prop_len \<le> length src) DecodeError.InvalidLength (split_to (unat prop_len) src))"

definition write_variable_length :: "u32 \<Rightarrow> 'e encoder" where
  "write_variable_length len =
     (if len \<le> 127 then put [ucast len]
      else if len \<le> 16383 then
        put [ucast ((len AND 0x7F) OR 0x80), ucast (drop_bit 7 len)]
      else if len \<le> 2097151 then
        put [ucast ((len AND 0x7F) OR 0x80), ucast ((drop_bit 7 len AND 0x7F) OR 0x80),
             ucast (drop_bit 14 len)]
      else if len \<le> 268435455 then
        put [ucast ((len AND 0x7F) OR 0x80), ucast ((drop_bit 7 len AND 0x7F) OR 0x80),
             ucast ((drop_bit 14 len AND 0x7F) OR 0x80), ucast (drop_bit 21 len)]
      else enc_fail Panic)"

fun bit_len :: "nat \<Rightarrow> nat" where
  "bit_len n = (if n = 0 then 0 else Suc (bit_len (n div 2)))"

declare bit_len.simps [simp del]

text \<open>\<^verbatim>\<open>leading_zeros\<close> of a \<open>w\<close>-bit unsigned integer.\<close>

definition leading_zeros :: "nat \<Rightarrow> nat \<Rightarrow> nat" where
  "leading_zeros w n = w - bit_len n"

definition var_int_len_MAP :: "nat list" where
  "var_int_len_MAP =
     [10, 9, 9, 9, 9, 9, 9, 9, 8, 8, 8, 8, 8, 8, 8, 7, 7, 7, 7, 7, 7, 7, 6, 6, 6, 6, 6, 6, 6,
      5, 5, 5, 5, 5, 5, 5, 4, 4, 4, 4, 4, 4, 4, 3, 3, 3, 3, 3, 3, 3, 2, 2, 2, 2, 2, 2, 2, 1,
      1, 1, 1, 1, 1, 1, 1]"

text \<open>\<^verbatim>\<open>var_int_len\<close> on a 64-bit target. \<^verbatim>\<open>get_unchecked\<close> past the end is undefined behaviour; the
  model makes it a panic.\<close>

definition var_int_len :: "nat \<Rightarrow> ('e, nat) outcome" where
  "var_int_len val =
     (let zeros = leading_zeros 64 val
      in if zeros < length var_int_len_MAP then Ok (var_int_len_MAP ! zeros) else Panic)"

definition var_int_len_u32_MAP :: "nat list" where
  "var_int_len_u32_MAP =
     [5, 5, 5, 5, 4, 4, 4, 4, 4, 4, 4, 3, 3, 3, 3, 3, 3, 3, 2, 2, 2, 2, 2, 2, 2, 1, 1, 1, 1,
      1, 1, 1, 1]"

definition var_int_len_u32 :: "u32 \<Rightarrow> ('e, u32) outcome" where
  "var_int_len_u32 val =
     (let zeros = leading_zeros 32 (unat val)
      in if zeros < length var_int_len_u32_MAP then Ok (of_nat (var_int_len_u32_MAP ! zeros))
         else Panic)"

definition var_int_len_from_size :: "u32 \<Rightarrow> ('e, u32) outcome" where
  "var_int_len_from_size val =
     and_then (var_int_len_u32 val) (\<lambda>over_size.
     and_then (checked_sub val over_size) (\<lambda>d.
     and_then (checked_add d 1) (\<lambda>res.
     and_then (var_int_len_u32 res) (\<lambda>l.
     checked_sub val l))))"

section \<open>The writer against the standard\<close>


lemma unat_and_7F: "unat (w AND 0x7F :: 'l::len word) = unat w mod 128"
proof -
  have "w AND 0x7F = take_bit 7 w" by (simp add: take_bit_eq_mask mask_eq_exp_minus_1)
  then show ?thesis by (simp only: unsigned_take_bit_eq) (simp add: take_bit_eq_mod)
qed

lemma unat_or_80: "unat ((w AND 0x7F) OR 0x80 :: u32) = unat w mod 128 + 128"
proof -
  have "(w AND 0x7F) AND 0x80 = 0" by (simp add: and.assoc)
  then have "(w AND 0x7F) OR 0x80 = (w AND 0x7F) + 0x80"
    by (simp add: disjunctive_add_eq_or)
  moreover have "unat (w AND 0x7F) + 128 < 2 ^ 32" by (simp add: unat_and_7F)
  ultimately show ?thesis by (simp add: unat_word_ariths unat_and_7F)
qed

lemma ucast_low_byte: "(ucast ((w AND 0x7F) OR 0x80 :: u32) :: u8) = of_nat (unat w mod 128 + 128)"
  by (subst of_nat_unat [symmetric]) (simp only: unat_or_80)

lemma unat_drop_bit_u32: "unat (drop_bit k (w :: u32)) = unat w div 2 ^ k"
  unfolding unat_drop_bit_eq by (simp add: drop_bit_eq_div)

lemma ucast_drop_bit: "(ucast (drop_bit k (w :: u32)) :: u8) = of_nat (unat w div 2 ^ k)"
  by (subst of_nat_unat [symmetric]) (simp only: unat_drop_bit_u32)

lemma ucast_mid_byte:
  "(ucast ((drop_bit k w AND 0x7F) OR 0x80 :: u32) :: u8) = of_nat (unat w div 2 ^ k mod 128 + 128)"
  by (simp only: ucast_low_byte unat_drop_bit_u32)

text \<open>The four branches of the writer, in the terms of the standard's loop.\<close>

lemma varlen_spec_1: "n < 128 \<Longrightarrow> varlen_spec n = [of_nat n]"
  by (simp add: varlen_spec.simps)

lemma varlen_spec_more:
  "128 \<le> n \<Longrightarrow> varlen_spec n = of_nat (n mod 128 + 128) # varlen_spec (n div 128)"
  by (subst varlen_spec.simps) simp

lemma varlen_spec_2:
  "128 \<le> n \<Longrightarrow> n < 16384 \<Longrightarrow> varlen_spec n = [of_nat (n mod 128 + 128), of_nat (n div 128)]"
  by (subst varlen_spec_more) (auto intro: varlen_spec_1)

lemma varlen_spec_3:
  assumes "16384 \<le> n" "n < 2097152"
  shows "varlen_spec n =
    [of_nat (n mod 128 + 128), of_nat (n div 128 mod 128 + 128), of_nat (n div 16384)]"
proof -
  have "varlen_spec (n div 128) = [of_nat (n div 128 mod 128 + 128), of_nat (n div 128 div 128)]"
    using assms by (intro varlen_spec_2) auto
  with assms show ?thesis by (simp add: varlen_spec_more div_mult2_eq [symmetric])
qed

lemma varlen_spec_4:
  assumes "2097152 \<le> n" "n < 268435456"
  shows "varlen_spec n =
    [of_nat (n mod 128 + 128), of_nat (n div 128 mod 128 + 128),
     of_nat (n div 16384 mod 128 + 128), of_nat (n div 2097152)]"
proof -
  have "varlen_spec (n div 128) = [of_nat (n div 128 mod 128 + 128),
      of_nat (n div 128 div 128 mod 128 + 128), of_nat (n div 128 div 16384)]"
    using assms by (intro varlen_spec_3) auto
  with assms show ?thesis by (simp add: varlen_spec_more div_mult2_eq [symmetric])
qed

lemma u32_le_numerals:
  "(len :: u32) \<le> 127 \<longleftrightarrow> unat len < 128" "len \<le> 16383 \<longleftrightarrow> unat len < 16384"
  "len \<le> 2097151 \<longleftrightarrow> unat len < 2097152" "len \<le> 268435455 \<longleftrightarrow> unat len < 268435456"
  by (auto simp: word_le_nat_alt)

lemma write_variable_length_put:
  assumes "unat len \<le> 268435455"
  shows "write_variable_length len = put (varlen_spec (unat len))"
proof -
  let ?n = "unat len"
  consider "?n < 128" | "128 \<le> ?n" "?n < 16384" | "16384 \<le> ?n" "?n < 2097152"
    | "2097152 \<le> ?n" "?n < 268435456" using assms by linarith
  then show ?thesis
  proof cases
    case 1
    then show ?thesis by (simp add: write_variable_length_def u32_le_numerals varlen_spec_1)
  next
    case 2
    then show ?thesis
      by (simp add: write_variable_length_def u32_le_numerals varlen_spec_2 ucast_low_byte
          ucast_drop_bit)
  next
    case 3
    then show ?thesis
      by (simp add: write_variable_length_def u32_le_numerals varlen_spec_3 ucast_low_byte
          ucast_mid_byte ucast_drop_bit unat_drop_bit_u32)
  next
    case 4
    then show ?thesis
      by (simp add: write_variable_length_def u32_le_numerals varlen_spec_4 ucast_low_byte
          ucast_mid_byte ucast_drop_bit unat_drop_bit_u32)
  qed
qed

lemma writes_varlen [writes_intro]:
  "unat len \<le> 268435455 \<Longrightarrow> writes (write_variable_length len) (varlen_spec (unat len))"
  by (simp add: write_variable_length_put writes_put)

lemma appends_write_varlen [intro, simp]: "appends (write_variable_length len)"
  by (simp add: write_variable_length_def)

section \<open>The reader\<close>

lemma high_bit_clear: "(val :: u8) AND 0x80 = 0 \<longleftrightarrow> unat val < 128"
proof -
  have "val AND 0x80 = 0 \<longleftrightarrow> \<not> bit val 7"
    using and_exp_eq_0_iff_not_bit [of val 7] by simp
  also have "bit val 7 \<longleftrightarrow> odd (unat val div 128)"
    using bit_unsigned_iff [where 'a = nat, of val 7] by (simp add: bit_iff_odd)
  also have "unat val div 128 = 0 \<or> unat val div 128 = 1"
    using unsigned_less [where 'a = nat, of val] by auto
  then have "odd (unat val div 128) \<longleftrightarrow> \<not> unat val < 128" by auto
  finally show ?thesis by simp
qed

declare varlen_loop.simps(2) [simp del]

text \<open>One round of the loop on naturals: \<open>s\<close> is the shift, \<open>a\<close> the sum so far.\<close>

lemma varlen_loop_step:
  assumes "s \<le> 21" "a < 2 ^ s"
  shows "varlen_loop (of_nat s) (of_nat a) (val # src) =
    (let a' = a + (unat val mod 128) * 2 ^ s
     in if unat val < 128 then Ok (of_nat a', src)
        else if s < 21 then varlen_loop (of_nat (s + 7)) (of_nat a') src
        else Err DecodeError.InvalidLength)"
proof -
  let ?p = "push_bit (unat (of_nat s :: u32)) (ucast (val AND 0x7F)) :: u32"
  have s: "unat (of_nat s :: u32) = s" using assms by (simp add: unat_of_nat take_bit_nat_eq_self)
  have s21: "(of_nat s :: u32) < 21 \<longleftrightarrow> s < 21"
    using assms(1) by (simp add: word_less_nat_alt s)
  have p2: "(2::nat) ^ s \<le> 2 ^ 21" using assms(1) by (rule power_increasing) simp
  have bound: "(unat val mod 128) * 2 ^ s < 2 ^ 28"
  proof -
    have "unat val mod 128 \<le> 127" by linarith
    from mult_mono [OF this p2] show ?thesis by simp
  qed
  have p: "unat ?p = (unat val mod 128) * 2 ^ s"
    using bound unfolding unsigned_push_bit_eq unsigned_ucast_eq s
    by (simp add: unat_and_7F push_bit_eq_mult take_bit_nat_eq_self)
  have a: "unat (of_nat a :: u32) = a"
    using assms(2) p2 by (simp add: unat_of_nat take_bit_nat_eq_self)
  have "?p = of_nat (unat ?p)" by simp
  then have pw: "?p = of_nat ((unat val mod 128) * 2 ^ s)" unfolding p .
  have "unat (of_nat a :: u32) + unat ?p < 2 ^ LENGTH(32)"
    using bound assms(2) p2 unfolding p a by simp
  then have add: "checked_add (of_nat a) ?p = Ok (of_nat (a + (unat val mod 128) * 2 ^ s))"
    unfolding checked_add_def by (simp add: pw)
  note hi = high_bit_clear [of val]
  show ?thesis
    by (simp add: varlen_loop.simps(2) add hi s21 Let_def ensure_def)
qed

lemma acc_bound: "a < 2 ^ s \<Longrightarrow> a + (m mod 128) * 2 ^ s < (2::nat) ^ (s + 7)"
proof -
  assume a: "a < 2 ^ s"
  have "(m mod 128) * 2 ^ s \<le> 127 * 2 ^ s" by (rule mult_right_mono) auto
  moreover have "(2::nat) ^ (s + 7) = 128 * 2 ^ s" by (simp add: power_add)
  ultimately show ?thesis using a by linarith
qed

lemma unat_u8_of_nat: "n < 256 \<Longrightarrow> unat (of_nat n :: u8) = n"
  by (simp add: unat_of_nat take_bit_nat_eq_self)

lemma varlen_loop_spec:
  "s \<in> {0, 7, 14, 21} \<Longrightarrow> a < 2 ^ s \<Longrightarrow> n * 2 ^ s < 2 ^ 28 \<Longrightarrow>
   varlen_loop (of_nat s) (of_nat a) (varlen_spec n @ rest) = Ok (of_nat (a + n * 2 ^ s), rest)"
proof (induction n arbitrary: s a rule: varlen_spec.induct)
  case (1 n)
  then have s21: "s \<le> 21" by auto
  show ?case
  proof (cases "n < 128")
    case True
    with "1.prems" s21 show ?thesis
      by (simp add: varlen_spec_1 varlen_loop_step unat_u8_of_nat Let_def)
  next
    case False
    let ?b = "of_nat (n mod 128 + 128) :: u8"
    let ?a = "a + (n mod 128) * 2 ^ s"
    have b: "unat ?b = n mod 128 + 128" by (rule unat_u8_of_nat) simp
    have "(2::nat) ^ (s + 7) \<le> n * 2 ^ s" using False by (simp add: power_add)
    with "1.prems"(3) have "(2::nat) ^ (s + 7) < 2 ^ 28" by linarith
    then have s: "s + 7 < 28" by (rule power_less_imp_less_exp [rotated]) simp
    from "1.prems"(2) have a: "?a < 2 ^ (s + 7)" by (rule acc_bound)
    have "n * 2 ^ s = (n div 128 * 128 + n mod 128) * 2 ^ s" by simp
    also have "\<dots> = n mod 128 * 2 ^ s + n div 128 * 2 ^ (s + 7)"
      by (simp only: power_add add_mult_distrib) (simp add: ac_simps)
    finally have n: "?a + n div 128 * 2 ^ (s + 7) = a + n * 2 ^ s" by simp
    have "n div 128 * 2 ^ (s + 7) = (n div 128 * 128) * 2 ^ s" by (simp add: power_add)
    also have "\<dots> \<le> n * 2 ^ s" by (intro mult_right_mono) auto
    finally have "n div 128 * 2 ^ (s + 7) < 2 ^ 28" using "1.prems"(3) by linarith
    moreover have "s + 7 \<in> {0, 7, 14, 21}" using s "1.prems"(1) by auto
    ultimately have
      "varlen_loop (of_nat (s + 7)) (of_nat ?a) (varlen_spec (n div 128) @ rest) =
        Ok (of_nat (a + n * 2 ^ s), rest)"
      using "1.IH" [OF False, of "s + 7" ?a] a n by presburger
    with False s "1.prems" s21 show ?thesis
      by (simp add: varlen_spec_more varlen_loop_step b Let_def del: of_nat_add)
  qed
qed

lemma decode_cursor_spec [wire_simps]:
  "n \<le> 268435455 \<Longrightarrow> decode_variable_length_cursor (varlen_spec n @ rest) = Ok (of_nat n, rest)"
  using varlen_loop_spec [of 0 0 n rest] by (simp add: decode_variable_length_cursor_def)

text \<open>What the loop can return from any state it reaches.\<close>

lemma varlen_loop_result:
  assumes "s \<in> {0, 7, 14, 21}" "a < 2 ^ s"
  shows "case varlen_loop (of_nat s) (of_nat a) src of
      Ok (v, rest) \<Rightarrow> unat v < 2 ^ 28 \<and> length rest < length src \<and>
        length src \<le> length rest + (28 - s) div 7
    | Err e \<Rightarrow> e = DecodeError.MalformedPacket \<and> length src \<le> (21 - s) div 7 + 0
        \<or> e = DecodeError.InvalidLength
    | _ \<Rightarrow> False"
  using assms
proof (induction src arbitrary: s a)
  case Nil
  then show ?case by simp
next
  case (Cons val src)
  let ?a = "a + (unat val mod 128) * 2 ^ s"
  from Cons.prems(2) have a: "?a < 2 ^ (s + 7)" by (rule acc_bound)
  have s: "s \<le> 21" using Cons.prems(1) by auto
  have "(2::nat) ^ (s + 7) \<le> 2 ^ 28" using s by (intro power_increasing) auto
  with a have "?a < 2 ^ 28" by linarith
  then have u: "unat (of_nat ?a :: u32) < 2 ^ 28"
    by (simp add: unat_of_nat take_bit_nat_eq_self del: of_nat_add of_nat_mult)
  show ?case
  proof (cases "unat val < 128")
    case True
    with s u Cons.prems show ?thesis
      by (auto simp: varlen_loop_step Let_def simp del: of_nat_add of_nat_mult)
  next
    case False
    show ?thesis
    proof (cases "s < 21")
      case True
      with Cons.prems have "s + 7 \<in> {0, 7, 14, 21}" by auto
      from Cons.IH [OF this a] True False s Cons.prems show ?thesis
        by (simp add: varlen_loop_step Let_def del: of_nat_add of_nat_mult split: outcome.splits)
          (auto)
    next
      case ge: False
      have "varlen_loop (of_nat s) (of_nat a) (val # src) = Err DecodeError.InvalidLength"
        using varlen_loop_step [OF s Cons.prems(2), of val src] False ge by (simp add: Let_def)
      then show ?thesis by (simp only: outcome.case) simp
    qed
  qed
qed

lemma decode_cursor_result:
  "case decode_variable_length_cursor src of
      Ok (v, rest) \<Rightarrow> unat v < 2 ^ 28 \<and> length rest < length src \<and> length src \<le> length rest + 4
    | Err e \<Rightarrow> e = DecodeError.MalformedPacket \<and> length src \<le> 3 \<or> e = DecodeError.InvalidLength
    | _ \<Rightarrow> False"
  using varlen_loop_result [of 0 0 src]
  by (auto simp: decode_variable_length_cursor_def split: outcome.splits)

lemma decode_cursor_Ok:
  "decode_variable_length_cursor src = Ok (v, rest) \<Longrightarrow>
   unat v < 268435456 \<and> length rest < length src \<and> length src \<le> length rest + 4"
  using decode_cursor_result [of src] by simp

lemma returns_decode_cursor [returns_intro]: "returns (decode_variable_length_cursor src)"
  using decode_cursor_result [of src] by (auto split: outcome.splits)

lemma decode_cursor_consuming [consumes_intro]: "consuming decode_variable_length_cursor"
  by (auto simp: consuming_def dest: decode_cursor_Ok)

text \<open>More input does not change a result that is already determined.\<close>

lemma varlen_loop_extend:
  "varlen_loop s a src = Ok (v, rest) \<Longrightarrow> varlen_loop s a (src @ ys) = Ok (v, rest @ ys)"
  by (induction src arbitrary: s a) (auto simp: varlen_loop.simps(2) split: if_splits)

lemma varlen_loop_extend_Err:
  "varlen_loop s a src = Err DecodeError.InvalidLength \<Longrightarrow>
   varlen_loop s a (src @ ys) = Err DecodeError.InvalidLength"
proof (induction src arbitrary: s a)
  case (Cons val src)
  then show ?case
    by (cases "checked_add a (push_bit (unat s) (ucast (val AND 0x7F))) ::
        (DecodeError, u32) outcome")
      (auto simp: varlen_loop.simps(2) ensure_def split: if_splits)
qed simp

lemma decode_variable_length_Some:
  "decode_variable_length src = Ok (Some (v, n)) \<longleftrightarrow>
   (\<exists>rest. decode_variable_length_cursor src = Ok (v, rest) \<and> n = length src - length rest)"
  by (auto simp: decode_variable_length_def split: outcome.splits DecodeError.splits)

lemma decode_cursor_suffix:
  "decode_variable_length_cursor src = Ok (v, rest) \<Longrightarrow> rest = drop (length src - length rest) src"
proof -
  have "varlen_loop s a src = Ok (v, rest) \<Longrightarrow> \<exists>xs. src = xs @ rest" for s a
    by (induction src arbitrary: s a)
      (force simp: varlen_loop.simps(2) Cons_eq_append_conv split: if_splits)+
  then show "decode_variable_length_cursor src = Ok (v, rest) \<Longrightarrow>
      rest = drop (length src - length rest) src"
    by (fastforce simp: decode_variable_length_cursor_def)
qed

lemma decode_variable_length_extend:
  assumes "decode_variable_length src = Ok (Some (v, n))"
  shows "decode_variable_length (src @ ys) = Ok (Some (v, n))" and "n \<le> length src"
    and "0 < n" and "unat v < 268435456"
  using assms varlen_loop_extend [of 0 0 src v _ ys] decode_cursor_Ok [of src v]
  by (auto simp: decode_variable_length_Some decode_variable_length_cursor_def)

lemma decode_variable_length_extend_Err:
  assumes "decode_variable_length src = Err e"
  shows "e = DecodeError.InvalidLength" "decode_variable_length (src @ ys) = Err e"
proof -
  from assms decode_cursor_result [of src] show e: "e = DecodeError.InvalidLength"
    by (auto simp: decode_variable_length_def split: outcome.splits DecodeError.splits)
  with assms varlen_loop_extend_Err [of 0 0 src ys]
  show "decode_variable_length (src @ ys) = Err e"
    by (auto simp: decode_variable_length_def decode_variable_length_cursor_def
        split: outcome.splits DecodeError.splits)
qed

lemma returns_decode_variable_length [returns_intro]: "returns (decode_variable_length src)"
  using decode_cursor_result [of src]
  by (auto simp: decode_variable_length_def split: outcome.splits DecodeError.splits)

lemma decode_variable_length_spec:
  "n \<le> 268435455 \<Longrightarrow>
   decode_variable_length (varlen_spec n @ rest) = Ok (Some (of_nat n, length (varlen_spec n)))"
  by (simp add: decode_variable_length_Some decode_cursor_spec)

lemma take_properties_Ok:
  "take_properties src = Ok (props, rest) \<Longrightarrow> length rest < length src"
  by (auto simp: take_properties_def dest!: split_to_Ok decode_cursor_Ok)

lemma take_properties_consuming [consumes_intro]: "consuming take_properties"
  by (simp add: consuming_def take_properties_Ok)

lemma returns_take_properties [returns_intro]: "returns (take_properties src)"
  by (auto simp: take_properties_def intro!: returns_intro)

lemma unat_u32_of_nat: "n < 4294967296 \<Longrightarrow> unat (of_nat n :: u32) = n"
  by (simp add: unat_of_nat take_bit_nat_eq_self)

lemma take_properties_spec [wire_simps]:
  "length ps \<le> 268435455 \<Longrightarrow>
   take_properties (varlen_spec (length ps) @ ps @ rest) = Ok (ps, rest)"
  by (simp add: take_properties_def decode_cursor_spec unat_u32_of_nat split_to_append)

section \<open>Length functions\<close>

lemma bit_len_0 [simp]: "bit_len 0 = 0"
  by (simp add: bit_len.simps)

lemma bit_len_div_2: "0 < n \<Longrightarrow> bit_len n = Suc (bit_len (n div 2))"
  by (subst bit_len.simps) simp

lemma bit_len_le_iff: "bit_len n \<le> k \<longleftrightarrow> n < 2 ^ k"
proof (induction k arbitrary: n)
  case 0
  show ?case by (cases "n = 0") (simp_all add: bit_len_div_2)
next
  case (Suc k)
  show ?case
    by (cases "n = 0") (auto simp: bit_len_div_2 Suc.IH)
qed

lemma bit_len_div_128: "128 \<le> n \<Longrightarrow> bit_len n = bit_len (n div 128) + 7"
proof -
  assume n: "128 \<le> n"
  then have "bit_len n = Suc (Suc (Suc (Suc (Suc (Suc (Suc (bit_len
      (n div 2 div 2 div 2 div 2 div 2 div 2 div 2))))))))"
    by (simp add: bit_len_div_2 flip: div_mult2_eq)
  then show ?thesis by (simp flip: div_mult2_eq)
qed

lemma length_varlen_spec:
  "length (varlen_spec n) = (if n = 0 then 1 else (bit_len n + 6) div 7)"
proof (induction n rule: varlen_spec.induct)
  case (1 n)
  show ?case
  proof (cases "n < 128")
    case True
    have "bit_len n \<le> 7" using True by (simp add: bit_len_le_iff)
    moreover have "n \<noteq> 0 \<Longrightarrow> bit_len n \<noteq> 0" by (simp add: bit_len_div_2)
    ultimately have "n \<noteq> 0 \<Longrightarrow> (bit_len n + 6) div 7 = 1" by auto
    with True show ?thesis by (simp add: varlen_spec_1)
  next
    case False
    with 1 show ?thesis by (auto simp: varlen_spec_more bit_len_div_128)
  qed
qed

lemma varlen_spec_nonempty [simp]: "varlen_spec n \<noteq> []"
  by (subst varlen_spec.simps) simp

lemma length_varlen_spec_pos: "0 < length (varlen_spec n)"
  by simp

lemma length_varlen_spec_le4: "n \<le> 268435455 \<Longrightarrow> length (varlen_spec n) \<le> 4"
proof -
  assume "n \<le> 268435455"
  then have "bit_len n \<le> 28" by (simp add: bit_len_le_iff)
  then show ?thesis by (auto simp: length_varlen_spec)
qed

lemma length_varlen_spec_mono: "m \<le> n \<Longrightarrow> length (varlen_spec m) \<le> length (varlen_spec n)"
proof -
  assume mn: "m \<le> n"
  have "n < 2 ^ bit_len n" using bit_len_le_iff by blast
  with mn have "m < 2 ^ bit_len n" by linarith
  then have "bit_len m \<le> bit_len n" by (simp add: bit_len_le_iff)
  moreover have "n \<noteq> 0 \<Longrightarrow> 0 < bit_len n" by (simp add: bit_len_div_2)
  ultimately show ?thesis using mn by (auto simp: length_varlen_spec)
qed

lemma var_int_len_MAP_ok:
  "\<forall>z < 65. var_int_len_MAP ! z = (if z = 64 then 1 else (64 - z + 6) div 7)"
  by code_simp

lemma var_int_len_u32_MAP_ok:
  "\<forall>z < 33. var_int_len_u32_MAP ! z = (if z = 32 then 1 else (32 - z + 6) div 7)"
  by code_simp

lemma var_int_len_eq: "n < 2 ^ 64 \<Longrightarrow> var_int_len n = Ok (length (varlen_spec n))"
proof -
  assume "n < 2 ^ 64"
  then have b: "bit_len n \<le> 64" by (simp add: bit_len_le_iff)
  have "n = 0 \<longleftrightarrow> bit_len n = 0" using bit_len_le_iff [of n 0] by simp
  with b var_int_len_MAP_ok show ?thesis
    by (auto simp: var_int_len_def leading_zeros_def Let_def length_varlen_spec var_int_len_MAP_def
        diff_diff_cancel)
qed

lemma var_int_len_u32_eq:
  "var_int_len_u32 v = Ok (of_nat (length (varlen_spec (unat v))))"
proof -
  have "unat v < 2 ^ 32" using unsigned_less [where 'a = nat, of v] by simp
  then have b: "bit_len (unat v) \<le> 32" by (simp add: bit_len_le_iff)
  have "unat v = 0 \<longleftrightarrow> bit_len (unat v) = 0" using bit_len_le_iff [of "unat v" 0] by simp
  with b var_int_len_u32_MAP_ok show ?thesis
    by (auto simp: var_int_len_u32_def leading_zeros_def Let_def length_varlen_spec
        var_int_len_u32_MAP_def diff_diff_cancel)
qed

lemma length_varlen_spec_add:
  assumes "n + length (varlen_spec n) < 2 ^ 32"
  shows "length (varlen_spec (n + length (varlen_spec n))) \<le> length (varlen_spec n) + 1"
    and "length (varlen_spec n) \<le> 5"
proof -
  let ?L = "length (varlen_spec n)"
  have "bit_len n \<le> 32" using assms by (simp add: bit_len_le_iff)
  then show L5: "?L \<le> 5" by (auto simp: length_varlen_spec)
  have "bit_len n \<le> 7 * ?L" by (auto simp: length_varlen_spec)
  then have "n < 2 ^ (7 * ?L)" by (simp add: bit_len_le_iff)
  moreover have "?L < 2 ^ (7 * ?L)" using less_exp [of "7 * ?L"] by linarith
  ultimately have "n + ?L < 2 ^ (7 * ?L + 1)" by simp
  then have "bit_len (n + ?L) \<le> 7 * ?L + 1" by (simp only: bit_len_le_iff)
  then show "length (varlen_spec (n + ?L)) \<le> ?L + 1" by (subst length_varlen_spec) auto
qed

lemma checked_sub_of_nat:
  "b \<le> a \<Longrightarrow> a < 4294967296 \<Longrightarrow> checked_sub (of_nat a :: u32) (of_nat b) = Ok (of_nat (a - b))"
  by (simp add: checked_sub_def word_le_nat_alt unat_u32_of_nat of_nat_diff)

lemma checked_add_of_nat:
  "a + b < 4294967296 \<Longrightarrow> checked_add (of_nat a :: u32) (of_nat b) = Ok (of_nat (a + b))"
  by (simp add: checked_add_def unat_u32_of_nat)

lemma var_int_len_from_size_eq:
  assumes "n + length (varlen_spec n) < 4294967296"
  shows "var_int_len_from_size (of_nat (n + length (varlen_spec n))) = Ok (of_nat n)"
proof -
  let ?L = "\<lambda>n. length (varlen_spec n)"
  let ?s = "n + ?L n"
  have L: "?L ?s \<le> ?L n + 1" "?L n \<le> ?L ?s"
    using length_varlen_spec_add [of n] length_varlen_spec_mono [of n ?s] assms by simp_all
  have le: "?L ?s \<le> ?s"
    using L(1) length_varlen_spec_pos [of n] by (cases "n = 0") (auto simp: varlen_spec_1)
  let ?r = "?s - ?L ?s + 1"
  have "?L ?r = ?L n"
  proof (cases "?L ?s = ?L n")
    case True
    then have "?r = n + 1" by simp
    with length_varlen_spec_mono [of n "n + 1"] length_varlen_spec_mono [of "n + 1" ?s] True
    show ?thesis by (simp add: Suc_le_eq)
  next
    case False
    with L le have "?r = n" by linarith
    then show ?thesis by simp
  qed
  then have Lr: "?L ?r = ?L n" .
  have r: "?r < 4294967296" using assms le length_varlen_spec_pos [of ?s] by linarith
  have 1: "var_int_len_u32 (of_nat ?s) = Ok (of_nat (?L ?s))"
    by (simp only: var_int_len_u32_eq unat_u32_of_nat [OF assms])
  have 2: "checked_sub (of_nat ?s :: u32) (of_nat (?L ?s)) = Ok (of_nat (?s - ?L ?s))"
    by (rule checked_sub_of_nat [OF le assms])
  have 3: "checked_add (of_nat (?s - ?L ?s)) (1 :: u32) = Ok (of_nat ?r)"
    using checked_add_of_nat [of "?s - ?L ?s" 1] r by (simp del: of_nat_diff)
  have 4: "var_int_len_u32 (of_nat ?r) = Ok (of_nat (?L n))"
    by (simp only: var_int_len_u32_eq unat_u32_of_nat [OF r] Lr)
  have 5: "checked_sub (of_nat ?s :: u32) (of_nat (?L n)) = Ok (of_nat n)"
    using checked_sub_of_nat [of "?L n" ?s] assms by simp
  show ?thesis
    by (simp only: var_int_len_from_size_def 1 2 3 4 5 and_then_simps)
qed

section \<open>Properties\<close>

text \<open>C38: The unrolled \<^verbatim>\<open>write_variable_length\<close> writes exactly the bytes of the MQTT standard's
  encoding loop, and the reader turns these bytes back into the number, leaving what follows.\<close>

theorem varlen_roundtrip:
  assumes "n \<le> 268435455"
  shows "write_variable_length (of_nat n) buf =
      ((Ok () :: (EncodeError, unit) outcome), buf @ varlen_spec n) \<and>
    decode_variable_length_cursor (varlen_spec n @ rest) = Ok (of_nat n, rest)"
  using assms writes_apply [OF writes_varlen [of "of_nat n"], of buf]
  by (simp add: unat_u32_of_nat decode_cursor_spec)

theorem varlen_roundtrip_witness:
  "write_variable_length (of_nat 16383) [9] =
     ((Ok () :: (EncodeError, unit) outcome), [9] @ varlen_spec 16383) \<and>
   decode_variable_length_cursor (varlen_spec 16383 @ [7]) = Ok (of_nat 16383, [7])"
  by (rule varlen_roundtrip) simp

text \<open>\<^verbatim>\<open>decode_variable_length\<close> on any bytes: it returns without panic or overflow; a decoded
  length is below 2^28 and took between one and four bytes of the input; "not enough data" is only
  reported while fewer than four bytes are there; the only error is an invalid length.\<close>

theorem varlen_decode_safe:
  "case decode_variable_length src of
     Ok (Some (v, consumed)) \<Rightarrow>
       unat v < 2 ^ 28 \<and> 0 < consumed \<and> consumed \<le> 4 \<and> consumed \<le> length src
   | Ok None \<Rightarrow> length src \<le> 3
   | Err e \<Rightarrow> e = DecodeError.InvalidLength
   | Panic \<Rightarrow> False
   | Diverge \<Rightarrow> False"
  using decode_cursor_result [of src]
  by (auto simp: decode_variable_length_def split: outcome.splits DecodeError.splits option.splits)

text \<open>The table look-ups \<^verbatim>\<open>var_int_len\<close> (for every 64-bit \<^verbatim>\<open>usize\<close>) and \<^verbatim>\<open>var_int_len_u32\<close> stay
  inside their tables and give the number of bytes the standard's encoding loop emits.\<close>

theorem var_int_len_correct:
  assumes "n < 2 ^ 64"
  shows "var_int_len n = (Ok (length (varlen_spec n)) :: (EncodeError, nat) outcome) \<and>
    var_int_len_u32 v = (Ok (of_nat (length (varlen_spec (unat v)))) :: (EncodeError, u32) outcome)"
  using assms by (simp add: var_int_len_eq var_int_len_u32_eq)

theorem var_int_len_correct_witness:
  "var_int_len 300 = (Ok (length (varlen_spec 300)) :: (EncodeError, nat) outcome) \<and>
   var_int_len_u32 127 = (Ok (of_nat (length (varlen_spec (unat (127 :: u32))))) ::
     (EncodeError, u32) outcome)"
  by (rule var_int_len_correct) simp

text \<open>\<^verbatim>\<open>var_int_len_from_size\<close> inverts \<open>n \<mapsto> n + var_int_len n\<close>: from the number of bytes that a
  length prefix and its content take together it recovers the length, without overflow.\<close>

theorem var_int_len_from_size_correct:
  assumes "n + length (varlen_spec n) < 2 ^ 32"
  shows "var_int_len_from_size (of_nat (n + length (varlen_spec n))) =
    (Ok (of_nat n) :: (EncodeError, u32) outcome)"
  by (rule var_int_len_from_size_eq) (use assms in simp)

theorem var_int_len_from_size_correct_witness:
  "var_int_len_from_size (of_nat (127 + length (varlen_spec 127))) =
   (Ok (of_nat 127) :: (EncodeError, u32) outcome)"
  by (rule var_int_len_from_size_correct) (simp add: varlen_spec_1)

end
