(* ===== verification/Framing.thy ===== *)
theory Framing
  imports VarLen
begin

text \<open>
  Frame decoding. \<^verbatim>\<open>src/v3/codec/codec.rs\<close> and \<^verbatim>\<open>src/v5/codec/codec.rs\<close> contain the same
  \<^verbatim>\<open>Decoder::decode\<close> loop over the states \<^verbatim>\<open>FrameHeader\<close> and \<^verbatim>\<open>Frame\<close>, each around its own
  \<^verbatim>\<open>decode_packet\<close>; it is modelled once, with that function as an argument. The loop body runs at
  most twice (\<^verbatim>\<open>Frame\<close> always returns), so it is unrolled.

  The interface to the packet decoder is the locale \<open>framing\<close>: it only has to return. The theorems
  of the locale say that the frame decoder never panics, that a result does not depend on bytes
  that arrive later, and that the packets delivered do not depend on how the stream is cut into
  chunks.
\<close>

datatype DecodeState = FrameHeader | Frame FixedHeader

type_synonym 'p packet_decoder = "bytes \<Rightarrow> u8 \<Rightarrow> (DecodeError, 'p) outcome"
type_synonym 'p frame_result = "(DecodeError, 'p option) outcome \<times> DecodeState \<times> bytes"

text \<open>The branch \<^verbatim>\<open>DecodeState::Frame(fixed)\<close>. An error of \<^verbatim>\<open>decode_packet\<close> leaves the state as it
  is, with the frame's bytes already split off.\<close>

definition decode_frame :: "'p packet_decoder \<Rightarrow> FixedHeader \<Rightarrow> bytes \<Rightarrow> 'p frame_result" where
  "decode_frame decode_packet fixed src =
     (let n = unat (remaining_length fixed)
      in if length src < n then (Ok None, Frame fixed, src)
         else (case decode_packet (take n src) (first_byte fixed) of
             Ok packet \<Rightarrow> (Ok (Some packet), FrameHeader, drop n src)
           | Err e \<Rightarrow> (Err e, Frame fixed, drop n src)
           | Panic \<Rightarrow> (Panic, Frame fixed, drop n src)
           | Diverge \<Rightarrow> (Diverge, Frame fixed, drop n src)))"

definition decode_header :: "'p packet_decoder \<Rightarrow> u32 \<Rightarrow> bytes \<Rightarrow> 'p frame_result" where
  "decode_header decode_packet max_size src =
     (if length src < 2 then (Ok None, FrameHeader, src)
      else case decode_variable_length (tl src) of
          Ok (Some (rlen, consumed)) \<Rightarrow>
            if max_size \<noteq> 0 \<and> max_size < rlen
            then (Err MaxSizeExceeded, FrameHeader, src)
            else (case advance (consumed + 1) src :: (DecodeError, bytes) outcome of
                Ok rest \<Rightarrow>
                  (let fixed = \<lparr>first_byte = hd src, remaining_length = rlen\<rparr>
                   in if length rest < unat rlen then (Ok None, Frame fixed, rest)
                      else decode_frame decode_packet fixed rest)
              | _ \<Rightarrow> (Panic, FrameHeader, src))
        | Ok None \<Rightarrow> (Ok None, FrameHeader, src)
        | Err e \<Rightarrow> (Err e, FrameHeader, src)
        | Panic \<Rightarrow> (Panic, FrameHeader, src)
        | Diverge \<Rightarrow> (Diverge, FrameHeader, src))"

definition frame_step ::
  "'p packet_decoder \<Rightarrow> u32 \<Rightarrow> DecodeState \<Rightarrow> bytes \<Rightarrow> 'p frame_result" where
  "frame_step decode_packet max_size st src =
     (case st of FrameHeader \<Rightarrow> decode_header decode_packet max_size src
      | Frame fixed \<Rightarrow> decode_frame decode_packet fixed src)"

lemma decode_frame_Some:
  "decode_frame d fixed src = (Ok (Some p), st', rest) \<Longrightarrow>
   st' = FrameHeader \<and> length rest \<le> length src"
  by (auto simp: decode_frame_def Let_def split: if_splits outcome.splits)

lemma decode_header_Some:
  assumes "decode_header d m src = (Ok (Some p), st', rest)"
  shows "st' = FrameHeader \<and> length rest < length src"
  using assms
  by (auto simp: decode_header_def advance_def Let_def
      split: if_splits outcome.splits option.splits dest!: decode_frame_Some)

definition frame_measure :: "DecodeState \<Rightarrow> bytes \<Rightarrow> nat" where
  "frame_measure st src = 2 * length src + (case st of FrameHeader \<Rightarrow> 0 | Frame _ \<Rightarrow> 1)"

lemma frame_step_Some:
  assumes "frame_step d m st src = (Ok (Some p), st', rest)"
  shows "st' = FrameHeader \<and> frame_measure st' rest < frame_measure st src"
  using assms by (cases st)
    (auto simp: frame_step_def frame_measure_def dest!: decode_header_Some decode_frame_Some)

text \<open>The read loop of the connection: frames are taken until more data is needed or decoding fails.\<close>

function frames ::
  "'p packet_decoder \<Rightarrow> u32 \<Rightarrow> DecodeState \<Rightarrow> bytes \<Rightarrow>
   'p list \<times> (DecodeError, unit) outcome \<times> DecodeState \<times> bytes" where
  "frames d m st src =
     (case frame_step d m st src of
        (Ok (Some p), st', rest) \<Rightarrow>
          (case frames d m st' rest of (ps, r) \<Rightarrow> (p # ps, r))
      | (Ok None, st', rest) \<Rightarrow> ([], Ok (), st', rest)
      | (Err e, st', rest) \<Rightarrow> ([], Err e, st', rest)
      | (Panic, st', rest) \<Rightarrow> ([], Panic, st', rest)
      | (Diverge, st', rest) \<Rightarrow> ([], Diverge, st', rest))"
  by pat_completeness auto
termination
  by (relation "measure (\<lambda>(d, m, st, src). frame_measure st src)")
    (auto dest!: frame_step_Some [OF sym] simp: frame_step_Some)

declare frames.simps [simp del]

text \<open>Chunks as the transport delivers them, appended to what is left in the read buffer.\<close>

fun feed ::
  "'p packet_decoder \<Rightarrow> u32 \<Rightarrow> DecodeState \<Rightarrow> bytes \<Rightarrow> bytes list \<Rightarrow>
   'p list \<times> (DecodeError, unit) outcome \<times> DecodeState \<times> bytes" where
  "feed d m st buf [] = ([], Ok (), st, buf)"
| "feed d m st buf (c # cs) =
     (case frames d m st (buf @ c) of
        (ps, Ok u, st', rest) \<Rightarrow> (case feed d m st' rest cs of (qs, r) \<Rightarrow> (ps @ qs, r))
      | (ps, r, st', rest) \<Rightarrow> (ps, r, st', rest @ concat cs))"

section \<open>Results do not depend on later bytes\<close>

lemma decode_frame_extend:
  "decode_frame d fixed src = (r, st', rest) \<Longrightarrow> r \<noteq> Ok None \<Longrightarrow>
   decode_frame d fixed (src @ ys) = (r, st', rest @ ys)"
  by (auto simp: decode_frame_def Let_def not_less split: if_splits outcome.splits)

lemma decode_frame_wait:
  "decode_frame d fixed src = (Ok None, st', rest) \<Longrightarrow>
   decode_frame d fixed (src @ ys) = frame_step d m st' (rest @ ys)"
  by (auto simp: decode_frame_def Let_def frame_step_def split: if_splits outcome.splits)

lemma decode_header_extend_Some:
  assumes "\<not> length src < 2" "decode_variable_length (tl src) = Ok (Some (n, c))"
  shows "decode_variable_length (tl (src @ ys)) = Ok (Some (n, c))" "c + 1 \<le> length src"
    "hd (src @ ys) = hd src" "drop (c + 1) (src @ ys) = drop (c + 1) src @ ys"
  using decode_variable_length_extend(1) [OF assms(2), of ys]
    decode_variable_length_extend(2-4) [OF assms(2)] assms(1)
  by (cases src; simp)+

lemma decode_header_complete:
  assumes "\<not> length src < 2" "decode_variable_length (tl src) = Ok (Some (n, c))"
    and "m = 0 \<or> n \<le> m"
  shows "decode_header d m src =
    decode_frame d \<lparr>first_byte = hd src, remaining_length = n\<rparr> (drop (c + 1) src)"
proof -
  have "\<not> (m \<noteq> 0 \<and> m < n)" using assms(3) by auto
  with assms(1,2) decode_header_extend_Some(2) [OF assms(1,2)] show ?thesis
    by (auto simp: decode_header_def advance_def Let_def decode_frame_def split: outcome.split)
qed

lemma decode_header_extend:
  assumes "decode_header d m src = (r, st', rest)" "r \<noteq> Ok None"
  shows "decode_header d m (src @ ys) = (r, st', rest @ ys)"
proof -
  have len: "\<not> length src < 2" using assms by (auto simp: decode_header_def)
  show ?thesis
  proof (cases "decode_variable_length (tl src)")
    case (Ok v)
    with len assms obtain n c where v: "v = Some (n, c)"
      by (cases v) (auto simp: decode_header_def)
    note x = decode_header_extend_Some [OF len Ok [unfolded v]]
    show ?thesis
      using assms len x Ok v
      by (auto simp: decode_header_def advance_def Let_def decode_frame_extend simp del: tl_append2
          split: if_splits)
  next
    case (Err e)
    from len have "tl (src @ ys) = tl src @ ys" by (cases src) auto
    with decode_variable_length_extend_Err(2) [OF Err, of ys] Err assms len show ?thesis
      by (auto simp: decode_header_def)
  qed (use returns_decode_variable_length [of "tl src"] in auto)
qed

lemma decode_header_wait:
  assumes "decode_header d m src = (Ok None, st', rest)"
  shows "decode_header d m (src @ ys) = frame_step d m st' (rest @ ys)"
proof (cases "st' = FrameHeader")
  case True
  with assms have "rest = src"
    by (auto simp: decode_header_def decode_frame_def Let_def split: if_splits outcome.splits
        option.splits)
  with True show ?thesis by (simp add: frame_step_def)
next
  case False
  with assms have len: "\<not> length src < 2" by (auto simp: decode_header_def)
  from False assms len obtain n c where v: "decode_variable_length (tl src) = Ok (Some (n, c))"
    by (auto simp: decode_header_def split: outcome.splits option.splits)
  note x = decode_header_extend_Some [OF len v]
  let ?f = "\<lparr>first_byte = hd src, remaining_length = n\<rparr>"
  have "st' = Frame ?f \<and> rest = drop (c + 1) src \<and> (m = 0 \<or> n \<le> m)"
    using assms len x(2) v by (auto simp: decode_header_def advance_def Let_def decode_frame_def
        split: if_splits outcome.splits)
  moreover from this have "decode_header d m (src @ ys) = decode_frame d ?f (rest @ ys)"
    using decode_header_complete [of "src @ ys" n c m d] len x by simp
  ultimately show ?thesis by (simp add: frame_step_def)
qed

lemma frame_step_extend:
  "frame_step d m st src = (r, st', rest) \<Longrightarrow> r \<noteq> Ok None \<Longrightarrow>
   frame_step d m st (src @ ys) = (r, st', rest @ ys)"
  by (cases st) (auto simp: frame_step_def decode_header_extend decode_frame_extend)

lemma frame_step_simps:
  "frame_step d m FrameHeader src = decode_header d m src"
  "frame_step d m (Frame fixed) src = decode_frame d fixed src"
  by (simp_all add: frame_step_def)

lemma frame_step_wait:
  "frame_step d m st src = (Ok None, st', rest) \<Longrightarrow>
   frame_step d m st (src @ ys) = frame_step d m st' (rest @ ys)"
  by (cases st) (simp_all add: frame_step_simps decode_header_wait decode_frame_wait)

lemma frames_append:
  "frames d m st (src @ ys) =
   (case frames d m st src of
      (ps, Ok u, st', rest) \<Rightarrow> (case frames d m st' (rest @ ys) of (qs, r) \<Rightarrow> (ps @ qs, r))
    | (ps, r, st', rest) \<Rightarrow> (ps, r, st', rest @ ys))"
proof (induction d m st src rule: frames.induct)
  case (1 d m st src)
  obtain r st' rest where s: "frame_step d m st src = (r, st', rest)"
    by (cases "frame_step d m st src") auto
  show ?case
  proof (cases "r = Ok None")
    case True
    then have "frames d m st (src @ ys) = frames d m st' (rest @ ys)"
      using frame_step_wait [of d m st src st' rest ys] s
      by (simp add: frames.simps [of d m st "src @ ys"] frames.simps [of d m st' "rest @ ys"])
    with True s show ?thesis by (simp add: frames.simps [of d m st src] split: prod.split)
  next
    case False
    note e = frame_step_extend [OF s False, of ys]
    show ?thesis
    proof (cases r)
      case (Ok v)
      with False obtain p where p: "r = Ok (Some p)" by (cases v) auto
      have "frames d m st' (rest @ ys) =
        (case frames d m st' rest of
          (ps, Ok u, st', rest) \<Rightarrow> (case frames d m st' (rest @ ys) of (qs, r) \<Rightarrow> (ps @ qs, r))
        | (ps, r, st', rest) \<Rightarrow> (ps, r, st', rest @ ys))"
        using "1.IH" [OF s [symmetric] p refl refl] by simp
      then show ?thesis using s p e
        by (simp add: frames.simps [of d m st "src @ ys"] frames.simps [of d m st src]
            split: prod.split outcome.split)
    qed (use s e in \<open>simp_all add: frames.simps [of d m st "src @ ys"] frames.simps [of d m st src]\<close>)
  qed
qed

lemma frames_settled:
  "frames d m st src = (ps, Ok u, st', rest) \<Longrightarrow> frames d m st' rest = ([], Ok (), st', rest)"
proof (induction d m st src arbitrary: ps rule: frames.induct)
  case (1 d m st src)
  obtain r st1 rest1 where s: "frame_step d m st src = (r, st1, rest1)"
    by (cases "frame_step d m st src") auto
  consider "r = Ok None" | p where "r = Ok (Some p)" | "\<forall>v. r \<noteq> Ok v" by (cases r) auto
  then show ?case
  proof cases
    case 1
    then have "st1 = st'" "rest1 = rest" using s "1.prems" by (auto simp: frames.simps [of d m st])
    then have "frame_step d m st' rest = (Ok None, st', rest)"
      using frame_step_wait [of d m st src st1 rest1 "[]"] 1 s by simp
    then show ?thesis by (simp add: frames.simps [of d m st'])
  next
    case (2 p)
    with s "1.prems" obtain qs where "frames d m st1 rest1 = (qs, Ok u, st', rest)"
      by (auto simp: frames.simps [of d m st] split: prod.splits)
    with "1.IH" [OF s [symmetric] 2 refl refl] show ?thesis by simp
  next
    case 3
    with s "1.prems" show ?thesis by (cases r) (auto simp: frames.simps [of d m st])
  qed
qed

text \<open>Chunked input gives the same packets, result, state and rest as the whole input at once.\<close>

lemma feed_frames:
  "frames d m st buf = ([], Ok (), st, buf) \<Longrightarrow> feed d m st buf cs = frames d m st (buf @ concat cs)"
proof (induction cs arbitrary: st buf)
  case (Cons c cs)
  obtain ps r st' rest where f: "frames d m st (buf @ c) = (ps, r, st', rest)"
    by (cases "frames d m st (buf @ c)") auto
  show ?case
  proof (cases r)
    case (Ok u)
    with f have "frames d m st' rest = ([], Ok (), st', rest)" by (auto intro: frames_settled)
    from Cons.IH [OF this] f Ok show ?thesis
      using frames_append [of d m st "buf @ c" "concat cs"] by simp
  qed (use f frames_append [of d m st "buf @ c" "concat cs"] in simp_all)
qed simp

lemma frames_start: "frames d m FrameHeader [] = ([], Ok (), FrameHeader, [])"
  by (simp add: frames.simps frame_step_simps decode_header_def)

section \<open>The interface to packet decoders\<close>

locale framing =
  fixes decode_packet :: "'p packet_decoder"
  assumes decode_packet_returns: "returns (decode_packet src b)"
begin

lemma decode_frame_returns: "returns (fst (decode_frame decode_packet fixed src))"
  using decode_packet_returns
  by (auto simp: decode_frame_def Let_def split: outcome.split) (metis returns_simps(3,4))+

lemma frame_step_returns: "returns (fst (frame_step decode_packet m st src))"
proof (cases st)
  case FrameHeader
  show ?thesis
  proof (cases "length src < 2")
    case False
    then have "src \<noteq> []" by auto
    consider n c where "decode_variable_length (tl src) = Ok (Some (n, c))"
      | "decode_variable_length (tl src) = Ok None"
      | e where "decode_variable_length (tl src) = Err e"
      using returns_decode_variable_length [of "tl src"]
      by (cases "decode_variable_length (tl src)"; cases "ok_val (decode_variable_length (tl src))")
        auto
    then show ?thesis
    proof cases
      case (1 n c)
      with decode_header_extend_Some(2) [OF False 1] False show ?thesis
        by (simp add: FrameHeader frame_step_simps decode_header_def advance_def Let_def
            decode_frame_returns)
    qed (use False in \<open>simp_all add: FrameHeader frame_step_simps decode_header_def\<close>)
  qed (simp add: FrameHeader frame_step_simps decode_header_def)
qed (simp add: frame_step_simps decode_frame_returns)

lemma frames_returns: "returns (fst (snd (frames decode_packet m st src)))"
proof (induction "frame_measure st src" arbitrary: st src rule: less_induct)
  case less
  obtain r st' rest where s: "frame_step decode_packet m st src = (r, st', rest)"
    by (cases "frame_step decode_packet m st src") auto
  with frame_step_returns [of m st src] have "returns r" by simp
  with s less [of st' rest] frame_step_Some [of decode_packet m st src _ st' rest] show ?case
    by (cases r) (auto simp: frames.simps [of _ _ st] split: option.splits prod.splits)
qed

end

text \<open>A packet decoder together with the frame contents that an encoder produces.\<close>

definition frame_bytes :: "u8 \<Rightarrow> bytes \<Rightarrow> bytes" where
  "frame_bytes b content = b # varlen_spec (length content) @ content"

locale framed_stream = framing decode_packet for decode_packet :: "'p packet_decoder" +
  fixes header :: "'p \<Rightarrow> u8" and content :: "'p \<Rightarrow> bytes" and ok :: "'p \<Rightarrow> bool"
  assumes decode_content: "ok p \<Longrightarrow> decode_packet (content p) (header p) = Ok p"
    and content_bound: "ok p \<Longrightarrow> length (content p) \<le> 268435455"
begin

lemma frame_step_image:
  assumes "ok p" "m = 0 \<or> length (content p) \<le> unat m"
  shows "frame_step decode_packet m FrameHeader (frame_bytes (header p) (content p) @ rest) =
    (Ok (Some p), FrameHeader, rest)"
proof -
  let ?n = "length (content p)" and ?src = "frame_bytes (header p) (content p) @ rest"
  have n: "unat (of_nat ?n :: u32) = ?n"
    using content_bound [OF assms(1)] by (simp add: unat_u32_of_nat)
  have len: "\<not> length ?src < 2"
    using length_varlen_spec_pos [of ?n] by (cases "varlen_spec ?n") (auto simp: frame_bytes_def)
  have "decode_variable_length (tl ?src) = Ok (Some (of_nat ?n, length (varlen_spec ?n)))"
    using content_bound [OF assms(1)] decode_variable_length_spec [of ?n "content p @ rest"]
    by (simp add: frame_bytes_def)
  moreover have "m = 0 \<or> of_nat ?n \<le> m"
    using assms(2) by (auto simp: word_le_nat_alt n)
  ultimately have "decode_header decode_packet m ?src = decode_frame decode_packet
      \<lparr>first_byte = header p, remaining_length = of_nat ?n\<rparr> (content p @ rest)"
    using decode_header_complete [OF len, of "of_nat ?n" "length (varlen_spec ?n)" m decode_packet]
    by (simp add: frame_bytes_def)
  then show ?thesis
    by (simp add: frame_step_simps decode_frame_def n decode_content [OF assms(1)])
qed

lemma frames_stream:
  "(\<And>p. p \<in> set ps \<Longrightarrow> ok p \<and> (m = 0 \<or> length (content p) \<le> unat m)) \<Longrightarrow>
   frames decode_packet m FrameHeader (concat (map (\<lambda>p. frame_bytes (header p) (content p)) ps)) =
   (ps, Ok (), FrameHeader, [])"
proof (induction ps)
  case Nil
  then show ?case by (simp add: frames_start)
next
  case (Cons p ps)
  then have "frame_step decode_packet m FrameHeader (frame_bytes (header p) (content p) @ rest) =
      (Ok (Some p), FrameHeader, rest)" for rest
    by (intro frame_step_image) auto
  with Cons show ?case by (simp add: frames.simps [of _ _ FrameHeader "frame_bytes _ _ @ _"])
qed

lemma feed_stream:
  assumes "\<And>p. p \<in> set ps \<Longrightarrow> ok p \<and> (m = 0 \<or> length (content p) \<le> unat m)"
    and "concat chunks = concat (map (\<lambda>p. frame_bytes (header p) (content p)) ps)"
  shows "feed decode_packet m FrameHeader [] chunks = (ps, Ok (), FrameHeader, [])"
  using feed_frames [OF frames_start, of decode_packet m chunks] frames_stream [of ps m] assms
  by simp

end

end
