(* ===== verification/V5_Props.thy ===== *)
theory V5_Props
  imports VarLen
begin

text \<open>
  Properties of MQTT 5 packets: the property identifiers and \<^verbatim>\<open>ack_props\<close> of
  \<^verbatim>\<open>src/v5/codec/packet/mod.rs\<close>, the helpers of \<^verbatim>\<open>src/v5/codec/encode.rs\<close> and \<^verbatim>\<open>Property::read_value\<close>
  of \<^verbatim>\<open>src/utils.rs\<close>.

  Every packet reads its properties in a loop over the bytes that \<^verbatim>\<open>take_properties\<close> splits off: one
  byte selects the local variable that the value is read into.  The locale \<open>property_reader\<close> holds
  what all these loops share: they end, they do not panic, and they read back what
  \<^verbatim>\<open>encode_property\<close> wrote.  The locale \<open>encode_ltd\<close> is the contract of the \<^verbatim>\<open>EncodeLtd\<close> trait: the
  announced size is the number of bytes written, and what is written decodes to the packet, less the
  diagnostic properties that did not fit the limit.
\<close>

section \<open>Property identifiers\<close>

definition pt_UTF8_PAYLOAD :: u8 where "pt_UTF8_PAYLOAD = 0x01"
definition pt_MSG_EXPIRY_INT :: u8 where "pt_MSG_EXPIRY_INT = 0x02"
definition pt_CONTENT_TYPE :: u8 where "pt_CONTENT_TYPE = 0x03"
definition pt_RESP_TOPIC :: u8 where "pt_RESP_TOPIC = 0x08"
definition pt_CORR_DATA :: u8 where "pt_CORR_DATA = 0x09"
definition pt_SUB_ID :: u8 where "pt_SUB_ID = 0x0B"
definition pt_SESS_EXPIRY_INT :: u8 where "pt_SESS_EXPIRY_INT = 0x11"
definition pt_ASSND_CLIENT_ID :: u8 where "pt_ASSND_CLIENT_ID = 0x12"
definition pt_SERVER_KA :: u8 where "pt_SERVER_KA = 0x13"
definition pt_AUTH_METHOD :: u8 where "pt_AUTH_METHOD = 0x15"
definition pt_AUTH_DATA :: u8 where "pt_AUTH_DATA = 0x16"
definition pt_REQ_PROB_INFO :: u8 where "pt_REQ_PROB_INFO = 0x17"
definition pt_WILL_DELAY_INT :: u8 where "pt_WILL_DELAY_INT = 0x18"
definition pt_REQ_RESP_INFO :: u8 where "pt_REQ_RESP_INFO = 0x19"
definition pt_RESP_INFO :: u8 where "pt_RESP_INFO = 0x1A"
definition pt_SERVER_REF :: u8 where "pt_SERVER_REF = 0x1C"
definition pt_REASON_STRING :: u8 where "pt_REASON_STRING = 0x1F"
definition pt_RECEIVE_MAX :: u8 where "pt_RECEIVE_MAX = 0x21"
definition pt_TOPIC_ALIAS_MAX :: u8 where "pt_TOPIC_ALIAS_MAX = 0x22"
definition pt_TOPIC_ALIAS :: u8 where "pt_TOPIC_ALIAS = 0x23"
definition pt_MAX_QOS :: u8 where "pt_MAX_QOS = 0x24"
definition pt_RETAIN_AVAIL :: u8 where "pt_RETAIN_AVAIL = 0x25"
definition pt_USER :: u8 where "pt_USER = 0x26"
definition pt_MAX_PACKET_SIZE :: u8 where "pt_MAX_PACKET_SIZE = 0x27"
definition pt_WILDCARD_SUB_AVAIL :: u8 where "pt_WILDCARD_SUB_AVAIL = 0x28"
definition pt_SUB_IDS_AVAIL :: u8 where "pt_SUB_IDS_AVAIL = 0x29"
definition pt_SHARED_SUB_AVAIL :: u8 where "pt_SHARED_SUB_AVAIL = 0x2A"

lemmas property_type_defs =
  pt_UTF8_PAYLOAD_def pt_MSG_EXPIRY_INT_def pt_CONTENT_TYPE_def pt_RESP_TOPIC_def pt_CORR_DATA_def
  pt_SUB_ID_def pt_SESS_EXPIRY_INT_def pt_ASSND_CLIENT_ID_def pt_SERVER_KA_def pt_AUTH_METHOD_def
  pt_AUTH_DATA_def pt_REQ_PROB_INFO_def pt_WILL_DELAY_INT_def pt_REQ_RESP_INFO_def
  pt_RESP_INFO_def pt_SERVER_REF_def pt_REASON_STRING_def pt_RECEIVE_MAX_def
  pt_TOPIC_ALIAS_MAX_def pt_TOPIC_ALIAS_def pt_MAX_QOS_def pt_RETAIN_AVAIL_def pt_USER_def
  pt_MAX_PACKET_SIZE_def pt_WILDCARD_SUB_AVAIL_def pt_SUB_IDS_AVAIL_def pt_SHARED_SUB_AVAIL_def

type_synonym UserProperty = "bytestring \<times> bytestring"
type_synonym UserProperties = "UserProperty list"

section \<open>Reading properties\<close>

text \<open>\<^verbatim>\<open>x.read_value(src)?\<close> for an optional local variable and for a vector, and the arm for an unknown
  property.  The local variables of a loop are the fields of a record; \<open>get\<close> and \<open>upd\<close> are the
  selector and the update of one of them.\<close>

definition read_value ::
  "('s \<Rightarrow> 'a option) \<Rightarrow> (('a option \<Rightarrow> 'a option) \<Rightarrow> 's \<Rightarrow> 's) \<Rightarrow> (DecodeError, 'a) decoder \<Rightarrow>
   (DecodeError, 's) body" where
  "read_value get upd decode s src =
    ensure (get s = None) DecodeError.MalformedPacket
      (and_then (decode src) (\<lambda>(v, src). Ok (upd (\<lambda>_. Some v) s, src)))"

definition read_push ::
  "(('a list \<Rightarrow> 'a list) \<Rightarrow> 's \<Rightarrow> 's) \<Rightarrow> (DecodeError, 'a) decoder \<Rightarrow> (DecodeError, 's) body" where
  "read_push upd decode s src =
    and_then (decode src) (\<lambda>(v, src). Ok (upd (\<lambda>vs. vs @ [v]) s, src))"

definition unknown_property :: "(DecodeError, 's) body" where
  "unknown_property s src = Err DecodeError.MalformedPacket"

definition property_body :: "(u8 \<Rightarrow> (DecodeError, 's) body) \<Rightarrow> (DecodeError, 's) body" where
  "property_body arms s src = and_then (get_u8 src) (\<lambda>(t, src). arms t s src)"

definition read_properties ::
  "(u8 \<Rightarrow> (DecodeError, 's) body) \<Rightarrow> 's \<Rightarrow> bytes \<Rightarrow> (DecodeError, 's) outcome" where
  "read_properties arms s src = while_remaining (property_body arms) s src"

text \<open>The shape in which all packets use it: split the properties off, then loop over them.\<close>

definition decode_properties ::
  "(u8 \<Rightarrow> (DecodeError, 's) body) \<Rightarrow> 's \<Rightarrow> (DecodeError, 's) decoder" where
  "decode_properties arms s src =
    and_then (take_properties src) (\<lambda>(prop_src, src).
    and_then (read_properties arms s prop_src) (\<lambda>s. Ok (s, src)))"

section \<open>Writing properties\<close>

definition encoded_property_size :: "('a \<Rightarrow> nat) \<Rightarrow> 'a option \<Rightarrow> nat" where
  "encoded_property_size encoded_size v = (case v of None \<Rightarrow> 0 | Some v \<Rightarrow> 1 + encoded_size v)"

definition encode_property :: "('a \<Rightarrow> 'e encoder) \<Rightarrow> 'a option \<Rightarrow> u8 \<Rightarrow> 'e encoder" where
  "encode_property encode v prop_type =
    (case v of Some v \<Rightarrow> steps [put [prop_type], encode v] | None \<Rightarrow> put [])"

definition encoded_bool_property_size :: "bool \<Rightarrow> bool \<Rightarrow> nat" where
  "encoded_bool_property_size v skip_if = (if v = skip_if then 0 else 2)"

definition encode_bool_property :: "bool \<Rightarrow> u8 \<Rightarrow> bool \<Rightarrow> EncodeError encoder" where
  "encode_bool_property v prop_type skip_if =
    (if v \<noteq> skip_if then steps [put [prop_type], bool_encode v] else put [])"

definition UserProperties_encoded_size :: "UserProperties \<Rightarrow> nat" where
  "UserProperties_encoded_size ps = fold (\<lambda>p len. len + (1 + Pair_encoded_size p)) ps 0"

definition UserProperties_encode :: "UserProperties \<Rightarrow> EncodeError encoder" where
  "UserProperties_encode ps = for_each ps (\<lambda>p. steps [put [pt_USER], Pair_encode p])"

definition reduce_limit :: "u32 \<Rightarrow> nat \<Rightarrow> u32" where
  "reduce_limit limit reduction =
    (if reduction > unat limit then 0 else limit - of_nat reduction)"

text \<open>The two functions on the diagnostic properties.  Both loops leave with an early return when a
  user property does not fit any more; \<open>limit\<close> and \<open>size\<close> are only reduced by what was compared
  with them before.\<close>

fun encoded_size_opt_props :: "UserProperties \<Rightarrow> bytestring option \<Rightarrow> u32 \<Rightarrow> nat" where
  "encoded_size_opt_props [] reason_str limit =
    (case reason_str of
       Some reason \<Rightarrow>
         let reason_len = 1 + ByteString_encoded_size reason in
         if reason_len \<le> unat limit then reason_len else 0
     | None \<Rightarrow> 0)"
| "encoded_size_opt_props (up # user_props) reason_str limit =
    (let prop_len = 1 + Pair_encoded_size up in
     if prop_len > unat limit then 0
     else prop_len + encoded_size_opt_props user_props reason_str (limit - of_nat prop_len))"

fun encode_opt_props ::
  "UserProperties \<Rightarrow> bytestring option \<Rightarrow> u32 \<Rightarrow> EncodeError encoder" where
  "encode_opt_props [] reason_str sz =
    (case reason_str of
       Some reason \<Rightarrow>
         if length reason < unat sz then steps [put [pt_REASON_STRING], ByteString_encode reason]
         else put []
     | None \<Rightarrow> put [])"
| "encode_opt_props (up # user_props) reason_str sz =
    (let prop_len = 1 + ByteString_encoded_size (fst up) + ByteString_encoded_size (snd up) in
     if prop_len > unat sz then put []
     else steps
       [put [pt_USER], Pair_encode up, encode_opt_props user_props reason_str (sz - of_nat prop_len)])"

text \<open>\<^verbatim>\<open>size - (buf.len() - start_len)\<close>: an encoder that is followed by one that depends on the number
  of bytes the first one wrote.\<close>

definition with_written :: "'e encoder \<Rightarrow> (nat \<Rightarrow> 'e encoder) \<Rightarrow> 'e encoder" where
  "with_written a k = with_len (\<lambda>start_len. enc_seq a (with_len (\<lambda>len. k (len - start_len))))"

section \<open>Properties of acknowledgements\<close>

record ack_props =
  ap_user_props :: UserProperties
  ap_reason_string :: "bytestring option"

definition ack_props_encoded_size ::
  "UserProperties \<Rightarrow> bytestring option \<Rightarrow> u32 \<Rightarrow> (EncodeError, nat) outcome" where
  "ack_props_encoded_size properties reason_string limit =
    (if limit < 4 then Ok 1
     else
       let len = encoded_size_opt_props properties reason_string (limit - 4) in
       and_then (var_int_len len) (\<lambda>n. Ok (n + len)))"

definition ack_props_encode ::
  "UserProperties \<Rightarrow> bytestring option \<Rightarrow> u32 \<Rightarrow> EncodeError encoder" where
  "ack_props_encode properties reason_string sz =
    (if \<not> 0 < sz then enc_fail Panic
     else if sz = 1 then put [0]
     else enc_val (var_int_len_from_size sz) (\<lambda>sz.
       steps [write_variable_length sz, encode_opt_props properties reason_string sz]))"

definition ack_props_arms :: "u8 \<Rightarrow> (DecodeError, ack_props) body" where
  "ack_props_arms prop_id =
    (if prop_id = pt_REASON_STRING then
       read_value ap_reason_string ap_reason_string_update ByteString_decode
     else if prop_id = pt_USER then read_push ap_user_props_update UserProperty_decode
     else unknown_property)"

definition ack_props_decode ::
  "(DecodeError, UserProperties \<times> bytestring option) decoder" where
  "ack_props_decode src =
    and_then (decode_properties ack_props_arms \<lparr>ap_user_props = [], ap_reason_string = None\<rparr> src)
      (\<lambda>(p, src). Ok ((ap_user_props p, ap_reason_string p), src))"

section \<open>Images of properties\<close>

definition prop_image :: "u8 \<Rightarrow> ('a \<Rightarrow> bytes) \<Rightarrow> 'a option \<Rightarrow> bytes" where
  "prop_image t img v = opt_image (\<lambda>x. t # img x) v"

definition user_image :: "UserProperties \<Rightarrow> bytes" where
  "user_image ps = concat (map (\<lambda>p. pt_USER # Pair_image p) ps)"

definition diag_image :: "UserProperties \<Rightarrow> bytestring option \<Rightarrow> bytes" where
  "diag_image ps r = user_image ps @ prop_image pt_REASON_STRING Bytes_image r"

text \<open>A block of properties behind its length.\<close>

definition props_image :: "bytes \<Rightarrow> bytes" where
  "props_image bs = varlen_spec (length bs) @ bs"

text \<open>The diagnostic properties that fit a limit: user properties up to the first one that does not
  fit, and the reason string only if all of them did.\<close>

fun fit_props :: "nat \<Rightarrow> UserProperties \<Rightarrow> bytestring option \<Rightarrow> UserProperties \<times> bytestring option" where
  "fit_props limit [] reason =
    ([], case reason of Some r \<Rightarrow> if 3 + length r \<le> limit then Some r else None | None \<Rightarrow> None)"
| "fit_props limit (p # ps) reason =
    (let n = 1 + length (Pair_image p) in
     if n > limit then ([], None)
     else let (ps', reason') = fit_props (limit - n) ps reason in (p # ps', reason'))"

abbreviation valid_props :: "UserProperties \<Rightarrow> bool" where
  "valid_props ps \<equiv> list_all valid_Pair ps"

lemma prop_image_simps [simp]:
  "prop_image t img None = []" "prop_image t img (Some x) = t # img x"
  by (simp_all add: prop_image_def)

lemma user_image_simps [simp]:
  "user_image [] = []" "user_image (p # ps) = pt_USER # Pair_image p @ user_image ps"
  by (simp_all add: user_image_def)

lemma user_image_append [simp]: "user_image (ps @ qs) = user_image ps @ user_image qs"
  by (simp add: user_image_def)

section \<open>Sizes and writers of properties\<close>

context wire
begin

lemma encoded_property_size_image:
  "encoded_property_size encoded_size v = length (prop_image t image v)"
  by (cases v) (simp_all add: encoded_property_size_def length_image)

lemma writes_property:
  assumes "valid_opt valid v"
  shows "writes (encode_property encode v t) (prop_image t image v)"
proof (cases v)
  case (Some x)
  have "writes (steps [put [t], encode x]) ([t] @ image x @ [])"
    using assms Some by (intro writes_intro writes_image) simp
  then show ?thesis by (simp add: encode_property_def Some)
qed (simp add: encode_property_def writes_put)

lemma appends_property: "appends (encode_property encode v t)"
  by (auto simp: encode_property_def encode_appends split: option.split)

end

lemmas property_writes_intros [writes_intro] =
  bool.writes_property u16.writes_property u32.writes_property NonZeroU16.writes_property
  NonZeroU32.writes_property Bytes.writes_property ByteString.writes_property

lemmas property_appends_intros [intro, simp] =
  bool.appends_property u16.appends_property u32.appends_property NonZeroU16.appends_property
  NonZeroU32.appends_property Bytes.appends_property ByteString.appends_property

lemma encoded_size_same:
  "ByteString_encoded_size = Bytes_encoded_size" "NonZeroU16_encoded_size = u16_encoded_size"
  "NonZeroU32_encoded_size = u32_encoded_size"
  by (simp_all add: fun_eq_iff ByteString_encoded_size_def Slice_Bytes NonZeroU16_encoded_size_def
      NonZeroU32_encoded_size_def u16_encoded_size_def u32_encoded_size_def)

lemmas property_size_simps =
  bool.encoded_property_size_image [symmetric] u16.encoded_property_size_image [symmetric]
  u32.encoded_property_size_image [symmetric] Bytes.encoded_property_size_image [symmetric]
  encoded_size_same

lemma valid_opt_True [simp]: "valid_opt (\<lambda>_. True) v"
  by (cases v) simp_all

lemma encoded_bool_property_size_image:
  "encoded_bool_property_size v skip_if = length (if v \<noteq> skip_if then t # bool_image v else [])"
  by (simp add: encoded_bool_property_size_def bool_image_def)

lemma writes_bool_property [writes_intro]:
  "writes (encode_bool_property v t skip_if) (if v \<noteq> skip_if then t # bool_image v else [])"
proof -
  have "writes (steps [put [t], bool_encode v]) ([t] @ bool_image v @ [])"
    by (intro writes_intro)
  then show ?thesis by (auto simp: encode_bool_property_def writes_put)
qed

lemma writes_user_steps: "valid_Pair p \<Longrightarrow> writes (steps [put [pt_USER], Pair_encode p]) (pt_USER # Pair_image p)"
proof -
  assume "valid_Pair p"
  then have "writes (steps [put [pt_USER], Pair_encode p]) ([pt_USER] @ Pair_image p @ [])"
    by (intro writes_intro)
  then show ?thesis by simp
qed

lemma UserProperties_encoded_size_image: "UserProperties_encoded_size ps = length (user_image ps)"
proof -
  have "fold (\<lambda>p len. len + (1 + Pair_encoded_size p)) ps n = n + length (user_image ps)" for n
    by (induction ps arbitrary: n) auto
  then show ?thesis by (simp add: UserProperties_encoded_size_def)
qed

lemma writes_UserProperties [writes_intro]:
  "valid_props ps \<Longrightarrow> writes (UserProperties_encode ps) (user_image ps)"
  unfolding UserProperties_encode_def user_image_def
  by (rule writes_for_each) (auto simp: list_all_iff intro: writes_user_steps)

lemma writes_with_written:
  "\<lbrakk>writes a xs; writes (k (length xs)) ys\<rbrakk> \<Longrightarrow> writes (with_written a k) (xs @ ys)"
  by (simp add: writes_def with_written_def with_len_def enc_seq_def)

subsection \<open>Diagnostic properties\<close>

lemma unat_reduce_limit: "unat (reduce_limit limit n) = unat limit - n"
proof (cases "n \<le> unat limit")
  case True
  have "unat limit < 4294967296" using unsigned_less [of limit, where 'a = nat] by simp
  with True have "unat (of_nat n :: u32) = n" by (simp add: unat_u32_of_nat)
  with True show ?thesis by (simp add: reduce_limit_def unat_sub word_le_nat_alt)
qed (simp add: reduce_limit_def)

lemma unat_minus_of_nat: "n \<le> unat (limit :: u32) \<Longrightarrow> unat (limit - of_nat n) = unat limit - n"
  using unat_reduce_limit [of limit n] by (simp add: reduce_limit_def)

lemma ByteString_size: "ByteString_encoded_size s = 2 + length s"
  by (simp add: ByteString_encoded_size_def Slice_encoded_size_def)

lemma encoded_size_opt_props_fit:
  "encoded_size_opt_props ps reason limit =
    length (case_prod diag_image (fit_props (unat limit) ps reason))"
proof (induction ps arbitrary: limit)
  case Nil
  then show ?case by (auto simp: diag_image_def ByteString_size Bytes_encoded_size_def split: option.split)
next
  case (Cons p ps)
  show ?case
  proof (cases "1 + Pair_encoded_size p \<le> unat limit")
    case True
    then show ?thesis
      using Cons.IH [of "limit - of_nat (1 + Pair_encoded_size p)"]
        unat_minus_of_nat [OF True]
      by (auto simp: Let_def diag_image_def split: prod.split simp del: of_nat_add of_nat_Suc)
  qed (simp add: diag_image_def)
qed

lemma fit_props_le:
  "length (case_prod diag_image (fit_props limit ps reason)) \<le> limit"
proof (induction limit ps reason rule: fit_props.induct)
  case (1 limit reason)
  then show ?case
    by (auto simp: diag_image_def Bytes_encoded_size_def split: option.split)
next
  case (2 limit p ps reason)
  then show ?case
    by (cases "fit_props (limit - (1 + length (Pair_image p))) ps reason")
      (auto simp: Let_def diag_image_def)
qed

lemma fit_props_all:
  "length (diag_image ps reason) \<le> limit \<Longrightarrow> fit_props limit ps reason = (ps, reason)"
  by (induction limit ps reason rule: fit_props.induct)
    (auto simp: Let_def diag_image_def Bytes_encoded_size_def split: option.splits)

lemma fit_props_valid:
  assumes "fit_props limit ps reason = (ps', reason')" "valid_props ps" "valid_opt valid_ByteString reason"
  shows "valid_props ps' \<and> valid_opt valid_ByteString reason'"
  using assms
  by (induction limit ps reason arbitrary: ps' reason' rule: fit_props.induct)
    (auto simp: Let_def split: option.splits if_splits prod.splits)

lemma writes_opt_props:
  assumes "valid_props ps" "valid_opt valid_ByteString reason"
    and "length (case_prod diag_image (fit_props limit ps reason)) < 4294967296"
  shows "writes
    (encode_opt_props ps reason (of_nat (length (case_prod diag_image (fit_props limit ps reason)))))
    (case_prod diag_image (fit_props limit ps reason))"
  using assms
proof (induction ps arbitrary: limit)
  case Nil
  show ?case
  proof (cases reason)
    case (Some r)
    have "writes (steps [put [pt_REASON_STRING], ByteString_encode r])
        ([pt_REASON_STRING] @ Bytes_image r @ [])"
      using Nil Some by (intro writes_intro) simp
    with Nil Some show ?thesis
      by (auto simp: diag_image_def unat_u32_of_nat Bytes_encoded_size_def writes_put
          simp del: of_nat_add of_nat_Suc)
  qed (simp add: diag_image_def writes_put)
next
  case (Cons p ps)
  let ?n = "1 + length (Pair_image p)"
  have n: "1 + ByteString_encoded_size (fst p) + ByteString_encoded_size (snd p) = ?n"
    by (simp add: Pair_encoded_size_def)
  show ?case
  proof (cases "?n \<le> limit")
    case True
    obtain ps' r' where fit: "fit_props (limit - ?n) ps reason = (ps', r')" by fastforce
    let ?k = "length (diag_image ps' r')"
    have split: "case_prod diag_image (fit_props limit (p # ps) reason) =
        (pt_USER # Pair_image p) @ diag_image ps' r'"
      using True fit by (simp add: Let_def diag_image_def)
    have bound: "?n + ?k < 4294967296" using Cons.prems(3) by (simp only: split) simp
    have len: "length ((pt_USER # Pair_image p) @ diag_image ps' r') = ?n + ?k" by simp
    have rest: "of_nat (?n + ?k) - of_nat ?n = (of_nat ?k :: u32)"
      by (simp only: of_nat_add add_diff_cancel_left')
    have le: "?n \<le> unat (of_nat (?n + ?k) :: u32)"
      by (simp only: unat_u32_of_nat [OF bound] le_add1)
    have "length (case_prod diag_image (fit_props (limit - ?n) ps reason)) < 4294967296"
      by (simp only: fit prod.case) (use bound in simp)
    from Cons.IH [OF _ _ this] Cons.prems
    have IH: "writes (encode_opt_props ps reason (of_nat ?k)) (diag_image ps' r')"
      by (simp only: fit prod.case list.pred_inject simp_thms)
    have "writes (steps [put [pt_USER], Pair_encode p, encode_opt_props ps reason (of_nat ?k)])
        ([pt_USER] @ Pair_image p @ diag_image ps' r' @ [])"
      using Cons.prems IH by (intro writes_intro) simp_all
    with le show ?thesis
      by (simp only: split len encode_opt_props.simps Let_def n rest not_less [symmetric])
        (simp add: not_less)
  next
    case False
    then show ?thesis by (simp add: Let_def diag_image_def writes_put Pair_encoded_size_def)
  qed
qed

section \<open>Loops over properties\<close>

lemma returns_read_value [returns_intro]:
  "(\<And>src. returns (decode src)) \<Longrightarrow> returns (read_value get upd decode s src)"
  by (auto simp: read_value_def intro!: returns_intro)

lemma returns_read_push [returns_intro]:
  "(\<And>src. returns (decode src)) \<Longrightarrow> returns (read_push upd decode s src)"
  by (auto simp: read_push_def intro!: returns_intro)

lemma returns_unknown_property [returns_intro]: "returns (unknown_property s src)"
  by (simp add: unknown_property_def)

lemma shrinking_read_value [consumes_intro]:
  "consuming decode \<Longrightarrow> shrinking (read_value get upd decode s)"
  by (auto simp: shrinking_def read_value_def dest: consumingD)

lemma shrinking_read_push [consumes_intro]:
  "consuming decode \<Longrightarrow> shrinking (read_push upd decode s)"
  by (auto simp: shrinking_def read_push_def dest: consumingD)

lemma shrinking_unknown_property [consumes_intro]: "shrinking (unknown_property s)"
  by (simp add: shrinking_def unknown_property_def)

lemma returns_if_arm [returns_intro]:
  "returns (f s src) \<Longrightarrow> returns (g s src) \<Longrightarrow> returns ((if c then f else g) s src)"
  by simp

lemma shrinking_if_arm [consumes_intro]:
  "shrinking (f s) \<Longrightarrow> shrinking (g s) \<Longrightarrow> shrinking ((if c then f else g) s)"
  by simp

lemmas arms_intros =
  shrinking_if_arm shrinking_read_value shrinking_read_push shrinking_unknown_property
  returns_if_arm returns_read_value returns_read_push returns_unknown_property
  decode_consuming_intros decode_returns_intros

locale property_reader =
  fixes arms :: "u8 \<Rightarrow> (DecodeError, 's) body"
  assumes arms_shrinking: "shrinking (arms t s)"
    and arms_returns: "returns (arms t s src)"
begin

lemma body_consuming: "consuming (property_body arms s)"
proof -
  have "length rest < length src" if "property_body arms s src = Ok (s', rest)" for src s' rest
    using that shrinkingD [OF arms_shrinking]
    by (cases src) (auto simp: property_body_def get_u8_def less_Suc_eq_le)
  then show ?thesis by (simp add: consuming_def)
qed

lemma read_returns [returns_intro]: "returns (read_properties arms s src)"
proof -
  have "returns (property_body arms st src)" if "src \<noteq> []" for st src
    using that arms_returns by (cases src) (auto simp: property_body_def)
  then show ?thesis unfolding read_properties_def
    by (intro returns_while_remaining body_consuming) auto
qed

lemma decode_returns [returns_intro]: "returns (decode_properties arms s src)"
  by (auto simp: decode_properties_def intro!: returns_intro)

lemma read_Nil [simp]: "read_properties arms s [] = Ok s"
  by (simp add: read_properties_def)

lemma read_step:
  "arms t s bs = Ok (s', rest) \<Longrightarrow> read_properties arms s (t # bs) = read_properties arms s' rest"
  unfolding read_properties_def
  by (rule while_remaining_step [OF body_consuming]) (simp add: property_body_def)

lemma read_invar:
  assumes "read_properties arms s src = Ok s'" "P s"
    and "\<And>t s src s' rest. P s \<Longrightarrow> arms t s src = Ok (s', rest) \<Longrightarrow> P s'"
  shows "P s'"
proof (rule while_remaining_invar [where body = "property_body arms" and P = P])
  show "while_remaining (property_body arms) s src = Ok s'"
    using assms(1) by (simp add: read_properties_def)
  show "P st'" if "P st" "property_body arms st src = Ok (st', rest)" for st src st' rest
    using that assms(3) by (auto simp: property_body_def)
qed (use assms body_consuming in auto)

text \<open>Reading back one optional property and a list of repeated ones, at the head of what is left.\<close>

lemma read_opt:
  assumes "arms t = read_value get upd decode"
    and "\<And>x rest. P x \<Longrightarrow> decode (img x @ rest) = Ok (x, rest)"
    and "valid_opt P v" and "get s = None" and "upd (\<lambda>_. None) s = s"
  shows "read_properties arms s (prop_image t img v @ rest) =
    read_properties arms (upd (\<lambda>_. v) s) rest"
proof (cases v)
  case (Some x)
  have "arms t s (img x @ rest) = Ok (upd (\<lambda>_. Some x) s, rest)"
    using assms Some by (simp add: read_value_def)
  from read_step [OF this] show ?thesis by (simp add: Some)
qed (simp add: assms)

lemma read_opt_last:
  assumes "arms t = read_value get upd decode"
    and "\<And>x rest. P x \<Longrightarrow> decode (img x @ rest) = Ok (x, rest)"
    and "valid_opt P v" and "get s = None" and "upd (\<lambda>_. None) s = s"
  shows "read_properties arms s (prop_image t img v) = Ok (upd (\<lambda>_. v) s)"
  using read_opt [of t get upd decode P img v s "[]", OF assms] by simp

lemma read_repeated:
  assumes "arms t = read_push upd decode"
    and "\<And>x rest. x \<in> set xs \<Longrightarrow> decode (img x @ rest) = Ok (x, rest)"
    and "\<And>s. upd (\<lambda>vs. vs @ []) s = s"
    and "\<And>f g s. upd f (upd g s) = upd (\<lambda>vs. f (g vs)) s"
  shows "read_properties arms s (concat (map (\<lambda>x. t # img x) xs) @ rest) =
    read_properties arms (upd (\<lambda>vs. vs @ xs) s) rest"
  using assms(2)
proof (induction xs arbitrary: s)
  case (Cons x xs)
  have "arms t s (img x @ concat (map (\<lambda>x. t # img x) xs) @ rest) =
      Ok (upd (\<lambda>vs. vs @ [x]) s, concat (map (\<lambda>x. t # img x) xs) @ rest)"
    using Cons.prems assms(1) by (simp add: read_push_def)
  from read_step [OF this] show ?case using Cons by (simp add: assms(4))
qed (use assms(3) in simp)

lemma read_user:
  assumes "arms pt_USER = read_push upd UserProperty_decode"
    and "valid_props ps" "\<And>s. upd (\<lambda>vs. vs @ []) s = s"
    and "\<And>f g s. upd f (upd g s) = upd (\<lambda>vs. f (g vs)) s"
  shows "read_properties arms s (user_image ps @ rest) =
    read_properties arms (upd (\<lambda>vs. vs @ ps) s) rest"
  unfolding user_image_def
  by (rule read_repeated) (use assms in \<open>auto simp: list_all_iff Pair.decode_image\<close>)

lemma decode_props_image:
  assumes "length bs \<le> 268435455" "read_properties arms s bs = Ok s'"
  shows "decode_properties arms s (props_image bs @ rest) = Ok (s', rest)"
  using assms take_properties_spec [of bs rest]
  by (simp add: decode_properties_def props_image_def)

end

subsection \<open>Acknowledgements\<close>

interpretation ack: property_reader ack_props_arms
  by standard (auto simp: ack_props_arms_def intro!: returns_intro consumes_intro)

definition ack_image :: "UserProperties \<Rightarrow> bytestring option \<Rightarrow> bytes" where
  "ack_image ps reason = props_image (diag_image ps reason)"

definition ack_fit ::
  "nat \<Rightarrow> UserProperties \<Rightarrow> bytestring option \<Rightarrow> UserProperties \<times> bytestring option" where
  "ack_fit limit ps reason = (if limit < 4 then ([], None) else fit_props (limit - 4) ps reason)"

lemma length_props_image: "length (props_image bs) = length bs + length (varlen_spec (length bs))"
  by (simp add: props_image_def)

lemma diag_image_Nil [simp]: "diag_image [] None = []"
  by (simp add: diag_image_def)

lemma props_image_Nil [simp]: "props_image [] = [0]"
  by (simp add: props_image_def varlen_spec_1)

lemma unat_lt_u32: "unat (w :: u32) < 4294967296"
  using unsigned_less [of w, where 'a = nat] by simp

lemma checked_sub_u32:
  "n \<le> unat (a :: u32) \<Longrightarrow> checked_sub a (of_nat n) = Ok (a - of_nat n)"
proof -
  assume n: "n \<le> unat a"
  then have "unat (of_nat n :: u32) = n"
    using unat_lt_u32 [of a] by (simp add: unat_u32_of_nat)
  with n show ?thesis by (simp add: checked_sub_def word_le_nat_alt)
qed

lemma ack_props_size:
  "ack_props_encoded_size ps reason limit =
    Ok (length (case_prod ack_image (ack_fit (unat limit) ps reason)))"
proof (cases "limit < 4")
  case True
  then have "unat limit < 4" by (simp add: word_less_nat_alt)
  with True show ?thesis by (simp add: ack_props_encoded_size_def ack_fit_def ack_image_def)
next
  case False
  then have l4: "4 \<le> unat limit" "unat (limit - 4) = unat limit - 4"
    using unat_minus_of_nat [of 4 limit] by (auto simp: word_less_nat_alt not_less)
  obtain ps' r' where fit: "fit_props (unat limit - 4) ps reason = (ps', r')" by fastforce
  have "length (diag_image ps' r') \<le> unat limit"
    using fit_props_le [of "unat limit - 4" ps reason] by (simp add: fit)
  then have "length (diag_image ps' r') < 2 ^ 64"
    using unat_lt_u32 [of limit] by simp
  from var_int_len_eq [OF this] l4 False fit show ?thesis
    by (simp add: ack_props_encoded_size_def ack_fit_def ack_image_def length_props_image
        encoded_size_opt_props_fit Let_def)
qed

lemma ack_fit_valid:
  assumes "ack_fit limit ps reason = (ps', reason')"
    "valid_props ps" "valid_opt valid_ByteString reason"
  shows "valid_props ps'" "valid_opt valid_ByteString reason'"
  using assms fit_props_valid by (auto simp: ack_fit_def split: if_splits)

lemma ack_fit_all:
  "length (ack_image ps reason) + 4 \<le> limit \<Longrightarrow> ack_fit limit ps reason = (ps, reason)"
  by (simp add: ack_fit_def ack_image_def length_props_image fit_props_all)

lemma writes_props_length:
  "n + length (varlen_spec n) < 4294967296 \<Longrightarrow>
   (k :: u32) = of_nat (n + length (varlen_spec n)) \<Longrightarrow>
   enc_val (var_int_len_from_size k) f = f (of_nat n)"
  by (simp only: var_int_len_from_size_eq enc_val_Ok)

lemma writes_varlen_nat [writes_intro]:
  "n \<le> 268435455 \<Longrightarrow> writes (write_variable_length (of_nat n) :: EncodeError encoder) (varlen_spec n)"
  using writes_varlen [of "of_nat n"] by (simp add: unat_u32_of_nat)

lemma writes_ack_props:
  fixes ps :: UserProperties and reason :: "bytestring option" and limit :: nat
  defines "img \<equiv> case_prod ack_image (ack_fit limit ps reason)"
  assumes "valid_props ps" "valid_opt valid_ByteString reason" "length img \<le> 268435455"
  shows "writes (ack_props_encode ps reason (of_nat (length img))) img"
proof -
  obtain ps' r' where fit: "ack_fit limit ps reason = (ps', r')" by fastforce
  let ?n = "length (diag_image ps' r')"
  have img: "img = varlen_spec ?n @ diag_image ps' r'"
    by (simp add: img_def fit ack_image_def props_image_def)
  have bound: "?n + length (varlen_spec ?n) < 4294967296" "?n \<le> 268435455"
    using assms(4) by (simp_all add: img)
  have pos: "0 < length img" by (simp add: img)
  show ?thesis
  proof (cases "length img = 1")
    case True
    then have "img = [0]"
      using length_varlen_spec_pos [of ?n] by (cases "diag_image ps' r'") (auto simp: img varlen_spec_1)
    then show ?thesis by (simp add: ack_props_encode_def writes_put)
  next
    case False
    have "\<not> limit < 4"
      using False fit by (auto simp: ack_fit_def img varlen_spec_1)
    then have diag: "case_prod diag_image (fit_props (limit - 4) ps reason) = diag_image ps' r'"
      using fit by (simp add: ack_fit_def)
    have "writes (encode_opt_props ps reason (of_nat ?n)) (diag_image ps' r')"
      using writes_opt_props [OF assms(2, 3), of "limit - 4"] bound by (simp add: diag)
    then have w: "writes (steps [write_variable_length (of_nat ?n), encode_opt_props ps reason (of_nat ?n)])
        (varlen_spec ?n @ diag_image ps' r' @ [])"
      using bound by (intro writes_intro)
    have "unat (of_nat (length img) :: u32) = length img"
      using assms(4) by (simp add: unat_u32_of_nat)
    then have sz: "0 < (of_nat (length img) :: u32)" "(of_nat (length img) :: u32) \<noteq> 1"
      using pos False by (auto simp: word_less_nat_alt)
    have "(of_nat (length img) :: u32) = of_nat (?n + length (varlen_spec ?n))"
      by (simp add: img)
    from writes_props_length [OF bound(1) this] sz
    have "ack_props_encode ps reason (of_nat (length img)) =
        steps [write_variable_length (of_nat ?n), encode_opt_props ps reason (of_nat ?n)]"
      by (simp add: ack_props_encode_def)
    with w show ?thesis by (simp only: img append_Nil2)
  qed
qed

lemma ack_props_decode_image:
  assumes "valid_props ps" "valid_opt valid_ByteString reason"
    "length (diag_image ps reason) \<le> 268435455"
  shows "ack_props_decode (ack_image ps reason @ rest) = Ok ((ps, reason), rest)"
proof -
  let ?s = "\<lparr>ap_user_props = [], ap_reason_string = None\<rparr>"
  have "read_properties ack_props_arms ?s (user_image ps @ prop_image pt_REASON_STRING Bytes_image reason) =
      read_properties ack_props_arms (ap_user_props_update (\<lambda>vs. vs @ ps) ?s)
        (prop_image pt_REASON_STRING Bytes_image reason)"
    by (rule ack.read_user) (use assms in \<open>simp_all add: ack_props_arms_def property_type_defs\<close>)
  also have "\<dots> = Ok \<lparr>ap_user_props = ps, ap_reason_string = reason\<rparr>"
    by (subst ack.read_opt_last [where get = ap_reason_string and
          upd = ap_reason_string_update, OF _ ByteString.decode_image assms(2)])
      (simp_all add: ack_props_arms_def)
  finally show ?thesis
    using ack.decode_props_image [OF assms(3), of ?s _ rest]
    by (simp add: ack_props_decode_def ack_image_def diag_image_def)
qed

lemma returns_ack_props_decode [returns_intro]: "returns (ack_props_decode src)"
  by (auto simp: ack_props_decode_def intro!: returns_intro ack.decode_returns)

subsection \<open>Packets that end with diagnostic properties\<close>

text \<open>AUTH, DISCONNECT and CONNACK: a header of fixed size, then a block of properties of which the
  last are the diagnostic ones.\<close>

definition diag_packet_image :: "bytes \<Rightarrow> bytes \<Rightarrow> UserProperties \<times> bytestring option \<Rightarrow> bytes" where
  "diag_packet_image hdr fixed_props diag = hdr @ props_image (fixed_props @ case_prod diag_image diag)"

lemma length_diag_packet_image:
  "length (diag_packet_image hdr fixed_props diag) =
    (let n = length fixed_props + length (case_prod diag_image diag) in
     length hdr + length (varlen_spec n) + n)"
  by (simp add: diag_packet_image_def length_props_image Let_def)

lemma diag_packet_size:
  fixes limit :: u32 and hdr fixed_props :: bytes and ps :: UserProperties and r :: "bytestring option"
  defines "img \<equiv> diag_packet_image hdr fixed_props
      (fit_props (unat limit - (length fixed_props + length hdr + 4)) ps r)"
  assumes "length img < 2 ^ 64"
    and "n = length fixed_props +
      encoded_size_opt_props ps r (reduce_limit limit (length fixed_props + length hdr + 4))"
  shows "and_then (var_int_len n) (\<lambda>k. Ok (length hdr + k + n)) = Ok (length img)"
proof -
  have n: "n = length fixed_props + length (case_prod diag_image
      (fit_props (unat limit - (length fixed_props + length hdr + 4)) ps r))"
    by (simp only: assms(3) encoded_size_opt_props_fit unat_reduce_limit)
  have len: "length img = length hdr + length (varlen_spec n) + n"
    by (simp add: img_def length_diag_packet_image n Let_def)
  have "n < 2 ^ 64" using assms(2) len by simp
  from var_int_len_eq [OF this] show ?thesis by (simp add: len)
qed

lemma writes_diag_packet:
  fixes k :: nat and hdr fixed_props :: bytes and ps :: UserProperties and r :: "bytestring option"
  defines "img \<equiv> diag_packet_image hdr fixed_props (fit_props k ps r)"
  assumes "writes (steps prop_encs) fixed_props" "valid_props ps" "valid_opt valid_ByteString r"
    and "length img \<le> 268435455"
  shows "writes
    (with_written
      (steps (put hdr # enc_val (and_then (checked_sub (of_nat (length img)) (of_nat (length hdr)))
          var_int_len_from_size) write_variable_length # prop_encs))
      (\<lambda>written. enc_val (checked_sub (of_nat (length img)) (of_nat written))
        (\<lambda>n. encode_opt_props ps r n)))
    img"
proof -
  let ?d = "case_prod diag_image (fit_props k ps r)"
  let ?n = "length fixed_props + length ?d"
  have len: "length img = length hdr + length (varlen_spec ?n) + ?n"
    by (simp add: img_def length_diag_packet_image Let_def)
  have bound: "length img < 4294967296" "?n \<le> 268435455"
    "?n + length (varlen_spec ?n) < 4294967296" "length ?d < 4294967296"
    using assms(5) len by auto
  have "length hdr \<le> length img" "length img - length hdr = ?n + length (varlen_spec ?n)"
    using len by simp_all
  then have "checked_sub (of_nat (length img) :: u32) (of_nat (length hdr)) =
      (Ok (of_nat (?n + length (varlen_spec ?n))) :: (EncodeError, u32) outcome)"
    using checked_sub_of_nat [of "length hdr" "length img"] bound(1) by metis
  then have a: "and_then (checked_sub (of_nat (length img)) (of_nat (length hdr)))
      var_int_len_from_size = (Ok (of_nat ?n) :: (EncodeError, u32) outcome)"
    by (simp only: and_then_simps var_int_len_from_size_eq [OF bound(3)])
  have b: "checked_sub (of_nat (length img) :: u32)
      (of_nat (length (hdr @ varlen_spec ?n @ fixed_props))) =
      (Ok (of_nat (length ?d)) :: (EncodeError, u32) outcome)"
    using checked_sub_of_nat [of "length (hdr @ varlen_spec ?n @ fixed_props)" "length img"] bound len
    by (simp del: of_nat_add)
  have "writes (steps (put hdr # write_variable_length (of_nat ?n) # prop_encs))
      (hdr @ varlen_spec ?n @ fixed_props)"
    using bound(2) assms(2) by (intro writes_steps_Cons writes_put writes_varlen_nat)
  moreover have "writes (encode_opt_props ps r (of_nat (length ?d))) ?d"
    by (rule writes_opt_props [OF assms(3, 4) bound(4)])
  ultimately have "writes
    (with_written (steps (put hdr # write_variable_length (of_nat ?n) # prop_encs))
      (\<lambda>written. enc_val (checked_sub (of_nat (length img)) (of_nat written))
        (\<lambda>n. encode_opt_props ps r n)))
    ((hdr @ varlen_spec ?n @ fixed_props) @ ?d)"
    by (intro writes_with_written) (simp_all only: b enc_val_Ok)
  then show ?thesis unfolding a enc_val_Ok
    by (simp only: img_def diag_packet_image_def props_image_def length_append append_assoc)
qed

section \<open>The contract of \<^verbatim>\<open>EncodeLtd\<close>\<close>

text \<open>\<open>image\<close> is the content of a packet on the wire, \<open>fit\<close> removes the diagnostic properties that do
  not fit a limit, \<open>min_limit\<close> is the smallest limit the size computation can take.  \<open>flags\<close> are the
  low bits of the packet's first byte, which the decoder of PUBLISH needs.\<close>

locale encode_ltd =
  fixes encoded_size :: "'p \<Rightarrow> u32 \<Rightarrow> (EncodeError, nat) outcome"
    and encode :: "'p \<Rightarrow> u32 \<Rightarrow> EncodeError encoder"
    and decode :: "u8 \<Rightarrow> bytes \<Rightarrow> (DecodeError, 'p) outcome"
    and flags :: "'p \<Rightarrow> u8"
    and image :: "'p \<Rightarrow> bytes"
    and fit :: "u32 \<Rightarrow> 'p \<Rightarrow> 'p"
    and valid :: "'p \<Rightarrow> bool"
    and min_limit :: "'p \<Rightarrow> nat"
  assumes size_image:
      "\<lbrakk>valid p; min_limit p \<le> unat limit; length (image (fit limit p)) < 2 ^ 64\<rbrakk> \<Longrightarrow>
       encoded_size p limit = Ok (length (image (fit limit p)))"
    and writes_image:
      "\<lbrakk>valid p; length (image (fit limit p)) \<le> 268435455\<rbrakk> \<Longrightarrow>
       writes (encode p (of_nat (length (image (fit limit p))))) (image (fit limit p))"
    and decode_image:
      "\<lbrakk>valid p; length (image p) \<le> 268435455\<rbrakk> \<Longrightarrow> decode (flags p) (image p) = Ok p"
    and valid_fit: "valid p \<Longrightarrow> valid (fit limit p)"
    and flags_fit: "flags (fit limit p) = flags p"
    and fit_all: "length (image p) + 11 \<le> unat limit \<Longrightarrow> fit limit p = p"
    and decode_returns: "returns (decode f src)"
begin

lemma encode_decode:
  assumes "valid p" "min_limit p \<le> unat limit" "encoded_size p limit = Ok n" "n \<le> 268435455"
    "length (image (fit limit p)) < 2 ^ 64"
  shows "length (image (fit limit p)) = n \<and>
    writes (encode p (of_nat n)) (image (fit limit p)) \<and>
    decode (flags p) (image (fit limit p)) = Ok (fit limit p)"
proof -
  have n: "n = length (image (fit limit p))" using size_image [OF assms(1, 2, 5)] assms(3) by simp
  show ?thesis
    using writes_image [OF assms(1), of limit] decode_image [OF valid_fit [OF assms(1)], of limit]
      assms(4) by (simp add: n flags_fit)
qed

end

end
