(* ===== verification/V5_Connect.thy ===== *)
theory V5_Connect
  imports V5_Props
begin

text \<open>
  CONNECT of MQTT 5 (\<^verbatim>\<open>src/v5/codec/packet/connect.rs\<close>).  \<open>connect_locals\<close> and \<open>will_locals\<close> are the local
  variables of the decoder's two loops over properties.  The encoder writes the length of the will's
  properties but not the properties, so it fulfils the contract \<open>encode_ltd\<close> for packets whose will has
  none (\<open>sendable_Connect\<close>).
\<close>

record LastWill =
  will_qos :: QoS
  will_retain :: bool
  will_topic :: bytestring
  will_message :: bytes
  will_will_delay_interval_sec :: "u32 option"
  will_correlation_data :: "bytes option"
  will_message_expiry_interval :: "u32 option"
  will_content_type :: "bytestring option"
  will_user_properties :: UserProperties
  will_is_utf8_payload :: "bool option"
  will_response_topic :: "bytestring option"

record Connect =
  con_clean_start :: bool
  con_keep_alive :: u16
  con_session_expiry_interval_secs :: "u32 option"
  con_auth_method :: "bytestring option"
  con_auth_data :: "bytes option"
  con_request_problem_info :: bool
  con_request_response_info :: bool
  con_receive_max :: "u16 option"
  con_topic_alias_max :: u16
  con_user_properties :: UserProperties
  con_max_packet_size :: "u32 option"
  con_last_will :: "LastWill option"
  con_client_id :: bytestring
  con_username :: "bytestring option"
  con_password :: "bytes option"

definition Connect_default :: Connect where
  "Connect_default =
    \<lparr>con_clean_start = False, con_keep_alive = 0, con_session_expiry_interval_secs = None,
     con_auth_method = None, con_auth_data = None, con_request_problem_info = True,
     con_request_response_info = False, con_receive_max = None, con_topic_alias_max = 0,
     con_user_properties = [], con_max_packet_size = None, con_last_will = None,
     con_client_id = [], con_username = None, con_password = None\<rparr>"

definition Connect_client_id :: "Connect \<Rightarrow> bytestring \<Rightarrow> Connect" where
  "Connect_client_id c client_id = c\<lparr>con_client_id := client_id\<rparr>"

definition Connect_receive_max :: "Connect \<Rightarrow> u16 \<Rightarrow> Connect" where
  "Connect_receive_max c num = c\<lparr>con_receive_max := (if num \<noteq> 0 then Some num else None)\<rparr>"

section \<open>Decoding\<close>

record will_locals =
  wl_will_delay_interval_sec :: "u32 option"
  wl_correlation_data :: "bytes option"
  wl_message_expiry_interval :: "u32 option"
  wl_content_type :: "bytestring option"
  wl_is_utf8_payload :: "bool option"
  wl_response_topic :: "bytestring option"
  wl_user_properties :: UserProperties

definition will_locals_init :: will_locals where
  "will_locals_init =
    \<lparr>wl_will_delay_interval_sec = None, wl_correlation_data = None,
     wl_message_expiry_interval = None, wl_content_type = None, wl_is_utf8_payload = None,
     wl_response_topic = None, wl_user_properties = []\<rparr>"

definition will_arms :: "u8 \<Rightarrow> (DecodeError, will_locals) body" where
  "will_arms t =
    (if t = pt_WILL_DELAY_INT then
       read_value wl_will_delay_interval_sec wl_will_delay_interval_sec_update u32_decode
     else if t = pt_CORR_DATA then
       read_value wl_correlation_data wl_correlation_data_update Bytes_decode
     else if t = pt_MSG_EXPIRY_INT then
       read_value wl_message_expiry_interval wl_message_expiry_interval_update NonZeroU32_decode
     else if t = pt_CONTENT_TYPE then
       read_value wl_content_type wl_content_type_update ByteString_decode
     else if t = pt_UTF8_PAYLOAD then
       read_value wl_is_utf8_payload wl_is_utf8_payload_update bool_decode
     else if t = pt_RESP_TOPIC then
       read_value wl_response_topic wl_response_topic_update ByteString_decode
     else if t = pt_USER then read_push wl_user_properties_update UserProperty_decode
     else unknown_property)"

definition decode_last_will :: "u8 \<Rightarrow> (DecodeError, LastWill) decoder" where
  "decode_last_will flags src =
    and_then (decode_properties will_arms will_locals_init src) (\<lambda>(p, src).
    and_then (ByteString_decode src) (\<lambda>(topic, src).
    and_then (Bytes_decode src) (\<lambda>(message, src).
    and_then (QoS_try_from (drop_bit WILL_QOS_SHIFT (flags AND CF_WILL_QOS))) (\<lambda>qos.
    Ok (\<lparr>will_qos = qos, will_retain = flags_contains flags CF_WILL_RETAIN,
         will_topic = topic, will_message = message,
         will_will_delay_interval_sec = wl_will_delay_interval_sec p,
         will_correlation_data = wl_correlation_data p,
         will_message_expiry_interval = wl_message_expiry_interval p,
         will_content_type = wl_content_type p,
         will_user_properties = wl_user_properties p,
         will_is_utf8_payload = wl_is_utf8_payload p,
         will_response_topic = wl_response_topic p\<rparr>, src)))))"

record connect_locals =
  cl_session_expiry_interval_secs :: "u32 option"
  cl_auth_method :: "bytestring option"
  cl_auth_data :: "bytes option"
  cl_request_problem_info :: "bool option"
  cl_request_response_info :: "bool option"
  cl_receive_max :: "u16 option"
  cl_topic_alias_max :: "u16 option"
  cl_user_properties :: UserProperties
  cl_max_packet_size :: "u32 option"

definition connect_locals_init :: connect_locals where
  "connect_locals_init =
    \<lparr>cl_session_expiry_interval_secs = None, cl_auth_method = None, cl_auth_data = None,
     cl_request_problem_info = None, cl_request_response_info = None,
     cl_receive_max = None, cl_topic_alias_max = None, cl_user_properties = [],
     cl_max_packet_size = None\<rparr>"

definition connect_arms :: "u8 \<Rightarrow> (DecodeError, connect_locals) body" where
  "connect_arms t =
    (if t = pt_SESS_EXPIRY_INT then
       read_value cl_session_expiry_interval_secs cl_session_expiry_interval_secs_update u32_decode
     else if t = pt_AUTH_METHOD then
       read_value cl_auth_method cl_auth_method_update ByteString_decode
     else if t = pt_AUTH_DATA then
       read_value cl_auth_data cl_auth_data_update Bytes_decode
     else if t = pt_REQ_PROB_INFO then
       read_value cl_request_problem_info cl_request_problem_info_update bool_decode
     else if t = pt_REQ_RESP_INFO then
       read_value cl_request_response_info cl_request_response_info_update bool_decode
     else if t = pt_RECEIVE_MAX then
       read_value cl_receive_max cl_receive_max_update NonZeroU16_decode
     else if t = pt_TOPIC_ALIAS_MAX then
       read_value cl_topic_alias_max cl_topic_alias_max_update u16_decode
     else if t = pt_USER then read_push cl_user_properties_update UserProperty_decode
     else if t = pt_MAX_PACKET_SIZE then
       read_value cl_max_packet_size cl_max_packet_size_update NonZeroU32_decode
     else unknown_property)"

definition Connect_decode :: "bytes \<Rightarrow> (DecodeError, Connect) outcome" where
  "Connect_decode src =
    ensure (length src \<ge> 10) DecodeError.InvalidLength
    (and_then (get_u16 src) (\<lambda>(len, src).
     ensure (len = 4 \<and> take 4 src = MQTT) InvalidProtocol
    (and_then (advance 4 src) (\<lambda>src.
     and_then (get_u8 src) (\<lambda>(level, src).
     ensure (level = MQTT_LEVEL_5) UnsupportedProtocolLevel
    (and_then (get_u8 src) (\<lambda>(b, src).
     and_then (ok_or (flags_from_bits ConnectFlags_all b) ConnectReservedFlagSet) (\<lambda>flags.
     and_then (get_u16 src) (\<lambda>(keep_alive, src).
     and_then (decode_properties connect_arms connect_locals_init src) (\<lambda>(p, src).
     and_then (ByteString_decode src) (\<lambda>(client_id, src).
     ensure (client_id \<noteq> [] \<or> flags_contains flags CF_CLEAN_START) InvalidClientId
    (and_then (decode_if (flags_contains flags CF_WILL) (decode_last_will flags) src)
       (\<lambda>(last_will, src).
     and_then (decode_if (flags_contains flags CF_USERNAME) ByteString_decode src)
       (\<lambda>(username, src).
     and_then (decode_if (flags_contains flags CF_PASSWORD) Bytes_decode src)
       (\<lambda>(password, src).
     Ok
      \<lparr>con_clean_start = flags_contains flags CF_CLEAN_START,
       con_keep_alive = keep_alive,
       con_session_expiry_interval_secs = cl_session_expiry_interval_secs p,
       con_auth_method = cl_auth_method p,
       con_auth_data = cl_auth_data p,
       con_request_problem_info =
         (case cl_request_problem_info p of Some v \<Rightarrow> v | None \<Rightarrow> True),
       con_request_response_info =
         (case cl_request_response_info p of Some v \<Rightarrow> v | None \<Rightarrow> False),
       con_receive_max = cl_receive_max p,
       con_topic_alias_max = (case cl_topic_alias_max p of Some v \<Rightarrow> v | None \<Rightarrow> 0),
       con_user_properties = cl_user_properties p,
       con_max_packet_size = cl_max_packet_size p,
       con_last_will = last_will,
       con_client_id = client_id,
       con_username = username,
       con_password = password\<rparr>)))))))))))))))"

section \<open>Encoding\<close>

definition LastWill_properties_len :: "LastWill \<Rightarrow> nat" where
  "LastWill_properties_len w =
    encoded_property_size u32_encoded_size (will_will_delay_interval_sec w) +
    encoded_property_size Bytes_encoded_size (will_correlation_data w) +
    encoded_property_size NonZeroU32_encoded_size (will_message_expiry_interval w) +
    encoded_property_size ByteString_encoded_size (will_content_type w) +
    encoded_property_size bool_encoded_size (will_is_utf8_payload w) +
    encoded_property_size ByteString_encoded_size (will_response_topic w) +
    UserProperties_encoded_size (will_user_properties w)"

definition Connect_properties_len :: "Connect \<Rightarrow> nat" where
  "Connect_properties_len c =
    (let prop_len =
           encoded_property_size u32_encoded_size (con_session_expiry_interval_secs c) +
           encoded_property_size ByteString_encoded_size (con_auth_method c) +
           encoded_property_size Bytes_encoded_size (con_auth_data c) +
           encoded_bool_property_size (con_request_problem_info c) True +
           encoded_bool_property_size (con_request_response_info c) False +
           encoded_property_size NonZeroU16_encoded_size (con_receive_max c) +
           encoded_property_size NonZeroU32_encoded_size (con_max_packet_size c) +
           UserProperties_encoded_size (con_user_properties c) in
     if con_topic_alias_max c > 0
     then prop_len + (1 + u16_encoded_size (con_topic_alias_max c)) else prop_len)"

definition Connect_encoded_size :: "Connect \<Rightarrow> u32 \<Rightarrow> (EncodeError, nat) outcome" where
  "Connect_encoded_size c limit =
    (let prop_len = Connect_properties_len c in
     and_then (var_int_len prop_len) (\<lambda>n.
     and_then
       (case con_last_will c of
          None \<Rightarrow> Ok 0
        | Some will \<Rightarrow>
            (let prop_len = LastWill_properties_len will in
             and_then (var_int_len prop_len) (\<lambda>n.
             Ok (n + prop_len + ByteString_encoded_size (will_topic will) +
                 Bytes_encoded_size (will_message will)))))
       (\<lambda>will_len.
     Ok (6 + 1 + 1 + 2 + n + prop_len + ByteString_encoded_size (con_client_id c) + will_len +
         (case con_username c of None \<Rightarrow> 0 | Some v \<Rightarrow> ByteString_encoded_size v) +
         (case con_password c of None \<Rightarrow> 0 | Some v \<Rightarrow> Bytes_encoded_size v)))))"

definition connect_flags :: "Connect \<Rightarrow> u8" where
  "connect_flags c =
    (let flags = 0;
         flags = (if con_username c \<noteq> None then flags OR CF_USERNAME else flags);
         flags = (if con_password c \<noteq> None then flags OR CF_PASSWORD else flags);
         flags = (case con_last_will c of None \<Rightarrow> flags
           | Some will \<Rightarrow>
              (let flags = flags OR CF_WILL;
                   flags = (if will_retain will then flags OR CF_WILL_RETAIN else flags)
               in flags OR (push_bit WILL_QOS_SHIFT (QoS_to_u8 (will_qos will)) AND ConnectFlags_all)));
         flags = (if con_clean_start c then flags OR CF_CLEAN_START else flags)
     in flags)"

definition Connect_encode :: "Connect \<Rightarrow> u32 \<Rightarrow> EncodeError encoder" where
  "Connect_encode c sz = steps
    [Bytes_encode MQTT,
     put [MQTT_LEVEL_5, connect_flags c],
     u16_encode (con_keep_alive c),
     write_variable_length (of_nat (Connect_properties_len c)),
     encode_property u32_encode (con_session_expiry_interval_secs c) pt_SESS_EXPIRY_INT,
     encode_property ByteString_encode (con_auth_method c) pt_AUTH_METHOD,
     encode_property Bytes_encode (con_auth_data c) pt_AUTH_DATA,
     encode_bool_property (con_request_problem_info c) pt_REQ_PROB_INFO True,
     encode_bool_property (con_request_response_info c) pt_REQ_RESP_INFO False,
     encode_property NonZeroU16_encode (con_receive_max c) pt_RECEIVE_MAX,
     encode_property NonZeroU32_encode (con_max_packet_size c) pt_MAX_PACKET_SIZE,
     (if con_topic_alias_max c > 0
      then steps [put [pt_TOPIC_ALIAS_MAX], u16_encode (con_topic_alias_max c)] else put []),
     UserProperties_encode (con_user_properties c),
     ByteString_encode (con_client_id c),
     encode_opt (con_last_will c) (\<lambda>will. steps
       [write_variable_length (of_nat (LastWill_properties_len will)),
        ByteString_encode (will_topic will),
        Bytes_encode (will_message will)]),
     encode_opt (con_username c) ByteString_encode,
     encode_opt (con_password c) Bytes_encode]"

section \<open>Contract\<close>

definition sendable_LastWill :: "LastWill \<Rightarrow> bool" where
  "sendable_LastWill w \<longleftrightarrow> valid_ByteString (will_topic w) \<and> valid_Bytes (will_message w) \<and>
    will_will_delay_interval_sec w = None \<and> will_correlation_data w = None \<and>
    will_message_expiry_interval w = None \<and> will_content_type w = None \<and>
    will_user_properties w = [] \<and> will_is_utf8_payload w = None \<and> will_response_topic w = None"

definition sendable_Connect :: "Connect \<Rightarrow> bool" where
  "sendable_Connect c \<longleftrightarrow>
    valid_opt valid_ByteString (con_auth_method c) \<and>
    valid_opt valid_Bytes (con_auth_data c) \<and>
    valid_opt (\<lambda>v. v \<noteq> 0) (con_receive_max c) \<and>
    valid_opt (\<lambda>v. v \<noteq> 0) (con_max_packet_size c) \<and>
    valid_props (con_user_properties c) \<and>
    valid_opt sendable_LastWill (con_last_will c) \<and>
    valid_ByteString (con_client_id c) \<and>
    (con_client_id c \<noteq> [] \<or> con_clean_start c) \<and>
    valid_opt valid_ByteString (con_username c) \<and>
    valid_opt valid_Bytes (con_password c)"

text \<open>Properties that are only written when they differ from their default.\<close>

definition unless_default :: "'a \<Rightarrow> 'a \<Rightarrow> 'a option" where
  "unless_default d v = (if v \<noteq> d then Some v else None)"

lemma unless_default_value [simp]: "(case unless_default d v of None \<Rightarrow> d | Some w \<Rightarrow> w) = v"
  by (simp add: unless_default_def)

definition connect_props :: "Connect \<Rightarrow> bytes" where
  "connect_props c =
    prop_image pt_SESS_EXPIRY_INT u32_be (con_session_expiry_interval_secs c) @
    prop_image pt_AUTH_METHOD Bytes_image (con_auth_method c) @
    prop_image pt_AUTH_DATA Bytes_image (con_auth_data c) @
    prop_image pt_REQ_PROB_INFO bool_image (unless_default True (con_request_problem_info c)) @
    prop_image pt_REQ_RESP_INFO bool_image (unless_default False (con_request_response_info c)) @
    prop_image pt_RECEIVE_MAX u16_be (con_receive_max c) @
    prop_image pt_MAX_PACKET_SIZE u32_be (con_max_packet_size c) @
    prop_image pt_TOPIC_ALIAS_MAX u16_be (unless_default 0 (con_topic_alias_max c)) @
    user_image (con_user_properties c)"

definition Connect_image :: "Connect \<Rightarrow> bytes" where
  "Connect_image c =
    Bytes_image MQTT @ [MQTT_LEVEL_5, connect_flags c] @ u16_be (con_keep_alive c) @
    props_image (connect_props c) @ Bytes_image (con_client_id c) @
    opt_image (\<lambda>w. [0] @ Bytes_image (will_topic w) @ Bytes_image (will_message w)) (con_last_will c) @
    opt_image Bytes_image (con_username c) @ opt_image Bytes_image (con_password c)"

lemma property_size_default:
  "encoded_property_size encoded_size (unless_default d v) = (if v \<noteq> d then 1 + encoded_size v else 0)"
  by (simp add: unless_default_def encoded_property_size_def)

lemma Connect_properties_len_image: "Connect_properties_len c = length (connect_props c)"
  unfolding Connect_properties_len_def connect_props_def length_append property_size_simps Let_def
    encoded_bool_property_size_def property_size_default UserProperties_encoded_size_image
  by (simp add: bool_encoded_size_def word_neq_0_conv [symmetric] del: word_neq_0_conv)

lemma will_properties_len_0: "sendable_LastWill w \<Longrightarrow> LastWill_properties_len w = 0"
  by (simp add: sendable_LastWill_def LastWill_properties_len_def encoded_property_size_def
      UserProperties_encoded_size_image)

lemma connect_var_int_len_0: "var_int_len 0 = Ok 1"
  using var_int_len_eq [of 0] by (simp add: varlen_spec_1)

lemma Connect_size:
  assumes "sendable_Connect c" "length (Connect_image c) < 2 ^ 64"
  shows "Connect_encoded_size c limit = Ok (length (Connect_image c))"
proof -
  have "length (connect_props c) < 2 ^ 64"
    using assms(2) by (simp add: Connect_image_def length_props_image)
  note len = var_int_len_eq [OF this]
  have will: "(case con_last_will c of None \<Rightarrow> Ok 0
      | Some will \<Rightarrow>
         and_then (var_int_len (LastWill_properties_len will)) (\<lambda>n.
         Ok (n + LastWill_properties_len will + ByteString_encoded_size (will_topic will) +
             Bytes_encoded_size (will_message will)))) =
      Ok (length (opt_image (\<lambda>w. [0] @ Bytes_image (will_topic w) @ Bytes_image (will_message w))
        (con_last_will c)))"
    using assms(1)
    by (cases "con_last_will c")
      (simp_all add: sendable_Connect_def will_properties_len_0 connect_var_int_len_0
        encoded_size_same)
  show ?thesis
    unfolding Connect_encoded_size_def Let_def will Connect_properties_len_image len and_then_simps
    by (simp add: Connect_image_def length_props_image MQTT_def Bytes_encoded_size_def
        encoded_size_same split: option.split)
qed

lemma writes_Connect:
  assumes "sendable_Connect c" "length (Connect_image c) \<le> 268435455"
  shows "writes (Connect_encode c sz) (Connect_image c)"
proof -
  note v = assms(1) [unfolded sendable_Connect_def]
  have "length (connect_props c) \<le> 268435455"
    using assms(2) by (simp add: Connect_image_def length_props_image)
  note len = writes_varlen_nat [OF this]
  have "writes (steps [put [pt_TOPIC_ALIAS_MAX], u16_encode (con_topic_alias_max c)])
      ([pt_TOPIC_ALIAS_MAX] @ u16_be (con_topic_alias_max c) @ [])"
    by (intro writes_intro)
  then have tam: "writes (if con_topic_alias_max c > 0
        then steps [put [pt_TOPIC_ALIAS_MAX], u16_encode (con_topic_alias_max c)] else put [])
      (prop_image pt_TOPIC_ALIAS_MAX u16_be (unless_default 0 (con_topic_alias_max c)))"
    by (simp add: unless_default_def writes_put word_neq_0_conv [symmetric] del: word_neq_0_conv)
  have will: "writes (encode_opt (con_last_will c) (\<lambda>will. steps
       [write_variable_length (of_nat (LastWill_properties_len will)),
        ByteString_encode (will_topic will), Bytes_encode (will_message will)]))
      (opt_image (\<lambda>w. [0] @ Bytes_image (will_topic w) @ Bytes_image (will_message w))
        (con_last_will c))"
  proof (rule writes_encode_opt)
    fix w assume "con_last_will c = Some w"
    then have w: "sendable_LastWill w" using v by simp
    have "writes (steps [write_variable_length (of_nat 0), ByteString_encode (will_topic w),
        Bytes_encode (will_message w)])
        (varlen_spec 0 @ Bytes_image (will_topic w) @ Bytes_image (will_message w) @ [])"
      by (intro writes_intro) (use w in \<open>simp_all add: sendable_LastWill_def\<close>)
    then show "writes (steps
       [write_variable_length (of_nat (LastWill_properties_len w)),
        ByteString_encode (will_topic w), Bytes_encode (will_message w)])
      ([0] @ Bytes_image (will_topic w) @ Bytes_image (will_message w))"
      by (simp add: will_properties_len_0 [OF w] varlen_spec_1)
  qed
  have strs: "writes (Bytes_encode MQTT) (Bytes_image MQTT)"
    "writes (encode_opt (con_username c) ByteString_encode) (opt_image Bytes_image (con_username c))"
    "writes (encode_opt (con_password c) Bytes_encode) (opt_image Bytes_image (con_password c))"
    using v by (auto intro!: writes_intro simp: valid_Bytes_def MQTT_def)
  show ?thesis
    unfolding Connect_encode_def Connect_properties_len_image
    by (rule writes_eqI,
        (rule len tam will strs property_writes_intros writes_bool_property writes_UserProperties
          writes_image_intros writes_put writes_steps_Cons writes_steps_Nil | (simp add: v)[1])+,
        simp add: Connect_image_def connect_props_def props_image_def unless_default_def)
qed

interpretation will: property_reader will_arms
  by unfold_locales (unfold will_arms_def, (rule arms_intros)+)

interpretation connect: property_reader connect_arms
  by unfold_locales (unfold connect_arms_def, (rule arms_intros)+)

lemma connect_arm_simps:
  "connect_arms pt_SESS_EXPIRY_INT = read_value cl_session_expiry_interval_secs cl_session_expiry_interval_secs_update u32_decode"
  "connect_arms pt_AUTH_METHOD = read_value cl_auth_method cl_auth_method_update ByteString_decode"
  "connect_arms pt_AUTH_DATA = read_value cl_auth_data cl_auth_data_update Bytes_decode"
  "connect_arms pt_REQ_PROB_INFO = read_value cl_request_problem_info cl_request_problem_info_update bool_decode"
  "connect_arms pt_REQ_RESP_INFO = read_value cl_request_response_info cl_request_response_info_update bool_decode"
  "connect_arms pt_RECEIVE_MAX = read_value cl_receive_max cl_receive_max_update NonZeroU16_decode"
  "connect_arms pt_TOPIC_ALIAS_MAX = read_value cl_topic_alias_max cl_topic_alias_max_update u16_decode"
  "connect_arms pt_USER = read_push cl_user_properties_update UserProperty_decode"
  "connect_arms pt_MAX_PACKET_SIZE = read_value cl_max_packet_size cl_max_packet_size_update NonZeroU32_decode"
  by (simp_all add: connect_arms_def property_type_defs)

lemmas connect_read_steps =
  connect.read_opt [where P = "\<lambda>_. True", OF connect_arm_simps(1) u32.decode_image]
  connect.read_opt [OF connect_arm_simps(2) ByteString.decode_image]
  connect.read_opt [OF connect_arm_simps(3) Bytes.decode_image]
  connect.read_opt [where P = "\<lambda>_. True", OF connect_arm_simps(4) bool.decode_image]
  connect.read_opt [where P = "\<lambda>_. True", OF connect_arm_simps(5) bool.decode_image]
  connect.read_opt [OF connect_arm_simps(6) NonZeroU16.decode_image]
  connect.read_opt [OF connect_arm_simps(9) NonZeroU32.decode_image]
  connect.read_opt [where P = "\<lambda>_. True", OF connect_arm_simps(7) u16.decode_image]

lemma connect_read_image:
  assumes "sendable_Connect c"
  shows "read_properties connect_arms connect_locals_init (connect_props c) = Ok
    \<lparr>cl_session_expiry_interval_secs = con_session_expiry_interval_secs c,
     cl_auth_method = con_auth_method c, cl_auth_data = con_auth_data c,
     cl_request_problem_info = unless_default True (con_request_problem_info c),
     cl_request_response_info = unless_default False (con_request_response_info c),
     cl_receive_max = con_receive_max c,
     cl_topic_alias_max = unless_default 0 (con_topic_alias_max c),
     cl_user_properties = con_user_properties c, cl_max_packet_size = con_max_packet_size c\<rparr>"
  using assms connect.read_user [OF connect_arm_simps(8), of "con_user_properties c" _ "[]"]
  unfolding sendable_Connect_def
  by (simp add: connect_props_def connect_locals_init_def connect_read_steps)

lemma v5_connect_flags_known:
  "flags_from_bits ConnectFlags_all (connect_flags c) = Some (connect_flags c)"
  by (cases "con_username c"; cases "con_password c"; cases "con_last_will c";
      cases "con_clean_start c"; cases "will_retain (the (con_last_will c))";
      cases "will_qos (the (con_last_will c))")
    (simp_all add: connect_flags_def connect_flag_defs flags_from_bits_def Let_def WILL_QOS_SHIFT_def)

lemma v5_connect_flags_contains:
  "flags_contains (connect_flags c) CF_USERNAME \<longleftrightarrow> con_username c \<noteq> None"
  "flags_contains (connect_flags c) CF_PASSWORD \<longleftrightarrow> con_password c \<noteq> None"
  "flags_contains (connect_flags c) CF_WILL \<longleftrightarrow> con_last_will c \<noteq> None"
  "flags_contains (connect_flags c) CF_CLEAN_START \<longleftrightarrow> con_clean_start c"
  by (cases "con_username c"; cases "con_password c"; cases "con_last_will c";
      cases "con_clean_start c"; cases "will_retain (the (con_last_will c))";
      cases "will_qos (the (con_last_will c))";
      simp add: connect_flags_def connect_flag_defs flags_contains_def Let_def WILL_QOS_SHIFT_def)+

lemma v5_connect_flags_will:
  assumes "con_last_will c = Some w"
  shows "drop_bit WILL_QOS_SHIFT (connect_flags c AND CF_WILL_QOS) = QoS_to_u8 (will_qos w)"
    and "flags_contains (connect_flags c) CF_WILL_RETAIN \<longleftrightarrow> will_retain w"
  using assms by (cases "con_username c"; cases "con_password c"; cases "con_clean_start c";
      cases "will_retain w"; cases "will_qos w";
      simp add: connect_flags_def connect_flag_defs flags_contains_def Let_def WILL_QOS_SHIFT_def)+

lemma decode_will_image:
  assumes "con_last_will c = Some w" "sendable_LastWill w"
  shows "decode_last_will (connect_flags c)
      (0 # Bytes_image (will_topic w) @ Bytes_image (will_message w) @ rest) = Ok (w, rest)"
proof -
  have "take_properties (0 # xs) = Ok ([], xs)" for xs
    using take_properties_spec [of "[]" xs] by (simp add: varlen_spec_1)
  with assms show ?thesis
    by (simp add: decode_last_will_def decode_properties_def wire_simps sendable_LastWill_def
        QoS.try_from_to v5_connect_flags_will will_locals_init_def del: drop_bit_and)
qed

lemma Connect_decode_image:
  assumes "sendable_Connect c" "length (Connect_image c) \<le> 268435455"
  shows "Connect_decode (Connect_image c) = Ok c"
proof -
  let ?w = "opt_image (\<lambda>w. [0] @ Bytes_image (will_topic w) @ Bytes_image (will_message w))
    (con_last_will c)"
  let ?u = "opt_image Bytes_image (con_username c)" and ?p = "opt_image Bytes_image (con_password c)"
  note v = assms(1) [unfolded sendable_Connect_def]
  have "Bytes_image MQTT = 0 # 4 # MQTT" by (simp add: Bytes_image_def MQTT_def u16_be_def)
  then have shape: "Connect_image c = 0 # 4 # MQTT @ MQTT_LEVEL_5 # connect_flags c #
    u16_be (con_keep_alive c) @ props_image (connect_props c) @ Bytes_image (con_client_id c) @
    ?w @ ?u @ ?p" by (simp add: Connect_image_def)
  have hdr: "get_u16 (0 # 4 # xs) = Ok (4, xs)" "take 4 (MQTT @ xs) = MQTT"
    "advance 4 (MQTT @ xs) = Ok xs" for xs
    by (simp_all add: get_u16_def be_u16_def MQTT_def advance_def)
  have keep: "get_u16 (u16_be k @ xs) = Ok (k, xs)" for k xs by (simp add: wire_simps)
  have len: "10 \<le> length (Connect_image c)"
    unfolding shape by (simp add: MQTT_def)
  have "length (connect_props c) \<le> 268435455"
    using assms(2) by (simp add: Connect_image_def length_props_image)
  note props = connect.decode_props_image [OF this connect_read_image [OF assms(1)]]
  have id: "ByteString_decode (Bytes_image (con_client_id c) @ ?w @ ?u @ ?p) =
      Ok (con_client_id c, ?w @ ?u @ ?p)" and ok: "con_client_id c \<noteq> [] \<or> con_clean_start c"
    using v by (auto simp: wire_simps)
  have will: "decode_if (con_last_will c \<noteq> None) (decode_last_will (connect_flags c)) (?w @ ?u @ ?p)
      = Ok (con_last_will c, ?u @ ?p)"
    using v by (cases "con_last_will c") (auto simp: wire_simps decode_will_image)
  have user: "decode_if (con_username c \<noteq> None) ByteString_decode (?u @ ?p) = Ok (con_username c, ?p)"
    using v by (cases "con_username c") (auto simp: wire_simps)
  have pass: "decode_if (con_password c \<noteq> None) Bytes_decode ?p = Ok (con_password c, [])"
    using v Bytes.decode_image [of _ "[]"] by (cases "con_password c") (auto simp: wire_simps)
  show ?thesis
    using len unfolding Connect_decode_def shape
    by (simp only: ensure_simps and_then_simps prod.case hdr keep get_u8_Cons
        v5_connect_flags_known ok_or_simps props id v5_connect_flags_contains ok will
        user pass simp_thms) simp
qed

lemma v5_returns_decode_last_will [returns_intro]: "returns (decode_last_will flags src)"
  by (auto simp: decode_last_will_def intro!: returns_intro will.decode_returns QoS.try_from_returns)

lemma returns_Connect_decode [returns_intro]: "returns (Connect_decode src)"
proof (cases "10 \<le> length src")
  case True
  then obtain a b c d e f g h i j rest where "src = a # b # c # d # e # f # g # h # i # j # rest"
    by (auto simp: numeral_eq_Suc Suc_le_length_iff)
  then show ?thesis
    by (simp add: Connect_decode_def get_u16_def advance_def)
      (auto intro!: returns_intro connect.decode_returns)
qed (simp add: Connect_decode_def)

interpretation Connect: encode_ltd Connect_encoded_size Connect_encode "\<lambda>_. Connect_decode" "\<lambda>_. 0"
  Connect_image "\<lambda>_ c. c" sendable_Connect "\<lambda>_. 0"
  by unfold_locales (auto intro: Connect_size writes_Connect Connect_decode_image returns_intro)

end
