(* ===== verification/V5_ConnAck.thy ===== *)
theory V5_ConnAck
  imports V5_Props
begin

text \<open>
  CONNACK of MQTT 5 (\<^verbatim>\<open>src/v5/codec/packet/connack.rs\<close>).  \<open>connack_locals\<close> are the local variables of the
  decoder's loop over the properties.
\<close>

datatype ConnectAckReason =
    Success | UnspecifiedError | MalformedPacket | ProtocolError | ImplementationSpecificError
  | UnsupportedProtocolVersion | ClientIdentifierNotValid | BadUserNameOrPassword | NotAuthorized
  | ServerUnavailable | ServerBusy | Banned | BadAuthenticationMethod | TopicNameInvalid
  | PacketTooLarge | QuotaExceeded | PayloadFormatInvalid | RetainNotSupported | QosNotSupported
  | UseAnotherServer | ServerMoved | ConnectionRateExceeded

fun ConnectAckReason_to_u8 :: "ConnectAckReason \<Rightarrow> u8" where
  "ConnectAckReason_to_u8 Success = 0"
| "ConnectAckReason_to_u8 UnspecifiedError = 128"
| "ConnectAckReason_to_u8 MalformedPacket = 129"
| "ConnectAckReason_to_u8 ProtocolError = 130"
| "ConnectAckReason_to_u8 ImplementationSpecificError = 131"
| "ConnectAckReason_to_u8 UnsupportedProtocolVersion = 132"
| "ConnectAckReason_to_u8 ClientIdentifierNotValid = 133"
| "ConnectAckReason_to_u8 BadUserNameOrPassword = 134"
| "ConnectAckReason_to_u8 NotAuthorized = 135"
| "ConnectAckReason_to_u8 ServerUnavailable = 136"
| "ConnectAckReason_to_u8 ServerBusy = 137"
| "ConnectAckReason_to_u8 Banned = 138"
| "ConnectAckReason_to_u8 BadAuthenticationMethod = 140"
| "ConnectAckReason_to_u8 TopicNameInvalid = 144"
| "ConnectAckReason_to_u8 PacketTooLarge = 149"
| "ConnectAckReason_to_u8 QuotaExceeded = 151"
| "ConnectAckReason_to_u8 PayloadFormatInvalid = 153"
| "ConnectAckReason_to_u8 RetainNotSupported = 154"
| "ConnectAckReason_to_u8 QosNotSupported = 155"
| "ConnectAckReason_to_u8 UseAnotherServer = 156"
| "ConnectAckReason_to_u8 ServerMoved = 157"
| "ConnectAckReason_to_u8 ConnectionRateExceeded = 159"

definition ConnectAckReason_variants :: "ConnectAckReason list" where
  "ConnectAckReason_variants =
    [Success, UnspecifiedError, MalformedPacket, ProtocolError, ImplementationSpecificError,
     UnsupportedProtocolVersion, ClientIdentifierNotValid, BadUserNameOrPassword, NotAuthorized,
     ServerUnavailable, ServerBusy, Banned, BadAuthenticationMethod, TopicNameInvalid,
     PacketTooLarge, QuotaExceeded, PayloadFormatInvalid, RetainNotSupported, QosNotSupported,
     UseAnotherServer, ServerMoved, ConnectionRateExceeded]"

definition ConnectAckReason_try_from :: "u8 \<Rightarrow> (DecodeError, ConnectAckReason) outcome" where
  "ConnectAckReason_try_from = try_from_u8 ConnectAckReason_to_u8 ConnectAckReason_variants"

interpretation ConnectAckReason: prim_enum ConnectAckReason_to_u8 ConnectAckReason_variants
  rewrites "try_from_u8 ConnectAckReason_to_u8 ConnectAckReason_variants =
    ConnectAckReason_try_from"
proof -
  show "prim_enum ConnectAckReason_to_u8 ConnectAckReason_variants"
  proof
    show "x \<in> set ConnectAckReason_variants" for x
      by (cases x) (simp_all add: ConnectAckReason_variants_def)
  qed (simp add: ConnectAckReason_variants_def)
qed (simp add: ConnectAckReason_try_from_def)

fun ConnectAckReason_reason :: "ConnectAckReason \<Rightarrow> string" where
  "ConnectAckReason_reason Success = ''Connection Accepted''"
| "ConnectAckReason_reason UnsupportedProtocolVersion = ''protocol version is not supported''"
| "ConnectAckReason_reason ClientIdentifierNotValid = ''client identifier is invalid''"
| "ConnectAckReason_reason ServerUnavailable = ''Server unavailable''"
| "ConnectAckReason_reason BadUserNameOrPassword = ''bad user name or password''"
| "ConnectAckReason_reason NotAuthorized = ''not authorized''"
| "ConnectAckReason_reason _ = ''Connection Refused''"

record ConnectAck =
  ca_session_present :: bool
  ca_reason_code :: ConnectAckReason
  ca_session_expiry_interval_secs :: "u32 option"
  ca_receive_max :: "u16 option"
  ca_max_qos :: "QoS option"
  ca_retain_available :: "bool option"
  ca_max_packet_size :: "u32 option"
  ca_assigned_client_id :: "bytestring option"
  ca_topic_alias_max :: u16
  ca_reason_string :: "bytestring option"
  ca_user_properties :: UserProperties
  ca_wildcard_subscription_available :: "bool option"
  ca_subscription_identifiers_available :: "bool option"
  ca_shared_subscription_available :: "bool option"
  ca_server_keepalive_sec :: "u16 option"
  ca_response_info :: "bytestring option"
  ca_server_reference :: "bytestring option"
  ca_auth_method :: "bytestring option"
  ca_auth_data :: "bytes option"

record connack_locals =
  cal_session_expiry_interval_secs :: "u32 option"
  cal_receive_max :: "u16 option"
  cal_max_qos :: "QoS option"
  cal_retain_available :: "bool option"
  cal_max_packet_size :: "u32 option"
  cal_assigned_client_id :: "bytestring option"
  cal_topic_alias_max :: "u16 option"
  cal_reason_string :: "bytestring option"
  cal_user_properties :: UserProperties
  cal_wildcard_sub_avail :: "bool option"
  cal_sub_ids_avail :: "bool option"
  cal_shared_sub_avail :: "bool option"
  cal_server_ka_sec :: "u16 option"
  cal_response_info :: "bytestring option"
  cal_server_reference :: "bytestring option"
  cal_auth_method :: "bytestring option"
  cal_auth_data :: "bytes option"

definition ConnectAck_default :: ConnectAck where
  "ConnectAck_default =
    \<lparr>ca_session_present = False, ca_reason_code = ConnectAckReason.Success,
     ca_session_expiry_interval_secs = None, ca_receive_max = None, ca_max_qos = None,
     ca_retain_available = None, ca_max_packet_size = None, ca_assigned_client_id = None,
     ca_topic_alias_max = 0, ca_reason_string = None, ca_user_properties = [],
     ca_wildcard_subscription_available = None,
     ca_subscription_identifiers_available = None, ca_shared_subscription_available = None,
     ca_server_keepalive_sec = None, ca_response_info = None, ca_server_reference = None,
     ca_auth_method = None, ca_auth_data = None\<rparr>"

definition connack_locals_init :: connack_locals where
  "connack_locals_init =
    \<lparr>cal_session_expiry_interval_secs = None, cal_receive_max = None,
     cal_max_qos = None, cal_retain_available = None, cal_max_packet_size = None,
     cal_assigned_client_id = None, cal_topic_alias_max = None, cal_reason_string = None,
     cal_user_properties = [], cal_wildcard_sub_avail = None, cal_sub_ids_avail = None,
     cal_shared_sub_avail = None, cal_server_ka_sec = None, cal_response_info = None,
     cal_server_reference = None, cal_auth_method = None, cal_auth_data = None\<rparr>"

text \<open>The arm for the maximum QoS is written out in the code; it is \<^verbatim>\<open>read_value\<close> with this decoder.\<close>

definition QoS_decode :: "(DecodeError, QoS) decoder" where
  "QoS_decode src =
    ensure (src \<noteq> []) DecodeError.InvalidLength
    (and_then (get_u8 src) (\<lambda>(b, src). and_then (QoS_try_from b) (\<lambda>q. Ok (q, src))))"

definition connack_arms :: "u8 \<Rightarrow> (DecodeError, connack_locals) body" where
  "connack_arms t =
    (if t = pt_SESS_EXPIRY_INT then
       read_value cal_session_expiry_interval_secs cal_session_expiry_interval_secs_update u32_decode
     else if t = pt_RECEIVE_MAX then
       read_value cal_receive_max cal_receive_max_update NonZeroU16_decode
     else if t = pt_MAX_QOS then
       read_value cal_max_qos cal_max_qos_update QoS_decode
     else if t = pt_RETAIN_AVAIL then
       read_value cal_retain_available cal_retain_available_update bool_decode
     else if t = pt_MAX_PACKET_SIZE then
       read_value cal_max_packet_size cal_max_packet_size_update u32_decode
     else if t = pt_ASSND_CLIENT_ID then
       read_value cal_assigned_client_id cal_assigned_client_id_update ByteString_decode
     else if t = pt_TOPIC_ALIAS_MAX then
       read_value cal_topic_alias_max cal_topic_alias_max_update u16_decode
     else if t = pt_REASON_STRING then
       read_value cal_reason_string cal_reason_string_update ByteString_decode
     else if t = pt_USER then
       read_push cal_user_properties_update UserProperty_decode
     else if t = pt_WILDCARD_SUB_AVAIL then
       read_value cal_wildcard_sub_avail cal_wildcard_sub_avail_update bool_decode
     else if t = pt_SUB_IDS_AVAIL then
       read_value cal_sub_ids_avail cal_sub_ids_avail_update bool_decode
     else if t = pt_SHARED_SUB_AVAIL then
       read_value cal_shared_sub_avail cal_shared_sub_avail_update bool_decode
     else if t = pt_SERVER_KA then
       read_value cal_server_ka_sec cal_server_ka_sec_update u16_decode
     else if t = pt_RESP_INFO then
       read_value cal_response_info cal_response_info_update ByteString_decode
     else if t = pt_SERVER_REF then
       read_value cal_server_reference cal_server_reference_update ByteString_decode
     else if t = pt_AUTH_METHOD then
       read_value cal_auth_method cal_auth_method_update ByteString_decode
     else if t = pt_AUTH_DATA then
       read_value cal_auth_data cal_auth_data_update Bytes_decode
     else unknown_property)"

definition ConnectAck_decode :: "bytes \<Rightarrow> (DecodeError, ConnectAck) outcome" where
  "ConnectAck_decode src =
    ensure (length src \<ge> 2) DecodeError.InvalidLength
    (and_then (get_u8 src) (\<lambda>(b, src).
     and_then (ok_or (flags_from_bits ConnectAckFlags_all b) ConnAckReservedFlagSet) (\<lambda>flags.
     and_then (get_u8 src) (\<lambda>(code, src).
     and_then (ConnectAckReason_try_from code) (\<lambda>reason_code.
     and_then (decode_properties connack_arms connack_locals_init src) (\<lambda>(p, src).
     ensure (src = []) DecodeError.InvalidLength
     (Ok \<lparr>ca_session_present = flags_contains flags CAF_SESSION_PRESENT,
          ca_reason_code = reason_code,
          ca_session_expiry_interval_secs = cal_session_expiry_interval_secs p,
          ca_receive_max = cal_receive_max p, ca_max_qos = cal_max_qos p,
          ca_retain_available = cal_retain_available p,
          ca_max_packet_size = cal_max_packet_size p,
          ca_assigned_client_id = cal_assigned_client_id p,
          ca_topic_alias_max = (case cal_topic_alias_max p of Some v \<Rightarrow> v | None \<Rightarrow> 0),
          ca_reason_string = cal_reason_string p,
          ca_user_properties = cal_user_properties p,
          ca_wildcard_subscription_available = cal_wildcard_sub_avail p,
          ca_subscription_identifiers_available = cal_sub_ids_avail p,
          ca_shared_subscription_available = cal_shared_sub_avail p,
          ca_server_keepalive_sec = cal_server_ka_sec p,
          ca_response_info = cal_response_info p,
          ca_server_reference = cal_server_reference p,
          ca_auth_method = cal_auth_method p, ca_auth_data = cal_auth_data p\<rparr>)))))))"

definition ConnectAck_encoded_size :: "ConnectAck \<Rightarrow> u32 \<Rightarrow> (EncodeError, nat) outcome" where
  "ConnectAck_encoded_size p limit =
    (let prop_len =
           encoded_property_size u32_encoded_size (ca_session_expiry_interval_secs p) +
           encoded_property_size NonZeroU16_encoded_size (ca_receive_max p) +
           (case ca_max_qos p of None \<Rightarrow> 0 | Some _ \<Rightarrow> 1 + 1) +
           encoded_property_size bool_encoded_size (ca_retain_available p) +
           encoded_property_size u32_encoded_size (ca_max_packet_size p) +
           encoded_property_size ByteString_encoded_size (ca_assigned_client_id p) +
           encoded_property_size bool_encoded_size (ca_wildcard_subscription_available p) +
           encoded_property_size bool_encoded_size (ca_subscription_identifiers_available p) +
           encoded_property_size bool_encoded_size (ca_shared_subscription_available p) +
           encoded_property_size u16_encoded_size (ca_server_keepalive_sec p) +
           encoded_property_size ByteString_encoded_size (ca_response_info p) +
           encoded_property_size ByteString_encoded_size (ca_server_reference p) +
           encoded_property_size ByteString_encoded_size (ca_auth_method p) +
           encoded_property_size Bytes_encoded_size (ca_auth_data p);
         prop_len = (if ca_topic_alias_max p > 0
           then prop_len + (1 + u16_encoded_size (ca_topic_alias_max p)) else prop_len);
         diag_len = encoded_size_opt_props (ca_user_properties p) (ca_reason_string p)
           (reduce_limit limit (2 + 4 + prop_len));
         prop_len = prop_len + diag_len in
     and_then (var_int_len prop_len) (\<lambda>n. Ok (2 + n + prop_len)))"

definition connack_prop_encs :: "ConnectAck \<Rightarrow> EncodeError encoder list" where
  "connack_prop_encs p =
    [encode_property u32_encode (ca_session_expiry_interval_secs p) pt_SESS_EXPIRY_INT,
     encode_property NonZeroU16_encode (ca_receive_max p) pt_RECEIVE_MAX,
     encode_opt (ca_max_qos p) (\<lambda>q. put [pt_MAX_QOS, QoS_to_u8 q]),
     encode_property bool_encode (ca_retain_available p) pt_RETAIN_AVAIL,
     encode_property u32_encode (ca_max_packet_size p) pt_MAX_PACKET_SIZE,
     encode_property ByteString_encode (ca_assigned_client_id p) pt_ASSND_CLIENT_ID,
     (if ca_topic_alias_max p > 0
      then steps [put [pt_TOPIC_ALIAS_MAX], u16_encode (ca_topic_alias_max p)] else put []),
     encode_property bool_encode (ca_wildcard_subscription_available p) pt_WILDCARD_SUB_AVAIL,
     encode_property bool_encode (ca_subscription_identifiers_available p) pt_SUB_IDS_AVAIL,
     encode_property bool_encode (ca_shared_subscription_available p) pt_SHARED_SUB_AVAIL,
     encode_property u16_encode (ca_server_keepalive_sec p) pt_SERVER_KA,
     encode_property ByteString_encode (ca_response_info p) pt_RESP_INFO,
     encode_property ByteString_encode (ca_server_reference p) pt_SERVER_REF,
     encode_property ByteString_encode (ca_auth_method p) pt_AUTH_METHOD,
     encode_property Bytes_encode (ca_auth_data p) pt_AUTH_DATA]"

definition ConnectAck_encode :: "ConnectAck \<Rightarrow> u32 \<Rightarrow> EncodeError encoder" where
  "ConnectAck_encode p sz = with_written
    (steps
      (put [if ca_session_present p then 1 else 0, ConnectAckReason_to_u8 (ca_reason_code p)] #
       enc_val (and_then (checked_sub sz 2) var_int_len_from_size) write_variable_length #
       connack_prop_encs p))
    (\<lambda>written. enc_val (checked_sub sz (of_nat written))
      (\<lambda>n. encode_opt_props (ca_user_properties p) (ca_reason_string p) n))"

section \<open>Contract\<close>

text \<open>A number that is only written when it is not zero.\<close>

definition nonzero_opt :: "u16 \<Rightarrow> u16 option" where
  "nonzero_opt v = (if v > 0 then Some v else None)"

lemma nonzero_opt_default [simp]: "(case nonzero_opt v of None \<Rightarrow> 0 | Some w \<Rightarrow> w) = v"
  by (simp add: nonzero_opt_def word_neq_0_conv [symmetric])

definition connack_fixed :: "ConnectAck \<Rightarrow> bytes" where
  "connack_fixed p =
    prop_image pt_SESS_EXPIRY_INT u32_be (ca_session_expiry_interval_secs p) @
    prop_image pt_RECEIVE_MAX u16_be (ca_receive_max p) @
    prop_image pt_MAX_QOS (\<lambda>q. [QoS_to_u8 q]) (ca_max_qos p) @
    prop_image pt_RETAIN_AVAIL bool_image (ca_retain_available p) @
    prop_image pt_MAX_PACKET_SIZE u32_be (ca_max_packet_size p) @
    prop_image pt_ASSND_CLIENT_ID Bytes_image (ca_assigned_client_id p) @
    prop_image pt_TOPIC_ALIAS_MAX u16_be (nonzero_opt (ca_topic_alias_max p)) @
    prop_image pt_WILDCARD_SUB_AVAIL bool_image (ca_wildcard_subscription_available p) @
    prop_image pt_SUB_IDS_AVAIL bool_image (ca_subscription_identifiers_available p) @
    prop_image pt_SHARED_SUB_AVAIL bool_image (ca_shared_subscription_available p) @
    prop_image pt_SERVER_KA u16_be (ca_server_keepalive_sec p) @
    prop_image pt_RESP_INFO Bytes_image (ca_response_info p) @
    prop_image pt_SERVER_REF Bytes_image (ca_server_reference p) @
    prop_image pt_AUTH_METHOD Bytes_image (ca_auth_method p) @
    prop_image pt_AUTH_DATA Bytes_image (ca_auth_data p)"

definition valid_ConnectAck :: "ConnectAck \<Rightarrow> bool" where
  "valid_ConnectAck p \<longleftrightarrow>
    valid_opt (\<lambda>v. v \<noteq> 0) (ca_receive_max p) \<and>
    valid_opt valid_ByteString (ca_assigned_client_id p) \<and>
    valid_opt valid_ByteString (ca_response_info p) \<and>
    valid_opt valid_ByteString (ca_server_reference p) \<and>
    valid_opt valid_ByteString (ca_auth_method p) \<and>
    valid_opt valid_Bytes (ca_auth_data p) \<and>
    valid_opt valid_ByteString (ca_reason_string p) \<and>
    valid_props (ca_user_properties p)"

abbreviation connack_header :: "ConnectAck \<Rightarrow> bytes" where
  "connack_header p \<equiv>
    [if ca_session_present p then 1 else 0, ConnectAckReason_to_u8 (ca_reason_code p)]"

definition ConnectAck_image :: "ConnectAck \<Rightarrow> bytes" where
  "ConnectAck_image p = diag_packet_image (connack_header p) (connack_fixed p)
    (ca_user_properties p, ca_reason_string p)"

definition ConnectAck_fit :: "u32 \<Rightarrow> ConnectAck \<Rightarrow> ConnectAck" where
  "ConnectAck_fit limit p =
    (case fit_props (unat limit - (length (connack_fixed p) + 2 + 4)) (ca_user_properties p)
        (ca_reason_string p) of
       (ps, r) \<Rightarrow> p\<lparr>ca_user_properties := ps, ca_reason_string := r\<rparr>)"

lemma ConnectAck_image_fit:
  "ConnectAck_image (ConnectAck_fit limit p) =
    diag_packet_image (connack_header p) (connack_fixed p)
      (fit_props (unat limit - (length (connack_fixed p) + 2 + 4)) (ca_user_properties p)
        (ca_reason_string p))"
  by (simp add: ConnectAck_image_def ConnectAck_fit_def connack_fixed_def split: prod.split)

lemma length_prop_qos:
  "length (prop_image t (\<lambda>q. [QoS_to_u8 q]) v) = (case v of None \<Rightarrow> 0 | Some _ \<Rightarrow> 1 + 1)"
  by (cases v) simp_all

lemma property_size_nonzero:
  "encoded_property_size u16_encoded_size (nonzero_opt v) =
    (if v > 0 then 1 + u16_encoded_size v else 0)"
  by (simp add: nonzero_opt_def encoded_property_size_def)

lemma ConnectAck_size:
  assumes "length (ConnectAck_image (ConnectAck_fit limit p)) < 2 ^ 64"
  shows "ConnectAck_encoded_size p limit = Ok (length (ConnectAck_image (ConnectAck_fit limit p)))"
proof -
  let ?n = "encoded_property_size u32_encoded_size (ca_session_expiry_interval_secs p)
    + encoded_property_size NonZeroU16_encoded_size (ca_receive_max p)
    + (case ca_max_qos p of None \<Rightarrow> 0 | Some _ \<Rightarrow> 1 + 1)
    + encoded_property_size bool_encoded_size (ca_retain_available p)
    + encoded_property_size u32_encoded_size (ca_max_packet_size p)
    + encoded_property_size ByteString_encoded_size (ca_assigned_client_id p)
    + encoded_property_size bool_encoded_size (ca_wildcard_subscription_available p)
    + encoded_property_size bool_encoded_size (ca_subscription_identifiers_available p)
    + encoded_property_size bool_encoded_size (ca_shared_subscription_available p)
    + encoded_property_size u16_encoded_size (ca_server_keepalive_sec p)
    + encoded_property_size ByteString_encoded_size (ca_response_info p)
    + encoded_property_size ByteString_encoded_size (ca_server_reference p)
    + encoded_property_size ByteString_encoded_size (ca_auth_method p)
    + encoded_property_size Bytes_encoded_size (ca_auth_data p)"
  have fixed: "(if ca_topic_alias_max p > 0
      then ?n + (1 + u16_encoded_size (ca_topic_alias_max p)) else ?n) = length (connack_fixed p)"
    by (simp only: connack_fixed_def length_append length_prop_qos
        property_size_simps) (simp add: property_size_nonzero)
  show ?thesis
    using diag_packet_size [of "connack_header p" "connack_fixed p" limit
        "ca_user_properties p" "ca_reason_string p"] assms
    unfolding ConnectAck_image_fit ConnectAck_encoded_size_def Let_def fixed
    by (simp add: add.commute)
qed

lemma writes_connack_props:
  assumes "valid_ConnectAck p"
  shows "writes (steps (connack_prop_encs p)) (connack_fixed p)"
proof -
  note v = assms [unfolded valid_ConnectAck_def]
  have qos: "writes (encode_opt (ca_max_qos p) (\<lambda>q. put [pt_MAX_QOS, QoS_to_u8 q]))
      (prop_image pt_MAX_QOS (\<lambda>q. [QoS_to_u8 q]) (ca_max_qos p))"
    unfolding prop_image_def by (intro writes_intro)
  have "writes (steps [put [pt_TOPIC_ALIAS_MAX], u16_encode (ca_topic_alias_max p)])
      ([pt_TOPIC_ALIAS_MAX] @ u16_be (ca_topic_alias_max p) @ [])"
    by (intro writes_intro)
  then have tam: "writes (if ca_topic_alias_max p > 0
        then steps [put [pt_TOPIC_ALIAS_MAX], u16_encode (ca_topic_alias_max p)] else put [])
      (prop_image pt_TOPIC_ALIAS_MAX u16_be (nonzero_opt (ca_topic_alias_max p)))"
    by (simp add: nonzero_opt_def writes_put)
  show ?thesis
    unfolding connack_prop_encs_def connack_fixed_def
    by (rule writes_eqI,
        (rule qos tam property_writes_intros writes_steps_Cons writes_steps_Nil | (simp add: v)[1])+)
qed

lemma writes_ConnectAck:
  assumes "valid_ConnectAck p" "length (ConnectAck_image (ConnectAck_fit limit p)) \<le> 268435455"
  shows "writes (ConnectAck_encode p (of_nat (length (ConnectAck_image (ConnectAck_fit limit p)))))
    (ConnectAck_image (ConnectAck_fit limit p))"
  using writes_diag_packet [OF writes_connack_props [OF assms(1)], of "ca_user_properties p"
      "ca_reason_string p" "connack_header p"] assms
  unfolding ConnectAck_image_fit ConnectAck_encode_def by (simp add: valid_ConnectAck_def)

lemma QoS_decode_facts:
  "returns (QoS_decode src)" "consuming QoS_decode"
  "QoS_decode ([QoS_to_u8 q] @ rest) = Ok (q, rest)"
  by (auto simp: QoS_decode_def consuming_def get_u8_def QoS.try_from_to QoS.try_from_returns
      intro!: returns_intro split: list.splits)

interpretation connack: property_reader connack_arms
  by unfold_locales
    (unfold connack_arms_def, (rule arms_intros QoS_decode_facts)+)

lemma connack_arm_simps:
  "connack_arms pt_SESS_EXPIRY_INT = read_value cal_session_expiry_interval_secs cal_session_expiry_interval_secs_update u32_decode"
  "connack_arms pt_RECEIVE_MAX = read_value cal_receive_max cal_receive_max_update NonZeroU16_decode"
  "connack_arms pt_MAX_QOS = read_value cal_max_qos cal_max_qos_update QoS_decode"
  "connack_arms pt_RETAIN_AVAIL = read_value cal_retain_available cal_retain_available_update bool_decode"
  "connack_arms pt_MAX_PACKET_SIZE = read_value cal_max_packet_size cal_max_packet_size_update u32_decode"
  "connack_arms pt_ASSND_CLIENT_ID = read_value cal_assigned_client_id cal_assigned_client_id_update ByteString_decode"
  "connack_arms pt_TOPIC_ALIAS_MAX = read_value cal_topic_alias_max cal_topic_alias_max_update u16_decode"
  "connack_arms pt_REASON_STRING = read_value cal_reason_string cal_reason_string_update ByteString_decode"
  "connack_arms pt_USER = read_push cal_user_properties_update UserProperty_decode"
  "connack_arms pt_WILDCARD_SUB_AVAIL = read_value cal_wildcard_sub_avail cal_wildcard_sub_avail_update bool_decode"
  "connack_arms pt_SUB_IDS_AVAIL = read_value cal_sub_ids_avail cal_sub_ids_avail_update bool_decode"
  "connack_arms pt_SHARED_SUB_AVAIL = read_value cal_shared_sub_avail cal_shared_sub_avail_update bool_decode"
  "connack_arms pt_SERVER_KA = read_value cal_server_ka_sec cal_server_ka_sec_update u16_decode"
  "connack_arms pt_RESP_INFO = read_value cal_response_info cal_response_info_update ByteString_decode"
  "connack_arms pt_SERVER_REF = read_value cal_server_reference cal_server_reference_update ByteString_decode"
  "connack_arms pt_AUTH_METHOD = read_value cal_auth_method cal_auth_method_update ByteString_decode"
  "connack_arms pt_AUTH_DATA = read_value cal_auth_data cal_auth_data_update Bytes_decode"
  by (simp_all add: connack_arms_def property_type_defs)

lemmas connack_read_steps =
  connack.read_opt [where P = "\<lambda>_. True", OF connack_arm_simps(1) u32.decode_image]
  connack.read_opt [OF connack_arm_simps(2) NonZeroU16.decode_image]
  connack.read_opt [where P = "\<lambda>_. True", OF connack_arm_simps(3) QoS_decode_facts(3)]
  connack.read_opt [where P = "\<lambda>_. True", OF connack_arm_simps(4) bool.decode_image]
  connack.read_opt [where P = "\<lambda>_. True", OF connack_arm_simps(5) u32.decode_image]
  connack.read_opt [OF connack_arm_simps(6) ByteString.decode_image]
  connack.read_opt [where P = "\<lambda>_. True", OF connack_arm_simps(7) u16.decode_image]
  connack.read_opt [where P = "\<lambda>_. True", OF connack_arm_simps(10) bool.decode_image]
  connack.read_opt [where P = "\<lambda>_. True", OF connack_arm_simps(11) bool.decode_image]
  connack.read_opt [where P = "\<lambda>_. True", OF connack_arm_simps(12) bool.decode_image]
  connack.read_opt [where P = "\<lambda>_. True", OF connack_arm_simps(13) u16.decode_image]
  connack.read_opt [OF connack_arm_simps(14) ByteString.decode_image]
  connack.read_opt [OF connack_arm_simps(15) ByteString.decode_image]
  connack.read_opt [OF connack_arm_simps(16) ByteString.decode_image]
  connack.read_opt [OF connack_arm_simps(17) Bytes.decode_image]
  connack.read_user [OF connack_arm_simps(9)]
  connack.read_opt_last [OF connack_arm_simps(8) ByteString.decode_image]

lemma connack_read_image:
  assumes "valid_ConnectAck p"
  shows "read_properties connack_arms connack_locals_init
    (connack_fixed p @ diag_image (ca_user_properties p) (ca_reason_string p)) = Ok
    \<lparr>cal_session_expiry_interval_secs = ca_session_expiry_interval_secs p,
     cal_receive_max = ca_receive_max p, cal_max_qos = ca_max_qos p,
     cal_retain_available = ca_retain_available p,
     cal_max_packet_size = ca_max_packet_size p,
     cal_assigned_client_id = ca_assigned_client_id p,
     cal_topic_alias_max = nonzero_opt (ca_topic_alias_max p),
     cal_reason_string = ca_reason_string p, cal_user_properties = ca_user_properties p,
     cal_wildcard_sub_avail = ca_wildcard_subscription_available p,
     cal_sub_ids_avail = ca_subscription_identifiers_available p,
     cal_shared_sub_avail = ca_shared_subscription_available p,
     cal_server_ka_sec = ca_server_keepalive_sec p, cal_response_info = ca_response_info p,
     cal_server_reference = ca_server_reference p, cal_auth_method = ca_auth_method p,
     cal_auth_data = ca_auth_data p\<rparr>"
  using assms unfolding valid_ConnectAck_def
  by (simp add: connack_fixed_def diag_image_def connack_locals_init_def connack_read_steps)

lemma ConnectAck_decode_image:
  assumes "valid_ConnectAck p" "length (ConnectAck_image p) \<le> 268435455"
  shows "ConnectAck_decode (ConnectAck_image p) = Ok p"
proof -
  have "length (connack_fixed p @ diag_image (ca_user_properties p) (ca_reason_string p)) \<le> 268435455"
    using assms(2) by (simp add: ConnectAck_image_def length_diag_packet_image Let_def)
  note d = connack.decode_props_image [OF this connack_read_image [OF assms(1)], of "[]"]
  have flags: "flags_from_bits ConnectAckFlags_all (if b then 1 else 0) = Some (if b then 1 else 0)"
    "flags_contains (if b then 1 else 0) CAF_SESSION_PRESENT = b" for b
    by (simp_all add: flags_from_bits_def flags_contains_def connect_flag_defs)
  from d show ?thesis
    by (simp add: ConnectAck_decode_def ConnectAck_image_def diag_packet_image_def flags
        ConnectAckReason.try_from_to)
qed

interpretation ConnectAck: encode_ltd ConnectAck_encoded_size ConnectAck_encode
  "\<lambda>_. ConnectAck_decode" "\<lambda>_. 0" ConnectAck_image ConnectAck_fit valid_ConnectAck "\<lambda>_. 0"
proof
  show "valid_ConnectAck (ConnectAck_fit limit p)" if "valid_ConnectAck p" for limit p
    using that by (auto simp: ConnectAck_fit_def valid_ConnectAck_def split: prod.split
        dest: fit_props_valid)
  show "ConnectAck_fit limit p = p" if "length (ConnectAck_image p) + 11 \<le> unat limit" for limit p
    using that by (simp add: ConnectAck_fit_def ConnectAck_image_def length_diag_packet_image Let_def
        fit_props_all)
  show "returns (ConnectAck_decode src)" for src
  proof (cases src)
    case (Cons a src')
    then show ?thesis by (cases src') (auto simp: ConnectAck_decode_def intro!: returns_intro
        connack.decode_returns ConnectAckReason.try_from_returns)
  qed (simp add: ConnectAck_decode_def)
qed (auto intro: ConnectAck_size writes_ConnectAck ConnectAck_decode_image)

end
