(* ===== verification/V5_Publish.thy ===== *)
theory V5_Publish
  imports V5_Props
begin

text \<open>
  PUBLISH of MQTT 5 (\<^verbatim>\<open>src/v5/codec/packet/publish.rs\<close>).  The encoder computes the size of subscription
  identifiers as variable length integers, which the standard and the decoder expect, but writes them
  as four bytes; it fulfils the contract \<open>encode_ltd\<close> for packets without them (\<open>sendable_Publish\<close>).
\<close>

record PublishProperties =
  pp_topic_alias :: "u16 option"
  pp_correlation_data :: "bytes option"
  pp_message_expiry_interval :: "u32 option"
  pp_content_type :: "bytestring option"
  pp_user_properties :: UserProperties
  pp_is_utf8_payload :: "bool option"
  pp_response_topic :: "bytestring option"
  pp_subscription_ids :: "u32 list option"

record Publish =
  pub_dup :: bool
  pub_retain :: bool
  pub_qos :: QoS
  pub_packet_id :: "u16 option"
  pub_topic :: bytestring
  pub_payload :: bytes
  pub_properties :: PublishProperties

definition PublishProperties_default :: PublishProperties where
  "PublishProperties_default =
    \<lparr>pp_topic_alias = None, pp_correlation_data = None, pp_message_expiry_interval = None,
     pp_content_type = None, pp_user_properties = [], pp_is_utf8_payload = None,
     pp_response_topic = None, pp_subscription_ids = None\<rparr>"

section \<open>Decoding\<close>

definition read_subscription_id :: "(DecodeError, PublishProperties) body" where
  "read_subscription_id s src =
    and_then (decode_variable_length_cursor src) (\<lambda>(id, src).
    if id \<noteq> 0 then
      Ok (s\<lparr>pp_subscription_ids :=
            Some ((case pp_subscription_ids s of None \<Rightarrow> [] | Some ids \<Rightarrow> ids) @ [id])\<rparr>, src)
    else Err DecodeError.MalformedPacket)"

definition publish_arms :: "u8 \<Rightarrow> (DecodeError, PublishProperties) body" where
  "publish_arms t =
    (if t = pt_UTF8_PAYLOAD then read_value pp_is_utf8_payload pp_is_utf8_payload_update bool_decode
     else if t = pt_MSG_EXPIRY_INT then
       read_value pp_message_expiry_interval pp_message_expiry_interval_update NonZeroU32_decode
     else if t = pt_CONTENT_TYPE then
       read_value pp_content_type pp_content_type_update ByteString_decode
     else if t = pt_RESP_TOPIC then
       read_value pp_response_topic pp_response_topic_update ByteString_decode
     else if t = pt_CORR_DATA then
       read_value pp_correlation_data pp_correlation_data_update Bytes_decode
     else if t = pt_SUB_ID then read_subscription_id
     else if t = pt_TOPIC_ALIAS then
       read_value pp_topic_alias pp_topic_alias_update NonZeroU16_decode
     else if t = pt_USER then read_push pp_user_properties_update UserProperty_decode
     else unknown_property)"

definition parse_publish_properties :: "(DecodeError, PublishProperties) decoder" where
  "parse_publish_properties src = decode_properties publish_arms PublishProperties_default src"

definition Publish_decode :: "bytes \<Rightarrow> u8 \<Rightarrow> (DecodeError, Publish) outcome" where
  "Publish_decode src packet_flags =
    and_then (ByteString_decode src) (\<lambda>(topic, src).
    and_then (QoS_try_from (drop_bit 1 (packet_flags AND 0b0110))) (\<lambda>qos.
    and_then (decode_if (qos \<noteq> AtMostOnce) NonZeroU16_decode src) (\<lambda>(packet_id, src).
    and_then (parse_publish_properties src) (\<lambda>(properties, src).
    Ok \<lparr>pub_dup = (packet_flags AND 0b1000 = 0b1000),
        pub_retain = (packet_flags AND 0b0001 = 0b0001),
        pub_qos = qos, pub_packet_id = packet_id, pub_topic = topic, pub_payload = src,
        pub_properties = properties\<rparr>))))"

section \<open>Encoding\<close>

definition subscription_ids_size :: "u32 list \<Rightarrow> (EncodeError, nat) outcome" where
  "subscription_ids_size ids =
    fold (\<lambda>id acc. and_then acc (\<lambda>acc. and_then (var_int_len (unat id)) (\<lambda>n. Ok (acc + 1 + n)))) ids (Ok 0)"

definition PublishProperties_encoded_size :: "PublishProperties \<Rightarrow> (EncodeError, nat) outcome" where
  "PublishProperties_encoded_size p =
    and_then (case pp_subscription_ids p of None \<Rightarrow> Ok 0 | Some ids \<Rightarrow> subscription_ids_size ids)
      (\<lambda>ids_len.
    let prop_len =
          encoded_property_size NonZeroU16_encoded_size (pp_topic_alias p) +
          encoded_property_size Bytes_encoded_size (pp_correlation_data p) +
          encoded_property_size NonZeroU32_encoded_size (pp_message_expiry_interval p) +
          encoded_property_size ByteString_encoded_size (pp_content_type p) +
          encoded_property_size bool_encoded_size (pp_is_utf8_payload p) +
          encoded_property_size ByteString_encoded_size (pp_response_topic p) +
          ids_len +
          UserProperties_encoded_size (pp_user_properties p) in
    and_then (var_int_len prop_len) (\<lambda>n. Ok (prop_len + n)))"

definition PublishProperties_encode :: "PublishProperties \<Rightarrow> u32 \<Rightarrow> EncodeError encoder" where
  "PublishProperties_encode p sz =
    enc_val (var_int_len_from_size sz) (\<lambda>prop_len. steps
      [write_variable_length prop_len,
       encode_property NonZeroU16_encode (pp_topic_alias p) pt_TOPIC_ALIAS,
       encode_property Bytes_encode (pp_correlation_data p) pt_CORR_DATA,
       encode_property NonZeroU32_encode (pp_message_expiry_interval p) pt_MSG_EXPIRY_INT,
       encode_property ByteString_encode (pp_content_type p) pt_CONTENT_TYPE,
       encode_property bool_encode (pp_is_utf8_payload p) pt_UTF8_PAYLOAD,
       encode_property ByteString_encode (pp_response_topic p) pt_RESP_TOPIC,
       encode_opt (pp_subscription_ids p) (\<lambda>sub_ids.
         for_each sub_ids (\<lambda>sub_id. steps [put [pt_SUB_ID], NonZeroU32_encode sub_id])),
       UserProperties_encode (pp_user_properties p)])"

definition Publish_encoded_size :: "Publish \<Rightarrow> u32 \<Rightarrow> (EncodeError, nat) outcome" where
  "Publish_encoded_size p limit =
    (let packet_id_size = (if pub_qos p = AtMostOnce then 0 else 2) in
     and_then (PublishProperties_encoded_size (pub_properties p)) (\<lambda>n.
     Ok (ByteString_encoded_size (pub_topic p) + packet_id_size + n + length (pub_payload p))))"

definition Publish_encode :: "Publish \<Rightarrow> u32 \<Rightarrow> EncodeError encoder" where
  "Publish_encode p sz = steps
    [with_written
      (steps
        [ByteString_encode (pub_topic p),
         (if pub_qos p = AtMostOnce then
            if pub_packet_id p \<noteq> None then enc_fail (Err EncodeError.MalformedPacket) else put []
          else enc_val (ok_or (pub_packet_id p) EncodeError.PacketIdRequired) NonZeroU16_encode)])
      (\<lambda>written. enc_val (checked_sub sz (of_nat (written + length (pub_payload p))))
        (\<lambda>n. PublishProperties_encode (pub_properties p) n)),
     put (pub_payload p)]"

section \<open>Contract\<close>

definition sendable_Publish :: "Publish \<Rightarrow> bool" where
  "sendable_Publish p \<longleftrightarrow>
    valid_ByteString (pub_topic p) \<and>
    (pub_packet_id p = None \<longleftrightarrow> pub_qos p = AtMostOnce) \<and>
    valid_opt (\<lambda>v. v \<noteq> 0) (pub_packet_id p) \<and>
    valid_opt (\<lambda>v. v \<noteq> 0) (pp_topic_alias (pub_properties p)) \<and>
    valid_opt valid_Bytes (pp_correlation_data (pub_properties p)) \<and>
    valid_opt (\<lambda>v. v \<noteq> 0) (pp_message_expiry_interval (pub_properties p)) \<and>
    valid_opt valid_ByteString (pp_content_type (pub_properties p)) \<and>
    valid_opt valid_ByteString (pp_response_topic (pub_properties p)) \<and>
    valid_props (pp_user_properties (pub_properties p)) \<and>
    pp_subscription_ids (pub_properties p) = None"

definition publish_props :: "PublishProperties \<Rightarrow> bytes" where
  "publish_props p =
    prop_image pt_TOPIC_ALIAS u16_be (pp_topic_alias p) @
    prop_image pt_CORR_DATA Bytes_image (pp_correlation_data p) @
    prop_image pt_MSG_EXPIRY_INT u32_be (pp_message_expiry_interval p) @
    prop_image pt_CONTENT_TYPE Bytes_image (pp_content_type p) @
    prop_image pt_UTF8_PAYLOAD bool_image (pp_is_utf8_payload p) @
    prop_image pt_RESP_TOPIC Bytes_image (pp_response_topic p) @
    user_image (pp_user_properties p)"

definition Publish_image :: "Publish \<Rightarrow> bytes" where
  "Publish_image p = Bytes_image (pub_topic p) @ opt_image u16_be (pub_packet_id p) @
    props_image (publish_props (pub_properties p)) @ pub_payload p"

definition publish_flags :: "Publish \<Rightarrow> u8" where
  "publish_flags p = push_bit 1 (QoS_to_u8 (pub_qos p)) OR push_bit 3 (of_bool (pub_dup p)) OR
    of_bool (pub_retain p)"

lemma publish_flags_decode:
  "drop_bit 1 (publish_flags p AND 0b0110) = QoS_to_u8 (pub_qos p)"
  "(publish_flags p AND 0b1000 = 0b1000) = pub_dup p"
  "(publish_flags p AND 0b0001 = 0b0001) = pub_retain p"
  by (cases "pub_qos p"; cases "pub_dup p"; cases "pub_retain p"; simp add: publish_flags_def)+

lemma length_packet_id:
  "sendable_Publish p \<Longrightarrow>
   length (opt_image u16_be (pub_packet_id p)) = (if pub_qos p = AtMostOnce then 0 else 2)"
  by (cases "pub_packet_id p") (auto simp: sendable_Publish_def)

lemma PublishProperties_size:
  assumes "pp_subscription_ids p = None" "length (publish_props p) < 2 ^ 64"
  shows "PublishProperties_encoded_size p = Ok (length (props_image (publish_props p)))"
proof -
  have len: "encoded_property_size NonZeroU16_encoded_size (pp_topic_alias p) +
      encoded_property_size Bytes_encoded_size (pp_correlation_data p) +
      encoded_property_size NonZeroU32_encoded_size (pp_message_expiry_interval p) +
      encoded_property_size ByteString_encoded_size (pp_content_type p) +
      encoded_property_size bool_encoded_size (pp_is_utf8_payload p) +
      encoded_property_size ByteString_encoded_size (pp_response_topic p) + 0 +
      UserProperties_encoded_size (pp_user_properties p) = length (publish_props p)"
    unfolding publish_props_def length_append property_size_simps UserProperties_encoded_size_image
    by simp
  show ?thesis
    unfolding PublishProperties_encoded_size_def assms(1) option.case and_then_simps Let_def len
      var_int_len_eq [OF assms(2)] by (simp add: length_props_image)
qed

lemma Publish_size:
  assumes "sendable_Publish p" "length (Publish_image p) < 2 ^ 64"
  shows "Publish_encoded_size p limit = Ok (length (Publish_image p))"
proof -
  have "length (publish_props (pub_properties p)) < 2 ^ 64"
    using assms(2) by (simp add: Publish_image_def length_props_image)
  then have size: "PublishProperties_encoded_size (pub_properties p) =
      Ok (length (props_image (publish_props (pub_properties p))))"
    using assms(1) by (intro PublishProperties_size) (auto simp: sendable_Publish_def)
  show ?thesis
    unfolding Publish_encoded_size_def size and_then_simps Let_def
    by (simp add: Publish_image_def length_packet_id [OF assms(1)] encoded_size_same)
qed

lemma writes_PublishProperties:
  assumes "sendable_Publish p" "length (props_image (publish_props (pub_properties p))) \<le> 268435455"
  shows "writes (PublishProperties_encode (pub_properties p)
      (of_nat (length (props_image (publish_props (pub_properties p))))))
    (props_image (publish_props (pub_properties p)))"
proof -
  note v = assms(1) [unfolded sendable_Publish_def]
  let ?n = "length (publish_props (pub_properties p))"
  have bound: "?n \<le> 268435455" "?n + length (varlen_spec ?n) < 4294967296"
    using assms(2) by (simp_all add: length_props_image)
  note len = writes_varlen_nat [OF bound(1)]
  have ids: "writes (encode_opt (pp_subscription_ids (pub_properties p)) f) []" for f
    using v by (simp add: encode_opt_def writes_put)
  show ?thesis
    unfolding PublishProperties_encode_def length_props_image var_int_len_from_size_eq [OF bound(2)]
      enc_val_Ok
    by (rule writes_eqI,
        (rule len ids property_writes_intros writes_UserProperties writes_steps_Cons
          writes_steps_Nil | (simp add: v)[1])+,
        simp add: publish_props_def props_image_def)
qed

lemma writes_Publish:
  assumes "sendable_Publish p" "length (Publish_image p) \<le> 268435455"
  shows "writes (Publish_encode p (of_nat (length (Publish_image p)))) (Publish_image p)"
proof -
  let ?props = "props_image (publish_props (pub_properties p))"
  let ?head = "Bytes_image (pub_topic p) @ opt_image u16_be (pub_packet_id p)"
  have len: "length (Publish_image p) = length ?head + length (pub_payload p) + length ?props"
    by (simp add: Publish_image_def)
  have sub: "checked_sub (of_nat (length (Publish_image p)) :: u32)
      (of_nat (length ?head + length (pub_payload p))) =
      (Ok (of_nat (length ?props)) :: (EncodeError, u32) outcome)"
    using checked_sub_of_nat [of "length ?head + length (pub_payload p)" "length (Publish_image p)"]
      assms(2) len by (simp del: of_nat_add)
  have pid: "writes (if pub_qos p = AtMostOnce then
        if pub_packet_id p \<noteq> None then enc_fail (Err EncodeError.MalformedPacket) else put []
      else enc_val (ok_or (pub_packet_id p) EncodeError.PacketIdRequired) NonZeroU16_encode)
      (opt_image u16_be (pub_packet_id p))"
    using assms(1) by (cases "pub_packet_id p")
      (auto simp: sendable_Publish_def writes_put NonZeroU16.writes_image)
  have "writes (steps
        [ByteString_encode (pub_topic p),
         (if pub_qos p = AtMostOnce then
            if pub_packet_id p \<noteq> None then enc_fail (Err EncodeError.MalformedPacket) else put []
          else enc_val (ok_or (pub_packet_id p) EncodeError.PacketIdRequired) NonZeroU16_encode)])
      (Bytes_image (pub_topic p) @ opt_image u16_be (pub_packet_id p) @ [])"
    using assms(1) by (intro writes_steps_Cons writes_steps_Nil pid ByteString.writes_image)
      (simp add: sendable_Publish_def)
  then have head: "writes (steps
        [ByteString_encode (pub_topic p),
         (if pub_qos p = AtMostOnce then
            if pub_packet_id p \<noteq> None then enc_fail (Err EncodeError.MalformedPacket) else put []
          else enc_val (ok_or (pub_packet_id p) EncodeError.PacketIdRequired) NonZeroU16_encode)])
      ?head" by simp
  have "length ?props \<le> 268435455" using assms(2) len by simp
  note props = writes_PublishProperties [OF assms(1) this]
  have "writes (Publish_encode p (of_nat (length (Publish_image p))))
      ((?head @ ?props) @ pub_payload p @ [])"
    unfolding Publish_encode_def
    by (intro writes_steps_Cons writes_steps_Nil writes_put writes_with_written head)
      (simp only: sub enc_val_Ok props)
  then show ?thesis by (simp add: Publish_image_def)
qed

lemma read_subscription_id_facts:
  "returns (read_subscription_id s src)" "shrinking (read_subscription_id s)"
  using consumingD [OF decode_cursor_consuming]
  by (auto simp: read_subscription_id_def shrinking_def intro!: returns_intro
      split: if_splits intro: less_imp_le)

interpretation publish: property_reader publish_arms
  by unfold_locales (unfold publish_arms_def, (rule arms_intros read_subscription_id_facts)+)

lemma publish_arm_simps:
  "publish_arms pt_TOPIC_ALIAS = read_value pp_topic_alias pp_topic_alias_update NonZeroU16_decode"
  "publish_arms pt_CORR_DATA =
    read_value pp_correlation_data pp_correlation_data_update Bytes_decode"
  "publish_arms pt_MSG_EXPIRY_INT =
    read_value pp_message_expiry_interval pp_message_expiry_interval_update NonZeroU32_decode"
  "publish_arms pt_CONTENT_TYPE = read_value pp_content_type pp_content_type_update ByteString_decode"
  "publish_arms pt_UTF8_PAYLOAD = read_value pp_is_utf8_payload pp_is_utf8_payload_update bool_decode"
  "publish_arms pt_RESP_TOPIC =
    read_value pp_response_topic pp_response_topic_update ByteString_decode"
  "publish_arms pt_USER = read_push pp_user_properties_update UserProperty_decode"
  by (simp_all add: publish_arms_def property_type_defs)

lemmas publish_read_steps =
  publish.read_opt [OF publish_arm_simps(1) NonZeroU16.decode_image]
  publish.read_opt [OF publish_arm_simps(2) Bytes.decode_image]
  publish.read_opt [OF publish_arm_simps(3) NonZeroU32.decode_image]
  publish.read_opt [OF publish_arm_simps(4) ByteString.decode_image]
  publish.read_opt [where P = "\<lambda>_. True", OF publish_arm_simps(5) bool.decode_image]
  publish.read_opt [OF publish_arm_simps(6) ByteString.decode_image]

lemma publish_read_image:
  assumes "sendable_Publish p"
  shows "read_properties publish_arms PublishProperties_default (publish_props (pub_properties p)) =
    Ok (pub_properties p)"
  using assms publish.read_user [OF publish_arm_simps(7),
      of "pp_user_properties (pub_properties p)" _ "[]"]
  unfolding sendable_Publish_def
  by (simp add: publish_props_def PublishProperties_default_def publish_read_steps)

lemma Publish_decode_image:
  assumes "sendable_Publish p" "length (Publish_image p) \<le> 268435455"
  shows "Publish_decode (Publish_image p) (publish_flags p) = Ok p"
proof -
  note v = assms(1) [unfolded sendable_Publish_def]
  let ?rest = "props_image (publish_props (pub_properties p)) @ pub_payload p"
  have "length (publish_props (pub_properties p)) \<le> 268435455"
    using assms(2) by (simp add: Publish_image_def length_props_image)
  from publish.decode_props_image [OF this publish_read_image [OF assms(1)]]
  have props: "parse_publish_properties ?rest = Ok (pub_properties p, pub_payload p)"
    by (simp add: parse_publish_properties_def)
  have topic: "ByteString_decode (Publish_image p) =
      Ok (pub_topic p, opt_image u16_be (pub_packet_id p) @ ?rest)"
    using v by (simp add: Publish_image_def ByteString.decode_image)
  have pid: "decode_if (pub_qos p \<noteq> AtMostOnce) NonZeroU16_decode
      (opt_image u16_be (pub_packet_id p) @ ?rest) = Ok (pub_packet_id p, ?rest)"
    using v by (cases "pub_packet_id p") (auto simp: wire_simps)
  show ?thesis
    unfolding Publish_decode_def topic and_then_simps prod.case publish_flags_decode
      QoS.try_from_to pid props by simp
qed

lemma returns_Publish_decode [returns_intro]: "returns (Publish_decode src f)"
  by (auto simp: Publish_decode_def parse_publish_properties_def
      intro!: returns_intro publish.decode_returns QoS.try_from_returns)

interpretation Publish: encode_ltd Publish_encoded_size Publish_encode
  "\<lambda>f src. Publish_decode src f" publish_flags Publish_image "\<lambda>_ p. p" sendable_Publish "\<lambda>_. 0"
  by unfold_locales (auto intro: Publish_size writes_Publish Publish_decode_image returns_intro)

end
