(* ===== verification/V5_PubAcks.thy ===== *)
theory V5_PubAcks
  imports V5_Props
begin

text \<open>
  PUBACK, PUBREC, PUBREL and PUBCOMP of MQTT 5 (\<^verbatim>\<open>src/v5/codec/packet/pubacks.rs\<close>).  The structures
  \<^verbatim>\<open>PublishAck\<close> and \<^verbatim>\<open>PublishAck2\<close> and their code differ only in the type of the reason code, so
  there is one record and one set of operations for both, which take the reason type's conversions.
\<close>

datatype PublishAckReason =
    Success | NoMatchingSubscribers | UnspecifiedError | ImplementationSpecificError | NotAuthorized
  | TopicNameInvalid | PacketIdentifierInUse | ReceiveMaximumExceeded | QuotaExceeded
  | PayloadFormatInvalid

fun PublishAckReason_to_u8 :: "PublishAckReason \<Rightarrow> u8" where
  "PublishAckReason_to_u8 Success = 0"
| "PublishAckReason_to_u8 NoMatchingSubscribers = 16"
| "PublishAckReason_to_u8 UnspecifiedError = 128"
| "PublishAckReason_to_u8 ImplementationSpecificError = 131"
| "PublishAckReason_to_u8 NotAuthorized = 135"
| "PublishAckReason_to_u8 TopicNameInvalid = 144"
| "PublishAckReason_to_u8 PacketIdentifierInUse = 145"
| "PublishAckReason_to_u8 ReceiveMaximumExceeded = 147"
| "PublishAckReason_to_u8 QuotaExceeded = 151"
| "PublishAckReason_to_u8 PayloadFormatInvalid = 153"

definition PublishAckReason_variants :: "PublishAckReason list" where
  "PublishAckReason_variants =
    [Success, NoMatchingSubscribers, UnspecifiedError, ImplementationSpecificError, NotAuthorized,
     TopicNameInvalid, PacketIdentifierInUse, ReceiveMaximumExceeded, QuotaExceeded,
     PayloadFormatInvalid]"

definition PublishAckReason_try_from :: "u8 \<Rightarrow> (DecodeError, PublishAckReason) outcome" where
  "PublishAckReason_try_from = try_from_u8 PublishAckReason_to_u8 PublishAckReason_variants"

interpretation PublishAckReason: prim_enum PublishAckReason_to_u8 PublishAckReason_variants
  rewrites "try_from_u8 PublishAckReason_to_u8 PublishAckReason_variants = PublishAckReason_try_from"
proof -
  show "prim_enum PublishAckReason_to_u8 PublishAckReason_variants"
  proof
    show "x \<in> set PublishAckReason_variants" for x
      by (cases x) (simp_all add: PublishAckReason_variants_def)
  qed (simp add: PublishAckReason_variants_def)
qed (simp add: PublishAckReason_try_from_def)

datatype PublishAck2Reason = Success | PacketIdNotFound

fun PublishAck2Reason_to_u8 :: "PublishAck2Reason \<Rightarrow> u8" where
  "PublishAck2Reason_to_u8 PublishAck2Reason.Success = 0"
| "PublishAck2Reason_to_u8 PacketIdNotFound = 146"

definition PublishAck2Reason_variants :: "PublishAck2Reason list" where
  "PublishAck2Reason_variants = [PublishAck2Reason.Success, PacketIdNotFound]"

definition PublishAck2Reason_try_from :: "u8 \<Rightarrow> (DecodeError, PublishAck2Reason) outcome" where
  "PublishAck2Reason_try_from = try_from_u8 PublishAck2Reason_to_u8 PublishAck2Reason_variants"

interpretation PublishAck2Reason: prim_enum PublishAck2Reason_to_u8 PublishAck2Reason_variants
  rewrites "try_from_u8 PublishAck2Reason_to_u8 PublishAck2Reason_variants = PublishAck2Reason_try_from"
proof -
  show "prim_enum PublishAck2Reason_to_u8 PublishAck2Reason_variants"
  proof
    show "x \<in> set PublishAck2Reason_variants" for x
      by (cases x) (simp_all add: PublishAck2Reason_variants_def)
  qed (simp add: PublishAck2Reason_variants_def)
qed (simp add: PublishAck2Reason_try_from_def)

section \<open>Packets and their codec\<close>

record 'r publish_ack =
  pa_packet_id :: u16
  pa_reason_code :: 'r
  pa_properties :: UserProperties
  pa_reason_string :: "bytestring option"

type_synonym PublishAck = "PublishAckReason publish_ack"
type_synonym PublishAck2 = "PublishAck2Reason publish_ack"

definition HEADER_LEN :: u32 where "HEADER_LEN = 2 + 1"

definition publish_ack_decode ::
  "(u8 \<Rightarrow> (DecodeError, 'r) outcome) \<Rightarrow> 'r \<Rightarrow> bytes \<Rightarrow> (DecodeError, 'r publish_ack) outcome" where
  "publish_ack_decode try_from success src =
    and_then (NonZeroU16_decode src) (\<lambda>(packet_id, src).
    and_then
      (if src \<noteq> [] then
         and_then (get_u8 src) (\<lambda>(b, src).
         and_then (try_from b) (\<lambda>reason_code.
         and_then (ack_props_decode src) (\<lambda>((properties, reason_string), src).
         ensure (src = []) DecodeError.InvalidLength
           (Ok (reason_code, properties, reason_string)))))
       else Ok (success, [], None))
      (\<lambda>(reason_code, properties, reason_string).
        Ok \<lparr>pa_packet_id = packet_id, pa_reason_code = reason_code, pa_properties = properties,
            pa_reason_string = reason_string\<rparr>))"

definition PublishAck_decode :: "bytes \<Rightarrow> (DecodeError, PublishAck) outcome" where
  "PublishAck_decode = publish_ack_decode PublishAckReason_try_from PublishAckReason.Success"

definition PublishAck2_decode :: "bytes \<Rightarrow> (DecodeError, PublishAck2) outcome" where
  "PublishAck2_decode = publish_ack_decode PublishAck2Reason_try_from PublishAck2Reason.Success"

definition PublishAck_default :: PublishAck where
  "PublishAck_default = \<lparr>pa_packet_id = 1, pa_reason_code = PublishAckReason.Success,
     pa_properties = [], pa_reason_string = None\<rparr>"

text \<open>\<^verbatim>\<open>limit - HEADER_LEN - 4\<close> is an unchecked subtraction of 32-bit integers in the code.\<close>

definition publish_ack_encoded_size :: "'r publish_ack \<Rightarrow> u32 \<Rightarrow> (EncodeError, nat) outcome" where
  "publish_ack_encoded_size p limit =
    and_then (checked_sub limit HEADER_LEN) (\<lambda>l.
    and_then (checked_sub l 4) (\<lambda>l.
    and_then (ack_props_encoded_size (pa_properties p) (pa_reason_string p) l) (\<lambda>prop_len.
    Ok (unat HEADER_LEN + prop_len))))"

definition publish_ack_encode ::
  "('r \<Rightarrow> u8) \<Rightarrow> 'r publish_ack \<Rightarrow> u32 \<Rightarrow> EncodeError encoder" where
  "publish_ack_encode to_u8 p sz = steps
    [u16_encode (pa_packet_id p),
     put [to_u8 (pa_reason_code p)],
     enc_val (checked_sub sz HEADER_LEN)
       (\<lambda>n. ack_props_encode (pa_properties p) (pa_reason_string p) n)]"

definition PublishAck_encoded_size :: "PublishAck \<Rightarrow> u32 \<Rightarrow> (EncodeError, nat) outcome" where
  "PublishAck_encoded_size = publish_ack_encoded_size"

definition PublishAck2_encoded_size :: "PublishAck2 \<Rightarrow> u32 \<Rightarrow> (EncodeError, nat) outcome" where
  "PublishAck2_encoded_size = publish_ack_encoded_size"

definition PublishAck_encode :: "PublishAck \<Rightarrow> u32 \<Rightarrow> EncodeError encoder" where
  "PublishAck_encode = publish_ack_encode PublishAckReason_to_u8"

definition PublishAck2_encode :: "PublishAck2 \<Rightarrow> u32 \<Rightarrow> EncodeError encoder" where
  "PublishAck2_encode = publish_ack_encode PublishAck2Reason_to_u8"

section \<open>Contract\<close>

definition publish_ack_image :: "('r \<Rightarrow> u8) \<Rightarrow> 'r publish_ack \<Rightarrow> bytes" where
  "publish_ack_image to_u8 p =
    u16_be (pa_packet_id p) @ [to_u8 (pa_reason_code p)] @
    ack_image (pa_properties p) (pa_reason_string p)"

definition publish_ack_fit :: "u32 \<Rightarrow> 'r publish_ack \<Rightarrow> 'r publish_ack" where
  "publish_ack_fit limit p =
    (case ack_fit (unat limit - 7) (pa_properties p) (pa_reason_string p) of
       (ps, r) \<Rightarrow> p\<lparr>pa_properties := ps, pa_reason_string := r\<rparr>)"

definition valid_publish_ack :: "'r publish_ack \<Rightarrow> bool" where
  "valid_publish_ack p \<longleftrightarrow> pa_packet_id p \<noteq> 0 \<and> valid_props (pa_properties p) \<and>
    valid_opt valid_ByteString (pa_reason_string p)"

lemma publish_ack_size:
  assumes "7 \<le> unat limit"
  shows "publish_ack_encoded_size p limit =
    Ok (length (publish_ack_image to_u8 (publish_ack_fit limit p)))"
proof -
  have a: "checked_sub limit HEADER_LEN = Ok (limit - 3)"
    using checked_sub_u32 [of 3 limit] assms by (simp add: HEADER_LEN_def)
  have "unat (limit - 3) = unat limit - 3"
    using unat_minus_of_nat [of 3 limit] assms by simp
  moreover have "4 \<le> unat limit - 3" using assms by arith
  ultimately have b: "checked_sub (limit - 3) 4 = Ok (limit - 7)" and c: "unat (limit - 7) = unat limit - 7"
    using checked_sub_u32 [of 4 "limit - 3"] unat_minus_of_nat [of 7 limit] assms by simp_all
  show ?thesis
    unfolding publish_ack_encoded_size_def a b c and_then_simps ack_props_size
    by (simp add: publish_ack_image_def publish_ack_fit_def HEADER_LEN_def split: prod.split)
qed

lemma writes_publish_ack:
  fixes p :: "'r publish_ack" and limit :: u32 and to_u8 :: "'r \<Rightarrow> u8"
  defines "img \<equiv> publish_ack_image to_u8 (publish_ack_fit limit p)"
  assumes "valid_publish_ack p" "length img \<le> 268435455"
  shows "writes (publish_ack_encode to_u8 p (of_nat (length img))) img"
proof -
  let ?ack = "case_prod ack_image (ack_fit (unat limit - 7) (pa_properties p) (pa_reason_string p))"
  have img: "img = u16_be (pa_packet_id p) @ [to_u8 (pa_reason_code p)] @ ?ack"
    by (simp add: img_def publish_ack_image_def publish_ack_fit_def split: prod.split)
  have ack: "length ?ack \<le> 268435455" "length img = length ?ack + 3"
    using assms(3) by (simp_all add: img)
  have sub: "checked_sub (of_nat (length img) :: u32) HEADER_LEN =
      (Ok (of_nat (length ?ack)) :: (EncodeError, u32) outcome)"
    using checked_sub_of_nat [of 3 "length img"] assms(3) ack(2) by (simp add: HEADER_LEN_def)
  have "writes (publish_ack_encode to_u8 p (of_nat (length img)))
      (u16_be (pa_packet_id p) @ [to_u8 (pa_reason_code p)] @ ?ack @ [])"
    unfolding publish_ack_encode_def sub enc_val_Ok
    by (intro writes_intro writes_ack_props)
      (use assms(2) ack in \<open>simp_all add: valid_publish_ack_def\<close>)
  then show ?thesis by (simp add: img)
qed

lemma publish_ack_decode_image:
  assumes "valid_publish_ack p" "length (publish_ack_image to_u8 p) \<le> 268435455"
    and "\<And>x. try_from (to_u8 x) = Ok x"
  shows "publish_ack_decode try_from success (publish_ack_image to_u8 p) = Ok p"
proof -
  have "length (diag_image (pa_properties p) (pa_reason_string p)) \<le> 268435455"
    using assms(2) by (simp add: publish_ack_image_def ack_image_def length_props_image)
  from ack_props_decode_image [OF _ _ this, of "[]"] assms show ?thesis
    by (simp add: publish_ack_decode_def publish_ack_image_def valid_publish_ack_def
        NonZeroU16.decode_image)
qed

lemma publish_ack_fit_facts:
  "valid_publish_ack p \<Longrightarrow> valid_publish_ack (publish_ack_fit limit p)"
  "length (publish_ack_image to_u8 p) + 11 \<le> unat limit \<Longrightarrow> publish_ack_fit limit p = p"
  by (auto simp: publish_ack_fit_def valid_publish_ack_def publish_ack_image_def ack_fit_all
      split: prod.split dest: ack_fit_valid)

lemma returns_publish_ack_decode [returns_intro]:
  "(\<And>b. returns (try_from b)) \<Longrightarrow> returns (publish_ack_decode try_from success src)"
  by (auto simp: publish_ack_decode_def intro!: returns_intro split: if_splits)

interpretation PublishAck: encode_ltd PublishAck_encoded_size PublishAck_encode
  "\<lambda>_. PublishAck_decode" "\<lambda>_. 0" "publish_ack_image PublishAckReason_to_u8" publish_ack_fit
  valid_publish_ack "\<lambda>_. 7"
  by unfold_locales
    (auto simp: PublishAck_encoded_size_def PublishAck_encode_def PublishAck_decode_def
      publish_ack_size writes_publish_ack publish_ack_decode_image publish_ack_fit_facts
      PublishAckReason.try_from_to PublishAckReason.try_from_returns
      intro!: returns_intro)

interpretation PublishAck2: encode_ltd PublishAck2_encoded_size PublishAck2_encode
  "\<lambda>_. PublishAck2_decode" "\<lambda>_. 0" "publish_ack_image PublishAck2Reason_to_u8" publish_ack_fit
  valid_publish_ack "\<lambda>_. 7"
  by unfold_locales
    (auto simp: PublishAck2_encoded_size_def PublishAck2_encode_def PublishAck2_decode_def
      publish_ack_size writes_publish_ack publish_ack_decode_image publish_ack_fit_facts
      PublishAck2Reason.try_from_to PublishAck2Reason.try_from_returns
      intro!: returns_intro)

end
