(* ===== verification/V5_Subscribe.thy ===== *)
theory V5_Subscribe
  imports V5_Props
begin

text \<open>
  SUBSCRIBE, SUBACK, UNSUBSCRIBE and UNSUBACK of MQTT 5 (\<^verbatim>\<open>src/v5/codec/packet/subscribe.rs\<close>).

  The two acknowledgements fulfil the contract \<open>encode_ltd\<close>.  The two requests only do so for packets
  without properties: the encoder of SUBSCRIBE announces a length for the subscription identifier
  and the user properties that it does not write in that form, and the encoder of UNSUBSCRIBE never
  writes the user properties it announces.
\<close>

datatype RetainHandling =
    AtSubscribe | AtSubscribeNew | NoAtSubscribe

fun RetainHandling_to_u8 :: "RetainHandling \<Rightarrow> u8" where
  "RetainHandling_to_u8 AtSubscribe = 0"
| "RetainHandling_to_u8 AtSubscribeNew = 1"
| "RetainHandling_to_u8 NoAtSubscribe = 2"

definition RetainHandling_variants :: "RetainHandling list" where
  "RetainHandling_variants =
    [AtSubscribe, AtSubscribeNew, NoAtSubscribe]"

definition RetainHandling_try_from :: "u8 \<Rightarrow> (DecodeError, RetainHandling) outcome" where
  "RetainHandling_try_from = try_from_u8 RetainHandling_to_u8 RetainHandling_variants"

interpretation RetainHandling: prim_enum RetainHandling_to_u8 RetainHandling_variants
  rewrites "try_from_u8 RetainHandling_to_u8 RetainHandling_variants =
    RetainHandling_try_from"
proof -
  show "prim_enum RetainHandling_to_u8 RetainHandling_variants"
  proof
    show "x \<in> set RetainHandling_variants" for x
      by (cases x) (simp_all add: RetainHandling_variants_def)
  qed (simp add: RetainHandling_variants_def)
qed (simp add: RetainHandling_try_from_def)

datatype SubscribeAckReason =
    GrantedQos0 | GrantedQos1 | GrantedQos2 | UnspecifiedError | ImplementationSpecificError
  | NotAuthorized | TopicFilterInvalid | PacketIdentifierInUse | QuotaExceeded
  | SharedSubsriptionNotSupported | SubscriptionIdentifiersNotSupported
  | WildcardSubscriptionsNotSupported

fun SubscribeAckReason_to_u8 :: "SubscribeAckReason \<Rightarrow> u8" where
  "SubscribeAckReason_to_u8 GrantedQos0 = 0"
| "SubscribeAckReason_to_u8 GrantedQos1 = 1"
| "SubscribeAckReason_to_u8 GrantedQos2 = 2"
| "SubscribeAckReason_to_u8 UnspecifiedError = 128"
| "SubscribeAckReason_to_u8 ImplementationSpecificError = 131"
| "SubscribeAckReason_to_u8 NotAuthorized = 135"
| "SubscribeAckReason_to_u8 TopicFilterInvalid = 143"
| "SubscribeAckReason_to_u8 PacketIdentifierInUse = 145"
| "SubscribeAckReason_to_u8 QuotaExceeded = 151"
| "SubscribeAckReason_to_u8 SharedSubsriptionNotSupported = 158"
| "SubscribeAckReason_to_u8 SubscriptionIdentifiersNotSupported = 161"
| "SubscribeAckReason_to_u8 WildcardSubscriptionsNotSupported = 162"

definition SubscribeAckReason_variants :: "SubscribeAckReason list" where
  "SubscribeAckReason_variants =
    [GrantedQos0, GrantedQos1, GrantedQos2, UnspecifiedError, ImplementationSpecificError,
     NotAuthorized, TopicFilterInvalid, PacketIdentifierInUse, QuotaExceeded,
     SharedSubsriptionNotSupported, SubscriptionIdentifiersNotSupported,
     WildcardSubscriptionsNotSupported]"

definition SubscribeAckReason_try_from :: "u8 \<Rightarrow> (DecodeError, SubscribeAckReason) outcome" where
  "SubscribeAckReason_try_from = try_from_u8 SubscribeAckReason_to_u8 SubscribeAckReason_variants"

interpretation SubscribeAckReason: prim_enum SubscribeAckReason_to_u8 SubscribeAckReason_variants
  rewrites "try_from_u8 SubscribeAckReason_to_u8 SubscribeAckReason_variants =
    SubscribeAckReason_try_from"
proof -
  show "prim_enum SubscribeAckReason_to_u8 SubscribeAckReason_variants"
  proof
    show "x \<in> set SubscribeAckReason_variants" for x
      by (cases x) (simp_all add: SubscribeAckReason_variants_def)
  qed (simp add: SubscribeAckReason_variants_def)
qed (simp add: SubscribeAckReason_try_from_def)

datatype UnsubscribeAckReason =
    Success | NoSubscriptionExisted | UnspecifiedError | ImplementationSpecificError
  | NotAuthorized | TopicFilterInvalid | PacketIdentifierInUse

fun UnsubscribeAckReason_to_u8 :: "UnsubscribeAckReason \<Rightarrow> u8" where
  "UnsubscribeAckReason_to_u8 UnsubscribeAckReason.Success = 0"
| "UnsubscribeAckReason_to_u8 UnsubscribeAckReason.NoSubscriptionExisted = 17"
| "UnsubscribeAckReason_to_u8 UnsubscribeAckReason.UnspecifiedError = 128"
| "UnsubscribeAckReason_to_u8 UnsubscribeAckReason.ImplementationSpecificError = 131"
| "UnsubscribeAckReason_to_u8 UnsubscribeAckReason.NotAuthorized = 135"
| "UnsubscribeAckReason_to_u8 UnsubscribeAckReason.TopicFilterInvalid = 143"
| "UnsubscribeAckReason_to_u8 UnsubscribeAckReason.PacketIdentifierInUse = 145"

definition UnsubscribeAckReason_variants :: "UnsubscribeAckReason list" where
  "UnsubscribeAckReason_variants =
    [UnsubscribeAckReason.Success, UnsubscribeAckReason.NoSubscriptionExisted,
     UnsubscribeAckReason.UnspecifiedError, UnsubscribeAckReason.ImplementationSpecificError,
     UnsubscribeAckReason.NotAuthorized, UnsubscribeAckReason.TopicFilterInvalid,
     UnsubscribeAckReason.PacketIdentifierInUse]"

definition UnsubscribeAckReason_try_from :: "u8 \<Rightarrow> (DecodeError, UnsubscribeAckReason) outcome" where
  "UnsubscribeAckReason_try_from = try_from_u8 UnsubscribeAckReason_to_u8 UnsubscribeAckReason_variants"

interpretation UnsubscribeAckReason: prim_enum UnsubscribeAckReason_to_u8 UnsubscribeAckReason_variants
  rewrites "try_from_u8 UnsubscribeAckReason_to_u8 UnsubscribeAckReason_variants =
    UnsubscribeAckReason_try_from"
proof -
  show "prim_enum UnsubscribeAckReason_to_u8 UnsubscribeAckReason_variants"
  proof
    show "x \<in> set UnsubscribeAckReason_variants" for x
      by (cases x) (simp_all add: UnsubscribeAckReason_variants_def)
  qed (simp add: UnsubscribeAckReason_variants_def)
qed (simp add: UnsubscribeAckReason_try_from_def)

section \<open>Packets\<close>

record SubscriptionOptions =
  so_qos :: QoS
  so_no_local :: bool
  so_retain_as_published :: bool
  so_retain_handling :: RetainHandling

record Subscribe =
  sub_packet_id :: u16
  sub_id :: "u32 option"
  sub_user_properties :: UserProperties
  sub_topic_filters :: "(bytestring \<times> SubscriptionOptions) list"

record SubscribeAck =
  sa_packet_id :: u16
  sa_properties :: UserProperties
  sa_reason_string :: "bytestring option"
  sa_status :: "SubscribeAckReason list"

record Unsubscribe =
  un_packet_id :: u16
  un_user_properties :: UserProperties
  un_topic_filters :: "bytestring list"

record UnsubscribeAck =
  ua_packet_id :: u16
  ua_properties :: UserProperties
  ua_reason_string :: "bytestring option"
  ua_status :: "UnsubscribeAckReason list"

section \<open>Decoding\<close>

definition SubscriptionOptions_decode :: "(DecodeError, SubscriptionOptions) decoder" where
  "SubscriptionOptions_decode src =
    ensure (src \<noteq> []) DecodeError.InvalidLength
    (and_then (get_u8 src) (\<lambda>(val, src).
     and_then (QoS_try_from (val AND 0b00000011)) (\<lambda>qos.
     and_then (RetainHandling_try_from (drop_bit 4 (val AND 0b00110000))) (\<lambda>retain_handling.
     Ok (\<lparr>so_qos = qos,
          so_no_local = (val AND 0b00000100 \<noteq> 0),
          so_retain_as_published = (val AND 0b00001000 \<noteq> 0),
          so_retain_handling = retain_handling\<rparr>, src)))))"

record subscribe_props =
  sp_sub_id :: "u32 option"
  sp_user_properties :: UserProperties

definition read_sub_id :: "(DecodeError, subscribe_props) body" where
  "read_sub_id s src =
    ensure (sp_sub_id s = None) DecodeError.MalformedPacket
    (and_then (decode_variable_length_cursor src) (\<lambda>(val, src).
     if val \<noteq> 0 then Ok (s\<lparr>sp_sub_id := Some val\<rparr>, src) else Err DecodeError.MalformedPacket))"

definition subscribe_arms :: "u8 \<Rightarrow> (DecodeError, subscribe_props) body" where
  "subscribe_arms prop_id =
    (if prop_id = pt_SUB_ID then read_sub_id
     else if prop_id = pt_USER then read_push sp_user_properties_update UserProperty_decode
     else unknown_property)"

definition topic_filter_decode :: "(DecodeError, bytestring \<times> SubscriptionOptions) decoder" where
  "topic_filter_decode src =
    and_then (ByteString_decode src) (\<lambda>(topic, src).
    and_then (SubscriptionOptions_decode src) (\<lambda>(opts, src). Ok ((topic, opts), src)))"

definition Subscribe_decode :: "bytes \<Rightarrow> (DecodeError, Subscribe) outcome" where
  "Subscribe_decode src =
    and_then (NonZeroU16_decode src) (\<lambda>(packet_id, src).
    and_then (decode_properties subscribe_arms \<lparr>sp_sub_id = None, sp_user_properties = []\<rparr> src)
      (\<lambda>(props, src).
    and_then (while_remaining (push_body topic_filter_decode) [] src) (\<lambda>topic_filters.
    Ok \<lparr>sub_packet_id = packet_id, sub_id = sp_sub_id props,
        sub_user_properties = sp_user_properties props, sub_topic_filters = topic_filters\<rparr>)))"

fun decode_codes :: "(u8 \<Rightarrow> (DecodeError, 'a) outcome) \<Rightarrow> bytes \<Rightarrow> (DecodeError, 'a list) outcome" where
  "decode_codes try_from [] = Ok []"
| "decode_codes try_from (code # codes) =
    and_then (try_from code) (\<lambda>x. and_then (decode_codes try_from codes) (\<lambda>xs. Ok (x # xs)))"

definition SubscribeAck_decode :: "bytes \<Rightarrow> (DecodeError, SubscribeAck) outcome" where
  "SubscribeAck_decode src =
    and_then (NonZeroU16_decode src) (\<lambda>(packet_id, src).
    and_then (ack_props_decode src) (\<lambda>((properties, reason_string), src).
    and_then (decode_codes SubscribeAckReason_try_from src) (\<lambda>status.
    Ok \<lparr>sa_packet_id = packet_id, sa_properties = properties, sa_reason_string = reason_string,
        sa_status = status\<rparr>)))"

definition unsubscribe_arms :: "u8 \<Rightarrow> (DecodeError, UserProperties) body" where
  "unsubscribe_arms prop_id =
    (if prop_id = pt_USER then read_push (\<lambda>f. f) UserProperty_decode else unknown_property)"

definition Unsubscribe_decode :: "bytes \<Rightarrow> (DecodeError, Unsubscribe) outcome" where
  "Unsubscribe_decode src =
    and_then (NonZeroU16_decode src) (\<lambda>(packet_id, src).
    and_then (decode_properties unsubscribe_arms [] src) (\<lambda>(user_properties, src).
    and_then (while_remaining (push_body ByteString_decode) [] src) (\<lambda>topic_filters.
    Ok \<lparr>un_packet_id = packet_id, un_user_properties = user_properties,
        un_topic_filters = topic_filters\<rparr>)))"

definition UnsubscribeAck_decode :: "bytes \<Rightarrow> (DecodeError, UnsubscribeAck) outcome" where
  "UnsubscribeAck_decode src =
    and_then (NonZeroU16_decode src) (\<lambda>(packet_id, src).
    and_then (ack_props_decode src) (\<lambda>((properties, reason_string), src).
    and_then (decode_codes UnsubscribeAckReason_try_from src) (\<lambda>status.
    Ok \<lparr>ua_packet_id = packet_id, ua_properties = properties, ua_reason_string = reason_string,
        ua_status = status\<rparr>)))"

section \<open>Encoding\<close>

definition SubscriptionOptions_to_u8 :: "SubscriptionOptions \<Rightarrow> u8" where
  "SubscriptionOptions_to_u8 opts =
    QoS_to_u8 (so_qos opts) OR push_bit 2 (of_bool (so_no_local opts)) OR
    push_bit 3 (of_bool (so_retain_as_published opts)) OR
    push_bit 4 (RetainHandling_to_u8 (so_retain_handling opts))"

definition SubscriptionOptions_encode :: "SubscriptionOptions \<Rightarrow> EncodeError encoder" where
  "SubscriptionOptions_encode opts = put [SubscriptionOptions_to_u8 opts]"

definition Subscribe_encoded_size :: "Subscribe \<Rightarrow> u32 \<Rightarrow> (EncodeError, nat) outcome" where
  "Subscribe_encoded_size s limit =
    and_then (case sub_id s of None \<Rightarrow> Ok 0 | Some v \<Rightarrow> var_int_len (unat v)) (\<lambda>id_len.
    let prop_len = id_len + UserProperties_encoded_size (sub_user_properties s);
        payload_len = fold (\<lambda>(fltr, opts) acc. acc + ByteString_encoded_size fltr + 1)
          (sub_topic_filters s) 0 in
    and_then (var_int_len prop_len) (\<lambda>n.
    Ok (NonZeroU16_encoded_size (sub_packet_id s) + n + prop_len + payload_len)))"

definition Subscribe_encode :: "Subscribe \<Rightarrow> u32 \<Rightarrow> EncodeError encoder" where
  "Subscribe_encode s sz = steps
    [NonZeroU16_encode (sub_packet_id s),
     enc_val
       (and_then (case sub_id s of None \<Rightarrow> Ok 0 | Some v \<Rightarrow> var_int_len (unat v)) (\<lambda>id_len.
        checked_add (of_nat id_len)
          (of_nat (UserProperties_encoded_size (sub_user_properties s)))))
       write_variable_length,
     encode_property NonZeroU32_encode (sub_id s) pt_SUB_ID,
     for_each (sub_topic_filters s)
       (\<lambda>(fltr, opts). steps [ByteString_encode fltr, SubscriptionOptions_encode opts])]"

definition SubscribeAck_encoded_size :: "SubscribeAck \<Rightarrow> u32 \<Rightarrow> (EncodeError, nat) outcome" where
  "SubscribeAck_encoded_size s limit =
    (let len = length (sa_status s) in
     if len > 2 ^ 32 - 1 - 2 then Ok (2 ^ 64 - 1)
     else
       and_then (checked_sub limit 2) (\<lambda>l.
       and_then (checked_sub l (of_nat len)) (\<lambda>l.
       and_then (ack_props_encoded_size (sa_properties s) (sa_reason_string s) l) (\<lambda>n.
       Ok (2 + n + len)))))"

definition SubscribeAck_encode :: "SubscribeAck \<Rightarrow> u32 \<Rightarrow> EncodeError encoder" where
  "SubscribeAck_encode s sz = steps
    [NonZeroU16_encode (sa_packet_id s),
     enc_val (and_then (checked_sub sz 2) (\<lambda>n. checked_sub n (of_nat (length (sa_status s)))))
       (\<lambda>n. ack_props_encode (sa_properties s) (sa_reason_string s) n),
     for_each (sa_status s) (\<lambda>reason. put [SubscribeAckReason_to_u8 reason])]"

definition Unsubscribe_encoded_size :: "Unsubscribe \<Rightarrow> u32 \<Rightarrow> (EncodeError, nat) outcome" where
  "Unsubscribe_encoded_size s limit =
    (let prop_len = UserProperties_encoded_size (un_user_properties s) in
     and_then (var_int_len prop_len) (\<lambda>n.
     Ok (2 + n + prop_len + fold (\<lambda>fltr acc. acc + (2 + length fltr)) (un_topic_filters s) 0)))"

definition Unsubscribe_encode :: "Unsubscribe \<Rightarrow> u32 \<Rightarrow> EncodeError encoder" where
  "Unsubscribe_encode s sz = steps
    [NonZeroU16_encode (un_packet_id s),
     write_variable_length (of_nat (UserProperties_encoded_size (un_user_properties s))),
     for_each (un_topic_filters s) ByteString_encode]"

definition UnsubscribeAck_encoded_size :: "UnsubscribeAck \<Rightarrow> u32 \<Rightarrow> (EncodeError, nat) outcome" where
  "UnsubscribeAck_encoded_size s limit =
    (let len = length (ua_status s) in
     and_then (ack_props_encoded_size (ua_properties s) (ua_reason_string s)
       (reduce_limit limit (2 + len))) (\<lambda>n.
     Ok (2 + len + n)))"

definition UnsubscribeAck_encode :: "UnsubscribeAck \<Rightarrow> u32 \<Rightarrow> EncodeError encoder" where
  "UnsubscribeAck_encode s sz = steps
    [NonZeroU16_encode (ua_packet_id s),
     enc_val (and_then (checked_sub sz 2) (\<lambda>n. checked_sub n (of_nat (length (ua_status s)))))
       (\<lambda>n. ack_props_encode (ua_properties s) (ua_reason_string s) n),
     for_each (ua_status s) (\<lambda>reason. put [UnsubscribeAckReason_to_u8 reason])]"

section \<open>Acknowledgements with a list of reasons\<close>

lemma decode_codes_map:
  "(\<And>x. try_from (to_u8 x) = Ok x) \<Longrightarrow> decode_codes try_from (map to_u8 xs) = Ok xs"
  by (induction xs) auto

lemma returns_decode_codes [returns_intro]:
  "(\<And>b. returns (try_from b)) \<Longrightarrow> returns (decode_codes try_from src)"
  by (induction src) (auto intro!: returns_intro)

definition status_image ::
  "('a \<Rightarrow> u8) \<Rightarrow> u16 \<Rightarrow> UserProperties \<times> bytestring option \<Rightarrow> 'a list \<Rightarrow> bytes" where
  "status_image to_u8 packet_id props status =
    u16_be packet_id @ case_prod ack_image props @ map to_u8 status"

lemma concat_map_single: "concat (map (\<lambda>x. [f x]) xs) = map f xs"
  by (induction xs) auto

lemma writes_status_image:
  fixes pid :: u16 and ps :: UserProperties and r :: "bytestring option" and st :: "'a list"
    and k :: nat and to_u8 :: "'a \<Rightarrow> u8"
  defines "img \<equiv> status_image to_u8 pid (ack_fit k ps r) st"
  assumes "pid \<noteq> 0" "valid_props ps" "valid_opt valid_ByteString r" "length img \<le> 268435455"
  shows "writes (steps
    [NonZeroU16_encode pid,
     enc_val (and_then (checked_sub (of_nat (length img)) 2) (\<lambda>n. checked_sub n (of_nat (length st))))
       (\<lambda>n. ack_props_encode ps r n),
     for_each st (\<lambda>x. put [to_u8 x])]) img"
proof -
  let ?ack = "case_prod ack_image (ack_fit k ps r)"
  have len: "length img = 2 + length ?ack + length st"
    by (simp add: img_def status_image_def)
  have "checked_sub (of_nat (length img) :: u32) 2 =
      (Ok (of_nat (length img - 2)) :: (EncodeError, u32) outcome)"
    using checked_sub_of_nat [of 2 "length img"] assms(5) len by simp
  moreover have "checked_sub (of_nat (length img - 2) :: u32) (of_nat (length st)) =
      (Ok (of_nat (length ?ack)) :: (EncodeError, u32) outcome)"
    using checked_sub_of_nat [of "length st" "length img - 2"] assms(5)
    by (simp add: len del: of_nat_add)
  ultimately have sub: "and_then (checked_sub (of_nat (length img) :: u32) 2)
        (\<lambda>n. checked_sub n (of_nat (length st))) =
      (Ok (of_nat (length ?ack)) :: (EncodeError, u32) outcome)"
    by (simp only: and_then_simps)
  have "length ?ack \<le> 268435455" using len assms(5) by simp
  note ack = writes_ack_props [OF assms(3, 4) this]
  have "writes (steps
      [NonZeroU16_encode pid, ack_props_encode ps r (of_nat (length ?ack)),
       for_each st (\<lambda>x. put [to_u8 x])])
      (u16_be pid @ ?ack @ concat (map (\<lambda>x. [to_u8 x]) st) @ [])"
    using assms(2) by (intro writes_intro ack)
  then show ?thesis unfolding sub enc_val_Ok
    by (simp only: concat_map_single append_Nil2 img_def status_image_def)
qed

lemma length_status_image:
  "length (status_image to_u8 pid (ps, r) st) = 2 + length (ack_image ps r) + length st"
  by (simp add: status_image_def)

text \<open>SUBACK.\<close>

definition SubscribeAck_image :: "SubscribeAck \<Rightarrow> bytes" where
  "SubscribeAck_image s = status_image SubscribeAckReason_to_u8 (sa_packet_id s)
    (sa_properties s, sa_reason_string s) (sa_status s)"

definition SubscribeAck_fit :: "u32 \<Rightarrow> SubscribeAck \<Rightarrow> SubscribeAck" where
  "SubscribeAck_fit limit s =
    (case ack_fit (unat limit - 2 - length (sa_status s)) (sa_properties s) (sa_reason_string s) of
       (ps, r) \<Rightarrow> s\<lparr>sa_properties := ps, sa_reason_string := r\<rparr>)"

definition valid_SubscribeAck :: "SubscribeAck \<Rightarrow> bool" where
  "valid_SubscribeAck s \<longleftrightarrow> sa_packet_id s \<noteq> 0 \<and> valid_props (sa_properties s) \<and>
    valid_opt valid_ByteString (sa_reason_string s)"

lemma SubscribeAck_image_fit:
  "SubscribeAck_image (SubscribeAck_fit limit s) =
    status_image SubscribeAckReason_to_u8 (sa_packet_id s)
      (ack_fit (unat limit - 2 - length (sa_status s)) (sa_properties s) (sa_reason_string s))
      (sa_status s)"
  by (simp add: SubscribeAck_image_def SubscribeAck_fit_def split: prod.split)

lemma SubscribeAck_size:
  assumes "2 + length (sa_status s) \<le> unat limit"
  shows "SubscribeAck_encoded_size s limit = Ok (length (SubscribeAck_image (SubscribeAck_fit limit s)))"
proof -
  let ?len = "length (sa_status s)"
  have a: "checked_sub limit 2 = (Ok (limit - 2) :: (EncodeError, u32) outcome)"
    and a': "unat (limit - 2) = unat limit - 2"
    using checked_sub_u32 [of 2 limit] unat_minus_of_nat [of 2 limit] assms by simp_all
  have le: "?len \<le> unat (limit - 2)" using a' assms by simp
  have small: "\<not> ?len > 2 ^ 32 - 1 - 2" using assms unat_lt_u32 [of limit] by simp
  show ?thesis
    unfolding SubscribeAck_encoded_size_def Let_def if_not_P [OF small] a and_then_simps
      checked_sub_u32 [OF le] ack_props_size unat_minus_of_nat [OF le] a'
    by (simp add: SubscribeAck_image_fit status_image_def)
qed

lemma SubscribeAck_fit_all:
  "length (SubscribeAck_image s) + 11 \<le> unat limit \<Longrightarrow> SubscribeAck_fit limit s = s"
  by (simp add: SubscribeAck_fit_def SubscribeAck_image_def length_status_image ack_fit_all)

lemma SubscribeAck_decode_image:
  assumes "valid_SubscribeAck s" "length (SubscribeAck_image s) \<le> 268435455"
  shows "SubscribeAck_decode (SubscribeAck_image s) = Ok s"
proof -
  have "length (diag_image (sa_properties s) (sa_reason_string s)) \<le> 268435455"
    using assms(2) by (simp add: SubscribeAck_image_def length_status_image ack_image_def
        length_props_image)
  from ack_props_decode_image [OF _ _ this, of "map SubscribeAckReason_to_u8 (sa_status s)"] assms
  show ?thesis
    by (simp add: SubscribeAck_decode_def SubscribeAck_image_def status_image_def
        valid_SubscribeAck_def NonZeroU16.decode_image decode_codes_map
        SubscribeAckReason.try_from_to)
qed

interpretation SubscribeAck: encode_ltd SubscribeAck_encoded_size SubscribeAck_encode
  "\<lambda>_. SubscribeAck_decode" "\<lambda>_. 0" SubscribeAck_image SubscribeAck_fit valid_SubscribeAck
  "\<lambda>s. 2 + length (sa_status s)"
proof
  show "writes (SubscribeAck_encode s (of_nat (length (SubscribeAck_image (SubscribeAck_fit limit s)))))
      (SubscribeAck_image (SubscribeAck_fit limit s))"
    if "valid_SubscribeAck s" "length (SubscribeAck_image (SubscribeAck_fit limit s)) \<le> 268435455"
    for s limit
    using that unfolding SubscribeAck_encode_def SubscribeAck_image_fit valid_SubscribeAck_def
    by (intro writes_status_image) auto
  show "valid_SubscribeAck (SubscribeAck_fit limit s)" if "valid_SubscribeAck s" for limit s
    using that by (auto simp: SubscribeAck_fit_def valid_SubscribeAck_def
        split: prod.split dest: ack_fit_valid)
  show "returns (SubscribeAck_decode src)" for src
    by (auto simp: SubscribeAck_decode_def intro!: returns_intro SubscribeAckReason.try_from_returns)
qed (auto intro: SubscribeAck_size SubscribeAck_decode_image SubscribeAck_fit_all)

text \<open>UNSUBACK.\<close>

definition UnsubscribeAck_image :: "UnsubscribeAck \<Rightarrow> bytes" where
  "UnsubscribeAck_image s = status_image UnsubscribeAckReason_to_u8 (ua_packet_id s)
    (ua_properties s, ua_reason_string s) (ua_status s)"

definition UnsubscribeAck_fit :: "u32 \<Rightarrow> UnsubscribeAck \<Rightarrow> UnsubscribeAck" where
  "UnsubscribeAck_fit limit s =
    (case ack_fit (unat limit - (2 + length (ua_status s))) (ua_properties s) (ua_reason_string s) of
       (ps, r) \<Rightarrow> s\<lparr>ua_properties := ps, ua_reason_string := r\<rparr>)"

definition valid_UnsubscribeAck :: "UnsubscribeAck \<Rightarrow> bool" where
  "valid_UnsubscribeAck s \<longleftrightarrow> ua_packet_id s \<noteq> 0 \<and> valid_props (ua_properties s) \<and>
    valid_opt valid_ByteString (ua_reason_string s)"

lemma UnsubscribeAck_image_fit:
  "UnsubscribeAck_image (UnsubscribeAck_fit limit s) =
    status_image UnsubscribeAckReason_to_u8 (ua_packet_id s)
      (ack_fit (unat limit - (2 + length (ua_status s))) (ua_properties s) (ua_reason_string s))
      (ua_status s)"
  by (simp add: UnsubscribeAck_image_def UnsubscribeAck_fit_def split: prod.split)

lemma UnsubscribeAck_size:
  "UnsubscribeAck_encoded_size s limit =
    Ok (length (UnsubscribeAck_image (UnsubscribeAck_fit limit s)))"
  unfolding UnsubscribeAck_encoded_size_def Let_def ack_props_size unat_reduce_limit and_then_simps
  by (simp add: UnsubscribeAck_image_fit status_image_def)

lemma UnsubscribeAck_fit_all:
  "length (UnsubscribeAck_image s) + 11 \<le> unat limit \<Longrightarrow> UnsubscribeAck_fit limit s = s"
  by (simp add: UnsubscribeAck_fit_def UnsubscribeAck_image_def length_status_image ack_fit_all)

lemma UnsubscribeAck_decode_image:
  assumes "valid_UnsubscribeAck s" "length (UnsubscribeAck_image s) \<le> 268435455"
  shows "UnsubscribeAck_decode (UnsubscribeAck_image s) = Ok s"
proof -
  have "length (diag_image (ua_properties s) (ua_reason_string s)) \<le> 268435455"
    using assms(2) by (simp add: UnsubscribeAck_image_def length_status_image ack_image_def
        length_props_image)
  from ack_props_decode_image [OF _ _ this, of "map UnsubscribeAckReason_to_u8 (ua_status s)"] assms
  show ?thesis
    by (simp add: UnsubscribeAck_decode_def UnsubscribeAck_image_def status_image_def
        valid_UnsubscribeAck_def NonZeroU16.decode_image decode_codes_map
        UnsubscribeAckReason.try_from_to)
qed

interpretation UnsubscribeAck: encode_ltd UnsubscribeAck_encoded_size UnsubscribeAck_encode
  "\<lambda>_. UnsubscribeAck_decode" "\<lambda>_. 0" UnsubscribeAck_image UnsubscribeAck_fit valid_UnsubscribeAck
  "\<lambda>_. 0"
proof
  show "writes
      (UnsubscribeAck_encode s (of_nat (length (UnsubscribeAck_image (UnsubscribeAck_fit limit s)))))
      (UnsubscribeAck_image (UnsubscribeAck_fit limit s))"
    if "valid_UnsubscribeAck s"
      "length (UnsubscribeAck_image (UnsubscribeAck_fit limit s)) \<le> 268435455" for s limit
    using that unfolding UnsubscribeAck_encode_def UnsubscribeAck_image_fit valid_UnsubscribeAck_def
    by (intro writes_status_image) auto
  show "valid_UnsubscribeAck (UnsubscribeAck_fit limit s)" if "valid_UnsubscribeAck s" for limit s
    using that by (auto simp: UnsubscribeAck_fit_def valid_UnsubscribeAck_def
        split: prod.split dest: ack_fit_valid)
  show "returns (UnsubscribeAck_decode src)" for src
    by (auto simp: UnsubscribeAck_decode_def intro!: returns_intro
        UnsubscribeAckReason.try_from_returns)
qed (auto intro: UnsubscribeAck_size UnsubscribeAck_decode_image UnsubscribeAck_fit_all)

section \<open>Requests\<close>

text \<open>Reading back a list of values that were written one after the other.\<close>

lemma push_loop_read:
  assumes "consuming d" "\<And>x rest. x \<in> set xs \<Longrightarrow> d (img x @ rest) = Ok (x, rest)"
    and "\<And>x. x \<in> set xs \<Longrightarrow> img x \<noteq> []"
  shows "while_remaining (push_body d) acc (concat (map img xs)) = Ok (acc @ xs)"
  using assms(2, 3)
proof (induction xs arbitrary: acc)
  case (Cons x xs)
  have cons: "consuming (push_body d acc)" for acc
    using assms(1) by (auto simp: consuming_def push_body_def)
  have "img x @ concat (map img xs) \<noteq> []" using Cons.prems by simp
  note unfold = while_remaining_unfold [where body = "push_body d", OF cons this]
  have "push_body d acc (img x @ concat (map img xs)) = Ok (acc @ [x], concat (map img xs))"
    using Cons.prems by (simp add: push_body_def)
  with Cons show ?case by (simp add: unfold)
qed simp

lemma SubscriptionOptions_decode_encode:
  "SubscriptionOptions_decode (SubscriptionOptions_to_u8 opts # rest) = Ok (opts, rest)"
proof (cases opts)
  case (fields q nl rap rh)
  then show ?thesis
    by (cases q; cases nl; cases rap; cases rh)
      (simp_all add: SubscriptionOptions_decode_def SubscriptionOptions_to_u8_def
        QoS_try_from_def QoS_variants_def RetainHandling_try_from_def RetainHandling_variants_def
        try_from_u8_def)
qed

definition filter_image :: "bytestring \<times> SubscriptionOptions \<Rightarrow> bytes" where
  "filter_image = (\<lambda>(fltr, opts). Bytes_image fltr @ [SubscriptionOptions_to_u8 opts])"

lemma topic_filter_decode_image:
  "valid_ByteString (fst f) \<Longrightarrow> topic_filter_decode (filter_image f @ rest) = Ok (f, rest)"
  by (cases f) (simp add: topic_filter_decode_def filter_image_def ByteString.decode_image
      SubscriptionOptions_decode_encode)

lemma SubscriptionOptions_decode_facts:
  "returns (SubscriptionOptions_decode src)" "shrinking SubscriptionOptions_decode"
  by (auto simp: SubscriptionOptions_decode_def shrinking_def get_u8_def
      QoS_try_from_def RetainHandling_try_from_def intro!: returns_intro split: list.splits)

lemma topic_filter_decode_facts:
  "returns (topic_filter_decode src)" "consuming topic_filter_decode"
proof -
  show "returns (topic_filter_decode src)"
    by (auto simp: topic_filter_decode_def intro!: returns_intro SubscriptionOptions_decode_facts)
  show "consuming topic_filter_decode"
    using consumingD [OF ByteString.decode_consuming] shrinkingD [OF SubscriptionOptions_decode_facts(2)]
    by (fastforce simp: consuming_def topic_filter_decode_def)
qed

interpretation subscribe: property_reader subscribe_arms
proof -
  have "returns (read_sub_id s src)" for s src
    by (auto simp: read_sub_id_def intro!: returns_intro)
  moreover have "shrinking (read_sub_id s)" for s
    using consumingD [OF decode_cursor_consuming]
    by (auto simp: shrinking_def read_sub_id_def split: if_splits intro: less_imp_le)
  ultimately show "property_reader subscribe_arms"
    by unfold_locales (auto simp: subscribe_arms_def intro!: returns_intro consumes_intro)
qed

interpretation unsubscribe: property_reader unsubscribe_arms
  by standard (auto simp: unsubscribe_arms_def intro!: returns_intro consumes_intro)

lemma push_loop_returns':
  assumes "consuming d" "\<And>src. returns (d src)"
  shows "returns (while_remaining (push_body d) acc src)"
  using assms by (intro returns_while_remaining)
    (auto simp: consuming_def push_body_def intro!: returns_intro)

lemma returns_Subscribe_decode [returns_intro]: "returns (Subscribe_decode src)"
  by (auto simp: Subscribe_decode_def intro!: returns_intro subscribe.decode_returns
      push_loop_returns' topic_filter_decode_facts)

lemma returns_Unsubscribe_decode [returns_intro]: "returns (Unsubscribe_decode src)"
  by (auto simp: Unsubscribe_decode_def intro!: returns_intro unsubscribe.decode_returns
      ByteString.push_loop_returns)

text \<open>The packets that the encoders write correctly: those without properties.\<close>

definition sendable_Subscribe :: "Subscribe \<Rightarrow> bool" where
  "sendable_Subscribe s \<longleftrightarrow> sub_packet_id s \<noteq> 0 \<and> sub_id s = None \<and> sub_user_properties s = [] \<and>
    list_all (\<lambda>f. valid_ByteString (fst f)) (sub_topic_filters s)"

definition sendable_Unsubscribe :: "Unsubscribe \<Rightarrow> bool" where
  "sendable_Unsubscribe s \<longleftrightarrow> un_packet_id s \<noteq> 0 \<and> un_user_properties s = [] \<and>
    list_all valid_ByteString (un_topic_filters s)"

definition Subscribe_image :: "Subscribe \<Rightarrow> bytes" where
  "Subscribe_image s =
    u16_be (sub_packet_id s) @ [0] @ concat (map filter_image (sub_topic_filters s))"

definition Unsubscribe_image :: "Unsubscribe \<Rightarrow> bytes" where
  "Unsubscribe_image s = u16_be (un_packet_id s) @ [0] @ concat (map Bytes_image (un_topic_filters s))"

lemma fold_filters:
  "fold (\<lambda>(fltr, opts) acc. acc + ByteString_encoded_size fltr + 1) fs n =
    n + length (concat (map filter_image fs))"
  by (induction fs arbitrary: n) (auto simp: filter_image_def ByteString_size Bytes_encoded_size_def)

lemma fold_unsub_filters:
  "fold (\<lambda>fltr acc. acc + (2 + length fltr)) fs n = n + length (concat (map Bytes_image fs))"
  by (induction fs arbitrary: n) (auto simp: Bytes_encoded_size_def)

lemma var_int_len_0: "var_int_len 0 = Ok 1"
  using var_int_len_eq [of 0] by (simp add: varlen_spec_1)

lemma writes_varlen_0: "writes (write_variable_length 0 :: EncodeError encoder) [0]"
  using writes_varlen_nat [of 0] by (simp add: varlen_spec_1)

lemma Subscribe_size:
  "sendable_Subscribe s \<Longrightarrow> Subscribe_encoded_size s limit = Ok (length (Subscribe_image s))"
  by (simp add: Subscribe_encoded_size_def sendable_Subscribe_def UserProperties_encoded_size_image
      Let_def var_int_len_0 Subscribe_image_def fold_filters [simplified] NonZeroU16_encoded_size_def)

lemma v5_writes_filter:
  "valid_ByteString (fst f) \<Longrightarrow>
   writes (case f of (fltr, opts) \<Rightarrow> steps [ByteString_encode fltr, SubscriptionOptions_encode opts])
     (filter_image f)"
proof -
  obtain fltr opts where f: "f = (fltr, opts)" by fastforce
  assume "valid_ByteString (fst f)"
  then have "writes (steps [ByteString_encode fltr, put [SubscriptionOptions_to_u8 opts]])
      (Bytes_image fltr @ [SubscriptionOptions_to_u8 opts] @ [])"
    by (intro writes_intro) (simp add: f)
  then show ?thesis by (simp add: f filter_image_def SubscriptionOptions_encode_def)
qed

lemma writes_Subscribe:
  assumes "sendable_Subscribe s"
  shows "writes (Subscribe_encode s sz) (Subscribe_image s)"
proof -
  have "writes (steps [NonZeroU16_encode (sub_packet_id s), write_variable_length 0, put [],
      for_each (sub_topic_filters s)
       (\<lambda>(fltr, opts). steps [ByteString_encode fltr, SubscriptionOptions_encode opts])])
      (u16_be (sub_packet_id s) @ [0] @ [] @ concat (map filter_image (sub_topic_filters s)) @ [])"
    using assms
    by (intro writes_intro writes_varlen_0 v5_writes_filter)
      (auto simp: sendable_Subscribe_def list_all_iff)
  then show ?thesis
    using assms by (simp add: Subscribe_encode_def sendable_Subscribe_def Subscribe_image_def
        encode_property_def UserProperties_encoded_size_image checked_add_def)
qed

lemma take_properties_0: "take_properties (0 # rest) = Ok ([], rest)"
  using take_properties_spec [of "[]" rest] by (simp add: varlen_spec_1)

lemma Subscribe_decode_image:
  assumes "sendable_Subscribe s"
  shows "Subscribe_decode (Subscribe_image s) = Ok s"
proof -
  have "while_remaining (push_body topic_filter_decode) [] (concat (map filter_image (sub_topic_filters s)))
      = Ok ([] @ sub_topic_filters s)"
    using assms by (intro push_loop_read topic_filter_decode_facts topic_filter_decode_image)
      (auto simp: sendable_Subscribe_def list_all_iff filter_image_def)
  then show ?thesis
    using assms by (simp add: Subscribe_decode_def Subscribe_image_def sendable_Subscribe_def
        NonZeroU16.decode_image decode_properties_def take_properties_0)
qed

interpretation Subscribe: encode_ltd Subscribe_encoded_size Subscribe_encode
  "\<lambda>_. Subscribe_decode" "\<lambda>_. 0" Subscribe_image "\<lambda>_ s. s" sendable_Subscribe "\<lambda>_. 0"
  by unfold_locales (auto intro: Subscribe_size writes_Subscribe Subscribe_decode_image returns_intro)

lemma Unsubscribe_size:
  "sendable_Unsubscribe s \<Longrightarrow> Unsubscribe_encoded_size s limit = Ok (length (Unsubscribe_image s))"
  by (simp add: Unsubscribe_encoded_size_def sendable_Unsubscribe_def
      UserProperties_encoded_size_image Let_def var_int_len_0 Unsubscribe_image_def
      fold_unsub_filters [simplified])

lemma writes_Unsubscribe:
  assumes "sendable_Unsubscribe s"
  shows "writes (Unsubscribe_encode s sz) (Unsubscribe_image s)"
proof -
  have "writes (steps [NonZeroU16_encode (un_packet_id s), write_variable_length 0,
      for_each (un_topic_filters s) ByteString_encode])
      (u16_be (un_packet_id s) @ [0] @ concat (map Bytes_image (un_topic_filters s)) @ [])"
    using assms
    by (intro writes_intro writes_varlen_0) (auto simp: sendable_Unsubscribe_def list_all_iff)
  then show ?thesis
    using assms by (simp add: Unsubscribe_encode_def sendable_Unsubscribe_def Unsubscribe_image_def
        UserProperties_encoded_size_image)
qed

lemma Unsubscribe_decode_image:
  assumes "sendable_Unsubscribe s"
  shows "Unsubscribe_decode (Unsubscribe_image s) = Ok s"
proof -
  have "while_remaining (push_body ByteString_decode) [] (concat (map Bytes_image (un_topic_filters s)))
      = Ok ([] @ un_topic_filters s)"
    using assms by (intro ByteString.push_loop_images) (auto simp: sendable_Unsubscribe_def list_all_iff)
  then show ?thesis
    using assms by (simp add: Unsubscribe_decode_def Unsubscribe_image_def sendable_Unsubscribe_def
        NonZeroU16.decode_image decode_properties_def take_properties_0)
qed

interpretation Unsubscribe: encode_ltd Unsubscribe_encoded_size Unsubscribe_encode
  "\<lambda>_. Unsubscribe_decode" "\<lambda>_. 0" Unsubscribe_image "\<lambda>_ s. s" sendable_Unsubscribe "\<lambda>_. 0"
  by unfold_locales
    (auto intro: Unsubscribe_size writes_Unsubscribe Unsubscribe_decode_image returns_intro)

text \<open>What goes wrong with a subscription identifier below 128: one byte of properties is announced,
  which is only the property identifier.\<close>

lemma Subscribe_encode_small_id:
  assumes "sub_packet_id s \<noteq> 0" "sub_id s = Some v" "v \<noteq> 0" "unat v < 128"
    "sub_user_properties s = []" "list_all (\<lambda>f. valid_ByteString (fst f)) (sub_topic_filters s)"
  shows "writes (Subscribe_encode s sz)
    (u16_be (sub_packet_id s) @ [1] @ (pt_SUB_ID # u32_be v) @
     concat (map filter_image (sub_topic_filters s)))"
proof -
  have len: "var_int_len (unat v) = Ok 1"
    using var_int_len_eq [of "unat v"] assms(4) by (simp add: varlen_spec_1)
  have one: "writes (write_variable_length 1 :: EncodeError encoder) [1]"
    using writes_varlen_nat [of 1] by (simp add: varlen_spec_1)
  have wid: "writes (encode_property NonZeroU32_encode (Some v) pt_SUB_ID) (pt_SUB_ID # u32_be v)"
    using NonZeroU32.writes_property [of "Some v" pt_SUB_ID] assms(3) by simp
  have "writes (steps [NonZeroU16_encode (sub_packet_id s), write_variable_length 1,
      encode_property NonZeroU32_encode (Some v) pt_SUB_ID,
      for_each (sub_topic_filters s)
       (\<lambda>(fltr, opts). steps [ByteString_encode fltr, SubscriptionOptions_encode opts])])
      (u16_be (sub_packet_id s) @ [1] @ (pt_SUB_ID # u32_be v) @
       concat (map filter_image (sub_topic_filters s)) @ [])"
    using assms by (intro writes_intro one wid v5_writes_filter) (auto simp: list_all_iff)
  then show ?thesis
    using assms by (simp add: Subscribe_encode_def len UserProperties_encoded_size_image checked_add_def)
qed

end
