(* ===== verification/V5_Auth.thy ===== *)
theory V5_Auth
  imports V5_Props
begin

text \<open>
  AUTH and DISCONNECT of MQTT 5 (\<^verbatim>\<open>src/v5/codec/packet/auth.rs\<close> and \<^verbatim>\<open>disconnect.rs\<close>): a reason code
  and a block of properties, the diagnostic ones last.
\<close>

section \<open>AUTH\<close>

datatype AuthReasonCode =
    Success | ContinueAuth | ReAuth

fun AuthReasonCode_to_u8 :: "AuthReasonCode \<Rightarrow> u8" where
  "AuthReasonCode_to_u8 Success = 0"
| "AuthReasonCode_to_u8 ContinueAuth = 24"
| "AuthReasonCode_to_u8 ReAuth = 25"

definition AuthReasonCode_variants :: "AuthReasonCode list" where
  "AuthReasonCode_variants =
    [Success, ContinueAuth, ReAuth]"

definition AuthReasonCode_try_from :: "u8 \<Rightarrow> (DecodeError, AuthReasonCode) outcome" where
  "AuthReasonCode_try_from = try_from_u8 AuthReasonCode_to_u8 AuthReasonCode_variants"

interpretation AuthReasonCode: prim_enum AuthReasonCode_to_u8 AuthReasonCode_variants
  rewrites "try_from_u8 AuthReasonCode_to_u8 AuthReasonCode_variants =
    AuthReasonCode_try_from"
proof -
  show "prim_enum AuthReasonCode_to_u8 AuthReasonCode_variants"
  proof
    show "x \<in> set AuthReasonCode_variants" for x
      by (cases x) (simp_all add: AuthReasonCode_variants_def)
  qed (simp add: AuthReasonCode_variants_def)
qed (simp add: AuthReasonCode_try_from_def)

record Auth =
  auth_reason_code :: AuthReasonCode
  auth_auth_method :: "bytestring option"
  auth_auth_data :: "bytes option"
  auth_reason_string :: "bytestring option"
  auth_user_properties :: UserProperties

definition Auth_new :: "AuthReasonCode \<Rightarrow> Auth" where
  "Auth_new reason_code = \<lparr>auth_reason_code = reason_code, auth_auth_method = None,
    auth_auth_data = None, auth_reason_string = None, auth_user_properties = []\<rparr>"

definition Auth_default :: Auth where
  "Auth_default = Auth_new AuthReasonCode.Success"

definition auth_arms :: "u8 \<Rightarrow> (DecodeError, Auth) body" where
  "auth_arms t =
    (if t = pt_AUTH_METHOD then read_value auth_auth_method auth_auth_method_update ByteString_decode
     else if t = pt_AUTH_DATA then read_value auth_auth_data auth_auth_data_update Bytes_decode
     else if t = pt_REASON_STRING then
       read_value auth_reason_string auth_reason_string_update ByteString_decode
     else if t = pt_USER then read_push auth_user_properties_update UserProperty_decode
     else unknown_property)"

definition Auth_decode :: "bytes \<Rightarrow> (DecodeError, Auth) outcome" where
  "Auth_decode src =
    (if src \<noteq> [] then
       ensure (length src > 1) DecodeError.InvalidLength
       (and_then (get_u8 src) (\<lambda>(b, src).
        and_then (AuthReasonCode_try_from b) (\<lambda>reason_code.
        if reason_code \<noteq> AuthReasonCode.Success \<or> src \<noteq> [] then
          and_then (decode_properties auth_arms (Auth_new reason_code) src) (\<lambda>(auth, src).
          ensure (src = []) DecodeError.InvalidLength (Ok auth))
        else Ok (Auth_new reason_code))))
     else Ok (Auth_new AuthReasonCode.Success))"

definition Auth_encoded_size :: "Auth \<Rightarrow> u32 \<Rightarrow> (EncodeError, nat) outcome" where
  "Auth_encoded_size p limit =
    (let prop_len = encoded_property_size ByteString_encoded_size (auth_auth_method p) +
           encoded_property_size Bytes_encoded_size (auth_auth_data p);
         diag_len = encoded_size_opt_props (auth_user_properties p) (auth_reason_string p)
           (reduce_limit limit (prop_len + 1 + 4));
         prop_len = prop_len + diag_len in
     and_then (var_int_len prop_len) (\<lambda>n. Ok (1 + n + prop_len)))"

definition Auth_encode :: "Auth \<Rightarrow> u32 \<Rightarrow> EncodeError encoder" where
  "Auth_encode p sz = with_written
    (steps
      [put [AuthReasonCode_to_u8 (auth_reason_code p)],
       enc_val (and_then (checked_sub sz 1) var_int_len_from_size) write_variable_length,
       encode_property ByteString_encode (auth_auth_method p) pt_AUTH_METHOD,
       encode_property Bytes_encode (auth_auth_data p) pt_AUTH_DATA])
    (\<lambda>written. enc_val (checked_sub sz (of_nat written))
      (\<lambda>n. encode_opt_props (auth_user_properties p) (auth_reason_string p) n))"

definition valid_Auth :: "Auth \<Rightarrow> bool" where
  "valid_Auth p \<longleftrightarrow> valid_opt valid_ByteString (auth_auth_method p) \<and>
    valid_opt valid_Bytes (auth_auth_data p) \<and> valid_opt valid_ByteString (auth_reason_string p) \<and>
    valid_props (auth_user_properties p)"

definition auth_fixed :: "Auth \<Rightarrow> bytes" where
  "auth_fixed p = prop_image pt_AUTH_METHOD Bytes_image (auth_auth_method p) @
    prop_image pt_AUTH_DATA Bytes_image (auth_auth_data p)"

definition Auth_image :: "Auth \<Rightarrow> bytes" where
  "Auth_image p = diag_packet_image [AuthReasonCode_to_u8 (auth_reason_code p)] (auth_fixed p)
    (auth_user_properties p, auth_reason_string p)"

definition Auth_fit :: "u32 \<Rightarrow> Auth \<Rightarrow> Auth" where
  "Auth_fit limit p =
    (case fit_props (unat limit - (length (auth_fixed p) + 1 + 4)) (auth_user_properties p)
        (auth_reason_string p) of
       (ps, r) \<Rightarrow> p\<lparr>auth_user_properties := ps, auth_reason_string := r\<rparr>)"

lemma Auth_image_fit:
  "Auth_image (Auth_fit limit p) =
    diag_packet_image [AuthReasonCode_to_u8 (auth_reason_code p)] (auth_fixed p)
      (fit_props (unat limit - (length (auth_fixed p) + 1 + 4)) (auth_user_properties p)
        (auth_reason_string p))"
  by (simp add: Auth_image_def Auth_fit_def auth_fixed_def split: prod.split)

lemma Auth_size:
  assumes "length (Auth_image (Auth_fit limit p)) < 2 ^ 64"
  shows "Auth_encoded_size p limit = Ok (length (Auth_image (Auth_fit limit p)))"
proof -
  have fixed: "encoded_property_size ByteString_encoded_size (auth_auth_method p) +
      encoded_property_size Bytes_encoded_size (auth_auth_data p) = length (auth_fixed p)"
    by (simp add: auth_fixed_def ByteString.encoded_property_size_image [of _ pt_AUTH_METHOD]
        Bytes.encoded_property_size_image [of _ pt_AUTH_DATA])
  show ?thesis
    using diag_packet_size [of "[AuthReasonCode_to_u8 (auth_reason_code p)]" "auth_fixed p" limit
        "auth_user_properties p" "auth_reason_string p"] assms
    unfolding Auth_image_fit Auth_encoded_size_def Let_def fixed by simp
qed

lemma writes_Auth:
  assumes "valid_Auth p" "length (Auth_image (Auth_fit limit p)) \<le> 268435455"
  shows "writes (Auth_encode p (of_nat (length (Auth_image (Auth_fit limit p)))))
    (Auth_image (Auth_fit limit p))"
proof -
  have "writes (steps
      [encode_property ByteString_encode (auth_auth_method p) pt_AUTH_METHOD,
       encode_property Bytes_encode (auth_auth_data p) pt_AUTH_DATA])
      (prop_image pt_AUTH_METHOD Bytes_image (auth_auth_method p) @
       prop_image pt_AUTH_DATA Bytes_image (auth_auth_data p) @ [])"
    using assms(1) by (intro writes_intro) (auto simp: valid_Auth_def)
  then have "writes (steps
      [encode_property ByteString_encode (auth_auth_method p) pt_AUTH_METHOD,
       encode_property Bytes_encode (auth_auth_data p) pt_AUTH_DATA]) (auth_fixed p)"
    by (simp add: auth_fixed_def)
  from writes_diag_packet [OF this, of "auth_user_properties p" "auth_reason_string p"
      "[AuthReasonCode_to_u8 (auth_reason_code p)]"] assms
  show ?thesis unfolding Auth_image_fit Auth_encode_def by (simp add: valid_Auth_def)
qed

interpretation auth: property_reader auth_arms
  by standard (auto simp: auth_arms_def intro!: returns_intro consumes_intro)

lemma auth_read_image:
  assumes "valid_Auth p"
  shows "read_properties auth_arms (Auth_new (auth_reason_code p))
    (auth_fixed p @ diag_image (auth_user_properties p) (auth_reason_string p)) = Ok p"
proof -
  note v = assms [unfolded valid_Auth_def]
  have arms: "auth_arms pt_AUTH_METHOD = read_value auth_auth_method auth_auth_method_update ByteString_decode"
    "auth_arms pt_AUTH_DATA = read_value auth_auth_data auth_auth_data_update Bytes_decode"
    "auth_arms pt_REASON_STRING =
      read_value auth_reason_string auth_reason_string_update ByteString_decode"
    "auth_arms pt_USER = read_push auth_user_properties_update UserProperty_decode"
    by (simp_all add: auth_arms_def property_type_defs)
  show ?thesis
    using v
    by (simp add: auth_fixed_def diag_image_def Auth_new_def
        auth.read_opt [OF arms(1) ByteString.decode_image] auth.read_opt [OF arms(2) Bytes.decode_image]
        auth.read_user [OF arms(4)] auth.read_opt_last [OF arms(3) ByteString.decode_image])
qed

lemma Auth_decode_image:
  assumes "valid_Auth p" "length (Auth_image p) \<le> 268435455"
  shows "Auth_decode (Auth_image p) = Ok p"
proof -
  have "length (auth_fixed p @ diag_image (auth_user_properties p) (auth_reason_string p)) \<le> 268435455"
    using assms(2) by (simp add: Auth_image_def length_diag_packet_image Let_def)
  from auth.decode_props_image [OF this auth_read_image [OF assms(1)], of "[]"]
  show ?thesis
    by (simp add: Auth_decode_def Auth_image_def diag_packet_image_def AuthReasonCode.try_from_to)
      (simp add: props_image_def)
qed

interpretation Auth: encode_ltd Auth_encoded_size Auth_encode "\<lambda>_. Auth_decode" "\<lambda>_. 0" Auth_image
  Auth_fit valid_Auth "\<lambda>_. 0"
proof
  show "valid_Auth (Auth_fit limit p)" if "valid_Auth p" for limit p
    using that by (auto simp: Auth_fit_def valid_Auth_def split: prod.split dest: fit_props_valid)
  show "Auth_fit limit p = p" if "length (Auth_image p) + 11 \<le> unat limit" for limit p
    using that by (simp add: Auth_fit_def Auth_image_def length_diag_packet_image Let_def fit_props_all)
  show "returns (Auth_decode src)" for src
    by (auto simp: Auth_decode_def intro!: returns_intro auth.decode_returns
        AuthReasonCode.try_from_returns)
qed (auto intro: Auth_size writes_Auth Auth_decode_image)

section \<open>DISCONNECT\<close>

datatype DisconnectReasonCode =
    NormalDisconnection | DisconnectWithWillMessage | UnspecifiedError | MalformedPacket
  | ProtocolError | ImplementationSpecificError | NotDisconnectorized | ServerBusy | ServerShuttingDown
  | BadDisconnectenticationMethod | KeepAliveTimeout | SessionTakenOver | TopicFilterInvalid
  | TopicNameInvalid | ReceiveMaximumExceeded | TopicAliasInvalid | PacketTooLarge
  | MessageRateTooHigh | QuotaExceeded | AdministrativeAction | PayloadFormatInvalid
  | RetainNotSupported | QosNotSupported | UseAnotherServer | ServerMoved
  | SharedSubsriptionNotSupported | ConnectionRateExceeded | MaximumConnectTime
  | SubscriptionIdentifiersNotSupported | WildcardSubscriptionsNotSupported

fun DisconnectReasonCode_to_u8 :: "DisconnectReasonCode \<Rightarrow> u8" where
  "DisconnectReasonCode_to_u8 DisconnectReasonCode.NormalDisconnection = 0"
| "DisconnectReasonCode_to_u8 DisconnectReasonCode.DisconnectWithWillMessage = 4"
| "DisconnectReasonCode_to_u8 DisconnectReasonCode.UnspecifiedError = 128"
| "DisconnectReasonCode_to_u8 DisconnectReasonCode.MalformedPacket = 129"
| "DisconnectReasonCode_to_u8 DisconnectReasonCode.ProtocolError = 130"
| "DisconnectReasonCode_to_u8 DisconnectReasonCode.ImplementationSpecificError = 131"
| "DisconnectReasonCode_to_u8 DisconnectReasonCode.NotDisconnectorized = 135"
| "DisconnectReasonCode_to_u8 DisconnectReasonCode.ServerBusy = 137"
| "DisconnectReasonCode_to_u8 DisconnectReasonCode.ServerShuttingDown = 139"
| "DisconnectReasonCode_to_u8 DisconnectReasonCode.BadDisconnectenticationMethod = 140"
| "DisconnectReasonCode_to_u8 DisconnectReasonCode.KeepAliveTimeout = 141"
| "DisconnectReasonCode_to_u8 DisconnectReasonCode.SessionTakenOver = 142"
| "DisconnectReasonCode_to_u8 DisconnectReasonCode.TopicFilterInvalid = 143"
| "DisconnectReasonCode_to_u8 DisconnectReasonCode.TopicNameInvalid = 144"
| "DisconnectReasonCode_to_u8 DisconnectReasonCode.ReceiveMaximumExceeded = 147"
| "DisconnectReasonCode_to_u8 DisconnectReasonCode.TopicAliasInvalid = 148"
| "DisconnectReasonCode_to_u8 DisconnectReasonCode.PacketTooLarge = 149"
| "DisconnectReasonCode_to_u8 DisconnectReasonCode.MessageRateTooHigh = 150"
| "DisconnectReasonCode_to_u8 DisconnectReasonCode.QuotaExceeded = 151"
| "DisconnectReasonCode_to_u8 DisconnectReasonCode.AdministrativeAction = 152"
| "DisconnectReasonCode_to_u8 DisconnectReasonCode.PayloadFormatInvalid = 153"
| "DisconnectReasonCode_to_u8 DisconnectReasonCode.RetainNotSupported = 154"
| "DisconnectReasonCode_to_u8 DisconnectReasonCode.QosNotSupported = 155"
| "DisconnectReasonCode_to_u8 DisconnectReasonCode.UseAnotherServer = 156"
| "DisconnectReasonCode_to_u8 DisconnectReasonCode.ServerMoved = 157"
| "DisconnectReasonCode_to_u8 DisconnectReasonCode.SharedSubsriptionNotSupported = 158"
| "DisconnectReasonCode_to_u8 DisconnectReasonCode.ConnectionRateExceeded = 159"
| "DisconnectReasonCode_to_u8 DisconnectReasonCode.MaximumConnectTime = 160"
| "DisconnectReasonCode_to_u8 DisconnectReasonCode.SubscriptionIdentifiersNotSupported = 161"
| "DisconnectReasonCode_to_u8 DisconnectReasonCode.WildcardSubscriptionsNotSupported = 162"

definition DisconnectReasonCode_variants :: "DisconnectReasonCode list" where
  "DisconnectReasonCode_variants =
    [DisconnectReasonCode.NormalDisconnection, DisconnectReasonCode.DisconnectWithWillMessage,
     DisconnectReasonCode.UnspecifiedError, DisconnectReasonCode.MalformedPacket,
     DisconnectReasonCode.ProtocolError, DisconnectReasonCode.ImplementationSpecificError,
     DisconnectReasonCode.NotDisconnectorized, DisconnectReasonCode.ServerBusy,
     DisconnectReasonCode.ServerShuttingDown, DisconnectReasonCode.BadDisconnectenticationMethod,
     DisconnectReasonCode.KeepAliveTimeout, DisconnectReasonCode.SessionTakenOver,
     DisconnectReasonCode.TopicFilterInvalid, DisconnectReasonCode.TopicNameInvalid,
     DisconnectReasonCode.ReceiveMaximumExceeded, DisconnectReasonCode.TopicAliasInvalid,
     DisconnectReasonCode.PacketTooLarge, DisconnectReasonCode.MessageRateTooHigh,
     DisconnectReasonCode.QuotaExceeded, DisconnectReasonCode.AdministrativeAction,
     DisconnectReasonCode.PayloadFormatInvalid, DisconnectReasonCode.RetainNotSupported,
     DisconnectReasonCode.QosNotSupported, DisconnectReasonCode.UseAnotherServer,
     DisconnectReasonCode.ServerMoved, DisconnectReasonCode.SharedSubsriptionNotSupported,
     DisconnectReasonCode.ConnectionRateExceeded, DisconnectReasonCode.MaximumConnectTime,
     DisconnectReasonCode.SubscriptionIdentifiersNotSupported,
     DisconnectReasonCode.WildcardSubscriptionsNotSupported]"

definition DisconnectReasonCode_try_from :: "u8 \<Rightarrow> (DecodeError, DisconnectReasonCode) outcome" where
  "DisconnectReasonCode_try_from = try_from_u8 DisconnectReasonCode_to_u8 DisconnectReasonCode_variants"

interpretation DisconnectReasonCode: prim_enum DisconnectReasonCode_to_u8 DisconnectReasonCode_variants
  rewrites "try_from_u8 DisconnectReasonCode_to_u8 DisconnectReasonCode_variants =
    DisconnectReasonCode_try_from"
proof -
  show "prim_enum DisconnectReasonCode_to_u8 DisconnectReasonCode_variants"
  proof
    show "x \<in> set DisconnectReasonCode_variants" for x
      by (cases x) (simp_all add: DisconnectReasonCode_variants_def)
  qed (simp add: DisconnectReasonCode_variants_def)
qed (simp add: DisconnectReasonCode_try_from_def)

record Disconnect =
  disc_reason_code :: DisconnectReasonCode
  disc_session_expiry_interval_secs :: "u32 option"
  disc_server_reference :: "bytestring option"
  disc_reason_string :: "bytestring option"
  disc_user_properties :: UserProperties

definition Disconnect_new :: "DisconnectReasonCode \<Rightarrow> Disconnect" where
  "Disconnect_new reason_code = \<lparr>disc_reason_code = reason_code, disc_session_expiry_interval_secs = None,
    disc_server_reference = None, disc_reason_string = None, disc_user_properties = []\<rparr>"

definition Disconnect_default :: Disconnect where
  "Disconnect_default = Disconnect_new DisconnectReasonCode.NormalDisconnection"

definition disc_arms :: "u8 \<Rightarrow> (DecodeError, Disconnect) body" where
  "disc_arms t =
    (if t = pt_SESS_EXPIRY_INT then read_value disc_session_expiry_interval_secs disc_session_expiry_interval_secs_update u32_decode
     else if t = pt_SERVER_REF then read_value disc_server_reference disc_server_reference_update ByteString_decode
     else if t = pt_REASON_STRING then
       read_value disc_reason_string disc_reason_string_update ByteString_decode
     else if t = pt_USER then read_push disc_user_properties_update UserProperty_decode
     else unknown_property)"

definition Disconnect_decode :: "bytes \<Rightarrow> (DecodeError, Disconnect) outcome" where
  "Disconnect_decode src =
    (if src \<noteq> [] then
       and_then (get_u8 src) (\<lambda>(b, src).
       and_then (DisconnectReasonCode_try_from b) (\<lambda>reason_code.
       and_then (decode_properties disc_arms (Disconnect_new reason_code) src) (\<lambda>(disc, src).
       ensure (src = []) DecodeError.InvalidLength (Ok disc))))
     else Ok (Disconnect_new DisconnectReasonCode.NormalDisconnection))"

definition Disconnect_encoded_size :: "Disconnect \<Rightarrow> u32 \<Rightarrow> (EncodeError, nat) outcome" where
  "Disconnect_encoded_size p limit =
    (let prop_len = encoded_property_size u32_encoded_size (disc_session_expiry_interval_secs p) +
           encoded_property_size ByteString_encoded_size (disc_server_reference p);
         diag_len = encoded_size_opt_props (disc_user_properties p) (disc_reason_string p)
           (reduce_limit limit (prop_len + 1 + 4));
         prop_len = prop_len + diag_len in
     and_then (var_int_len prop_len) (\<lambda>n. Ok (1 + n + prop_len)))"

definition Disconnect_encode :: "Disconnect \<Rightarrow> u32 \<Rightarrow> EncodeError encoder" where
  "Disconnect_encode p sz = with_written
    (steps
      [put [DisconnectReasonCode_to_u8 (disc_reason_code p)],
       enc_val (and_then (checked_sub sz 1) var_int_len_from_size) write_variable_length,
       encode_property u32_encode (disc_session_expiry_interval_secs p) pt_SESS_EXPIRY_INT,
       encode_property ByteString_encode (disc_server_reference p) pt_SERVER_REF])
    (\<lambda>written. enc_val (checked_sub sz (of_nat written))
      (\<lambda>n. encode_opt_props (disc_user_properties p) (disc_reason_string p) n))"

definition valid_Disconnect :: "Disconnect \<Rightarrow> bool" where
  "valid_Disconnect p \<longleftrightarrow> valid_opt valid_ByteString (disc_server_reference p) \<and> valid_opt valid_ByteString (disc_reason_string p) \<and>
    valid_props (disc_user_properties p)"

definition disc_fixed :: "Disconnect \<Rightarrow> bytes" where
  "disc_fixed p = prop_image pt_SESS_EXPIRY_INT u32_be (disc_session_expiry_interval_secs p) @
    prop_image pt_SERVER_REF Bytes_image (disc_server_reference p)"

definition Disconnect_image :: "Disconnect \<Rightarrow> bytes" where
  "Disconnect_image p = diag_packet_image [DisconnectReasonCode_to_u8 (disc_reason_code p)] (disc_fixed p)
    (disc_user_properties p, disc_reason_string p)"

definition Disconnect_fit :: "u32 \<Rightarrow> Disconnect \<Rightarrow> Disconnect" where
  "Disconnect_fit limit p =
    (case fit_props (unat limit - (length (disc_fixed p) + 1 + 4)) (disc_user_properties p)
        (disc_reason_string p) of
       (ps, r) \<Rightarrow> p\<lparr>disc_user_properties := ps, disc_reason_string := r\<rparr>)"

lemma Disconnect_image_fit:
  "Disconnect_image (Disconnect_fit limit p) =
    diag_packet_image [DisconnectReasonCode_to_u8 (disc_reason_code p)] (disc_fixed p)
      (fit_props (unat limit - (length (disc_fixed p) + 1 + 4)) (disc_user_properties p)
        (disc_reason_string p))"
  by (simp add: Disconnect_image_def Disconnect_fit_def disc_fixed_def split: prod.split)

lemma Disconnect_size:
  assumes "length (Disconnect_image (Disconnect_fit limit p)) < 2 ^ 64"
  shows "Disconnect_encoded_size p limit = Ok (length (Disconnect_image (Disconnect_fit limit p)))"
proof -
  have fixed: "encoded_property_size u32_encoded_size (disc_session_expiry_interval_secs p) +
      encoded_property_size ByteString_encoded_size (disc_server_reference p) = length (disc_fixed p)"
    by (simp add: disc_fixed_def u32.encoded_property_size_image [of _ pt_SESS_EXPIRY_INT]
        ByteString.encoded_property_size_image [of _ pt_SERVER_REF])
  show ?thesis
    using diag_packet_size [of "[DisconnectReasonCode_to_u8 (disc_reason_code p)]" "disc_fixed p" limit
        "disc_user_properties p" "disc_reason_string p"] assms
    unfolding Disconnect_image_fit Disconnect_encoded_size_def Let_def fixed by simp
qed

lemma writes_Disconnect:
  assumes "valid_Disconnect p" "length (Disconnect_image (Disconnect_fit limit p)) \<le> 268435455"
  shows "writes (Disconnect_encode p (of_nat (length (Disconnect_image (Disconnect_fit limit p)))))
    (Disconnect_image (Disconnect_fit limit p))"
proof -
  have "writes (steps
      [encode_property u32_encode (disc_session_expiry_interval_secs p) pt_SESS_EXPIRY_INT,
       encode_property ByteString_encode (disc_server_reference p) pt_SERVER_REF])
      (prop_image pt_SESS_EXPIRY_INT u32_be (disc_session_expiry_interval_secs p) @
       prop_image pt_SERVER_REF Bytes_image (disc_server_reference p) @ [])"
    using assms(1) by (intro writes_intro) (auto simp: valid_Disconnect_def)
  then have "writes (steps
      [encode_property u32_encode (disc_session_expiry_interval_secs p) pt_SESS_EXPIRY_INT,
       encode_property ByteString_encode (disc_server_reference p) pt_SERVER_REF]) (disc_fixed p)"
    by (simp add: disc_fixed_def)
  from writes_diag_packet [OF this, of "disc_user_properties p" "disc_reason_string p"
      "[DisconnectReasonCode_to_u8 (disc_reason_code p)]"] assms
  show ?thesis unfolding Disconnect_image_fit Disconnect_encode_def by (simp add: valid_Disconnect_def)
qed

interpretation disconnect: property_reader disc_arms
  by standard (auto simp: disc_arms_def intro!: returns_intro consumes_intro)

lemma disc_read_image:
  assumes "valid_Disconnect p"
  shows "read_properties disc_arms (Disconnect_new (disc_reason_code p))
    (disc_fixed p @ diag_image (disc_user_properties p) (disc_reason_string p)) = Ok p"
proof -
  note v = assms [unfolded valid_Disconnect_def]
  have arms: "disc_arms pt_SESS_EXPIRY_INT = read_value disc_session_expiry_interval_secs disc_session_expiry_interval_secs_update u32_decode"
    "disc_arms pt_SERVER_REF = read_value disc_server_reference disc_server_reference_update ByteString_decode"
    "disc_arms pt_REASON_STRING =
      read_value disc_reason_string disc_reason_string_update ByteString_decode"
    "disc_arms pt_USER = read_push disc_user_properties_update UserProperty_decode"
    by (simp_all add: disc_arms_def property_type_defs)
  show ?thesis
    using v
    by (simp add: disc_fixed_def diag_image_def Disconnect_new_def
        disconnect.read_opt [where P = "\<lambda>_. True", OF arms(1) u32.decode_image] disconnect.read_opt [OF arms(2) ByteString.decode_image]
        disconnect.read_user [OF arms(4)] disconnect.read_opt_last [OF arms(3) ByteString.decode_image])
qed

lemma Disconnect_decode_image:
  assumes "valid_Disconnect p" "length (Disconnect_image p) \<le> 268435455"
  shows "Disconnect_decode (Disconnect_image p) = Ok p"
proof -
  have "length (disc_fixed p @ diag_image (disc_user_properties p) (disc_reason_string p)) \<le> 268435455"
    using assms(2) by (simp add: Disconnect_image_def length_diag_packet_image Let_def)
  from disconnect.decode_props_image [OF this disc_read_image [OF assms(1)], of "[]"]
  show ?thesis
    by (simp add: Disconnect_decode_def Disconnect_image_def diag_packet_image_def DisconnectReasonCode.try_from_to)
qed

interpretation Disconnect: encode_ltd Disconnect_encoded_size Disconnect_encode "\<lambda>_. Disconnect_decode" "\<lambda>_. 0" Disconnect_image
  Disconnect_fit valid_Disconnect "\<lambda>_. 0"
proof
  show "valid_Disconnect (Disconnect_fit limit p)" if "valid_Disconnect p" for limit p
    using that by (auto simp: Disconnect_fit_def valid_Disconnect_def split: prod.split dest: fit_props_valid)
  show "Disconnect_fit limit p = p" if "length (Disconnect_image p) + 11 \<le> unat limit" for limit p
    using that by (simp add: Disconnect_fit_def Disconnect_image_def length_diag_packet_image Let_def fit_props_all)
  show "returns (Disconnect_decode src)" for src
    by (auto simp: Disconnect_decode_def intro!: returns_intro disconnect.decode_returns
        DisconnectReasonCode.try_from_returns)
qed (auto intro: Disconnect_size writes_Disconnect Disconnect_decode_image)

end
