(* ===== verification/V5_Codec.thy ===== *)
theory V5_Codec
  imports Framing V5_Connect V5_ConnAck V5_Publish V5_PubAcks V5_Subscribe V5_Auth
begin

text \<open>
  The MQTT 5 codec: \<^verbatim>\<open>Packet\<close> (\<^verbatim>\<open>src/v5/codec/packet/mod.rs\<close>), \<^verbatim>\<open>decode_packet\<close>
  (\<^verbatim>\<open>src/v5/codec/decode.rs\<close>), \<^verbatim>\<open>EncodeLtd for Packet\<close> (\<^verbatim>\<open>src/v5/codec/encode.rs\<close>) and \<^verbatim>\<open>Codec\<close>
  (\<^verbatim>\<open>src/v5/codec/codec.rs\<close>).  The framing loop is the one of the 3.1.1 codec (theory \<open>Framing\<close>); in
  addition the codec remembers whether the client asked for problem information, and then leaves the
  diagnostic properties out.
\<close>

datatype Packet =
    Connect Connect
  | ConnectAck ConnectAck
  | Publish Publish
  | PublishAck PublishAck
  | PublishReceived PublishAck
  | PublishRelease PublishAck2
  | PublishComplete PublishAck2
  | Subscribe Subscribe
  | SubscribeAck SubscribeAck
  | Unsubscribe Unsubscribe
  | UnsubscribeAck UnsubscribeAck
  | PingRequest
  | PingResponse
  | Disconnect Disconnect
  | Auth Auth

fun packet_type :: "Packet \<Rightarrow> u8" where
  "packet_type (Connect _) = CONNECT"
| "packet_type (ConnectAck _) = CONNACK"
| "packet_type (Publish _) = PUBLISH_START"
| "packet_type (PublishAck _) = PUBACK"
| "packet_type (PublishReceived _) = PUBREC"
| "packet_type (PublishRelease _) = PUBREL"
| "packet_type (PublishComplete _) = PUBCOMP"
| "packet_type (Subscribe _) = SUBSCRIBE"
| "packet_type (SubscribeAck _) = SUBACK"
| "packet_type (Unsubscribe _) = UNSUBSCRIBE"
| "packet_type (UnsubscribeAck _) = UNSUBACK"
| "packet_type PingRequest = PINGREQ"
| "packet_type PingResponse = PINGRESP"
| "packet_type (Disconnect _) = DISCONNECT"
| "packet_type (Auth _) = AUTH"

section \<open>Decoding and encoding of packets\<close>

definition map_ok :: "('a \<Rightarrow> 'b) \<Rightarrow> ('e, 'a) outcome \<Rightarrow> ('e, 'b) outcome" where
  "map_ok f m = and_then m (\<lambda>x. Ok (f x))"

definition decode_packet :: "bytes \<Rightarrow> u8 \<Rightarrow> (DecodeError, Packet) outcome" where
  "decode_packet src fb =
    (if PUBLISH_START \<le> fb \<and> fb \<le> PUBLISH_END then map_ok Publish (Publish_decode src (fb AND 0b00001111))
     else if fb = PUBACK then map_ok PublishAck (PublishAck_decode src)
     else if fb = PINGREQ then Ok PingRequest
     else if fb = PINGRESP then Ok PingResponse
     else if fb = SUBSCRIBE then map_ok Subscribe (Subscribe_decode src)
     else if fb = SUBACK then map_ok SubscribeAck (SubscribeAck_decode src)
     else if fb = UNSUBSCRIBE then map_ok Unsubscribe (Unsubscribe_decode src)
     else if fb = UNSUBACK then map_ok UnsubscribeAck (UnsubscribeAck_decode src)
     else if fb = CONNECT then map_ok Connect (Connect_decode src)
     else if fb = CONNACK then map_ok ConnectAck (ConnectAck_decode src)
     else if fb = DISCONNECT then map_ok Disconnect (Disconnect_decode src)
     else if fb = AUTH then map_ok Auth (Auth_decode src)
     else if fb = PUBREC then map_ok PublishReceived (PublishAck_decode src)
     else if fb = PUBREL then map_ok PublishRelease (PublishAck2_decode src)
     else if fb = PUBCOMP then map_ok PublishComplete (PublishAck2_decode src)
     else Err UnsupportedPacketType)"

fun Packet_encoded_size :: "Packet \<Rightarrow> u32 \<Rightarrow> (EncodeError, nat) outcome" where
  "Packet_encoded_size (Connect connect) limit = Connect_encoded_size connect limit"
| "Packet_encoded_size (Publish publish) limit = Publish_encoded_size publish limit"
| "Packet_encoded_size (ConnectAck ack) limit = ConnectAck_encoded_size ack limit"
| "Packet_encoded_size (PublishAck ack) limit = PublishAck_encoded_size ack limit"
| "Packet_encoded_size (PublishReceived ack) limit = PublishAck_encoded_size ack limit"
| "Packet_encoded_size (PublishRelease ack) limit = PublishAck2_encoded_size ack limit"
| "Packet_encoded_size (PublishComplete ack) limit = PublishAck2_encoded_size ack limit"
| "Packet_encoded_size (Subscribe sub) limit = Subscribe_encoded_size sub limit"
| "Packet_encoded_size (SubscribeAck ack) limit = SubscribeAck_encoded_size ack limit"
| "Packet_encoded_size (Unsubscribe unsub) limit = Unsubscribe_encoded_size unsub limit"
| "Packet_encoded_size (UnsubscribeAck ack) limit = UnsubscribeAck_encoded_size ack limit"
| "Packet_encoded_size PingRequest limit = Ok 0"
| "Packet_encoded_size PingResponse limit = Ok 0"
| "Packet_encoded_size (Disconnect disconnect) limit = Disconnect_encoded_size disconnect limit"
| "Packet_encoded_size (Auth auth) limit = Auth_encoded_size auth limit"

definition publish_first_byte :: "Publish \<Rightarrow> u8" where
  "publish_first_byte publish =
    PUBLISH_START OR push_bit 1 (QoS_to_u8 (pub_qos publish)) OR
    push_bit 3 (of_bool (pub_dup publish)) OR of_bool (pub_retain publish)"

fun Packet_encode :: "Packet \<Rightarrow> u32 \<Rightarrow> EncodeError encoder" where
  "Packet_encode (Connect connect) check_size =
    steps [put [CONNECT], write_variable_length check_size, Connect_encode connect check_size]"
| "Packet_encode (ConnectAck ack) check_size =
    steps [put [CONNACK], write_variable_length check_size, ConnectAck_encode ack check_size]"
| "Packet_encode (Publish publish) check_size =
    steps [put [publish_first_byte publish], write_variable_length check_size,
      Publish_encode publish check_size]"
| "Packet_encode (PublishAck ack) check_size =
    steps [put [PUBACK], write_variable_length check_size, PublishAck_encode ack check_size]"
| "Packet_encode (PublishReceived ack) check_size =
    steps [put [PUBREC], write_variable_length check_size, PublishAck_encode ack check_size]"
| "Packet_encode (PublishRelease ack) check_size =
    steps [put [PUBREL], write_variable_length check_size, PublishAck2_encode ack check_size]"
| "Packet_encode (PublishComplete ack) check_size =
    steps [put [PUBCOMP], write_variable_length check_size, PublishAck2_encode ack check_size]"
| "Packet_encode (Subscribe sub) check_size =
    steps [put [SUBSCRIBE], write_variable_length check_size, Subscribe_encode sub check_size]"
| "Packet_encode (SubscribeAck ack) check_size =
    steps [put [SUBACK], write_variable_length check_size, SubscribeAck_encode ack check_size]"
| "Packet_encode (Unsubscribe unsub) check_size =
    steps [put [UNSUBSCRIBE], write_variable_length check_size, Unsubscribe_encode unsub check_size]"
| "Packet_encode (UnsubscribeAck ack) check_size =
    steps [put [UNSUBACK], write_variable_length check_size, UnsubscribeAck_encode ack check_size]"
| "Packet_encode PingRequest check_size = put [PINGREQ, 0]"
| "Packet_encode PingResponse check_size = put [PINGRESP, 0]"
| "Packet_encode (Disconnect disconnect) check_size =
    steps [put [DISCONNECT], write_variable_length check_size, Disconnect_encode disconnect check_size]"
| "Packet_encode (Auth auth) check_size =
    steps [put [AUTH], write_variable_length check_size, Auth_encode auth check_size]"

section \<open>Codec\<close>

text \<open>\<^verbatim>\<open>flags\<close> holds the one flag \<^verbatim>\<open>NO_PROBLEM_INFO\<close>.\<close>

record Codec =
  state :: DecodeState
  max_in_size :: u32
  max_out_size :: u32
  no_problem_info :: bool

definition Codec_new :: Codec where
  "Codec_new = \<lparr>state = FrameHeader, max_in_size = 0, max_out_size = 0, no_problem_info = False\<rparr>"

definition Codec_max_inbound_size :: "Codec \<Rightarrow> u32 \<Rightarrow> Codec" where
  "Codec_max_inbound_size c n = c\<lparr>max_in_size := n\<rparr>"

definition Codec_max_outbound_size :: "Codec \<Rightarrow> u32 \<Rightarrow> Codec" where
  "Codec_max_outbound_size c n = c\<lparr>max_out_size := (if n > 5 then n - 5 else n)\<rparr>"

definition Codec_set_max_inbound_size :: "Codec \<Rightarrow> u32 \<Rightarrow> Codec" where
  "Codec_set_max_inbound_size c n = c\<lparr>max_in_size := n\<rparr>"

definition Codec_set_max_outbound_size :: "Codec \<Rightarrow> u32 \<Rightarrow> Codec" where
  "Codec_set_max_outbound_size c n = c\<lparr>max_out_size := n\<rparr>"

definition Codec_decode ::
  "Codec \<Rightarrow> bytes \<Rightarrow> (DecodeError, Packet option) outcome \<times> Codec \<times> bytes" where
  "Codec_decode c src =
    (case frame_step decode_packet (max_in_size c) (state c) src of
       (r, st, rest) \<Rightarrow>
         let c = c\<lparr>state := st\<rparr> in
         (r,
          (case r of
             Ok (Some (Connect pkt)) \<Rightarrow> c\<lparr>no_problem_info := \<not> con_request_problem_info pkt\<rparr>
           | _ \<Rightarrow> c),
          rest))"

text \<open>The packet with the parts removed that a client without interest in problem information must
  not get.\<close>

definition strip_problem_info :: "Packet \<Rightarrow> Packet" where
  "strip_problem_info p =
    (case p of
       PublishAck pkt \<Rightarrow> PublishAck (pkt\<lparr>pa_properties := [], pa_reason_string := None\<rparr>)
     | PublishReceived pkt \<Rightarrow> PublishReceived (pkt\<lparr>pa_properties := [], pa_reason_string := None\<rparr>)
     | PublishRelease pkt \<Rightarrow> PublishRelease (pkt\<lparr>pa_properties := [], pa_reason_string := None\<rparr>)
     | PublishComplete pkt \<Rightarrow> PublishComplete (pkt\<lparr>pa_properties := [], pa_reason_string := None\<rparr>)
     | Subscribe pkt \<Rightarrow> Subscribe (pkt\<lparr>sub_user_properties := []\<rparr>)
     | SubscribeAck pkt \<Rightarrow> SubscribeAck (pkt\<lparr>sa_properties := [], sa_reason_string := None\<rparr>)
     | Unsubscribe pkt \<Rightarrow> Unsubscribe (pkt\<lparr>un_user_properties := []\<rparr>)
     | UnsubscribeAck pkt \<Rightarrow> UnsubscribeAck (pkt\<lparr>ua_properties := [], ua_reason_string := None\<rparr>)
     | Auth pkt \<Rightarrow> Auth (pkt\<lparr>auth_user_properties := [], auth_reason_string := None\<rparr>)
     | p \<Rightarrow> p)"

definition Codec_max_size :: "Codec \<Rightarrow> u32" where
  "Codec_max_size c = (if max_out_size c \<noteq> 0 then max_out_size c else MAX_PACKET_SIZE)"

definition Codec_encode :: "Codec \<Rightarrow> Packet \<Rightarrow> EncodeError encoder" where
  "Codec_encode c item =
    (let item = (if no_problem_info c then strip_problem_info item else item);
         max_size = Codec_max_size c in
     enc_val (Packet_encoded_size item max_size) (\<lambda>content_size.
       if content_size > unat max_size then enc_fail (Err EncodeError.InvalidLength)
       else Packet_encode item (of_nat content_size)))"

section \<open>Frames\<close>

text \<open>The packets that the encoder writes faithfully, their first byte and their content on the wire,
  the packet that arrives under a size limit, and the smallest limit the encoder can handle.\<close>

fun sendable :: "Packet \<Rightarrow> bool" where
  "sendable (Connect c) = sendable_Connect c"
| "sendable (ConnectAck a) = valid_ConnectAck a"
| "sendable (Publish p) = sendable_Publish p"
| "sendable (PublishAck a) = valid_publish_ack a"
| "sendable (PublishReceived a) = valid_publish_ack a"
| "sendable (PublishRelease a) = valid_publish_ack a"
| "sendable (PublishComplete a) = valid_publish_ack a"
| "sendable (Subscribe s) = sendable_Subscribe s"
| "sendable (SubscribeAck a) = valid_SubscribeAck a"
| "sendable (Unsubscribe s) = sendable_Unsubscribe s"
| "sendable (UnsubscribeAck a) = valid_UnsubscribeAck a"
| "sendable PingRequest = True"
| "sendable PingResponse = True"
| "sendable (Disconnect d) = valid_Disconnect d"
| "sendable (Auth a) = valid_Auth a"

fun header_byte :: "Packet \<Rightarrow> u8" where
  "header_byte (Publish p) = publish_first_byte p"
| "header_byte p = packet_type p"

fun content :: "Packet \<Rightarrow> bytes" where
  "content (Connect c) = Connect_image c"
| "content (ConnectAck a) = ConnectAck_image a"
| "content (Publish p) = Publish_image p"
| "content (PublishAck a) = publish_ack_image PublishAckReason_to_u8 a"
| "content (PublishReceived a) = publish_ack_image PublishAckReason_to_u8 a"
| "content (PublishRelease a) = publish_ack_image PublishAck2Reason_to_u8 a"
| "content (PublishComplete a) = publish_ack_image PublishAck2Reason_to_u8 a"
| "content (Subscribe s) = Subscribe_image s"
| "content (SubscribeAck a) = SubscribeAck_image a"
| "content (Unsubscribe s) = Unsubscribe_image s"
| "content (UnsubscribeAck a) = UnsubscribeAck_image a"
| "content PingRequest = []"
| "content PingResponse = []"
| "content (Disconnect d) = Disconnect_image d"
| "content (Auth a) = Auth_image a"

fun fit_packet :: "u32 \<Rightarrow> Packet \<Rightarrow> Packet" where
  "fit_packet limit (ConnectAck a) = ConnectAck (ConnectAck_fit limit a)"
| "fit_packet limit (PublishAck a) = PublishAck (publish_ack_fit limit a)"
| "fit_packet limit (PublishReceived a) = PublishReceived (publish_ack_fit limit a)"
| "fit_packet limit (PublishRelease a) = PublishRelease (publish_ack_fit limit a)"
| "fit_packet limit (PublishComplete a) = PublishComplete (publish_ack_fit limit a)"
| "fit_packet limit (SubscribeAck a) = SubscribeAck (SubscribeAck_fit limit a)"
| "fit_packet limit (UnsubscribeAck a) = UnsubscribeAck (UnsubscribeAck_fit limit a)"
| "fit_packet limit (Disconnect d) = Disconnect (Disconnect_fit limit d)"
| "fit_packet limit (Auth a) = Auth (Auth_fit limit a)"
| "fit_packet limit p = p"

fun min_limit :: "Packet \<Rightarrow> nat" where
  "min_limit (PublishAck _) = 7"
| "min_limit (PublishReceived _) = 7"
| "min_limit (PublishRelease _) = 7"
| "min_limit (PublishComplete _) = 7"
| "min_limit (SubscribeAck a) = 2 + length (sa_status a)"
| "min_limit _ = 0"

lemmas packet_sizes =
  Connect.size_image ConnectAck.size_image Publish.size_image PublishAck.size_image
  PublishAck2.size_image Subscribe.size_image SubscribeAck.size_image Unsubscribe.size_image
  UnsubscribeAck.size_image Disconnect.size_image Auth.size_image

lemmas packet_decodes =
  Connect.decode_image ConnectAck.decode_image Publish.decode_image PublishAck.decode_image
  PublishAck2.decode_image Subscribe.decode_image SubscribeAck.decode_image
  Unsubscribe.decode_image UnsubscribeAck.decode_image Disconnect.decode_image Auth.decode_image

lemma packet_size:
  assumes "sendable p" "min_limit p \<le> unat limit" "length (content (fit_packet limit p)) < 2 ^ 64"
  shows "Packet_encoded_size p limit = Ok (length (content (fit_packet limit p)))"
  using assms by (cases p) (simp_all add: packet_sizes)

lemma writes_packet_frame:
  fixes enc :: "EncodeError encoder"
  assumes "n = length bs" "n \<le> 268435455" "writes enc bs"
  shows "writes (steps [put [b], write_variable_length (of_nat n), enc]) (frame_bytes b bs)"
proof -
  have "writes (steps [put [b], write_variable_length (of_nat n), enc])
      ([b] @ varlen_spec n @ bs @ [])"
    using assms by (intro writes_steps_Cons writes_steps_Nil writes_put writes_varlen_nat)
  then show ?thesis by (simp add: frame_bytes_def assms(1))
qed

lemma frame_bytes_Nil: "frame_bytes b [] = [b, 0]"
  by (simp add: frame_bytes_def varlen_spec_1)

lemma writes_packet:
  assumes "sendable p" "length (content (fit_packet limit p)) \<le> 268435455"
  shows "writes (Packet_encode p (of_nat (length (content (fit_packet limit p)))))
    (frame_bytes (header_byte (fit_packet limit p)) (content (fit_packet limit p)))"
  using assms
  by (cases p)
    (auto intro!: writes_packet_frame Connect.writes_image Publish.writes_image
      Subscribe.writes_image Unsubscribe.writes_image ConnectAck.writes_image
      PublishAck.writes_image PublishAck2.writes_image SubscribeAck.writes_image
      UnsubscribeAck.writes_image Disconnect.writes_image Auth.writes_image
      simp: frame_bytes_Nil writes_put)

lemma publish_byte:
  "PUBLISH_START \<le> publish_first_byte p" "publish_first_byte p \<le> PUBLISH_END"
  "publish_first_byte p AND 0b00001111 = publish_flags p"
  by (cases "pub_qos p"; cases "pub_dup p"; cases "pub_retain p";
      simp add: publish_first_byte_def publish_flags_def packet_type_defs)+

lemma packet_decode:
  assumes "sendable p" "length (content p) \<le> 268435455"
  shows "decode_packet (content p) (header_byte p) = Ok p"
proof (cases p)
  case (Publish pb)
  then show ?thesis
    using assms Publish.decode_image [of pb]
    by (simp add: decode_packet_def publish_byte [simplified] map_ok_def)
qed (use assms in \<open>simp_all add: decode_packet_def packet_type_defs map_ok_def packet_decodes\<close>)

lemma sendable_fit: "sendable p \<Longrightarrow> sendable (fit_packet limit p)"
  by (cases p) (simp_all add: ConnectAck.valid_fit PublishAck.valid_fit PublishAck2.valid_fit
      SubscribeAck.valid_fit UnsubscribeAck.valid_fit Disconnect.valid_fit Auth.valid_fit)

lemma fit_packet_all: "length (content p) + 11 \<le> unat limit \<Longrightarrow> fit_packet limit p = p"
  by (cases p) (simp_all add: ConnectAck.fit_all PublishAck.fit_all PublishAck2.fit_all
      SubscribeAck.fit_all UnsubscribeAck.fit_all Disconnect.fit_all Auth.fit_all)

lemma sendable_strip: "sendable p \<Longrightarrow> sendable (strip_problem_info p)"
  by (cases p) (simp_all add: strip_problem_info_def valid_publish_ack_def sendable_Subscribe_def
      valid_SubscribeAck_def sendable_Unsubscribe_def valid_UnsubscribeAck_def valid_Auth_def)

lemma returns_map_ok: "returns m \<Longrightarrow> returns (map_ok f m)"
  by (auto simp: map_ok_def intro!: returns_intro)

lemma returns_decode_packet5: "returns (decode_packet src b)"
  unfolding decode_packet_def
  by (rule returns_if returns_map_ok returns_Ok returns_Err returns_Publish_decode
      returns_Subscribe_decode returns_Unsubscribe_decode returns_Connect_decode
      PublishAck.decode_returns PublishAck2.decode_returns SubscribeAck.decode_returns
      UnsubscribeAck.decode_returns ConnectAck.decode_returns Disconnect.decode_returns
      Auth.decode_returns)+

definition encodable :: "Packet \<Rightarrow> bool" where
  "encodable p \<longleftrightarrow> sendable p \<and> length (content p) \<le> 268435455"

interpretation v5: framed_stream decode_packet header_byte content encodable
  by unfold_locales (auto simp: encodable_def intro: returns_decode_packet5 packet_decode)

section \<open>The codec\<close>

text \<open>The packet that a codec really sends: stripped if the client does not want problem information,
  then reduced to the size limit.\<close>

definition sent_packet :: "Codec \<Rightarrow> Packet \<Rightarrow> Packet" where
  "sent_packet c p =
    fit_packet (Codec_max_size c) (if no_problem_info c then strip_problem_info p else p)"

definition can_send :: "Codec \<Rightarrow> Packet \<Rightarrow> bool" where
  "can_send c p \<longleftrightarrow> sendable p \<and> min_limit p \<le> unat (Codec_max_size c) \<and>
    length (content (sent_packet c p)) \<le> min 268435455 (unat (Codec_max_size c))"

lemma min_limit_strip [simp]: "min_limit (strip_problem_info p) = min_limit p"
  by (cases p) (simp_all add: strip_problem_info_def)

lemma encodable_sent: "can_send c p \<Longrightarrow> encodable (sent_packet c p)"
  by (auto simp: can_send_def encodable_def sent_packet_def sendable_fit sendable_strip)

lemma v5_writes_Codec_encode:
  assumes "can_send c p"
  shows "writes (Codec_encode c p)
    (frame_bytes (header_byte (sent_packet c p)) (content (sent_packet c p)))"
proof -
  let ?q = "if no_problem_info c then strip_problem_info p else p" and ?m = "Codec_max_size c"
  have q: "sendable ?q" "min_limit ?q \<le> unat ?m"
    using assms sendable_strip by (auto simp: can_send_def)
  have len: "length (content (fit_packet ?m ?q)) \<le> 268435455"
    "\<not> length (content (fit_packet ?m ?q)) > unat ?m"
    using assms by (auto simp: can_send_def sent_packet_def)
  have size: "Packet_encoded_size ?q ?m = Ok (length (content (fit_packet ?m ?q)))"
    using len(1) by (intro packet_size q) simp
  show ?thesis
    unfolding Codec_encode_def Let_def size enc_val_Ok if_not_P [OF len(2)] sent_packet_def
    by (rule writes_packet [OF q(1) len(1)])
qed

lemma Codec_encode5_ok:
  "can_send c p \<Longrightarrow>
   Codec_encode c p buf = (Ok (), buf @ frame_bytes (header_byte (sent_packet c p)) (content (sent_packet c p)))"
  by (rule writes_apply [OF v5_writes_Codec_encode])

text \<open>What the decoder remembers of a packet.\<close>

fun after_packet :: "Packet \<Rightarrow> Codec \<Rightarrow> Codec" where
  "after_packet (Connect pkt) c = c\<lparr>no_problem_info := \<not> con_request_problem_info pkt\<rparr>"
| "after_packet _ c = c"

lemma Codec_decode_frame:
  assumes "frame_step decode_packet (max_in_size c) (state c) src = (Ok (Some p), FrameHeader, rest)"
    "state c = FrameHeader"
  shows "Codec_decode c src = (Ok (Some p), after_packet p c, rest)"
  using assms by (cases p) (simp_all add: Codec_decode_def Let_def)

section \<open>Properties\<close>

text \<open>C2: A packet that the MQTT 5 codec can send (\<open>can_send\<close>) is read back as it was, less its
  diagnostic properties if the client declined problem information, and less those that exceed the outbound limit
  (none, if the content is at least 11 bytes below it); the bytes after it stay in the buffer and the decoder is ready for the
  next header. The codec can send a packet if its strings are UTF-8 and, like byte strings, at most 65535 bytes long;
  values of non-zero types are not 0; a publish has an identifier exactly if its QoS is not 0; a CONNECT without a client id
  asks for a clean start; it has no will properties, subscription identifiers, or user properties of a subscribe or
  unsubscribe (the encoder does not write these properly); it fits the limits of codec and protocol; and
  that limit is not so small that its arithmetic underflows (7 for acknowledgements of publishes, two more than the
  reason codes for SUBACK). The decoder is between two packets and its limit admits the packet.\<close>

theorem v5_codec_roundtrip:
  assumes "can_send enc p" and "state dec = FrameHeader"
    and "max_in_size dec = 0 \<or> length (content (sent_packet enc p)) \<le> unat (max_in_size dec)"
  shows "fst (Codec_encode enc p []) = Ok () \<and>
    Codec_decode dec (snd (Codec_encode enc p []) @ rest) =
      (Ok (Some (sent_packet enc p)), after_packet (sent_packet enc p) dec, rest) \<and>
    (\<not> no_problem_info enc \<and> length (content p) + 11 \<le> unat (Codec_max_size enc) \<longrightarrow>
      sent_packet enc p = p)"
  using v5.frame_step_image [OF encodable_sent [OF assms(1)] assms(3), of rest] assms(2)
  by (simp add: Codec_encode5_ok [OF assms(1)] Codec_decode_frame sent_packet_def fit_packet_all)

definition example_ack :: PublishAck where
  "example_ack = \<lparr>pa_packet_id = 7, pa_reason_code = PublishAckReason.QuotaExceeded,
     pa_properties = [([0x6B], [0x76])], pa_reason_string = Some [0x6E, 0x6F]\<rparr>"

lemma example_ack_facts:
  "valid_publish_ack example_ack" "length (publish_ack_image PublishAckReason_to_u8 example_ack) = 16"
  "varlen_spec 12 = [12]"
  by (simp_all add: example_ack_def valid_publish_ack_def valid_Pair_def valid_ByteString_def
      publish_ack_image_def ack_image_def length_props_image diag_image_def varlen_spec_1
      Bytes_encoded_size_def Pair_encoded_size_def ByteString_size)

lemma Codec_new_fields: "state Codec_new = FrameHeader" "max_in_size Codec_new = 0"
  "no_problem_info Codec_new = False" "Codec_max_size Codec_new = 268435455"
  by (simp_all add: Codec_new_def Codec_max_size_def MAX_PACKET_SIZE_def)

lemma can_send_example: "can_send Codec_new (PublishAck example_ack)"
  "sent_packet Codec_new (PublishAck example_ack) = PublishAck example_ack"
proof -
  show "sent_packet Codec_new (PublishAck example_ack) = PublishAck example_ack"
    using fit_packet_all [of "PublishAck example_ack" MAX_PACKET_SIZE]
    by (simp add: sent_packet_def Codec_new_fields MAX_PACKET_SIZE_def example_ack_facts)
  then show "can_send Codec_new (PublishAck example_ack)"
    by (simp add: can_send_def example_ack_facts Codec_new_fields)
qed

theorem v5_codec_roundtrip_witness:
  "fst (Codec_encode Codec_new (PublishAck example_ack) []) = Ok () \<and>
   Codec_decode Codec_new (snd (Codec_encode Codec_new (PublishAck example_ack) []) @ [1]) =
     (Ok (Some (PublishAck example_ack)), Codec_new, [1])"
  using v5_codec_roundtrip [OF can_send_example(1), of Codec_new "[1]"]
  by (simp add: can_send_example(2) Codec_new_fields)

text \<open>C8: However the bytes of a sequence of MQTT 5 packets are cut into chunks by the transport,
  feeding the chunks to a fresh decoder yields the packets that were meant to be sent, in order, with nothing left
  over. As for a single packet, the codec has to be able to send (\<open>can_send\<close>) every packet of the sequence: strings are
  UTF-8 and, like byte strings, at most 65535 bytes long; values of non-zero types are not 0; a publish has an identifier exactly
  if its QoS is not 0; a CONNECT without a client id asks for a clean start; the properties that the encoder does not write
  as the decoder reads them are absent, which are those of a will, the subscription identifiers of publishes and
  subscribes, and the user properties of subscribes and unsubscribes; and every packet is within the
  limits of the encoder and of the decoder.\<close>

theorem v5_stream_chunks:
  assumes "\<forall>p \<in> set ps. can_send enc p \<and>
      (m = 0 \<or> length (content (sent_packet enc p)) \<le> unat m)"
    and "concat chunks = snd (for_each ps (Codec_encode enc) [])"
  shows "feed decode_packet m (state Codec_new) [] chunks =
    (map (sent_packet enc) ps, Ok (), FrameHeader, [])"
proof -
  let ?img = "\<lambda>p. frame_bytes (header_byte p) (content p)"
  have "writes (for_each ps (Codec_encode enc)) (concat (map (\<lambda>p. ?img (sent_packet enc p)) ps))"
    using assms(1) by (auto intro!: writes_for_each v5_writes_Codec_encode)
  then have "concat chunks = concat (map ?img (map (sent_packet enc) ps))"
    using assms(2) by (simp add: writes_apply comp_def)
  moreover have "encodable p \<and> (m = 0 \<or> length (content p) \<le> unat m)"
    if "p \<in> set (map (sent_packet enc) ps)" for p
    using assms(1) that by (auto simp: encodable_sent)
  ultimately show ?thesis
    unfolding Codec_new_fields(1) by (intro v5.feed_stream)
qed

lemma can_send_ping: "can_send Codec_new PingRequest" "can_send Codec_new PingResponse"
  "sent_packet Codec_new PingRequest = PingRequest" "sent_packet Codec_new PingResponse = PingResponse"
  by (simp_all add: can_send_def sent_packet_def Codec_new_def)

theorem v5_stream_chunks_witness:
  "feed decode_packet 0 (state Codec_new) [] [[0xC0], [], [0x00, 0xD0], [0x00]] =
     ([PingRequest, PingResponse], Ok (), FrameHeader, [])"
  using v5_stream_chunks [of "[PingRequest, PingResponse]" Codec_new 0 "[[0xC0], [], [0x00, 0xD0], [0x00]]"]
  by (simp add: can_send_ping Codec_encode5_ok for_each_def steps.simps enc_seq_def put_def
      frame_bytes_Nil packet_type_defs)

text \<open>C10: Decoding MQTT 5 never panics and never loops, whatever bytes arrive and in whatever state the
  codec is.\<close>

theorem v5_decode_total: "returns (fst (Codec_decode c src))"
  using v5.frame_step_returns [of "max_in_size c" "state c" src]
  by (auto simp: Codec_decode_def Let_def split: prod.splits)

text \<open>C11: The inbound limit: a frame that announces more than the configured maximum is refused before
  any of it is taken from the buffer.\<close>

theorem v5_max_inbound:
  assumes "state c = FrameHeader" and "max_in_size c \<noteq> 0"
    and "n \<le> 268435455" and "unat (max_in_size c) < n"
  shows "Codec_decode c (b # varlen_spec n @ rest) =
    (Err MaxSizeExceeded, c, b # varlen_spec n @ rest)"
proof -
  have "max_in_size c < of_nat n"
    using assms(3,4) by (simp add: word_less_nat_alt unat_u32_of_nat)
  moreover have "\<not> length (b # varlen_spec n @ rest) < 2"
    by (cases "varlen_spec n") simp_all
  ultimately show ?thesis
    using assms(1-3) decode_variable_length_spec [of n rest]
    by (simp add: Codec_decode_def frame_step_simps decode_header_def)
qed

theorem v5_max_inbound_witness:
  "Codec_decode (Codec_max_inbound_size Codec_new 5) (0 # varlen_spec 9 @ []) =
   (Err MaxSizeExceeded, Codec_max_inbound_size Codec_new 5, 0 # varlen_spec 9 @ [])"
  by (rule v5_max_inbound) (simp_all add: Codec_max_inbound_size_def Codec_new_def)

text \<open>C12: The outbound limit: a packet whose content is larger than the limit even without its optional
  diagnostic properties is refused with an error and nothing is written. The packet is \<open>sendable\<close> (valid strings
  and non-zero values, and none of the properties that the encoder writes wrongly), smaller than 2^64 bytes, and the limit is
  at least 7 for acknowledgements of publishes, and two more than the number of its reason codes for a SUBACK: below that
  the computation of the size underflows.\<close>

theorem v5_max_outbound:
  assumes "sendable p" and "min_limit p \<le> unat (Codec_max_size c)"
    and "unat (Codec_max_size c) < length (content (sent_packet c p))"
    and "length (content (sent_packet c p)) < 2 ^ 64"
  shows "Codec_encode c p buf = (Err EncodeError.InvalidLength, buf)"
proof -
  let ?q = "if no_problem_info c then strip_problem_info p else p"
  have "Packet_encoded_size ?q (Codec_max_size c) = Ok (length (content (sent_packet c p)))"
    using assms sendable_strip by (simp add: packet_size sent_packet_def)
  then show ?thesis
    using assms(3) unfolding Codec_encode_def Let_def by (simp add: enc_fail_def)
qed

theorem v5_max_outbound_witness:
  "Codec_encode (Codec_set_max_outbound_size Codec_new 10)
     (Publish \<lparr>pub_dup = False, pub_retain = False, pub_qos = AtMostOnce, pub_packet_id = None,
        pub_topic = [0x61], pub_payload = replicate 20 0, pub_properties = PublishProperties_default\<rparr>) [] =
   (Err EncodeError.InvalidLength, [])"
  by (rule v5_max_outbound)
    (simp_all add: sent_packet_def Codec_set_max_outbound_size_def Codec_new_def Codec_max_size_def
      sendable_Publish_def PublishProperties_default_def valid_ByteString_def Publish_image_def
      publish_props_def Bytes_encoded_size_def)

text \<open>C13: An acknowledgement of a publish is always sent, however many user properties it has and however long its
  reason string is, as long as each of these strings is UTF-8 of at most 65535 bytes and the packet identifier is not 0:
  under every limit from 7 up to the maximum of the protocol, and whether or not the client asked for problem information, the
  encoder finds a form that fits, and a decoder without a limit reads it with the packet identifier and the reason code intact.\<close>

theorem v5_publish_ack_always_sent:
  assumes "valid_publish_ack a" and "7 \<le> unat (Codec_max_size c)"
    and "unat (Codec_max_size c) \<le> 268435455"
    and "state dec = FrameHeader" and "max_in_size dec = 0"
  shows "fst (Codec_encode c (PublishAck a) []) = Ok () \<and>
    (\<exists>ps r. fst (Codec_decode dec (snd (Codec_encode c (PublishAck a) []))) =
       Ok (Some (PublishAck (a\<lparr>pa_properties := ps, pa_reason_string := r\<rparr>))))"
proof -
  let ?m = "unat (Codec_max_size c)"
  define b where "b = (if no_problem_info c then a\<lparr>pa_properties := [], pa_reason_string := None\<rparr> else a)"
  obtain ps r where fit: "ack_fit (?m - 7) (pa_properties b) (pa_reason_string b) = (ps, r)" by fastforce
  then have sent: "sent_packet c (PublishAck a) =
      PublishAck (a\<lparr>pa_properties := ps, pa_reason_string := r\<rparr>)"
    by (simp add: sent_packet_def publish_ack_fit_def strip_problem_info_def b_def split: if_splits)
  have "length (ack_image ps r) + 3 \<le> ?m"
  proof (cases "?m - 7 < 4")
    case True
    then show ?thesis using fit assms(2) by (auto simp: ack_fit_def ack_image_def)
  next
    case False
    then have "length (diag_image ps r) \<le> ?m - 11"
      using fit fit_props_le [of "?m - 11" "pa_properties b" "pa_reason_string b"]
      by (simp add: ack_fit_def)
    moreover from this assms(3) have "length (varlen_spec (length (diag_image ps r))) \<le> 4"
      by (intro length_varlen_spec_le4) simp
    ultimately show ?thesis using False by (simp add: ack_image_def length_props_image)
  qed
  then have can: "can_send c (PublishAck a)"
    using assms by (simp add: can_send_def sent publish_ack_image_def)
  from v5.frame_step_image [OF encodable_sent [OF can], of 0 "[]"] show ?thesis
    using assms(4, 5) by (auto simp: Codec_encode5_ok [OF can] Codec_decode_frame sent)
qed

theorem v5_publish_ack_always_sent_witness:
  "fst (Codec_encode (Codec_set_max_outbound_size Codec_new 8) (PublishAck example_ack) []) = Ok () \<and>
   (\<exists>ps r. fst (Codec_decode Codec_new
        (snd (Codec_encode (Codec_set_max_outbound_size Codec_new 8) (PublishAck example_ack) []))) =
      Ok (Some (PublishAck (example_ack\<lparr>pa_properties := ps, pa_reason_string := r\<rparr>))))"
  by (rule v5_publish_ack_always_sent)
    (simp_all add: example_ack_facts Codec_set_max_outbound_size_def Codec_new_def Codec_max_size_def)

text \<open>Under an outbound limit below 7 the encoder of PUBACK subtracts beyond zero: with checked
  arithmetic it panics (without, the limit wraps around to a huge number).\<close>

theorem v5_small_limit_panics:
  assumes "unat (Codec_max_size c) < 7"
  shows "Codec_encode c (PublishAck a) buf = (Panic, buf)"
proof -
  have "publish_ack_encoded_size b (Codec_max_size c) = Panic" for b :: PublishAck
  proof (cases "HEADER_LEN \<le> Codec_max_size c")
    case True
    then have "unat (Codec_max_size c - HEADER_LEN) < 4"
      using assms by (simp add: unat_sub HEADER_LEN_def word_le_nat_alt)
    with True show ?thesis
      by (simp add: publish_ack_encoded_size_def checked_sub_def word_le_nat_alt not_le)
  qed (simp add: publish_ack_encoded_size_def checked_sub_def)
  then show ?thesis
    by (simp add: Codec_encode_def Let_def strip_problem_info_def PublishAck_encoded_size_def
        enc_val_def enc_fail_def)
qed

theorem v5_small_limit_panics_witness:
  "Codec_encode (Codec_max_outbound_size Codec_new 11) (PublishAck example_ack) [] = (Panic, [])"
  by (rule v5_small_limit_panics)
    (simp add: Codec_max_outbound_size_def Codec_new_def Codec_max_size_def)

text \<open>Request Problem Information: once the codec has decoded a CONNECT that declines problem
  information, the acknowledgements it sends carry neither user properties nor a reason string.\<close>

theorem v5_problem_info_stripped:
  assumes "Codec_decode c src = (Ok (Some (Connect pkt)), c', rest)"
    and "\<not> con_request_problem_info pkt"
    and "can_send c' (PublishAck a)" and "state dec = FrameHeader" and "max_in_size dec = 0"
  shows "fst (Codec_decode dec (snd (Codec_encode c' (PublishAck a) []))) =
    Ok (Some (PublishAck (a\<lparr>pa_properties := [], pa_reason_string := None\<rparr>)))"
proof -
  have "no_problem_info c'"
    using assms(1, 2) by (auto simp: Codec_decode_def Let_def split: prod.splits)
  then have sent: "sent_packet c' (PublishAck a) =
      PublishAck (a\<lparr>pa_properties := [], pa_reason_string := None\<rparr>)"
    by (simp add: sent_packet_def strip_problem_info_def publish_ack_fit_def ack_fit_def)
  from v5.frame_step_image [OF encodable_sent [OF assms(3)], of 0 "[]"] show ?thesis
    using assms(4, 5) by (simp add: Codec_encode5_ok [OF assms(3)] Codec_decode_frame sent)
qed

definition example_connect5 :: Connect where
  "example_connect5 =
    Connect_default\<lparr>con_client_id := [0x64, 0x31], con_request_problem_info := False\<rparr>"

lemma example_connect5_facts:
  "sendable_Connect example_connect5" "length (Connect_image example_connect5) = 17"
  by (simp_all add: example_connect5_def Connect_default_def sendable_Connect_def
      valid_ByteString_def Connect_image_def length_props_image connect_props_def
      unless_default_def Bytes_encoded_size_def MQTT_def bool_encoded_size_def varlen_spec_1)

theorem v5_problem_info_stripped_witness:
  "fst (Codec_decode Codec_new
     (snd (Codec_encode (Codec_new\<lparr>no_problem_info := True\<rparr>) (PublishAck example_ack) []))) =
   Ok (Some (PublishAck (example_ack\<lparr>pa_properties := [], pa_reason_string := None\<rparr>)))"
proof (rule v5_problem_info_stripped)
  have "encodable (Connect example_connect5)"
    by (simp add: encodable_def example_connect5_facts)
  from v5.frame_step_image [OF this, of 0 "[]"]
  show "Codec_decode Codec_new
      (frame_bytes CONNECT (Connect_image example_connect5)) =
      (Ok (Some (Connect example_connect5)), Codec_new\<lparr>no_problem_info := True\<rparr>, [])"
    by (simp add: Codec_decode_frame Codec_new_fields example_connect5_def)
  show "\<not> con_request_problem_info example_connect5" by (simp add: example_connect5_def)
  show "can_send (Codec_new\<lparr>no_problem_info := True\<rparr>) (PublishAck example_ack)"
    by (simp add: can_send_def sent_packet_def strip_problem_info_def publish_ack_fit_def ack_fit_def
        Codec_new_def Codec_max_size_def MAX_PACKET_SIZE_def example_ack_facts
        publish_ack_image_def ack_image_def)
qed (simp_all add: Codec_new_fields)

end
