(* ===== verification/V5_Defects.thy ===== *)
theory V5_Defects
  imports V5_Codec
begin

text \<open>
  MQTT 5 packets that the encoder does not write in the form that the standard and the decoder of the
  same library expect.  Each case is a packet that its type allows but \<open>sendable\<close> excludes.
\<close>

lemma frame_step_header:
  assumes "n \<le> 268435455"
  shows "frame_step d 0 FrameHeader (b # varlen_spec n @ body) =
    decode_frame d \<lparr>first_byte = b, remaining_length = of_nat n\<rparr> body"
proof -
  have "\<not> length (b # varlen_spec n @ body) < 2" by (cases "varlen_spec n") simp_all
  then show ?thesis
    using decode_header_complete [of "b # varlen_spec n @ body" "of_nat n" "length (varlen_spec n)" 0 d]
      decode_variable_length_spec [OF assms, of body] by (simp add: frame_step_simps)
qed

section \<open>SUBSCRIBE with a subscription identifier\<close>

lemma varlen_cursor_Nil: "decode_variable_length_cursor [] = Err DecodeError.MalformedPacket"
  by (simp add: decode_variable_length_cursor_def)

lemma Subscribe_size_small_id:
  assumes "sub_id s = Some v" "unat v < 128" "sub_user_properties s = []"
  shows "Subscribe_encoded_size s limit =
    Ok (4 + length (concat (map filter_image (sub_topic_filters s))))"
proof -
  have "var_int_len (unat v) = (Ok 1 :: (EncodeError, nat) outcome)"
    "var_int_len 1 = (Ok 1 :: (EncodeError, nat) outcome)"
    using var_int_len_eq [of "unat v"] var_int_len_eq [of 1] assms(2) by (simp_all add: varlen_spec_1)
  then show ?thesis
    using assms unfolding Subscribe_encoded_size_def
    by (simp add: UserProperties_encoded_size_image Let_def fold_filters [simplified]
        NonZeroU16_encoded_size_def)
qed

lemma Subscribe_decode_small_id:
  assumes "pid \<noteq> 0"
  shows "Subscribe_decode (u16_be pid @ [1, pt_SUB_ID] @ xs) = Err DecodeError.MalformedPacket"
proof -
  have "take_properties (1 # pt_SUB_ID # xs) = Ok ([pt_SUB_ID], xs)"
    using take_properties_spec [of "[pt_SUB_ID]" xs] by (simp add: varlen_spec_1)
  moreover have "read_properties subscribe_arms s [pt_SUB_ID] = Err DecodeError.MalformedPacket"
    if "sp_sub_id s = None" for s
    using that while_remaining_unfold [where body = "property_body subscribe_arms",
        OF subscribe.body_consuming, of "[pt_SUB_ID]" s]
    by (simp add: read_properties_def property_body_def subscribe_arms_def read_sub_id_def
        varlen_cursor_Nil)
  ultimately show ?thesis
    using assms by (simp add: Subscribe_decode_def NonZeroU16.decode_image decode_properties_def)
qed

text \<open>A SUBSCRIBE with a subscription identifier below 128 and any topic filters is encoded without
  an error into a frame that the decoder refuses: the announced property length covers the property
  identifier but not the four bytes of the value that follow, and the frame is announced four bytes too
  short.\<close>

theorem v5_subscribe_id_rejected:
  assumes "sub_packet_id s \<noteq> 0" and "sub_id s = Some v" and "v \<noteq> 0" and "unat v < 128"
    and "sub_user_properties s = []" and "list_all (\<lambda>f. valid_ByteString (fst f)) (sub_topic_filters s)"
    and "length (concat (map filter_image (sub_topic_filters s))) \<le> 1000000"
  shows "fst (Codec_encode Codec_new (Subscribe s) []) = Ok () \<and>
    fst (Codec_decode Codec_new (snd (Codec_encode Codec_new (Subscribe s) []))) =
      Err DecodeError.MalformedPacket"
proof -
  let ?fs = "concat (map filter_image (sub_topic_filters s))"
  let ?n = "4 + length ?fs"
  let ?body = "u16_be (sub_packet_id s) @ [1] @ (pt_SUB_ID # u32_be v) @ ?fs"
  have len: "\<not> ?n > unat (Codec_max_size Codec_new)" "?n \<le> 268435455"
    using assms(7) by (simp_all add: Codec_new_fields)
  have "writes (steps [put [SUBSCRIBE], write_variable_length (of_nat ?n),
      Subscribe_encode s (of_nat ?n)]) ([SUBSCRIBE] @ varlen_spec ?n @ ?body @ [])"
    using len assms
    by (intro writes_steps_Cons writes_steps_Nil writes_put writes_varlen_nat Subscribe_encode_small_id)
  moreover have "Codec_encode Codec_new (Subscribe s) =
      steps [put [SUBSCRIBE], write_variable_length (of_nat ?n), Subscribe_encode s (of_nat ?n)]"
    unfolding Codec_encode_def Let_def Codec_new_fields(3) if_False Packet_encoded_size.simps
      Subscribe_size_small_id [OF assms(2, 4, 5)] enc_val_Ok if_not_P [OF len(1)]
      Packet_encode.simps ..
  ultimately have enc: "Codec_encode Codec_new (Subscribe s) [] =
      (Ok (), SUBSCRIBE # varlen_spec ?n @ ?body)"
    by (simp add: writes_def)
  have take: "take ?n ?body = u16_be (sub_packet_id s) @ [1, pt_SUB_ID] @ take (length ?fs) (u32_be v @ ?fs)"
    by simp
  have dec: "decode_packet (take ?n ?body) SUBSCRIBE = Err DecodeError.MalformedPacket"
    unfolding take decode_packet_def using Subscribe_decode_small_id [OF assms(1)]
    by (simp add: packet_type_defs map_ok_def)
  have "decode_frame decode_packet \<lparr>first_byte = SUBSCRIBE, remaining_length = of_nat ?n\<rparr> ?body =
      (Err DecodeError.MalformedPacket,
       Frame \<lparr>first_byte = SUBSCRIBE, remaining_length = of_nat ?n\<rparr>, drop ?n ?body)"
    using len(2) by (simp only: decode_frame_def Let_def FixedHeader.simps unat_u32_of_nat dec
        outcome.case) (simp add: unat_u32_of_nat del: of_nat_add)
  then show ?thesis
    using len(2) by (simp only: enc Codec_decode_def Codec_new_fields snd_conv fst_conv
        frame_step_header) simp
qed

definition example_subscribe :: Subscribe where
  "example_subscribe = \<lparr>sub_packet_id = 1, sub_id = Some 5, sub_user_properties = [],
    sub_topic_filters = [([0x61], \<lparr>so_qos = AtLeastOnce, so_no_local = False,
      so_retain_as_published = False, so_retain_handling = AtSubscribe\<rparr>)]\<rparr>"

theorem v5_subscribe_id_rejected_witness:
  "fst (Codec_encode Codec_new (Subscribe example_subscribe) []) = Ok () \<and>
   fst (Codec_decode Codec_new (snd (Codec_encode Codec_new (Subscribe example_subscribe) []))) =
     Err DecodeError.MalformedPacket"
  by (rule v5_subscribe_id_rejected [where v = 5])
    (simp_all add: example_subscribe_def valid_ByteString_def filter_image_def Bytes_encoded_size_def)

section \<open>UNSUBSCRIBE with user properties\<close>

text \<open>An UNSUBSCRIBE with user properties is encoded without an error, but the frame announces the
  user properties and does not contain them: a decoder that got the whole frame still waits for more
  bytes, and will take them from the next packet.\<close>

theorem v5_unsubscribe_user_properties_stall:
  assumes "un_packet_id u \<noteq> 0" and "un_user_properties u \<noteq> []"
    and "list_all valid_ByteString (un_topic_filters u)"
    and "Unsubscribe_encoded_size u limit = Ok n" and "n \<le> 268435455"
  shows "fst (Codec_encode Codec_new (Unsubscribe u) []) = Ok () \<and>
    fst (Codec_decode Codec_new (snd (Codec_encode Codec_new (Unsubscribe u) []))) = Ok None"
proof -
  let ?ups = "user_image (un_user_properties u)"
  let ?fs = "concat (map Bytes_image (un_topic_filters u))"
  let ?body = "u16_be (un_packet_id u) @ varlen_spec (length ?ups) @ ?fs"
  have size: "Unsubscribe_encoded_size u l = Ok n" for l
    using assms(4) unfolding Unsubscribe_encoded_size_def .
  obtain k where k: "var_int_len (length ?ups) = (Ok k :: (EncodeError, nat) outcome)"
    and n: "n = 2 + k + length ?ups + length ?fs"
    using assms(4) unfolding Unsubscribe_encoded_size_def Let_def UserProperties_encoded_size_image
    by (auto simp: fold_unsub_filters [simplified])
  have "length ?ups \<le> 268435455" using n assms(5) by simp
  then have "var_int_len (length ?ups) =
      (Ok (length (varlen_spec (length ?ups))) :: (EncodeError, nat) outcome)"
    by (intro var_int_len_eq) simp
  then have kv: "k = length (varlen_spec (length ?ups))" using k by simp
  have "length ?ups > 0" using assms(2) by (cases "un_user_properties u") simp_all
  then have short: "length ?body < n" using n kv by simp
  have len: "\<not> n > unat (Codec_max_size Codec_new)" using assms(5) by (simp add: Codec_new_fields)
  have "writes (Unsubscribe_encode u (of_nat n)) (u16_be (un_packet_id u) @ varlen_spec (length ?ups) @ ?fs @ [])"
    unfolding Unsubscribe_encode_def UserProperties_encoded_size_image
    using assms(1, 3) \<open>length ?ups \<le> 268435455\<close>
    by (intro writes_intro) (auto simp: list_all_iff)
  then have "writes (steps [put [UNSUBSCRIBE], write_variable_length (of_nat n),
      Unsubscribe_encode u (of_nat n)]) ([UNSUBSCRIBE] @ varlen_spec n @ ?body @ [])"
    using assms(5) by (intro writes_steps_Cons writes_steps_Nil writes_put writes_varlen_nat) simp_all
  moreover have "Codec_encode Codec_new (Unsubscribe u) =
      steps [put [UNSUBSCRIBE], write_variable_length (of_nat n), Unsubscribe_encode u (of_nat n)]"
    unfolding Codec_encode_def Let_def Codec_new_fields(3) if_False Packet_encoded_size.simps
      size enc_val_Ok if_not_P [OF len] Packet_encode.simps ..
  ultimately have enc: "Codec_encode Codec_new (Unsubscribe u) [] =
      (Ok (), UNSUBSCRIBE # varlen_spec n @ ?body)"
    by (simp add: writes_def)
  have "decode_frame decode_packet \<lparr>first_byte = UNSUBSCRIBE, remaining_length = of_nat n\<rparr> ?body =
      (Ok None, Frame \<lparr>first_byte = UNSUBSCRIBE, remaining_length = of_nat n\<rparr>, ?body)"
    using assms(5) short by (simp add: decode_frame_def Let_def unat_u32_of_nat)
  then show ?thesis
    using assms(5) by (simp only: enc Codec_decode_def Codec_new_fields snd_conv fst_conv
        frame_step_header) simp
qed

definition example_unsubscribe :: Unsubscribe where
  "example_unsubscribe = \<lparr>un_packet_id = 1, un_user_properties = [([0x6B], [0x76])],
    un_topic_filters = [[0x61]]\<rparr>"

theorem v5_unsubscribe_user_properties_stall_witness:
  "fst (Codec_encode Codec_new (Unsubscribe example_unsubscribe) []) = Ok () \<and>
   fst (Codec_decode Codec_new (snd (Codec_encode Codec_new (Unsubscribe example_unsubscribe) []))) =
     Ok None"
proof (rule v5_unsubscribe_user_properties_stall)
  show "Unsubscribe_encoded_size example_unsubscribe 0 = Ok 13"
    using var_int_len_eq [of 7]
    by (simp add: Unsubscribe_encoded_size_def example_unsubscribe_def Let_def varlen_spec_1
        UserProperties_encoded_size_image Pair_encoded_size_def ByteString_size)
qed (simp_all add: example_unsubscribe_def valid_ByteString_def)

section \<open>CONNECT with properties of the will\<close>

definition example_will :: LastWill where
  "example_will = \<lparr>will_qos = AtMostOnce, will_retain = False, will_topic = [0x61], will_message = [],
    will_will_delay_interval_sec = Some 5, will_correlation_data = None,
    will_message_expiry_interval = None, will_content_type = None, will_user_properties = [],
    will_is_utf8_payload = None, will_response_topic = None\<rparr>"

definition example_will_connect :: Connect where
  "example_will_connect = Connect_default\<lparr>con_client_id := [0x61], con_last_will := Some example_will\<rparr>"

lemmas encode_eval = steps.simps enc_seq_def put_def with_written_def with_len_def encode_property_def
  encode_opt_def encode_bool_property_def UserProperties_encode_def for_each_def
  write_variable_length_put ByteString_encode_def Slice_Bytes Bytes_encode_def u16_encode_def
  u32_encode_def NonZeroU16_encode_def NonZeroU32_encode_def varlen_spec_1 u16_be_def u32_be_def

text \<open>A CONNECT whose will has a property: the length of the will's properties is written but not
  the properties, so the frame of 20 bytes announces 25 and the decoder keeps waiting.\<close>

theorem v5_will_properties_stall:
  "fst (Codec_encode Codec_new (Connect example_will_connect) []) = Ok () \<and>
   fst (Codec_decode Codec_new (snd (Codec_encode Codec_new (Connect example_will_connect) []))) = Ok None"
proof -
  have lens: "Connect_properties_len example_will_connect = 0" "LastWill_properties_len example_will = 5"
    by (simp_all add: example_will_connect_def example_will_def Connect_default_def
        Connect_properties_len_image connect_props_def unless_default_def LastWill_properties_len_def
        encoded_property_size_def u32_encoded_size_def UserProperties_encoded_size_image)
  have var: "var_int_len 0 = (Ok 1 :: (EncodeError, nat) outcome)"
    "var_int_len 5 = (Ok 1 :: (EncodeError, nat) outcome)"
    using var_int_len_eq [of 0] var_int_len_eq [of 5] by (simp_all add: varlen_spec_1)
  have will: "con_last_will example_will_connect = Some example_will"
    by (simp add: example_will_connect_def)
  have size: "Connect_encoded_size example_will_connect l = Ok 25" for l
    unfolding Connect_encoded_size_def lens Let_def var and_then_simps will option.case
    by (simp add: example_will_connect_def example_will_def Connect_default_def ByteString_size
        Bytes_encoded_size_def)
  have enc: "Codec_encode Codec_new (Connect example_will_connect) [] =
      (Ok (), 16 # varlen_spec 25 @ [0, 4, 77, 81, 84, 84, 5, 4, 0, 0, 0, 0, 1, 97, 5, 0, 1, 97, 0, 0])"
    by (simp only: Codec_encode_def Codec_new_fields Let_def if_False Packet_encoded_size.simps size
        enc_val_Ok Packet_encode.simps Connect_encode_def lens)
      (simp add: example_will_connect_def example_will_def Connect_default_def encode_eval
        connect_flags_def connect_flag_defs MQTT_def packet_type_defs MQTT_LEVEL_5_def
        WILL_QOS_SHIFT_def LastWill_properties_len_def encoded_property_size_def
        u32_encoded_size_def UserProperties_encoded_size_image)
  have "decode_frame decode_packet \<lparr>first_byte = 16, remaining_length = of_nat 25\<rparr>
      [0, 4, 77, 81, 84, 84, 5, 4, 0, 0, 0, 0, 1, 97, 5, 0, 1, 97, 0, 0] =
      (Ok None, Frame \<lparr>first_byte = 16, remaining_length = of_nat 25\<rparr>,
       [0, 4, 77, 81, 84, 84, 5, 4, 0, 0, 0, 0, 1, 97, 5, 0, 1, 97, 0, 0])"
    by (simp add: decode_frame_def)
  then show ?thesis
    by (simp only: enc Codec_decode_def Codec_new_fields snd_conv fst_conv frame_step_header) simp
qed

section \<open>PUBLISH with subscription identifiers\<close>

definition example_publish_ids :: Publish where
  "example_publish_ids = \<lparr>pub_dup = False, pub_retain = False, pub_qos = AtMostOnce,
    pub_packet_id = None, pub_topic = [0x61], pub_payload = [1, 2],
    pub_properties = PublishProperties_default\<lparr>pp_subscription_ids := Some [5]\<rparr>\<rparr>"

text \<open>A PUBLISH with a subscription identifier: its value is written in four bytes but announced as
  a variable length integer of one byte, so the frame is announced three bytes too short and the decoder
  refuses it.\<close>

theorem v5_publish_subscription_id_rejected:
  "fst (Codec_encode Codec_new (Publish example_publish_ids) []) = Ok () \<and>
   fst (Codec_decode Codec_new (snd (Codec_encode Codec_new (Publish example_publish_ids) []))) =
     Err DecodeError.MalformedPacket"
proof -
  let ?body = "[0, 1, 97, 2, 11, 0, 0, 0, 5, 1, 2] :: bytes"
  have var: "var_int_len 5 = (Ok 1 :: (EncodeError, nat) outcome)"
    "var_int_len 2 = (Ok 1 :: (EncodeError, nat) outcome)"
    "var_int_len_from_size 3 = (Ok 2 :: (EncodeError, u32) outcome)"
    using var_int_len_eq [of 5] var_int_len_eq [of 2] var_int_len_from_size_eq [of 2]
    by (simp_all add: varlen_spec_1)
  have two: "var_int_len (Suc (Suc 0)) = (Ok 1 :: (EncodeError, nat) outcome)"
    using var(2) by (simp add: numeral_2_eq_2)
  have size: "Publish_encoded_size example_publish_ids l = Ok 8" for l
    by (simp add: Publish_encoded_size_def PublishProperties_encoded_size_def example_publish_ids_def
        PublishProperties_default_def subscription_ids_size_def var two encoded_property_size_def
        UserProperties_encoded_size_image ByteString_size Let_def)
  have enc: "Codec_encode Codec_new (Publish example_publish_ids) [] = (Ok (), 48 # varlen_spec 8 @ ?body)"
    by (simp only: Codec_encode_def Codec_new_fields Let_def if_False Packet_encoded_size.simps size
        enc_val_Ok Packet_encode.simps Publish_encode_def)
      (simp add: example_publish_ids_def PublishProperties_default_def PublishProperties_encode_def
        encode_eval publish_first_byte_def packet_type_defs checked_sub_def var property_type_defs)
  have topic: "ByteString_decode [0, 1, 97, 2, 11, 0, 0, 0] = Ok ([97], [2, 11, 0, 0, 0])"
    using ByteString.decode_image [of "[97]" "[2, 11, 0, 0, 0]"]
    by (simp add: valid_ByteString_def Bytes_image_def u16_be_def)
  have props: "take_properties [2, 11, 0, 0, 0] = Ok ([11, 0], [0, 0])"
    using take_properties_spec [of "[11, 0]" "[0, 0]"] by (simp add: varlen_spec_1)
  have zero: "decode_variable_length_cursor [0] = Ok (0, [])"
    using decode_cursor_spec [of 0 "[]"] by (simp add: varlen_spec_1)
  have "read_properties publish_arms PublishProperties_default [11, 0] = Err DecodeError.MalformedPacket"
    using while_remaining_unfold [where body = "property_body publish_arms",
        OF publish.body_consuming, of "[11, 0]" PublishProperties_default]
    by (simp add: read_properties_def property_body_def publish_arms_def read_subscription_id_def zero
        property_type_defs)
  then have dec: "decode_packet [0, 1, 97, 2, 11, 0, 0, 0] 48 = Err DecodeError.MalformedPacket"
    by (simp add: decode_packet_def packet_type_defs map_ok_def Publish_decode_def topic
        QoS_try_from_def try_from_u8_def QoS_variants_def decode_if_def parse_publish_properties_def
        decode_properties_def props)
  have "decode_frame decode_packet \<lparr>first_byte = 48, remaining_length = of_nat 8\<rparr> ?body =
      (Err DecodeError.MalformedPacket, Frame \<lparr>first_byte = 48, remaining_length = of_nat 8\<rparr>, [5, 1, 2])"
    by (simp add: decode_frame_def dec)
  then show ?thesis
    by (simp only: enc Codec_decode_def Codec_new_fields snd_conv fst_conv frame_step_header) simp
qed

end
