(* ===== verification/Errors.thy ===== *)
theory Errors
  imports Types
begin

text \<open>
  The connection level errors of \<^verbatim>\<open>src/error.rs\<close> with their conversions. The payload of an input or
  output error is a value of the operating system that the crate only passes on: an opaque type.
\<close>

typedecl io_error

datatype ProtocolError =
    Decode DecodeError
  | Encode EncodeError
  | Unexpected u8 string
  | PacketIdMismatch
  | MaxTopicAlias
  | ReceiveMaximumExceeded
  | UnknownTopicAlias
  | KeepAliveTimeout
  | Io io_error

datatype 'e MqttError =
    Service 'e
  | Protocol ProtocolError
  | HandshakeTimeout
  | Disconnected
  | ServerError string

datatype SendPacketError = Encode EncodeError | PacketIdInUse u16 | Disconnected

text \<open>The \<^verbatim>\<open>From\<close> instances: \<^verbatim>\<open>Either<DecodeError, io::Error>\<close> is a sum.\<close>

definition MqttError_from_protocol :: "ProtocolError \<Rightarrow> 'e MqttError" where
  "MqttError_from_protocol err = Protocol err"

definition MqttError_from_decode :: "DecodeError + io_error \<Rightarrow> 'e MqttError" where
  "MqttError_from_decode err =
    (case err of Inl err \<Rightarrow> Protocol (Decode err) | Inr err \<Rightarrow> Protocol (Io err))"

definition MqttError_from_encode :: "EncodeError + io_error \<Rightarrow> 'e MqttError" where
  "MqttError_from_encode err =
    (case err of Inl err \<Rightarrow> Protocol (ProtocolError.Encode err) | Inr err \<Rightarrow> Protocol (Io err))"

definition ProtocolError_from_decode :: "DecodeError + io_error \<Rightarrow> ProtocolError" where
  "ProtocolError_from_decode err = (case err of Inl err \<Rightarrow> Decode err | Inr err \<Rightarrow> Io err)"

lemma MqttError_from_decode_protocol:
  "MqttError_from_decode err = MqttError_from_protocol (ProtocolError_from_decode err)"
  by (simp add: MqttError_from_decode_def MqttError_from_protocol_def ProtocolError_from_decode_def
      split: sum.split)

end
