(* ===== verification/Sink.thy ===== *)
theory Sink
  imports Errors Utils "HOL-Library.Mapping" "HOL-Library.AList_Mapping" "HOL-Library.Sublist"
begin

text \<open>
  What the two sinks (\<^verbatim>\<open>v3/shared.rs\<close>, \<^verbatim>\<open>v5/shared.rs\<close> and the \<^verbatim>\<open>sink.rs\<close> beside them) share: the
  queues of packets in flight and of senders that wait for credit, their operations, and the contract
  \<open>ack_queue\<close> of a first-in-first-out acknowledgement queue.

  The framed transport \<^verbatim>\<open>ntex::framed::State\<close> is a parameter: a record \<open>io_ops\<close> of the operations that
  the sinks call on it.  The one-shot channels of \<^verbatim>\<open>ntex::channel::pool\<close> are tokens: an operation that
  creates a channel takes the token of the new channel, whether a receiver still exists is the argument
  \<open>alive\<close>, and what happens to the sending ends is recorded in \<open>events\<close> in order. An asynchronous
  function is cut at its \<^verbatim>\<open>await\<close> points: the start returns what it waits for, and a second function
  takes what the channel delivered.
\<close>

section \<open>State\<close>

record ('io, 'pkt) io_ops =
  io_is_open :: "'io \<Rightarrow> bool"
  io_close :: "'io \<Rightarrow> 'io"
  io_force_close :: "'io \<Rightarrow> 'io"
  io_encode :: "('pkt \<Rightarrow> EncodeError encoder) \<Rightarrow> 'pkt \<Rightarrow> 'io \<Rightarrow> (EncodeError, bool) outcome \<times> 'io"

text \<open>What the sinks rely on: a connection that is closed stays closed.\<close>

definition io_closes :: "('io, 'pkt) io_ops \<Rightarrow> bool" where
  "io_closes ops \<longleftrightarrow> (\<forall>s. \<not> io_is_open ops (io_close ops s) \<and> \<not> io_is_open ops (io_force_close ops s)) \<and>
    (\<forall>s enc pkt. \<not> io_is_open ops s \<longrightarrow> \<not> io_is_open ops (snd (io_encode ops enc pkt s)))"

datatype ('tx, 'ack) chan_event =
    Delivered 'tx 'ack
  | Woken 'tx
  | Dropped "'tx set"

record ('tx, 'tp) MqttSharedQueues =
  inflight :: "(u16, 'tx \<times> 'tp) mapping"
  inflight_order :: "u16 list"
  waiters :: "'tx list"

record ('tx, 'tp, 'io, 'codec, 'ack) MqttShared =
  cap :: nat
  queues :: "('tx, 'tp) MqttSharedQueues"
  borrowed :: bool
  inflight_idx :: u16
  sh_state :: 'io
  sh_codec :: 'codec
  events :: "('tx, 'ack) chan_event list"

type_synonym ('s, 'e, 'a) action = "'s \<Rightarrow> ('e, 'a) outcome \<times> 's"

text \<open>What a sender waits for: credit, with the request that it sends once it is woken, or the
  acknowledgement of the packet it has sent.\<close>

datatype ('tx, 'req) pending = AwaitCredit 'tx 'req | AwaitAck 'tx

text \<open>The \<^verbatim>\<open>?\<close> operator on actions.\<close>

definition act_then :: "('s, 'e, 'a) action \<Rightarrow> ('a \<Rightarrow> ('s, 'e, 'b) action) \<Rightarrow> ('s, 'e, 'b) action" where
  "act_then m k s =
    (case m s of
       (Ok x, s') \<Rightarrow> k x s' | (Err e, s') \<Rightarrow> (Err e, s') | (Panic, s') \<Rightarrow> (Panic, s') | (Diverge, s') \<Rightarrow> (Diverge, s'))"

section \<open>Operations\<close>

definition MqttShared_new :: "'io \<Rightarrow> 'codec \<Rightarrow> nat \<Rightarrow> ('tx, 'tp, 'io, 'codec, 'ack) MqttShared" where
  "MqttShared_new st codec n =
    \<lparr>cap = n,
     queues = \<lparr>inflight = Mapping.empty, inflight_order = [], waiters = []\<rparr>,
     borrowed = False, inflight_idx = 0, sh_state = st, sh_codec = codec, events = []\<rparr>"

text \<open>\<^verbatim>\<open>RefCell::borrow_mut\<close> panics if the cell is already borrowed.\<close>

definition with_queues ::
  "(('tx, 'tp, 'io, 'codec, 'ack) MqttShared, 'e, 'a) action \<Rightarrow>
   (('tx, 'tp, 'io, 'codec, 'ack) MqttShared, 'e, 'a) action" where
  "with_queues f sh =
    (if borrowed sh then (Panic, sh)
     else case f (sh\<lparr>borrowed := True\<rparr>) of (r, sh') \<Rightarrow> (r, sh'\<lparr>borrowed := False\<rparr>))"

definition has_credit :: "('tx, 'tp, 'io, 'codec, 'ack) MqttShared \<Rightarrow> ('e, bool) outcome" where
  "has_credit sh =
    (if borrowed sh then Panic
     else let n = Mapping.size (inflight (queues sh)) in
       if n \<le> cap sh then Ok (cap sh - n > 0) else Panic)"

definition credit :: "('tx, 'tp, 'io, 'codec, 'ack) MqttShared \<Rightarrow> ('e, nat) outcome" where
  "credit sh =
    (if borrowed sh then Panic
     else let n = Mapping.size (inflight (queues sh)) in if n \<le> cap sh then Ok (cap sh - n) else Panic)"

definition push_waiter ::
  "'tx \<Rightarrow> (('tx, 'tp, 'io, 'codec, 'ack) MqttShared, 'e, unit) action" where
  "push_waiter tx = with_queues (\<lambda>sh.
     (Ok (), sh\<lparr>queues := (queues sh)\<lparr>waiters := waiters (queues sh) @ [tx]\<rparr>\<rparr>))"

text \<open>The notification of \<^verbatim>\<open>MqttSink::ready\<close>: the result is \<^verbatim>\<open>None\<close> for a future that is ready with
  \<^verbatim>\<open>true\<close>.\<close>

definition ready ::
  "('io, 'pkt) io_ops \<Rightarrow> 'tx \<Rightarrow>
   (('tx, 'tp, 'io, 'codec, 'ack) MqttShared, 'e, bool + 'tx) action" where
  "ready ops tx sh =
    (if io_is_open ops (sh_state sh)
     then with_queues (\<lambda>sh.
       if Mapping.size (inflight (queues sh)) \<ge> cap sh
       then act_then (with_queues (\<lambda>sh.
              (Ok (), sh\<lparr>queues := (queues sh)\<lparr>waiters := waiters (queues sh) @ [tx]\<rparr>\<rparr>)))
            (\<lambda>_ sh. (Ok (Inr tx), sh)) sh
       else (Ok (Inl True), sh)) sh
     else (Ok (Inl False), sh))"

text \<open>The allocation of a packet identifier, which every sender does under \<^verbatim>\<open>with_queues\<close>.\<close>

definition allocate ::
  "(u16 \<Rightarrow> 'e) \<Rightarrow> u16 \<Rightarrow> 'tp \<Rightarrow> 'tx \<Rightarrow> (('tx, 'tp, 'io, 'codec, 'ack) MqttShared, 'e, unit) action" where
  "allocate in_use idx tp tx sh =
    (if idx \<in> Mapping.keys (inflight (queues sh)) then (Err (in_use idx), sh)
     else (Ok (), sh\<lparr>queues := (queues sh)\<lparr>
       inflight := Mapping.update idx (tx, tp) (inflight (queues sh)),
       inflight_order := inflight_order (queues sh) @ [idx]\<rparr>\<rparr>))"

text \<open>Clearing the maps drops the sending ends in them.\<close>

definition holders :: "('tx, 'tp) MqttSharedQueues \<Rightarrow> 'tx set" where
  "holders q = (\<lambda>k. fst (the (Mapping.lookup (inflight q) k))) ` Mapping.keys (inflight q) \<union> set (waiters q)"

definition clear_queues :: "(('tx, 'tp, 'io, 'codec, 'ack) MqttShared, 'e, unit) action" where
  "clear_queues = with_queues (\<lambda>sh.
     (Ok (), sh\<lparr>queues := (queues sh)\<lparr>inflight := Mapping.empty, waiters := []\<rparr>,
        events := events sh @ [Dropped (holders (queues sh))]\<rparr>))"

text \<open>Waking the first waiter whose receiver still exists.\<close>

fun wake_waiters :: "('tx \<Rightarrow> bool) \<Rightarrow> 'tx list \<Rightarrow> 'tx option \<times> 'tx list" where
  "wake_waiters alive [] = (None, [])"
| "wake_waiters alive (tx # ws) = (if alive tx then (Some tx, ws) else wake_waiters alive ws)"

definition wake_waiter ::
  "('tx \<Rightarrow> bool) \<Rightarrow> ('tx, 'tp, 'io, 'codec, 'ack) MqttShared \<Rightarrow> ('tx, 'tp, 'io, 'codec, 'ack) MqttShared" where
  "wake_waiter alive sh =
    (case wake_waiters alive (waiters (queues sh)) of (w, ws) \<Rightarrow>
       sh\<lparr>queues := (queues sh)\<lparr>waiters := ws\<rparr>,
          events := events sh @ (case w of None \<Rightarrow> [] | Some tx \<Rightarrow> [Woken tx])\<rparr>)"

text \<open>\<^verbatim>\<open>shared.state.write().encode(pkt, &shared.codec)\<close>\<close>

definition write_packet ::
  "('io, 'pkt) io_ops \<Rightarrow> ('codec \<Rightarrow> 'pkt \<Rightarrow> EncodeError encoder) \<Rightarrow> 'pkt \<Rightarrow>
   (('tx, 'tp, 'io, 'codec, 'ack) MqttShared, EncodeError, bool) action" where
  "write_packet ops encode pkt sh =
    (case io_encode ops (encode (sh_codec sh)) pkt (sh_state sh) of
       (r, st) \<Rightarrow> (r, sh\<lparr>sh_state := st\<rparr>))"

text \<open>The start of every sender: without credit it queues up, otherwise it goes on.\<close>

definition await_credit ::
  "('io, 'pkt) io_ops \<Rightarrow> 'e \<Rightarrow> 'tx \<Rightarrow> 'req \<Rightarrow>
   (('tx, 'tp, 'io, 'codec, 'ack) MqttShared, 'e, ('tx, 'req) pending) action \<Rightarrow>
   (('tx, 'tp, 'io, 'codec, 'ack) MqttShared, 'e, ('tx, 'req) pending) action" where
  "await_credit ops disconnected wtx req k sh =
    (if io_is_open ops (sh_state sh)
     then act_then (\<lambda>sh. (has_credit sh, sh)) (\<lambda>has_credit.
            if \<not> has_credit
            then act_then (push_waiter wtx) (\<lambda>_ sh. (Ok (AwaitCredit wtx req), sh))
            else k) sh
     else (Err disconnected, sh))"

text \<open>The end of every sender: the packet is written and the future waits for the acknowledgement.\<close>

definition send_and_wait ::
  "('io, 'pkt) io_ops \<Rightarrow> ('codec \<Rightarrow> 'pkt \<Rightarrow> EncodeError encoder) \<Rightarrow> (EncodeError \<Rightarrow> 'e) \<Rightarrow> 'pkt \<Rightarrow> 'tx \<Rightarrow>
   (('tx, 'tp, 'io, 'codec, 'ack) MqttShared, 'e, ('tx, 'req) pending) action" where
  "send_and_wait ops encode err pkt tx sh =
    (case write_packet ops encode pkt sh of
       (Ok _, sh') \<Rightarrow> (Ok (AwaitAck tx), sh') | (Err e, sh') \<Rightarrow> (Err (err e), sh')
     | (Panic, sh') \<Rightarrow> (Panic, sh') | (Diverge, sh') \<Rightarrow> (Diverge, sh'))"

section \<open>The queue of packets in flight\<close>

text \<open>The abstract content of the queues: identifier, sending end and kind of each packet in flight, in
  the order they were sent.\<close>

definition flight :: "('tx, 'tp, 'io, 'codec, 'ack) MqttShared \<Rightarrow> (u16 \<times> 'tx \<times> 'tp) list" where
  "flight sh =
    map (\<lambda>i. (i, the (Mapping.lookup (inflight (queues sh)) i))) (inflight_order (queues sh))"

definition queue_ok :: "('tx, 'tp, 'io, 'codec, 'ack) MqttShared \<Rightarrow> bool" where
  "queue_ok sh \<longleftrightarrow> \<not> borrowed sh \<and> distinct (inflight_order (queues sh)) \<and>
     set (inflight_order (queues sh)) = Mapping.keys (inflight (queues sh)) \<and>
     0 \<notin> Mapping.keys (inflight (queues sh))"

definition delivered :: "('tx, 'tp, 'io, 'codec, 'ack) MqttShared \<Rightarrow> ('tx \<times> 'ack) list" where
  "delivered sh =
    concat (map (\<lambda>e. case e of Delivered tx a \<Rightarrow> [(tx, a)] | _ \<Rightarrow> []) (events sh))"

definition dropped :: "('tx, 'tp, 'io, 'codec, 'ack) MqttShared \<Rightarrow> 'tx set" where
  "dropped sh = \<Union> (set (map (\<lambda>e. case e of Dropped T \<Rightarrow> T | _ \<Rightarrow> {}) (events sh)))"

text \<open>A connection that has been closed: nothing is in flight and nothing can be sent.\<close>

definition sink_closed :: "('io, 'pkt) io_ops \<Rightarrow> ('tx, 'tp, 'io, 'codec, 'ack) MqttShared \<Rightarrow> bool" where
  "sink_closed ops sh \<longleftrightarrow> \<not> borrowed sh \<and> \<not> io_is_open ops (sh_state sh) \<and>
     Mapping.keys (inflight (queues sh)) = {}"

lemma lookup_keys: "k \<in> Mapping.keys m \<longleftrightarrow> Mapping.lookup m k \<noteq> None"
  by transfer auto

lemma queue_ok_new [simp]:
  "queue_ok (MqttShared_new st codec n)" "flight (MqttShared_new st codec n) = []"
  "delivered (MqttShared_new st codec n) = []"
  by (simp_all add: queue_ok_def flight_def delivered_def MqttShared_new_def)

lemma inflight_idx_new [simp]: "inflight_idx (MqttShared_new st codec n) = 0"
  by (simp add: MqttShared_new_def)

lemma size_flight: "queue_ok sh \<Longrightarrow> Mapping.size (inflight (queues sh)) = length (flight sh)"
  by (auto simp: queue_ok_def flight_def Mapping.size_def distinct_card dest!: sym [of "set _"])

lemma flight_ids: "map fst (flight sh) = inflight_order (queues sh)"
  by (simp add: flight_def comp_def)

text \<open>The three ways in which a handler changes the queue.\<close>

lemma allocate_refused:
  "queue_ok sh \<Longrightarrow> idx \<in> fst ` set (flight sh) \<Longrightarrow> allocate in_use idx tp tx sh = (Err (in_use idx), sh)"
  by (force simp: allocate_def queue_ok_def flight_def)

definition enqueue ::
  "u16 \<Rightarrow> 'tp \<Rightarrow> 'tx \<Rightarrow> ('tx, 'tp, 'io, 'codec, 'ack) MqttShared \<Rightarrow> ('tx, 'tp, 'io, 'codec, 'ack) MqttShared" where
  "enqueue idx tp tx sh = sh\<lparr>queues := (queues sh)\<lparr>
       inflight := Mapping.update idx (tx, tp) (inflight (queues sh)),
       inflight_order := inflight_order (queues sh) @ [idx]\<rparr>\<rparr>"

lemma allocate_cases:
  "allocate in_use idx tp tx sh =
    (if idx \<in> Mapping.keys (inflight (queues sh)) then (Err (in_use idx), sh)
     else (Ok (), enqueue idx tp tx sh))"
  by (simp add: allocate_def enqueue_def)

lemma enqueue_flight:
  assumes "set (inflight_order (queues sh)) = Mapping.keys (inflight (queues sh))"
    and "idx \<notin> Mapping.keys (inflight (queues sh))"
  shows "flight (enqueue idx tp tx sh) = flight sh @ [(idx, tx, tp)]"
proof -
  have "idx \<notin> set (inflight_order (queues sh))"
    using assms by simp
  then show ?thesis
    by (auto simp: flight_def enqueue_def lookup_update' intro!: map_cong)
qed

lemma enqueue_ok:
  "\<lbrakk>queue_ok sh; idx \<noteq> 0; idx \<notin> Mapping.keys (inflight (queues sh))\<rbrakk> \<Longrightarrow> queue_ok (enqueue idx tp tx sh)"
  by (auto simp: queue_ok_def enqueue_def)

definition dequeue ::
  "u16 \<Rightarrow> ('tx, 'tp, 'io, 'codec, 'ack) MqttShared \<Rightarrow> ('tx, 'tp, 'io, 'codec, 'ack) MqttShared" where
  "dequeue idx sh = sh\<lparr>queues := (queues sh)\<lparr>
       inflight := Mapping.delete idx (inflight (queues sh)),
       inflight_order := tl (inflight_order (queues sh))\<rparr>\<rparr>"

lemma dequeue_flight:
  assumes "queue_ok sh" and "flight sh = (idx, tx, tp) # q"
  shows "flight (dequeue idx sh) = q" "queue_ok (dequeue idx sh)"
    "Mapping.lookup (inflight (queues sh)) idx = Some (tx, tp)"
    "inflight_order (queues sh) = idx # tl (inflight_order (queues sh))"
proof -
  obtain rest where order: "inflight_order (queues sh) = idx # rest"
    and head: "the (Mapping.lookup (inflight (queues sh)) idx) = (tx, tp)"
    and q: "q = map (\<lambda>i. (i, the (Mapping.lookup (inflight (queues sh)) i))) rest"
    using assms(2) by (auto simp: flight_def)
  have "idx \<in> Mapping.keys (inflight (queues sh))" "idx \<notin> set rest"
    using assms(1) order by (auto simp: queue_ok_def)
  then show "Mapping.lookup (inflight (queues sh)) idx = Some (tx, tp)"
    using head by (auto simp: lookup_keys)
  show "inflight_order (queues sh) = idx # tl (inflight_order (queues sh))"
    by (simp add: order)
  have "Mapping.lookup (Mapping.delete idx (inflight (queues sh))) i =
      Mapping.lookup (inflight (queues sh)) i" if "i \<in> set rest" for i
    using that \<open>idx \<notin> set rest\<close> by (metis lookup_delete_neq)
  then show "flight (dequeue idx sh) = q"
    by (simp add: flight_def dequeue_def order q)
  show "queue_ok (dequeue idx sh)"
    using assms(1) order by (auto simp: queue_ok_def dequeue_def)
qed

lemma flight_Nil [simp]: "flight sh = [] \<longleftrightarrow> inflight_order (queues sh) = []"
  by (simp add: flight_def)

section \<open>The contract of an acknowledgement queue\<close>

text \<open>
  A step machine with a queue of requests: a step that is not an acknowledgement appends at most its
  own request, and an acknowledgement answers the head of the queue or nothing.  The contract covers a
  connection while its queues are in order (\<open>live\<close>); closing a connection ends it.
\<close>

fun run_while :: "('s \<Rightarrow> bool) \<Rightarrow> ('op \<Rightarrow> 's \<Rightarrow> 's) \<Rightarrow> 'op list \<Rightarrow> 's \<Rightarrow> 's" where
  "run_while live step [] s = s"
| "run_while live step (c # cs) s = (if live s then run_while live step cs (step c s) else s)"

definition requests :: "('op \<Rightarrow> ('tx \<times> 'tp) option) \<Rightarrow> 'op list \<Rightarrow> ('tx \<times> 'tp) list" where
  "requests request_of cs = List.map_filter request_of cs"

lemma requests_simps [simp]:
  "requests f [] = []"
  "requests f (c # cs) = (case f c of None \<Rightarrow> [] | Some r \<Rightarrow> [r]) @ requests f cs"
  by (simp_all add: requests_def map_filter_simps split: option.split)

lemma subseq_appendD1: "subseq (xs @ ys) zs \<Longrightarrow> subseq xs zs"
  by (metis append_Nil2 list_emb_Nil list_emb_append_mono subseq_order.refl subseq_order.trans)

lemma subseq_append_right: "subseq xs ys \<Longrightarrow> subseq xs (ys @ zs)"
  by (metis append_Nil2 list_emb_Nil list_emb_append_mono)

text \<open>The entries that a step adds to a queue, and those of a whole run: the packets that are put in flight, with their
  identifiers.\<close>

definition entered :: "'a list \<Rightarrow> 'a list \<Rightarrow> 'a list" where
  "entered q q' = filter (\<lambda>e. e \<notin> set q) q'"

fun put_in_flight :: "('s \<Rightarrow> bool) \<Rightarrow> ('s \<Rightarrow> 'a list) \<Rightarrow> ('op \<Rightarrow> 's \<Rightarrow> 's) \<Rightarrow> 'op list \<Rightarrow> 's \<Rightarrow> 'a list" where
  "put_in_flight live queue step [] s = []"
| "put_in_flight live queue step (c # cs) s =
    (let s' = step c s in
     if live s \<and> live s' then entered (queue s) (queue s') @ put_in_flight live queue step cs s' else [])"

lemma entered_subset [simp]: "set q' \<subseteq> set q \<Longrightarrow> entered q q' = []"
  by (auto simp: entered_def filter_empty_conv)

lemma entered_tail [simp]: "entered (x # q) q = []"
  by (rule entered_subset) auto

lemma entered_append: "x \<notin> set q \<Longrightarrow> entered q (q @ [x]) = [x]"
  by (simp add: entered_def filter_empty_conv)

lemma subseq_set: "subseq xs ys \<Longrightarrow> set xs \<subseteq> set ys"
  by (metis notin_set_nthsI subseq_conv_nths subsetI)

locale ack_queue =
  fixes queue :: "'s \<Rightarrow> (u16 \<times> 'tx \<times> 'tp) list"
    and live :: "'s \<Rightarrow> bool"
    and answered :: "'s \<Rightarrow> ('tx \<times> 'ack) list"
    and step :: "'op \<Rightarrow> 's \<Rightarrow> 's"
    and request_of :: "'op \<Rightarrow> ('tx \<times> 'tp) option"
    and ack_of :: "'op \<Rightarrow> 'ack option"
    and answers :: "'ack \<Rightarrow> u16 \<Rightarrow> 'tp \<Rightarrow> bool"
  assumes other_step: "\<lbrakk>live s; ack_of c = None\<rbrakk> \<Longrightarrow> answered (step c s) = answered s \<and>
      (live (step c s) \<longrightarrow>
        subseq (queue (step c s)) (queue s @ entered (queue s) (queue (step c s))) \<and>
        subseq (map snd (entered (queue s) (queue (step c s)))) (requests request_of [c]))"
    and ack_head: "\<lbrakk>live s; ack_of c = Some a; queue s = (i, tx, tp) # q; answers a i tp\<rbrakk> \<Longrightarrow>
      answered (step c s) = answered s @ [(tx, a)] \<and> (live (step c s) \<longrightarrow> queue (step c s) = q)"
    and ack_bad: "\<lbrakk>live s; ack_of c = Some a;
        queue s = [] \<or> (\<exists>i tx tp q. queue s = (i, tx, tp) # q \<and> \<not> answers a i tp)\<rbrakk> \<Longrightarrow>
      answered (step c s) = answered s \<and> (live (step c s) \<longrightarrow> subseq (queue (step c s)) (queue s))"
begin

abbreviation ids_match :: "(u16 \<times> 'tx \<times> 'tp) list \<Rightarrow> ('tx \<times> 'ack) list \<Rightarrow> bool" where
  "ids_match \<equiv> list_all2 (\<lambda>(i, tx, tp) (tx', a). tx = tx' \<and> answers a i tp)"

text \<open>The answers fit the packets \<open>sent\<close> so far.\<close>

definition fits :: "(u16 \<times> 'tx \<times> 'tp) list \<Rightarrow> 's \<Rightarrow> bool" where
  "fits sent s \<longleftrightarrow> (\<exists>ks. ids_match ks (answered s) \<and> subseq ks sent \<and> (live s \<longrightarrow> subseq (ks @ queue s) sent))"

abbreviation added :: "'op \<Rightarrow> 's \<Rightarrow> (u16 \<times> 'tx \<times> 'tp) list" where
  "added c s \<equiv> (if live (step c s) then entered (queue s) (queue (step c s)) else [])"

lemma step_fits_other:
  assumes "live s" and "ack_of c = None" and "ids_match ks (answered s)" and "subseq (ks @ queue s) sent"
  shows "fits (sent @ added c s) (step c s)"
proof -
  note st = other_step [OF assms(1,2)]
  have "subseq (ks @ queue (step c s)) (sent @ added c s)" if "live (step c s)"
  proof -
    have "subseq (ks @ queue (step c s)) (ks @ queue s @ added c s)"
      using st that by (intro list_emb_append_mono subseq_order.refl) simp
    moreover have "subseq ((ks @ queue s) @ added c s) (sent @ added c s)"
      using assms(4) by (intro list_emb_append_mono subseq_order.refl)
    ultimately show ?thesis
      unfolding append_assoc by (rule subseq_order.trans)
  qed
  then show ?thesis
    unfolding fits_def using st assms(3) subseq_append_right [OF subseq_appendD1 [OF assms(4)]]
    by (intro exI [of _ ks]) auto
qed

lemma step_fits_ack:
  assumes "live s" and "ack_of c = Some a" and "ids_match ks (answered s)" and "subseq (ks @ queue s) sent"
  shows "fits sent (step c s) \<and> added c s = []"
proof (cases "\<exists>i tx tp q. queue s = (i, tx, tp) # q \<and> answers a i tp")
  case True
  then obtain i tx tp q where q: "queue s = (i, tx, tp) # q" "answers a i tp" by blast
  note st = ack_head [OF assms(1,2) q]
  have "ids_match (ks @ [(i, tx, tp)]) (answered (step c s))"
    using st assms(3) q(2) by (auto intro!: list_all2_appendI)
  moreover have "subseq ((ks @ [(i, tx, tp)]) @ q) sent"
    using assms(4) q(1) by simp
  ultimately have "fits sent (step c s)"
    unfolding fits_def using st subseq_appendD1 [OF \<open>subseq ((ks @ [(i, tx, tp)]) @ q) sent\<close>]
    by (intro exI [of _ "ks @ [(i, tx, tp)]"]) auto
  with st q(1) show ?thesis by auto
next
  case False
  then have "queue s = [] \<or> (\<exists>i tx tp q. queue s = (i, tx, tp) # q \<and> \<not> answers a i tp)"
    by (cases "queue s") auto
  note st = ack_bad [OF assms(1,2) this]
  have "subseq (ks @ queue (step c s)) sent" if "live (step c s)"
  proof -
    have "subseq (ks @ queue (step c s)) (ks @ queue s)"
      using st that by (intro list_emb_append_mono subseq_order.refl) simp
    then show ?thesis
      using assms(4) by (rule subseq_order.trans)
  qed
  then have "fits sent (step c s)"
    unfolding fits_def using st assms(3) subseq_appendD1 [OF assms(4)] by auto
  with st show ?thesis by (auto simp: subseq_set)
qed

lemma step_fits: "live s \<Longrightarrow> fits sent s \<Longrightarrow> fits (sent @ added c s) (step c s)"
proof -
  assume "live s" "fits sent s"
  then obtain ks where ks: "ids_match ks (answered s)" "subseq (ks @ queue s) sent"
    by (auto simp: fits_def)
  show ?thesis
  proof (cases "ack_of c")
    case (Some a)
    from step_fits_ack [OF \<open>live s\<close> Some ks] show ?thesis by simp
  qed (use step_fits_other \<open>live s\<close> ks in blast)
qed

lemma step_requests:
  assumes "live s" shows "subseq (map snd (added c s)) (requests request_of [c])"
proof (cases "ack_of c")
  case None
  with other_step [OF assms] show ?thesis by simp
next
  case (Some a)
  then have "live (step c s) \<longrightarrow> set (queue (step c s)) \<subseteq> set (queue s)"
    using ack_head [OF assms Some] ack_bad [OF assms Some] subseq_set by (cases "queue s") fastforce+
  then show ?thesis by simp
qed

lemma run_stops: "\<not> live s \<Longrightarrow> run_while live step cs s = s"
  by (cases cs) simp_all

lemma run_fits: "fits sent s \<Longrightarrow> fits (sent @ put_in_flight live queue step cs s) (run_while live step cs s)"
proof (induction cs arbitrary: sent s)
  case (Cons c cs)
  show ?case
  proof (cases "live s \<and> live (step c s)")
    case True
    then have "live s" by simp
    from Cons.IH [OF step_fits [OF this Cons.prems, of c]] True show ?thesis
      by (simp add: Let_def)
  next
    case False
    then show ?thesis
      using Cons.prems step_fits [of s sent c] by (auto simp: run_stops)
  qed
qed simp

lemma run_requests: "subseq (map snd (put_in_flight live queue step cs s)) (requests request_of cs)"
proof (induction cs arbitrary: s)
  case (Cons c cs)
  show ?case
  proof (cases "live s \<and> live (step c s)")
    case True
    have "subseq (map snd (added c s) @ map snd (put_in_flight live queue step cs (step c s)))
        (requests request_of [c] @ requests request_of cs)"
      using step_requests [of s c] True Cons.IH by (intro list_emb_append_mono) simp_all
    with True show ?thesis by (simp add: Let_def)
  qed auto
qed simp

text \<open>Packets in flight are answered in the order in which they were sent, each at most once, and each by an
  acknowledgement of its kind and its identifier.\<close>

lemma answers_in_order:
  assumes "queue s = []" and "answered s = []"
  shows "\<exists>ks. subseq ks (put_in_flight live queue step cs s) \<and> subseq (map snd ks) (requests request_of cs) \<and>
    ids_match ks (answered (run_while live step cs s))"
proof -
  have "fits [] s"
    using assms by (simp add: fits_def)
  from run_fits [OF this, of cs] obtain ks where
    ks: "subseq ks (put_in_flight live queue step cs s)" "ids_match ks (answered (run_while live step cs s))"
    by (auto simp: fits_def)
  moreover have "subseq (map snd ks) (requests request_of cs)"
    using subseq_map [OF ks(1), of snd] run_requests by (rule subseq_order.trans)
  ultimately show ?thesis by blast
qed

end

section \<open>Frame lemmas\<close>

lemma u16_succ_ok:
  assumes "(i :: u16) \<noteq> - 1"
  shows "unat i + 1 < 65536" "i + 1 \<noteq> 0"
proof -
  have "unat i \<noteq> 65535"
  proof
    assume "unat i = 65535"
    then have "unat i = unat (- 1 :: u16)" by (simp add: unsigned_minus_1_eq_mask mask_eq_exp_minus_1)
    then show False using assms by (simp only: word_unat_eq_iff)
  qed
  moreover have "unat i < 65536"
    using unsigned_less [of i] by simp
  ultimately show "unat i + 1 < 65536" by simp
  show "i + 1 \<noteq> 0"
    using assms by (simp add: eq_neg_iff_add_eq_0)
qed

text \<open>A step that keeps the queues: packets in flight, order and what has been delivered.\<close>

definition same_flight ::
  "('tx, 'tp, 'io, 'codec, 'ack) MqttShared \<Rightarrow> ('tx, 'tp, 'io, 'codec, 'ack) MqttShared \<Rightarrow> bool" where
  "same_flight sh sh' \<longleftrightarrow> borrowed sh' = borrowed sh \<and>
     inflight (queues sh') = inflight (queues sh) \<and> inflight_order (queues sh') = inflight_order (queues sh) \<and>
     delivered sh' = delivered sh"

lemma same_flight_simps [simp]:
  "same_flight sh sh"
  "same_flight sh (sh\<lparr>sh_state := st\<rparr>)" "same_flight sh (sh\<lparr>inflight_idx := i\<rparr>)"
  "same_flight sh (sh\<lparr>queues := (queues sh)\<lparr>waiters := ws\<rparr>\<rparr>)"
  by (simp_all add: same_flight_def delivered_def)

lemma same_flight_trans: "same_flight a b \<Longrightarrow> same_flight b c \<Longrightarrow> same_flight a c"
  by (simp add: same_flight_def)

lemma same_flightD:
  assumes "same_flight sh sh'"
  shows "flight sh' = flight sh" "queue_ok sh' = queue_ok sh" "delivered sh' = delivered sh"
  using assms by (simp_all add: same_flight_def flight_def queue_ok_def)

lemma with_queues_free:
  assumes "\<not> borrowed sh" and "\<And>b. f (sh\<lparr>borrowed := b\<rparr>) = (r, sh'\<lparr>borrowed := b\<rparr>)"
  shows "with_queues f sh = f sh"
proof -
  have "f sh = (r, sh'\<lparr>borrowed := False\<rparr>)"
    using assms(2) [of False] assms(1) by (cases sh) simp
  then show ?thesis
    using assms by (simp add: with_queues_def)
qed

lemma push_waiter_eq:
  assumes "\<not> borrowed sh"
  shows "push_waiter tx sh = (Ok (), sh\<lparr>queues := (queues sh)\<lparr>waiters := waiters (queues sh) @ [tx]\<rparr>\<rparr>)"
  using assms by (cases sh) (simp add: push_waiter_def with_queues_def)

lemma with_queues_allocate:
  assumes "\<not> borrowed sh"
  shows "with_queues (allocate e idx tp tx) sh = allocate e idx tp tx sh"
  using assms by (cases sh) (simp add: allocate_def with_queues_def)

lemma act_then_Ok: "m s = (Ok x, s') \<Longrightarrow> act_then m k s = k x s'"
  by (simp add: act_then_def)

lemma act_then_allocate:
  "\<not> borrowed sh \<Longrightarrow>
   act_then (with_queues (allocate e idx tp tx)) k sh = act_then (allocate e idx tp tx) k sh"
  by (simp add: act_then_def with_queues_allocate)

lemma clear_queues_eq:
  assumes "\<not> borrowed sh"
  shows "clear_queues sh =
     (Ok (), sh\<lparr>queues := (queues sh)\<lparr>inflight := Mapping.empty, waiters := []\<rparr>,
        events := events sh @ [Dropped (holders (queues sh))]\<rparr>)"
  using assms by (cases sh) (simp add: clear_queues_def with_queues_def)

lemma delivered_events [simp]:
  "delivered (sh\<lparr>events := events sh @ [Dropped T]\<rparr>) = delivered sh"
  "delivered (sh\<lparr>events := events sh @ [Delivered tx a]\<rparr>) = delivered sh @ [(tx, a)]"
  "delivered (sh\<lparr>queues := q\<rparr>) = delivered sh"
  "delivered (sh\<lparr>sh_state := st\<rparr>) = delivered sh"
  by (simp_all add: delivered_def)

lemma wake_waiter_same: "same_flight sh (wake_waiter alive sh)"
  by (auto simp: wake_waiter_def same_flight_def delivered_def split: prod.split option.split)

lemma clear_queues_flight:
  assumes "\<not> borrowed sh"
  shows "delivered (snd (clear_queues sh)) = delivered sh"
    "queue_ok (snd (clear_queues sh)) \<Longrightarrow> flight (snd (clear_queues sh)) = []"
  by (simp_all add: clear_queues_eq [OF assms] delivered_def queue_ok_def)

text \<open>What a sender may do to the queue: nothing, or append its own packet.\<close>

definition sends ::
  "'tx \<Rightarrow> 'tp \<Rightarrow> ('tx, 'tp, 'io, 'codec, 'ack) MqttShared \<Rightarrow> ('tx, 'tp, 'io, 'codec, 'ack) MqttShared \<Rightarrow> bool" where
  "sends tx tp sh sh' \<longleftrightarrow> queue_ok sh' \<and> delivered sh' = delivered sh \<and>
     (flight sh' = flight sh \<or> (\<exists>i. flight sh' = flight sh @ [(i, tx, tp)]))"

lemma sends_same: "queue_ok sh \<Longrightarrow> same_flight sh sh' \<Longrightarrow> sends tx tp sh sh'"
  by (simp add: sends_def same_flightD)

lemma sends_same_left: "same_flight sh sh' \<Longrightarrow> sends tx tp sh' sh'' \<Longrightarrow> sends tx tp sh sh''"
  by (simp add: sends_def same_flightD)

lemma sends_same_right: "sends tx tp sh sh' \<Longrightarrow> same_flight sh' sh'' \<Longrightarrow> sends tx tp sh sh''"
  by (simp add: sends_def same_flightD)

lemma sends_enqueue:
  "\<lbrakk>queue_ok sh; idx \<noteq> 0; idx \<notin> Mapping.keys (inflight (queues sh))\<rbrakk> \<Longrightarrow> sends tx tp sh (enqueue idx tp tx sh)"
  using enqueue_flight [of sh idx tp tx] enqueue_ok [of sh idx tp tx]
  by (auto simp: sends_def queue_ok_def delivered_def enqueue_def)

lemma sends_allocate:
  "queue_ok sh \<Longrightarrow> idx \<noteq> 0 \<Longrightarrow> sends tx tp sh (snd (allocate e idx tp tx sh))"
  by (simp add: allocate_cases sends_enqueue sends_same)

lemma sends_entered:
  assumes "sends tx tp sh sh'"
  shows "subseq (flight sh') (flight sh @ entered (flight sh) (flight sh')) \<and>
    subseq (map snd (entered (flight sh) (flight sh'))) [(tx, tp)]"
proof -
  from assms consider "flight sh' = flight sh"
    | i where "queue_ok sh'" "flight sh' = flight sh @ [(i, tx, tp)]" by (auto simp: sends_def)
  then show ?thesis
  proof cases
    case (2 i)
    then have "distinct (flight sh @ [(i, tx, tp)])"
      by (metis distinct_map flight_ids queue_ok_def)
    then show ?thesis by (simp add: 2 entered_append)
  qed simp
qed

lemma write_packet_same: "same_flight sh (snd (write_packet ops encode pkt sh))"
  by (simp add: write_packet_def split: prod.split)

lemma send_and_wait_same: "same_flight sh (snd (send_and_wait ops encode err pkt tx sh))"
  using write_packet_same [of sh ops encode pkt]
  by (auto simp: send_and_wait_def split: prod.splits outcome.splits)

lemma sends_allocate_and_wait:
  assumes "queue_ok sh" and "idx \<noteq> 0"
  shows "sends tx tp sh (snd (act_then (allocate e idx tp tx) (\<lambda>_. send_and_wait ops encode err pkt tx) sh))"
proof (cases "allocate e idx tp tx sh")
  case (Pair r sh')
  have "sends tx tp sh sh'"
    using sends_allocate [OF assms, of tx tp e] Pair by simp
  then show ?thesis
    using Pair by (auto simp: act_then_def send_and_wait_same elim!: sends_same_right split: outcome.split)
qed

lemma sends_await_credit:
  assumes "queue_ok sh" and "sends tx tp sh (snd (k sh))"
  shows "sends tx tp sh (snd (await_credit ops disconnected wtx req k sh))"
proof -
  have "\<not> borrowed sh" using assms(1) by (simp add: queue_ok_def)
  then show ?thesis
    using assms
    by (auto simp: await_credit_def act_then_def push_waiter_eq has_credit_def Let_def intro: sends_same)
qed

lemma flight_lookup:
  "queue_ok sh \<Longrightarrow> (i, tx, tp) \<in> set (flight sh) \<Longrightarrow> Mapping.lookup (inflight (queues sh)) i = Some (tx, tp)"
  by (auto simp: queue_ok_def flight_def lookup_keys)

lemma lookup_holders:
  assumes "Mapping.lookup (inflight q) i = Some (tx, tp)"
  shows "tx \<in> holders q"
proof -
  have "i \<in> Mapping.keys (inflight q)" "tx = fst (the (Mapping.lookup (inflight q) i))"
    using assms by (simp_all add: lookup_keys)
  then show ?thesis
    unfolding holders_def by blast
qed

section \<open>Packet identifiers\<close>

fun draw_ids :: "('s, 'e, u16) action \<Rightarrow> nat \<Rightarrow> ('s, 'e, u16 list) action" where
  "draw_ids next_id 0 = (\<lambda>sh. (Ok [], sh))"
| "draw_ids next_id (Suc n) =
    act_then (draw_ids next_id n) (\<lambda>ids. act_then next_id (\<lambda>i sh. (Ok (ids @ [i]), sh)))"

text \<open>The contract of \<^verbatim>\<open>next_id\<close>: the counter runs through 0 to 65534, the identifier is one more.\<close>

locale id_source =
  fixes next_id :: "(('tx, 'tp, 'io, 'codec, 'ack) MqttShared, 'e, u16) action"
  assumes next_id: "inflight_idx sh \<noteq> - 1 \<Longrightarrow> next_id sh = (Ok (inflight_idx sh + 1),
    sh\<lparr>inflight_idx := (if inflight_idx sh + 1 = - 1 then 0 else inflight_idx sh + 1)\<rparr>)"
begin

lemma next_id_nat:
  assumes "inflight_idx sh = of_nat (n mod 65535)"
  shows "next_id sh = (Ok (of_nat (n mod 65535 + 1)), sh\<lparr>inflight_idx := of_nat (Suc n mod 65535)\<rparr>)"
proof -
  let ?k = "n mod 65535"
  have k: "?k < 65535" by simp
  have minus_1: "(- 1 :: u16) = of_nat 65535" by simp
  have "inflight_idx sh \<noteq> - 1"
    using k by (simp add: assms minus_1 word_unat_eq_iff unat_of_nat_u16 del: of_nat_numeral)
  moreover have "(of_nat ?k + 1 :: u16) = of_nat (?k + 1)" by simp
  moreover have "(of_nat (?k + 1) :: u16) = - 1 \<longleftrightarrow> ?k = 65534"
    using k unat_of_nat_u16 [of "?k + 1"] unat_of_nat_u16 [of 65535]
    unfolding minus_1 word_unat_eq_iff by simp
  moreover have "Suc n mod 65535 = (if n mod 65535 = 65534 then 0 else n mod 65535 + 1)"
    by (simp add: mod_Suc)
  ultimately show ?thesis
    using next_id [of sh] unfolding assms by simp
qed

lemma draw_ids_cycle:
  assumes "inflight_idx sh = 0"
  shows "draw_ids next_id n sh =
    (Ok (map (\<lambda>k. of_nat (k mod 65535 + 1)) [0..<n]), sh\<lparr>inflight_idx := of_nat (n mod 65535)\<rparr>)"
proof (induction n)
  case (Suc n)
  then show ?case
    using next_id_nat [of "sh\<lparr>inflight_idx := of_nat (n mod 65535)\<rparr>" n]
    by (simp add: act_then_def)
qed (use assms in \<open>cases sh, simp\<close>)

end

lemma cycle_ids:
  assumes "n \<le> 65535"
  shows "distinct (map (\<lambda>k. of_nat (k mod 65535 + 1) :: u16) [0..<n])"
    "0 \<notin> set (map (\<lambda>k. of_nat (k mod 65535 + 1) :: u16) [0..<n])"
proof -
  have nat: "unat (of_nat (k mod 65535 + 1) :: u16) = k mod 65535 + 1" for k :: nat
  proof -
    have "k mod 65535 < 65535" by simp
    then show ?thesis by (intro unat_of_nat_u16) simp
  qed
  have "inj_on (\<lambda>k. of_nat (k mod 65535 + 1) :: u16) {0..<n}"
  proof (rule inj_onI)
    fix j k
    assume "j \<in> {0..<n}" "k \<in> {0..<n}" "(of_nat (j mod 65535 + 1) :: u16) = of_nat (k mod 65535 + 1)"
    then show "j = k"
      using nat [of j] nat [of k] assms by simp
  qed
  then show "distinct (map (\<lambda>k. of_nat (k mod 65535 + 1) :: u16) [0..<n])"
    by (simp add: distinct_map)
  show "0 \<notin> set (map (\<lambda>k. of_nat (k mod 65535 + 1) :: u16) [0..<n])"
    using nat by (metis (no_types, lifting) Suc_eq_plus1 ex_map_conv nat.simps(3) unat_0)
qed

section \<open>Properties\<close>

text \<open>A sink whose credit is used up cannot be asked for a notification: \<^verbatim>\<open>ready\<close> borrows the queues
  a second time inside its own borrow, which panics, instead of waiting for the next acknowledgement.\<close>

theorem ready_no_credit:
  assumes "io_is_open ops (sh_state sh)" and "Mapping.size (inflight (queues sh)) \<ge> cap sh"
  shows "fst (ready ops tx sh) = Panic"
  using assms by (simp add: ready_def with_queues_def act_then_def split: prod.split)

theorem ready_no_credit_witness:
  "fst (ready \<lparr>io_is_open = id, io_close = (\<lambda>_. False), io_force_close = (\<lambda>_. False),
      io_encode = (\<lambda>_ _ s. (Ok True, s))\<rparr> (7::nat) (MqttShared_new True () 0)) = Panic"
  by (rule ready_no_credit) (simp_all add: MqttShared_new_def)

end
