(* ===== verification/Dispatch.thy ===== *)
theory Dispatch
  imports Errors Sink
begin

text \<open>
  What the four dispatchers (\<^verbatim>\<open>v3/dispatcher.rs\<close>, \<^verbatim>\<open>v5/dispatcher.rs\<close> and the two of the clients) share:
  the items that reach a dispatcher, the combination of the readiness of two services, and the fact that a
  set of packet identifiers in flight keeps the handlers of different packets apart.
\<close>

text \<open>The items that the transport loop hands to a dispatcher (\<^verbatim>\<open>ntex::framed::DispatchItem\<close>, with the
  constructors that \<^verbatim>\<open>io.rs\<close> builds and the dispatchers match).\<close>

datatype 'p DispatchItem =
    Item 'p
  | EncoderError EncodeError
  | KeepAliveTimeout
  | DecoderError DecodeError
  | IoError io_error
  | WBackPressureEnabled
  | WBackPressureDisabled

text \<open>A poll is \<open>None\<close> while it is pending.  Two services are ready when both are, and an error of either is
  an error of the pair.\<close>

definition both_ready :: "('e + unit) option \<Rightarrow> ('e + unit) option \<Rightarrow> ('e + unit) option" where
  "both_ready res1 res2 =
    (case res1 of
       Some (Inl e) \<Rightarrow> Some (Inl e)
     | _ \<Rightarrow>
       (case res2 of
          Some (Inl e) \<Rightarrow> Some (Inl e)
        | _ \<Rightarrow> if res1 = None \<or> res2 = None then None else Some (Inr ())))"

lemma both_ready_iff: "both_ready res1 res2 = Some (Inr ()) \<longleftrightarrow> res1 = Some (Inr ()) \<and> res2 = Some (Inr ())"
  by (auto simp: both_ready_def split: option.splits sum.splits)

section \<open>Identifiers in flight\<close>

text \<open>No two handlers work on one identifier, and every identifier that is worked on is in the set.\<close>

definition exclusive :: "('f \<Rightarrow> u16 list) \<Rightarrow> u16 set \<Rightarrow> 'f list \<Rightarrow> bool" where
  "exclusive live S fs \<longleftrightarrow> distinct (concat (map live fs)) \<and> set (concat (map live fs)) \<subseteq> S"

lemma exclusive_Nil [simp]: "exclusive live S []"
  by (simp add: exclusive_def)

lemma exclusive_mono: "\<lbrakk>exclusive live S fs; S \<subseteq> T\<rbrakk> \<Longrightarrow> exclusive live T fs"
  by (auto simp: exclusive_def)

text \<open>A new handler, with a fresh identifier or with none.\<close>

lemma exclusive_snoc:
  assumes "exclusive live S fs" and "live f = [] \<and> S \<subseteq> T \<or> (\<exists>i. live f = [i] \<and> i \<notin> S \<and> T = insert i S)"
  shows "exclusive live T (fs @ [f])"
  using assms by (auto simp: exclusive_def)

text \<open>A handler has answered: some of its identifiers leave the set.\<close>

lemma exclusive_answer:
  assumes "exclusive live S (xs @ f # ys)" and "T = S - set ids" "set ids \<subseteq> set (live f)"
    and "concat (map live gs) = []"
  shows "exclusive live T (xs @ gs @ ys)"
  using assms by (auto simp: exclusive_def simp del: set_concat concat_eq_Nil_conv)

lemma exclusive_finish:
  "\<lbrakk>exclusive live S (xs @ f # ys); T = S - set (live f) \<or> T = S\<rbrakk> \<Longrightarrow> exclusive live T (xs @ ys)"
  using exclusive_answer [of live S xs f ys T "live f" "[]"] exclusive_answer [of live S xs f ys T "[]" "[]"]
  by auto

lemma exclusive_replace:
  "\<lbrakk>exclusive live S (xs @ f # ys); live g = live f\<rbrakk> \<Longrightarrow> exclusive live S (xs @ g # ys)"
  by (simp add: exclusive_def)

lemma exclusive_fresh:
  "\<lbrakk>exclusive live S (xs @ f # ys); i \<in> set (live f)\<rbrakk> \<Longrightarrow> i \<notin> set (concat (map live (xs @ ys)))"
  by (auto simp: exclusive_def simp del: set_concat)

lemma exclusive_length:
  assumes "exclusive live S fs" "finite S"
  shows "length (concat (map live fs)) \<le> card S"
proof -
  from assms have "length (concat (map live fs)) = card (set (concat (map live fs)))"
    by (simp add: exclusive_def distinct_card del: set_concat)
  with assms show ?thesis
    by (simp add: exclusive_def card_mono del: set_concat)
qed

end
