(* ===== verification/Io_Dispatcher.thy ===== *)
theory Io_Dispatcher
  imports Dispatch "HOL-Library.Multiset"
begin

text \<open>
  The transport loop (\<^verbatim>\<open>io.rs\<close>): it reads packets, hands them to the service, and writes the responses in
  the order of the requests. The transport \<^verbatim>\<open>ntex::framed::State\<close>, the timer, the service and the futures
  it returns are code of other components: the record \<open>io_env\<close> of the operations that the loop calls on them,
  over one state \<open>'w\<close> of everything outside the loop. \<^verbatim>\<open>usize\<close> is a 64 bit word, since the loop wraps
  it around on purpose; an instant of the timer is a number of seconds.
\<close>

type_synonym usize = "64 word"

section \<open>State\<close>

datatype 'a ServiceResult = Pending | Ready 'a

definition ServiceResult_take :: "'a ServiceResult \<Rightarrow> 'a option \<times> 'a ServiceResult" where
  "ServiceResult_take s = (case s of Pending \<Rightarrow> (None, Pending) | Ready result \<Rightarrow> (Some result, Pending))"

datatype IoDispatcherState = Processing | Stop | Shutdown

datatype 'e IoDispatcherError = NoError | KeepAlive | Encoder EncodeError | Service 'e

definition IoDispatcherError_from :: "'e + EncodeError \<Rightarrow> 'e IoDispatcherError" where
  "IoDispatcherError_from err = (case err of Inl err \<Rightarrow> IoDispatcherError.Service err | Inr err \<Rightarrow> Encoder err)"

text \<open>Taking the error out leaves \<^verbatim>\<open>IoDispatcherError::None\<close> (here \<open>NoError\<close>) in its place.\<close>

definition IoDispatcherError_take ::
  "'e IoDispatcherError \<Rightarrow> 'p DispatchItem option \<times> 'e IoDispatcherError" where
  "IoDispatcherError_take err =
    (case err of
       KeepAlive \<Rightarrow> (Some DispatchItem.KeepAliveTimeout, NoError)
     | Encoder err \<Rightarrow> (Some (EncoderError err), NoError)
     | NoError \<Rightarrow> (None, NoError)
     | IoDispatcherError.Service e \<Rightarrow> (None, IoDispatcherError.Service e))"

type_synonym ('e, 'p) response = "'e + 'p option"

record ('e, 'p) DispatcherState =
  ds_error :: "'e IoDispatcherError option"
  ds_base :: usize
  ds_queue :: "('e, 'p) response ServiceResult list"

record ('fut, 'e, 'p) Dispatcher =
  io_inner :: "('e, 'p) DispatcherState"
  io_st :: IoDispatcherState
  io_updated :: nat
  io_keepalive_timeout :: u16
  io_response :: "'fut option"
  io_response_idx :: usize

record ('w, 'fut, 'e, 'p) io_env =
  read_resume :: "'w \<Rightarrow> 'w"
  read_pause :: "'w \<Rightarrow> 'w"
  read_wake :: "'w \<Rightarrow> 'w"
  read_is_ready :: "'w \<Rightarrow> bool"
  read_decode :: "'w \<Rightarrow> (DecodeError + 'p option) \<times> 'w"
  encode_result :: "('e, 'p) response \<Rightarrow> 'w \<Rightarrow> ('e + EncodeError) option \<times> 'w"
  is_keepalive :: "'w \<Rightarrow> bool"
  is_dispatcher_stopped :: "'w \<Rightarrow> bool"
  dispatcher_stopped :: "'w \<Rightarrow> 'w"
  register_dispatcher :: "'w \<Rightarrow> 'w"
  shutdown_io :: "'w \<Rightarrow> 'w"
  take_io_error :: "'w \<Rightarrow> io_error option \<times> 'w"
  set_disconnect_timeout :: "u16 \<Rightarrow> 'w \<Rightarrow> 'w"
  timer_now :: "'w \<Rightarrow> nat"
  timer_register :: "nat \<Rightarrow> nat \<Rightarrow> 'w \<Rightarrow> 'w"
  timer_unregister :: "nat \<Rightarrow> 'w \<Rightarrow> 'w"
  service_poll_ready :: "'w \<Rightarrow> ('e + unit) option \<times> 'w"
  service_call :: "'p DispatchItem \<Rightarrow> 'w \<Rightarrow> 'fut \<times> 'w"
  service_poll_shutdown :: "bool \<Rightarrow> 'w \<Rightarrow> bool \<times> 'w"
  future_poll :: "'fut \<Rightarrow> 'w \<Rightarrow> ('e, 'p) response option \<times> 'w"
  spawn_response :: "'fut \<Rightarrow> usize \<Rightarrow> 'w \<Rightarrow> 'w"

section \<open>Construction\<close>

definition Dispatcher_with ::
  "('w, 'fut, 'e, 'p) io_env \<Rightarrow> 'w \<Rightarrow> ('fut, 'e, 'p) Dispatcher \<times> 'w" where
  "Dispatcher_with env w =
    (let updated = timer_now env w; expire = updated + 30 in
     (\<lparr>io_inner = \<lparr>ds_error = None, ds_base = 0, ds_queue = []\<rparr>, io_st = Processing, io_updated = updated,
       io_keepalive_timeout = 30, io_response = None, io_response_idx = 0\<rparr>,
      timer_register env expire expire w))"

definition Dispatcher_keepalive_timeout ::
  "('w, 'fut, 'e, 'p) io_env \<Rightarrow> u16 \<Rightarrow> ('fut, 'e, 'p) Dispatcher \<times> 'w \<Rightarrow> ('fut, 'e, 'p) Dispatcher \<times> 'w" where
  "Dispatcher_keepalive_timeout env timeout s =
    (let (d, w) = s; prev = io_updated d + unat (io_keepalive_timeout d) in
     (d\<lparr>io_keepalive_timeout := timeout\<rparr>,
      if timeout = 0 then timer_unregister env prev w
      else timer_register env (io_updated d + unat timeout) prev w))"

definition Dispatcher_disconnect_timeout ::
  "('w, 'fut, 'e, 'p) io_env \<Rightarrow> u16 \<Rightarrow> ('fut, 'e, 'p) Dispatcher \<times> 'w \<Rightarrow> ('fut, 'e, 'p) Dispatcher \<times> 'w" where
  "Dispatcher_disconnect_timeout env val s = (fst s, set_disconnect_timeout env val (snd s))"

section \<open>Responses\<close>

text \<open>Writing a response: an error is kept.\<close>

definition write_response ::
  "('w, 'fut, 'e, 'p) io_env \<Rightarrow> ('e, 'p) response \<Rightarrow> ('e, 'p) DispatcherState \<times> 'w \<Rightarrow>
   ('e, 'p) DispatcherState \<times> 'w" where
  "write_response env item s =
    (case encode_result env item (snd s) of
       (None, w) \<Rightarrow> (fst s, w)
     | (Some err, w) \<Rightarrow> ((fst s)\<lparr>ds_error := Some (IoDispatcherError_from err)\<rparr>, w))"

text \<open>The responses at the front that are ready.\<close>

fun write_ready ::
  "('w, 'fut, 'e, 'p) io_env \<Rightarrow> ('e, 'p) response ServiceResult list \<Rightarrow>
   ('e, 'p) DispatcherState \<times> 'w \<Rightarrow> ('e, 'p) DispatcherState \<times> 'w" where
  "write_ready env (Ready item # queue) s =
    write_ready env queue (write_response env item ((fst s)\<lparr>ds_base := ds_base (fst s) + 1\<rparr>, snd s))"
| "write_ready env queue s = ((fst s)\<lparr>ds_queue := queue\<rparr>, snd s)"

text \<open>The result says whether to wake the dispatcher.  \<^verbatim>\<open>self.queue[idx]\<close> panics out of range.\<close>

definition handle_result ::
  "('w, 'fut, 'e, 'p) io_env \<Rightarrow> ('e, 'p) response \<Rightarrow> usize \<Rightarrow> bool \<Rightarrow>
   (('e, 'p) DispatcherState \<times> 'w, 'err, bool) action" where
  "handle_result env item response_idx wake s =
    (let idx = response_idx - ds_base (fst s); queue = ds_queue (fst s) in
     if idx = 0
     then let s = write_ready env (drop 1 queue)
                    (write_response env item ((fst s)\<lparr>ds_base := ds_base (fst s) + 1\<rparr>, snd s))
          in (Ok (wake \<and> ds_queue (fst s) = []), s)
     else if unat idx < length queue
     then (Ok False, ((fst s)\<lparr>ds_queue := queue[unat idx := Ready item]\<rparr>, snd s))
     else (Panic, s))"

text \<open>The place of a response in the queue, for a call that is pending.\<close>

definition next_response_idx :: "('e, 'p) DispatcherState \<Rightarrow> usize" where
  "next_response_idx ds = ds_base ds + of_nat (length (ds_queue ds))"

definition push_response ::
  "('e, 'p) response ServiceResult \<Rightarrow> ('e, 'p) DispatcherState \<Rightarrow> ('e, 'p) DispatcherState" where
  "push_response r ds = ds\<lparr>ds_queue := ds_queue ds @ [r]\<rparr>"

text \<open>A call that is answered at once.\<close>

definition answer_now ::
  "('w, 'fut, 'e, 'p) io_env \<Rightarrow> ('e, 'p) response \<Rightarrow> ('e, 'p) DispatcherState \<times> 'w \<Rightarrow>
   ('e, 'p) DispatcherState \<times> 'w" where
  "answer_now env res s =
    (if ds_queue (fst s) = [] then write_response env res s
     else (push_response (Ready res) (fst s), snd s))"

section \<open>The loop\<close>

type_synonym ('w, 'fut, 'e, 'p) loop_state = "('fut, 'e, 'p) Dispatcher \<times> 'w"

text \<open>The future of the first call is polled by the loop itself.\<close>

definition poll_response ::
  "('w, 'fut, 'e, 'p) io_env \<Rightarrow> (('w, 'fut, 'e, 'p) loop_state, 'err, unit) action" where
  "poll_response env s =
    (let (d, w) = s in
     case io_response d of
       None \<Rightarrow> (Ok (), s)
     | Some fut \<Rightarrow>
       (case future_poll env fut w of
          (None, w) \<Rightarrow> (Ok (), (d, w))
        | (Some item, w) \<Rightarrow>
          (case handle_result env item (io_response_idx d) False (io_inner d, w) of
             (Ok _, (ds, w)) \<Rightarrow> (Ok (), (d\<lparr>io_inner := ds, io_response := None\<rparr>, w))
           | (Err e, (ds, w)) \<Rightarrow> (Err e, (d\<lparr>io_inner := ds\<rparr>, w))
           | (Panic, (ds, w)) \<Rightarrow> (Panic, (d\<lparr>io_inner := ds\<rparr>, w))
           | (Diverge, (ds, w)) \<Rightarrow> (Diverge, (d\<lparr>io_inner := ds\<rparr>, w)))))"

definition unregister_keepalive ::
  "('w, 'fut, 'e, 'p) io_env \<Rightarrow> ('fut, 'e, 'p) Dispatcher \<Rightarrow> 'w \<Rightarrow> 'w" where
  "unregister_keepalive env d w =
    (if io_keepalive_timeout d \<noteq> 0
     then timer_unregister env (io_updated d + unat (io_keepalive_timeout d)) w else w)"

definition update_keepalive ::
  "('w, 'fut, 'e, 'p) io_env \<Rightarrow> ('w, 'fut, 'e, 'p) loop_state \<Rightarrow> ('w, 'fut, 'e, 'p) loop_state" where
  "update_keepalive env s =
    (let (d, w) = s; updated = timer_now env w; ka = unat (io_keepalive_timeout d) in
     if io_keepalive_timeout d \<noteq> 0 \<and> updated \<noteq> io_updated d
     then (d\<lparr>io_updated := updated\<rparr>, timer_register env (updated + ka) (io_updated d + ka) w)
     else s)"

definition check_keepalive ::
  "('w, 'fut, 'e, 'p) io_env \<Rightarrow> ('w, 'fut, 'e, 'p) loop_state \<Rightarrow> ('w, 'fut, 'e, 'p) loop_state" where
  "check_keepalive env s =
    (let (d, w) = s in
     if is_keepalive env w
     then (d\<lparr>io_inner := (if ds_error (io_inner d) = None
               then (io_inner d)\<lparr>ds_error := Some KeepAlive\<rparr> else io_inner d)\<rparr>,
           dispatcher_stopped env w)
     else s)"

text \<open>The next item of a dispatcher that is told to stop: data that is left, or the error.\<close>

definition stopped_item ::
  "('w, 'fut, 'e, 'p) io_env \<Rightarrow> ('w, 'fut, 'e, 'p) loop_state \<Rightarrow>
   'p DispatchItem option \<times> ('w, 'fut, 'e, 'p) loop_state" where
  "stopped_item env s =
    (let (d, w) = s; (decoded, w) = read_decode env (unregister_keepalive env d w) in
     case decoded of
       Inr (Some el) \<Rightarrow> (Some (Item el), (d, w))
     | _ \<Rightarrow>
       (let (taken, err) =
              (case ds_error (io_inner d) of
                 None \<Rightarrow> (None, None)
               | Some err \<Rightarrow> (case IoDispatcherError_take err of (item, err) \<Rightarrow> (item, Some err)));
            (item, w) =
              (case taken of
                 Some item \<Rightarrow> (Some item, w)
               | None \<Rightarrow> (case take_io_error env w of (e, w) \<Rightarrow> (map_option IoError e, w)))
        in (item, (d\<lparr>io_inner := (io_inner d)\<lparr>ds_error := err\<rparr>, io_st := Stop\<rparr>, w))))"

text \<open>The first call is polled at once; later ones run as tasks of their own.\<close>

definition call_service ::
  "('w, 'fut, 'e, 'p) io_env \<Rightarrow> 'p DispatchItem \<Rightarrow> ('w, 'fut, 'e, 'p) loop_state \<Rightarrow>
   ('w, 'fut, 'e, 'p) loop_state" where
  "call_service env item s =
    (let (d, w) = s in
     if io_response d = None
     then let (fut, w) = service_call env item w; (res, w) = future_poll env fut w in
       (case res of
          Some res \<Rightarrow>
            (let (ds, w) = answer_now env res (io_inner d, w) in
             (d\<lparr>io_inner := ds, io_response := None,
                io_response_idx := (if ds_queue (io_inner d) = [] then io_response_idx d
                                    else next_response_idx (io_inner d))\<rparr>, w))
        | None \<Rightarrow>
            (d\<lparr>io_inner := push_response Pending (io_inner d), io_response := Some fut,
               io_response_idx := next_response_idx (io_inner d)\<rparr>, w))
     else let (fut, w) = service_call env item w in
       (d\<lparr>io_inner := push_response Pending (io_inner d)\<rparr>,
        spawn_response env fut (next_response_idx (io_inner d)) w))"

text \<open>What follows an iteration: the poll returns (\<open>None\<close> is pending), the inner loop goes on, or the poll
  starts again.\<close>

datatype 'e after = Return "('e + unit) option" | Loop | Retry

definition call_and_go_on ::
  "('w, 'fut, 'e, 'p) io_env \<Rightarrow> bool \<Rightarrow> 'p DispatchItem option \<times> ('w, 'fut, 'e, 'p) loop_state \<Rightarrow>
   'e after \<times> ('w, 'fut, 'e, 'p) loop_state" where
  "call_and_go_on env retry x =
    (case x of (item, s) \<Rightarrow>
      (if retry then Retry else Loop, case item of Some item \<Rightarrow> call_service env item s | None \<Rightarrow> s))"

definition processing ::
  "('w, 'fut, 'e, 'p) io_env \<Rightarrow> ('w, 'fut, 'e, 'p) loop_state \<Rightarrow> 'e after \<times> ('w, 'fut, 'e, 'p) loop_state" where
  "processing env s =
    (let (d, w) = s in
     case service_poll_ready env w of
       (Some (Inr _), w) \<Rightarrow>
         (let (d, w) = check_keepalive env (d, read_resume env w) in
          if is_dispatcher_stopped env w then call_and_go_on env True (stopped_item env (d, w))
          else if read_is_ready env w
          then (case read_decode env w of
              (Inr (Some el), w) \<Rightarrow> call_and_go_on env False (Some (Item el), update_keepalive env (d, w))
            | (Inr None, w) \<Rightarrow> (Return None, (d, read_wake env w))
            | (Inl err, w) \<Rightarrow>
                call_and_go_on env True
                  (Some (DecoderError err), (d\<lparr>io_st := Stop\<rparr>, unregister_keepalive env d w)))
          else (Return None, (d, register_dispatcher env w)))
     | (None, w) \<Rightarrow> (Return None, (d, read_pause env w))
     | (Some (Inl err), w) \<Rightarrow>
         (Retry, (d\<lparr>io_st := Stop, io_inner := (io_inner d)\<lparr>ds_error := Some (IoDispatcherError.Service err)\<rparr>\<rparr>,
           unregister_keepalive env d (dispatcher_stopped env w))))"

definition stopping ::
  "('w, 'fut, 'e, 'p) io_env \<Rightarrow> ('w, 'fut, 'e, 'p) loop_state \<Rightarrow> 'e after \<times> ('w, 'fut, 'e, 'p) loop_state" where
  "stopping env s =
    (let (d, w) = s; w = snd (service_poll_ready env w) in
     if ds_queue (io_inner d) = [] then (Retry, (d\<lparr>io_st := Shutdown\<rparr>, shutdown_io env w))
     else (Return None, (d, register_dispatcher env w)))"

definition shutting_down ::
  "('w, 'fut, 'e, 'p) io_env \<Rightarrow> ('w, 'fut, 'e, 'p) loop_state \<Rightarrow> 'e after \<times> ('w, 'fut, 'e, 'p) loop_state" where
  "shutting_down env s =
    (let (d, w) = s; is_err = (ds_error (io_inner d) \<noteq> None); (done, w) = service_poll_shutdown env is_err w in
     if done
     then (Return (Some (case ds_error (io_inner d) of
              Some (IoDispatcherError.Service err) \<Rightarrow> Inl err | _ \<Rightarrow> Inr ())),
           (d\<lparr>io_inner := (io_inner d)\<lparr>ds_error := None\<rparr>\<rparr>, w))
     else (Return None, (d, w)))"

definition poll_state ::
  "('w, 'fut, 'e, 'p) io_env \<Rightarrow> ('w, 'fut, 'e, 'p) loop_state \<Rightarrow> 'e after \<times> ('w, 'fut, 'e, 'p) loop_state" where
  "poll_state env s =
    (case io_st (fst s) of Processing \<Rightarrow> processing env s | Stop \<Rightarrow> stopping env s | Shutdown \<Rightarrow> shutting_down env s)"

text \<open>The whole poll, with fuel for its iterations; \<open>start\<close> tells a start from the top.\<close>

fun poll ::
  "('w, 'fut, 'e, 'p) io_env \<Rightarrow> nat \<Rightarrow> bool \<Rightarrow> (('w, 'fut, 'e, 'p) loop_state, 'err, ('e + unit) option) action" where
  "poll env 0 start s = (Diverge, s)"
| "poll env (Suc n) start s =
    act_then (if start then poll_response env else (\<lambda>s. (Ok (), s)))
      (\<lambda>_ s. case poll_state env s of
         (Return r, s) \<Rightarrow> (Ok r, s)
       | (Loop, s) \<Rightarrow> poll env n False s
       | (Retry, s) \<Rightarrow> poll env n True s) s"

section \<open>The order of the responses\<close>

text \<open>The requests are numbered in the order of the calls; \<open>res\<close> is what the service answers to each, whenever
  it does.  A step is a call whose future is pending, a call that is answered at once, or the end of one of
  the pending calls.\<close>

inductive resp_step ::
  "('w, 'fut, 'e, 'p) io_env \<Rightarrow> (nat \<Rightarrow> ('e, 'p) response) \<Rightarrow>
   (('e, 'p) DispatcherState \<times> 'w) \<times> (usize \<times> nat) list \<times> nat \<Rightarrow>
   (('e, 'p) DispatcherState \<times> 'w) \<times> (usize \<times> nat) list \<times> nat \<Rightarrow> bool" for env res where
  called: "Suc (length (ds_queue (fst s))) < 2 ^ 64 \<Longrightarrow>
    resp_step env res (s, tasks, n)
      ((push_response Pending (fst s), snd s), tasks @ [(next_response_idx (fst s), n)], Suc n)"
| answered: "Suc (length (ds_queue (fst s))) < 2 ^ 64 \<Longrightarrow>
    resp_step env res (s, tasks, n) (answer_now env (res n) s, tasks, Suc n)"
| finished: "handle_result env (res k) idx wake s = (Ok woken :: (unit, bool) outcome, s') \<Longrightarrow>
    resp_step env res (s, xs @ (idx, k) # ys, n) (s', xs @ ys, n)"

inductive resp_reachable ::
  "('w, 'fut, 'e, 'p) io_env \<Rightarrow> (nat \<Rightarrow> ('e, 'p) response) \<Rightarrow> 'w \<Rightarrow>
   (('e, 'p) DispatcherState \<times> 'w) \<times> (usize \<times> nat) list \<times> nat \<Rightarrow> bool" for env res w where
  start: "resp_reachable env res w ((\<lparr>ds_error = None, ds_base = 0, ds_queue = []\<rparr>, w), [], 0)"
| step: "\<lbrakk>resp_reachable env res w s; resp_step env res s s'\<rbrakk> \<Longrightarrow> resp_reachable env res w s'"

text \<open>The transport after some responses.\<close>

definition write_all :: "('w, 'fut, 'e, 'p) io_env \<Rightarrow> ('e, 'p) response list \<Rightarrow> 'w \<Rightarrow> 'w" where
  "write_all env rs w = fold (\<lambda>r w. snd (encode_result env r w)) rs w"

text \<open>The pending calls of a queue whose front is request \<open>m\<close> at index \<open>b\<close>.\<close>

fun pending_at :: "usize \<Rightarrow> nat \<Rightarrow> 'a ServiceResult list \<Rightarrow> (usize \<times> nat) list" where
  "pending_at b m [] = []"
| "pending_at b m (Pending # q) = (b, m) # pending_at (b + 1) (Suc m) q"
| "pending_at b m (Ready r # q) = pending_at (b + 1) (Suc m) q"

fun ready_ok :: "(nat \<Rightarrow> 'a) \<Rightarrow> nat \<Rightarrow> 'a ServiceResult list \<Rightarrow> bool" where
  "ready_ok res m [] = True"
| "ready_ok res m (Pending # q) = ready_ok res (Suc m) q"
| "ready_ok res m (Ready r # q) = (r = res m \<and> ready_ok res (Suc m) q)"

lemma write_all_simps [simp]:
  "write_all env [] w = w"
  "write_all env (r # rs) w = write_all env rs (snd (encode_result env r w))"
  "write_all env (rs @ rs') w = write_all env rs' (write_all env rs w)"
  by (simp_all add: write_all_def)

lemma write_response_simps [simp]:
  "snd (write_response env r s) = snd (encode_result env r (snd s))"
  "ds_base (fst (write_response env r s)) = ds_base (fst s)"
  "ds_queue (fst (write_response env r s)) = ds_queue (fst s)"
  by (simp_all add: write_response_def split: prod.splits option.splits)

lemma pending_at_append [simp]:
  "pending_at b m (q @ q') = pending_at b m q @ pending_at (b + of_nat (length q)) (m + length q) q'"
  by (induction b m q rule: pending_at.induct) (simp_all add: algebra_simps)

lemma ready_ok_append [simp]: "ready_ok res m (q @ q') \<longleftrightarrow> ready_ok res m q \<and> ready_ok res (m + length q) q'"
  by (induction res m q rule: ready_ok.induct) simp_all

lemma pending_at_Ready [simp]: "pending_at b m (map Ready rs) = []"
  by (induction rs arbitrary: b m) simp_all

lemma ready_ok_Ready: "ready_ok res m (map Ready rs) \<Longrightarrow> rs = map res [m..<m + length rs]"
proof (induction rs arbitrary: m)
  case (Cons r rs)
  from Cons.prems have "r = res m" "rs = map res [Suc m..<Suc m + length rs]"
    using Cons.IH [of "Suc m"] by simp_all
  then show ?case by (simp add: upt_conv_Cons del: upt_Suc)
qed simp

lemma pending_at_mem:
  "(idx, k) \<in> set (pending_at b m q) \<Longrightarrow>
    \<exists>q1 q2. q = q1 @ Pending # q2 \<and> idx = b + of_nat (length q1) \<and> k = m + length q1"
proof (induction b m q rule: pending_at.induct)
  case (2 b m q)
  then show ?case
  proof (cases "idx = b \<and> k = m")
    case True
    then show ?thesis by (intro exI [of _ "[]"] exI [of _ q]) simp
  next
    case False
    with 2 obtain q1 q2 where "q = q1 @ Pending # q2" "idx = b + 1 + of_nat (length q1)" "k = Suc m + length q1"
      by auto
    then show ?thesis by (intro exI [of _ "Pending # q1"] exI [of _ q2]) (simp add: algebra_simps)
  qed
next
  case (3 b m r q)
  then obtain q1 q2 where "q = q1 @ Pending # q2" "idx = b + 1 + of_nat (length q1)" "k = Suc m + length q1"
    by auto
  then show ?case by (intro exI [of _ "Ready r # q1"] exI [of _ q2]) (simp add: algebra_simps)
qed simp

text \<open>The front of a queue.\<close>

lemma queue_front:
  obtains rs q' where "q = map Ready rs @ q'" "q' = [] \<or> hd q' = Pending"
proof (induction q arbitrary: thesis)
  case (Cons x q)
  show ?case
  proof (cases x)
    case Pending
    then show ?thesis by (intro Cons.prems [of "[]" "x # q"]) simp_all
  next
    case (Ready r)
    from Cons.IH obtain rs q' where "q = map Ready rs @ q'" "q' = [] \<or> hd q' = Pending" .
    with Ready show ?thesis by (intro Cons.prems [of "r # rs" q']) simp_all
  qed
qed simp

lemma write_ready_front:
  assumes "q' = [] \<or> hd q' = Pending"
  shows "ds_queue (fst (write_ready env (map Ready rs @ q') s)) = q' \<and>
    ds_base (fst (write_ready env (map Ready rs @ q') s)) = ds_base (fst s) + of_nat (length rs) \<and>
    snd (write_ready env (map Ready rs @ q') s) = write_all env rs (snd s)"
proof (induction rs arbitrary: s)
  case Nil
  have "write_ready env q' s = ((fst s)\<lparr>ds_queue := q'\<rparr>, snd s)"
    using assms by (cases q') auto
  then show ?case by simp
qed (simp add: algebra_simps)

text \<open>The invariant: the responses of the requests before the queue are written in order, and the tasks are
  the pending places of the queue.\<close>

definition resp_inv ::
  "('w, 'fut, 'e, 'p) io_env \<Rightarrow> (nat \<Rightarrow> ('e, 'p) response) \<Rightarrow> 'w \<Rightarrow>
   (('e, 'p) DispatcherState \<times> 'w) \<times> (usize \<times> nat) list \<times> nat \<Rightarrow> bool" where
  "resp_inv env res w0 x \<longleftrightarrow> (case x of ((ds, w), tasks, n) \<Rightarrow>
     \<exists>m. n = m + length (ds_queue ds) \<and> length (ds_queue ds) < 2 ^ 64 \<and>
       w = write_all env (map res [0..<m]) w0 \<and> (ds_queue ds = [] \<or> hd (ds_queue ds) = Pending) \<and>
       ready_ok res m (ds_queue ds) \<and> mset tasks = mset (pending_at (ds_base ds) m (ds_queue ds)))"

lemma resp_invI:
  assumes "n = m + length (ds_queue (fst s))" "length (ds_queue (fst s)) < 2 ^ 64"
    "snd s = write_all env (map res [0..<m]) w0" "ds_queue (fst s) = [] \<or> hd (ds_queue (fst s)) = Pending"
    "ready_ok res m (ds_queue (fst s))" "mset tasks = mset (pending_at (ds_base (fst s)) m (ds_queue (fst s)))"
  shows "resp_inv env res w0 (s, tasks, n)"
  using assms by (auto simp: resp_inv_def split_beta)

lemma resp_inv_called:
  assumes "resp_inv env res w0 (s, tasks, n)" "Suc (length (ds_queue (fst s))) < 2 ^ 64"
  shows "resp_inv env res w0
    ((push_response Pending (fst s), snd s), tasks @ [(next_response_idx (fst s), n)], Suc n)"
proof -
  from assms obtain m where m: "n = m + length (ds_queue (fst s))"
      "snd s = write_all env (map res [0..<m]) w0" "ds_queue (fst s) = [] \<or> hd (ds_queue (fst s)) = Pending"
      "ready_ok res m (ds_queue (fst s))" "mset tasks = mset (pending_at (ds_base (fst s)) m (ds_queue (fst s)))"
    by (auto simp: resp_inv_def split_beta)
  then show ?thesis
    using assms(2)
    by (intro resp_invI [where m = m]) (auto simp: push_response_def next_response_idx_def hd_append)
qed

lemma resp_inv_answered:
  assumes "resp_inv env res w0 (s, tasks, n)" "Suc (length (ds_queue (fst s))) < 2 ^ 64"
  shows "resp_inv env res w0 (answer_now env (res n) s, tasks, Suc n)"
proof -
  from assms obtain m where m: "n = m + length (ds_queue (fst s))"
      "snd s = write_all env (map res [0..<m]) w0" "ds_queue (fst s) = [] \<or> hd (ds_queue (fst s)) = Pending"
      "ready_ok res m (ds_queue (fst s))" "mset tasks = mset (pending_at (ds_base (fst s)) m (ds_queue (fst s)))"
    by (auto simp: resp_inv_def split_beta)
  show ?thesis
  proof (cases "ds_queue (fst s) = []")
    case True
    with m show ?thesis
      by (intro resp_invI [where m = "Suc m"]) (simp_all add: answer_now_def)
  next
    case False
    with m assms(2) show ?thesis
      by (intro resp_invI [where m = m]) (auto simp: answer_now_def push_response_def hd_append)
  qed
qed

text \<open>The end of a pending call finds its place.\<close>

lemma resp_place:
  assumes "length q < 2 ^ 64" "(idx, k) \<in> set (pending_at b m q)"
  obtains q1 q2 where "q = q1 @ Pending # q2" "k = m + length q1" "idx = b + of_nat (length q1)"
    "unat (idx - b) = length q1"
proof -
  from pending_at_mem [OF assms(2)] obtain q1 q2 where
    q: "q = q1 @ Pending # q2" "k = m + length q1" "idx = b + of_nat (length q1)" by blast
  moreover have "unat (of_nat (length q1) :: usize) = length q1"
    using q(1) assms(1) by (simp add: unat_of_nat take_bit_nat_eq_self)
  ultimately show ?thesis using that by simp
qed

lemma handle_front:
  assumes "ds_queue (fst s) = Pending # map Ready rs @ q'" "q' = [] \<or> hd q' = Pending"
  shows "\<exists>s'. handle_result env r (ds_base (fst s)) wake s = (Ok (wake \<and> q' = []) :: (unit, bool) outcome, s') \<and>
    ds_queue (fst s') = q' \<and> ds_base (fst s') = ds_base (fst s) + 1 + of_nat (length rs) \<and>
    snd s' = write_all env (r # rs) (snd s)"
  using write_ready_front [OF assms(2), of env rs
      "write_response env r ((fst s)\<lparr>ds_base := ds_base (fst s) + 1\<rparr>, snd s)"] assms(1)
  by (simp add: handle_result_def Let_def)

lemma handle_later:
  assumes "ds_queue (fst s) = q1 @ Pending # q2" "q1 \<noteq> []" "unat (idx - ds_base (fst s)) = length q1"
  shows "handle_result env r idx wake s =
    (Ok False :: (unit, bool) outcome, ((fst s)\<lparr>ds_queue := q1 @ Ready r # q2\<rparr>, snd s))"
proof -
  have "idx - ds_base (fst s) \<noteq> 0" using assms(2,3) by auto
  with assms show ?thesis by (simp add: handle_result_def Let_def)
qed

lemma upt_split: "[0..<Suc (m + l)] = [0..<m] @ m # [Suc m..<Suc (m + l)]"
  using upt_add_eq_append [of 0 m "Suc l"] upt_conv_Cons [of m "m + Suc l"] by (simp del: upt_Suc)

text \<open>The end of a pending call succeeds and keeps the invariant.\<close>

lemma resp_inv_finished:
  assumes inv: "resp_inv env res w0 (s, xs @ (idx, k) # ys, n)"
  shows "\<exists>woken s'. handle_result env (res k) idx wake s = (Ok woken :: (unit, bool) outcome, s') \<and>
    resp_inv env res w0 (s', xs @ ys, n)"
proof -
  from inv obtain m where m: "n = m + length (ds_queue (fst s))" "length (ds_queue (fst s)) < 2 ^ 64"
      "snd s = write_all env (map res [0..<m]) w0" "ds_queue (fst s) = [] \<or> hd (ds_queue (fst s)) = Pending"
      "ready_ok res m (ds_queue (fst s))"
      "mset (xs @ (idx, k) # ys) = mset (pending_at (ds_base (fst s)) m (ds_queue (fst s)))"
    by (auto simp: resp_inv_def split_beta)
  have "(idx, k) \<in> set (pending_at (ds_base (fst s)) m (ds_queue (fst s)))"
    using m(6) by (metis in_set_conv_decomp mset_eq_setD)
  from resp_place [OF m(2) this] obtain q1 q2 where
    q: "ds_queue (fst s) = q1 @ Pending # q2" "k = m + length q1" "idx = ds_base (fst s) + of_nat (length q1)"
      "unat (idx - ds_base (fst s)) = length q1" .
  show ?thesis
  proof (cases "q1 = []")
    case True
    obtain rs q' where q2: "q2 = map Ready rs @ q'" "q' = [] \<or> hd q' = Pending"
      by (rule queue_front)
    from handle_front [of s rs q' env "res k" wake] q q2 True obtain s' where
      s': "handle_result env (res k) idx wake s = (Ok (wake \<and> q' = []) :: (unit, bool) outcome, s')"
        "ds_queue (fst s') = q'" "ds_base (fst s') = ds_base (fst s) + 1 + of_nat (length rs)"
        "snd s' = write_all env (res k # rs) (snd s)" by auto
    have rs: "rs = map res [Suc m..<Suc m + length rs]"
      using m(5) q(1) q2(1) True by (intro ready_ok_Ready) simp
    have "map res [0..<m + 1 + length rs] = map res [0..<m] @ res m # rs"
      using arg_cong [OF upt_split [of m "length rs"], of "map res"] rs by (simp del: upt_Suc)
    then have "resp_inv env res w0 (s', xs @ ys, n)"
      using m q q2 s' True
      by (intro resp_invI [where m = "m + 1 + length rs"]) (simp_all add: algebra_simps)
    with s'(1) show ?thesis by blast
  next
    case False
    note step = handle_later [OF q(1) False q(4), of env "res k" wake]
    have "resp_inv env res w0 (((fst s)\<lparr>ds_queue := q1 @ Ready (res k) # q2\<rparr>, snd s), xs @ ys, n)"
      using m q False by (intro resp_invI [where m = m]) (auto simp: hd_append)
    with step show ?thesis by blast
  qed
qed

lemma resp_inv_step:
  "\<lbrakk>resp_step env res x x'; resp_inv env res w0 x\<rbrakk> \<Longrightarrow> resp_inv env res w0 x'"
proof (induction rule: resp_step.induct)
  case (called s tasks n)
  then show ?case by (rule resp_inv_called [rotated])
next
  case (answered s tasks n)
  then show ?case by (rule resp_inv_answered [rotated])
next
  case (finished k idx wake s woken s' xs ys n)
  from resp_inv_finished [OF finished(2), of wake] finished(1) show ?case by auto
qed

lemma resp_inv_reachable: "resp_reachable env res w x \<Longrightarrow> resp_inv env res w x"
proof (induction rule: resp_reachable.induct)
  case start
  then show ?case by (intro resp_invI [where m = 0]) simp_all
next
  case (step x x')
  then show ?case by (blast intro: resp_inv_step)
qed

text \<open>What a pending call will answer is open: the loop's invariant does not depend on it.\<close>

lemma ready_ok_iff: "ready_ok res m q \<longleftrightarrow> (\<forall>j < length q. \<forall>r. q ! j = Ready r \<longrightarrow> r = res (m + j))"
proof (induction res m q rule: ready_ok.induct)
  case (2 res m q)
  then show ?case by (simp add: All_less_Suc2)
next
  case (3 res m r q)
  then show ?case by (auto simp: All_less_Suc2)
qed simp

lemma resp_inv_cases:
  assumes "resp_inv env res w0 (s, tasks, n)"
  obtains m where "n = m + length (ds_queue (fst s))" "snd s = write_all env (map res [0..<m]) w0"
    "\<forall>k \<in> snd ` set tasks. m \<le> k \<and> k < n \<and> ds_queue (fst s) ! (k - m) = Pending"
    "tasks = [] \<longrightarrow> m = n"
proof -
  from assms obtain m where m: "n = m + length (ds_queue (fst s))" "snd s = write_all env (map res [0..<m]) w0"
      "ds_queue (fst s) = [] \<or> hd (ds_queue (fst s)) = Pending"
      "mset tasks = mset (pending_at (ds_base (fst s)) m (ds_queue (fst s)))"
    by (auto simp: resp_inv_def split_beta)
  have "m \<le> k \<and> k < n \<and> ds_queue (fst s) ! (k - m) = Pending" if "(idx, k) \<in> set tasks" for idx k
    using that pending_at_mem [of idx k "ds_base (fst s)" m "ds_queue (fst s)"] m(1,4)
    by (force dest: mset_eq_setD)
  moreover have "m = n" if "tasks = []"
    using that m by (cases "ds_queue (fst s)") auto
  ultimately show ?thesis using that [OF m(1,2)] by force
qed

lemma resp_inv_update:
  assumes inv: "resp_inv env res w0 (s, tasks, n)" and k: "k \<in> snd ` set tasks \<or> n \<le> k"
  shows "resp_inv env (res(k := r)) w0 (s, tasks, n)"
proof -
  from inv obtain m where m: "n = m + length (ds_queue (fst s))" "length (ds_queue (fst s)) < 2 ^ 64"
      "snd s = write_all env (map res [0..<m]) w0" "ds_queue (fst s) = [] \<or> hd (ds_queue (fst s)) = Pending"
      "ready_ok res m (ds_queue (fst s))"
      "mset tasks = mset (pending_at (ds_base (fst s)) m (ds_queue (fst s)))"
    by (auto simp: resp_inv_def split_beta)
  have "\<forall>k \<in> snd ` set tasks. m \<le> k \<and> k < n \<and> ds_queue (fst s) ! (k - m) = Pending"
    using inv m(1) by (elim resp_inv_cases) simp
  with k m(1) have "m \<le> k" "k < n \<Longrightarrow> ds_queue (fst s) ! (k - m) = Pending"
    by (metis le_add1 le_trans, metis leD)
  with m(1,5) have "ready_ok (res(k := r)) m (ds_queue (fst s))"
    by (auto simp: ready_ok_iff)
  moreover have "map (res(k := r)) [0..<m] = map res [0..<m]"
    using \<open>m \<le> k\<close> by simp
  then have "snd s = write_all env (map (res(k := r)) [0..<m]) w0"
    using m(3) by (simp only:)
  ultimately show ?thesis
    using m(1,2,4,6) by (intro resp_invI [where m = m])
qed

lemma write_ready_shrinks: "length (ds_queue (fst (write_ready env q s))) \<le> length q"
  by (induction env q s rule: write_ready.induct) auto

lemma handle_result_shrinks:
  "handle_result env r idx wake l = (Ok woken :: (unit, bool) outcome, l') \<Longrightarrow>
    length (ds_queue (fst l')) \<le> length (ds_queue (fst l))"
  using write_ready_shrinks [of env "drop 1 (ds_queue (fst l))"
      "write_response env r ((fst l)\<lparr>ds_base := ds_base (fst l) + 1\<rparr>, snd l)"]
  by (auto simp: handle_result_def Let_def split: if_splits)

section \<open>Properties\<close>

text \<open>C17: Responses leave in the order of their requests: whatever the order in which the service finishes the
  calls, what has been written is exactly the responses of the first requests, each once and in request
  order; the end of a pending call never indexes outside the queue, and when no call is pending nothing is
  held back.\<close>

theorem io_responses_in_order:
  assumes "resp_reachable env res w0 (s, tasks, n)"
  shows "snd s = write_all env (map res [0..<n - length (ds_queue (fst s))]) w0 \<and>
    (tasks = [] \<longrightarrow> ds_queue (fst s) = []) \<and>
    (\<forall>(idx, k) \<in> set tasks. fst (handle_result env (res k) idx wake s :: (unit, bool) outcome \<times> _) \<noteq> Panic)"
proof (intro conjI)
  have inv: "resp_inv env res w0 (s, tasks, n)"
    by (rule resp_inv_reachable [OF assms])
  then obtain m where m: "n = m + length (ds_queue (fst s))" "snd s = write_all env (map res [0..<m]) w0"
      "ds_queue (fst s) = [] \<or> hd (ds_queue (fst s)) = Pending"
      "mset tasks = mset (pending_at (ds_base (fst s)) m (ds_queue (fst s)))"
    by (auto simp: resp_inv_def split_beta)
  then show "snd s = write_all env (map res [0..<n - length (ds_queue (fst s))]) w0" by simp
  show "tasks = [] \<longrightarrow> ds_queue (fst s) = []"
    using m by (cases "ds_queue (fst s)") auto
  have "fst (handle_result env (res k) idx wake s :: (unit, bool) outcome \<times> _) \<noteq> Panic"
    if task: "(idx, k) \<in> set tasks" for idx k
  proof -
    from task obtain xs ys where "tasks = xs @ (idx, k) # ys" by (meson split_list)
    with inv resp_inv_finished [of env res w0 s xs idx k ys n wake] show ?thesis
      by (metis fst_conv outcome.distinct(3))
  qed
  then show "\<forall>(idx, k) \<in> set tasks. fst (handle_result env (res k) idx wake s :: (unit, bool) outcome \<times> _) \<noteq> Panic"
    by auto
qed

text \<open>A transport that is the list of the responses written to it, with nothing to read.\<close>

definition log_env :: "(nat option list, unit, unit, nat) io_env" where
  "log_env =
    \<lparr>read_resume = id, read_pause = id, read_wake = id, read_is_ready = (\<lambda>_. False),
     read_decode = (\<lambda>w. (Inr None, w)),
     encode_result = (\<lambda>r w. case r of Inr p \<Rightarrow> (None, w @ [p]) | Inl e \<Rightarrow> (Some (Inl e), w)),
     is_keepalive = (\<lambda>_. False), is_dispatcher_stopped = (\<lambda>_. False), dispatcher_stopped = id,
     register_dispatcher = id, shutdown_io = id, take_io_error = (\<lambda>w. (None, w)),
     set_disconnect_timeout = (\<lambda>_. id), timer_now = (\<lambda>_. 0), timer_register = (\<lambda>_ _. id),
     timer_unregister = (\<lambda>_. id), service_poll_ready = (\<lambda>w. (Some (Inr ()), w)),
     service_call = (\<lambda>_ w. ((), w)), service_poll_shutdown = (\<lambda>_ w. (True, w)),
     future_poll = (\<lambda>_ w. (None, w)), spawn_response = (\<lambda>_ _. id)\<rparr>"

text \<open>The second of two requests is answered first.\<close>

lemma overtaking:
  "\<exists>ds. resp_reachable log_env (\<lambda>n. Inr (Some (10 + n))) [] ((ds, [Some 10, Some 11]), [], 2) \<and> ds_queue ds = []"
proof -
  let ?res = "\<lambda>n. Inr (Some (10 + n)) :: (unit, nat) response"
  let ?ds = "\<lambda>b q. \<lparr>ds_error = None, ds_base = b, ds_queue = q\<rparr> :: (unit, nat) DispatcherState"
  have step: "resp_reachable log_env ?res [] y" if "resp_step log_env ?res x y" "resp_reachable log_env ?res [] x" for x y
    using that by (blast intro: resp_reachable.step)
  have "resp_reachable log_env ?res [] ((?ds 0 [Pending], []), [(0, 0)], 1)"
    using step [OF resp_step.called resp_reachable.start] by (simp add: push_response_def next_response_idx_def)
  then have "resp_reachable log_env ?res [] ((?ds 0 [Pending, Pending], []), [(0, 0), (1, 1)], Suc 1)"
    by (rule step [rotated])
       (use resp_step.called [of "(?ds 0 [Pending], [])" log_env ?res "[(0, 0)]" 1]
        in \<open>simp add: push_response_def next_response_idx_def\<close>)
  then have "resp_reachable log_env ?res [] ((?ds 0 [Pending, Ready (?res 1)], []), [(0, 0)], Suc 1)"
    by (rule step [rotated])
       (use resp_step.finished [of log_env ?res 1 1 True "(?ds 0 [Pending, Pending], [])" False _ "[(0, 0)]" "[]" "Suc 1"]
        in \<open>simp add: handle_result_def\<close>)
  then have "resp_reachable log_env ?res [] ((?ds 2 [], [Some 10, Some 11]), [], Suc 1)"
    by (rule step [rotated])
       (use resp_step.finished [of log_env ?res 0 0 True "(?ds 0 [Pending, Ready (?res 1)], [])" True _ "[]" "[]" "Suc 1"]
        in \<open>simp add: handle_result_def write_response_def log_env_def\<close>)
  then show ?thesis by (intro exI [of _ "?ds 2 []"]) (simp add: numeral_2_eq_2)
qed

theorem io_responses_in_order_witness:
  "\<exists>ds :: (unit, nat) DispatcherState. ds_queue ds = [] \<and>
    [Some 10, Some 11] = write_all log_env (map (\<lambda>n. Inr (Some (10 + n))) [0..<2 - length (ds_queue ds)]) []"
proof -
  from overtaking obtain ds where
    "resp_reachable log_env (\<lambda>n. Inr (Some (10 + n))) [] ((ds, [Some 10, Some 11]), [], 2)" "ds_queue ds = []"
    by blast
  with io_responses_in_order [OF this(1)] show ?thesis by (intro exI [of _ ds]) simp
qed

section \<open>The poll returns\<close>

text \<open>What the loop relies on: the transport holds a finite amount of input, a decoded packet takes some of it,
  and nothing that the loop calls adds to it.\<close>

definition finite_input :: "('w, 'fut, 'e, 'p) io_env \<Rightarrow> ('w \<Rightarrow> nat) \<Rightarrow> bool" where
  "finite_input env left \<longleftrightarrow>
    (\<forall>w. left (read_resume env w) \<le> left w \<and> left (read_pause env w) \<le> left w \<and>
       left (dispatcher_stopped env w) \<le> left w \<and> left (shutdown_io env w) \<le> left w \<and>
       left (snd (take_io_error env w)) \<le> left w \<and> left (snd (service_poll_ready env w)) \<le> left w) \<and>
    (\<forall>w r. left (snd (encode_result env r w)) \<le> left w) \<and>
    (\<forall>w t u. left (timer_register env t u w) \<le> left w \<and> left (timer_unregister env t w) \<le> left w) \<and>
    (\<forall>w item. left (snd (service_call env item w)) \<le> left w) \<and>
    (\<forall>w f. left (snd (future_poll env f w)) \<le> left w) \<and>
    (\<forall>w f i. left (spawn_response env f i w) \<le> left w) \<and>
    (\<forall>w r w'. read_decode env w = (r, w') \<longrightarrow> left w' \<le> left w \<and> (\<forall>el. r = Inr (Some el) \<longrightarrow> left w' < left w))"

fun st_rank :: "IoDispatcherState \<Rightarrow> nat" where
  "st_rank Processing = 2" | "st_rank Stop = 1" | "st_rank Shutdown = 0"

definition rank :: "('w \<Rightarrow> nat) \<Rightarrow> ('w, 'fut, 'e, 'p) loop_state \<Rightarrow> nat" where
  "rank left s = left (snd s) + st_rank (io_st (fst s))"

lemma finite_input_world:
  assumes "finite_input env left"
  shows "left (read_resume env w) \<le> left w" "left (dispatcher_stopped env w) \<le> left w"
    "left (shutdown_io env w) \<le> left w" "left (timer_register env t u w) \<le> left w"
    "left (timer_unregister env t w) \<le> left w" "left (spawn_response env f i w) \<le> left w"
    "left (snd (encode_result env r w)) \<le> left w"
  using assms by (simp_all add: finite_input_def)

lemma finite_input_results:
  assumes "finite_input env left"
  shows "take_io_error env w = (e, w') \<Longrightarrow> left w' \<le> left w"
    "service_poll_ready env w = (x, w') \<Longrightarrow> left w' \<le> left w"
    "service_call env item w = (fut, w') \<Longrightarrow> left w' \<le> left w"
    "future_poll env f w = (y, w') \<Longrightarrow> left w' \<le> left w"
    "read_decode env w = (z, w') \<Longrightarrow> left w' \<le> left w"
    "read_decode env w = (Inr (Some el), w') \<Longrightarrow> left w' < left w"
  using assms unfolding finite_input_def by (metis snd_conv)+

lemma write_response_left:
  "finite_input env left \<Longrightarrow> left (snd (write_response env r s)) \<le> left (snd s)"
  by (simp add: finite_input_world)

lemma write_ready_left:
  "finite_input env left \<Longrightarrow> left (snd (write_ready env q s)) \<le> left (snd s)"
  by (induction env q s rule: write_ready.induct)
     (auto intro: order_trans [OF _ write_response_left])

lemma handle_result_left:
  assumes "finite_input env left" "handle_result env r idx wake s = (x, s')"
  shows "left (snd s') \<le> left (snd s)"
  using assms(2) order_trans [OF write_ready_left [OF assms(1)] write_response_left [OF assms(1)]]
  by (auto simp: handle_result_def Let_def split: if_splits)

text \<open>The three outcomes of polling the first call's future.\<close>

lemma poll_response_cases:
  assumes "poll_response env (d, w) = (x :: ('err, unit) outcome, s')"
  obtains (none) "io_response d = None" "x = Ok ()" "s' = (d, w)"
  | (pending) fut w' where "future_poll env fut w = (None, w')" "x = Ok ()" "s' = (d, w')"
  | (answered) fut item w1 and r :: "('err, bool) outcome" and ds w2 d' where
      "future_poll env fut w = (Some item, w1)"
      "handle_result env item (io_response_idx d) False (io_inner d, w1) = (r, (ds, w2))"
      "x = map_outcome id (\<lambda>_. ()) r" "s' = (d', w2)" "io_inner d' = ds" "io_st d' = io_st d"
proof (cases "io_response d")
  case None
  with assms none show ?thesis by (simp add: poll_response_def)
next
  case (Some fut)
  obtain res w1 where poll: "future_poll env fut w = (res, w1)" by fastforce
  show ?thesis
  proof (cases res)
    case None
    with assms Some poll pending show ?thesis by (simp add: poll_response_def)
  next
    case (Some item)
    obtain r :: "('err, bool) outcome" and ds w2 where r: "handle_result env item (io_response_idx d) False (io_inner d, w1) = (r, (ds, w2))"
      by (metis prod.exhaust)
    show ?thesis
      using assms Some \<open>io_response d = Some fut\<close> poll r
      by (intro answered [of fut item w1 r ds w2 "fst s'"]) (auto simp: poll_response_def split: outcome.splits)
  qed
qed

lemma poll_response_rank:
  assumes "finite_input env left" "poll_response env s = (x, s')"
  shows "rank left s' \<le> rank left s"
proof -
  obtain d w where s: "s = (d, w)" by fastforce
  from assms(2) [unfolded s] show ?thesis
  proof (cases rule: poll_response_cases)
    case none
    then show ?thesis using s by simp
  next
    case (pending fut w')
    then show ?thesis using s finite_input_results(4) [OF assms(1)] by (simp add: rank_def)
  next
    case (answered fut item w1 r ds w2 d')
    then show ?thesis
      using s finite_input_results(4) [OF assms(1) answered(1)] handle_result_left [OF assms(1) answered(2)]
      by (simp add: rank_def)
  qed
qed

lemma unregister_keepalive_left:
  "finite_input env left \<Longrightarrow> left (unregister_keepalive env d w) \<le> left w"
  by (simp add: unregister_keepalive_def finite_input_world)

lemma keepalive_left:
  assumes "finite_input env left"
  shows "left (snd (check_keepalive env s)) \<le> left (snd s) \<and> io_st (fst (check_keepalive env s)) = io_st (fst s)"
    "left (snd (update_keepalive env s)) \<le> left (snd s) \<and> io_st (fst (update_keepalive env s)) = io_st (fst s)"
  using finite_input_world [OF assms]
  by (simp_all add: check_keepalive_def update_keepalive_def Let_def split_beta)

lemma answer_now_left:
  "finite_input env left \<Longrightarrow> left (snd (answer_now env r s)) \<le> left (snd s)"
  by (simp add: answer_now_def write_response_left del: write_response_simps)

lemma call_service_left:
  assumes "finite_input env left"
  shows "left (snd (call_service env item s)) \<le> left (snd s) \<and> io_st (fst (call_service env item s)) = io_st (fst s)"
proof -
  obtain d w where s: "s = (d, w)" by fastforce
  obtain fut w1 where call: "service_call env item w = (fut, w1)" by fastforce
  obtain res w2 where poll: "future_poll env fut w1 = (res, w2)" by fastforce
  have left: "left w1 \<le> left w" "left w2 \<le> left w"
    using finite_input_results(3) [OF assms call] finite_input_results(4) [OF assms poll] by simp_all
  show ?thesis
  proof (cases "io_response d = None")
    case True
    have "left (snd (answer_now env r (io_inner d, w2))) \<le> left w" for r
      using answer_now_left [OF assms, of r "(io_inner d, w2)"] left by simp
    with True s call poll left show ?thesis
      by (cases res) (simp_all add: call_service_def Let_def split_beta)
  next
    case False
    then show ?thesis
      using s call left order_trans [OF finite_input_world(6) [OF assms]]
      by (auto simp: call_service_def Let_def)
  qed
qed

lemma call_and_go_on_rank:
  assumes "finite_input env left" "call_and_go_on env retry (item, s) = (a, s')"
  shows "rank left s' \<le> rank left s"
  using assms(2) call_service_left [OF assms(1), of "the item" s]
  by (cases item) (auto simp: call_and_go_on_def rank_def)

lemma stopped_item_rank:
  assumes "finite_input env left" "stopped_item env (d, w) = (item, s')" "io_st d = Processing"
  shows "rank left s' < rank left (d, w)"
proof -
  obtain r w1 where dec: "read_decode env (unregister_keepalive env d w) = (r, w1)" by fastforce
  have w1: "left w1 \<le> left w" "r = Inr (Some el) \<Longrightarrow> left w1 < left w" for el
    using unregister_keepalive_left [OF assms(1), of d w] finite_input_results(5,6) [OF assms(1)] dec
    by (force dest: order_trans)+
  show ?thesis
  proof (cases "\<exists>el. r = Inr (Some el)")
    case True
    with assms(2,3) dec w1 show ?thesis by (auto simp: stopped_item_def rank_def)
  next
    case False
    have "left (snd (take_io_error env w1)) \<le> left w"
      using assms(1) w1(1) unfolding finite_input_def by (meson order_trans)
    then have "io_st (fst s') = Stop" "left (snd s') \<le> left w"
      using assms(2) dec w1(1) False
      by (auto simp: stopped_item_def Let_def split_beta split: sum.splits option.splits)
    with assms(3) show ?thesis by (simp add: rank_def)
  qed
qed

lemma processing_rank:
  assumes fin: "finite_input env left" and "processing env (d, w) = (a, s')" "io_st d = Processing"
    and "\<forall>r. a \<noteq> Return r"
  shows "rank left s' < rank left (d, w)"
proof -
  obtain x w1 where ready: "service_poll_ready env w = (x, w1)" by fastforce
  have w1: "left w1 \<le> left w" by (rule finite_input_results(2) [OF fin ready])
  from assms(2,4) ready consider (ok) "x = Some (Inr ())" | (err) e where "x = Some (Inl e)"
    by (cases x; cases "the x") (auto simp: processing_def)
  then show ?thesis
  proof cases
    case ok
    obtain d2 w2 where ka: "check_keepalive env (d, read_resume env w1) = (d2, w2)" by fastforce
    have d2: "left w2 \<le> left w" "io_st d2 = Processing"
      using keepalive_left(1) [OF fin, of "(d, read_resume env w1)"] ka finite_input_world(1) [OF fin, of w1] w1 assms(3)
      by simp_all
    show ?thesis
    proof (cases "is_dispatcher_stopped env w2")
      case True
      obtain item s2 where "stopped_item env (d2, w2) = (item, s2)" by (cases "stopped_item env (d2, w2)")
      with True ok ready ka assms(2) have "call_and_go_on env True (item, s2) = (a, s')" "rank left s2 < rank left (d2, w2)"
        using stopped_item_rank [OF fin] d2(2) by (auto simp: processing_def)
      then show ?thesis
        using call_and_go_on_rank [OF fin, of True item s2 a s'] d2 assms(3) by (simp add: rank_def)
    next
      case False
      obtain r w3 where dec: "read_decode env w2 = (r, w3)" by fastforce
      from False ok ready ka dec assms(2,4)
      consider el where "r = Inr (Some el)" "call_and_go_on env False (Some (Item el), update_keepalive env (d2, w3)) = (a, s')"
        | e where "r = Inl e" "call_and_go_on env True
            (Some (DecoderError e), (d2\<lparr>io_st := Stop\<rparr>, unregister_keepalive env d2 w3)) = (a, s')"
        by (auto simp: processing_def split: if_splits sum.splits option.splits)
      then show ?thesis
      proof cases
        case 1
        then show ?thesis
          using call_and_go_on_rank [OF fin 1(2)] keepalive_left(2) [OF fin, of "(d2, w3)"]
            finite_input_results(6) [OF fin dec [unfolded 1(1)]] d2 assms(3)
          by (simp add: rank_def)
      next
        case 2
        then show ?thesis
          using call_and_go_on_rank [OF fin 2(2)] unregister_keepalive_left [OF fin, of d2 w3]
            finite_input_results(5) [OF fin dec] d2 assms(3)
          by (simp add: rank_def)
      qed
    qed
  next
    case err
    then show ?thesis
      using assms(2,3) ready w1 unregister_keepalive_left [OF fin, of d "dispatcher_stopped env w1"]
        finite_input_world(2) [OF fin, of w1]
      by (auto simp: processing_def rank_def)
  qed
qed

lemma poll_state_rank:
  assumes fin: "finite_input env left" and "poll_state env s = (a, s')" and "\<forall>r. a \<noteq> Return r"
  shows "rank left s' < rank left s"
proof (cases "io_st (fst s)")
  case Processing
  then show ?thesis
    using processing_rank [OF fin, of "fst s" "snd s" a s'] assms(2,3) by (simp add: poll_state_def)
next
  case Stop
  then show ?thesis
    using assms(2,3) finite_input_world(3) [OF fin, of "snd (service_poll_ready env (snd s))"]
      finite_input_results(2) [OF fin, of "snd s" "fst (service_poll_ready env (snd s))" "snd (service_poll_ready env (snd s))"]
    by (auto simp: poll_state_def stopping_def rank_def Let_def split_beta split: if_splits)
next
  case Shutdown
  then show ?thesis
    using assms(2,3) by (auto simp: poll_state_def shutting_down_def Let_def split_beta split: if_splits)
qed

lemma handle_result_returns:
  "handle_result env r idx wake s = (x, s') \<Longrightarrow> x \<noteq> Diverge \<and> (\<forall>e. x \<noteq> Err e)"
  by (auto simp: handle_result_def Let_def split: if_splits)

lemma poll_response_returns:
  assumes "poll_response env s = (x, s')"
  shows "x \<noteq> Diverge"
proof -
  obtain d w where s: "s = (d, w)" by fastforce
  from assms [unfolded s] show ?thesis
    by (cases rule: poll_response_cases) (auto dest!: handle_result_returns simp: outcome.map_disc_iff split: outcome.splits)
qed

lemma poll_enough_fuel:
  assumes fin: "finite_input env left"
  shows "rank left s < n \<Longrightarrow> fst (poll env n start s :: ('err, _) outcome \<times> _) \<noteq> Diverge"
proof (induction n arbitrary: start s)
  case (Suc n)
  obtain x :: "('err, unit) outcome" and s1 where
    x: "(if start then poll_response env else (\<lambda>s. (Ok (), s))) s = (x, s1)" by (metis prod.exhaust)
  have s1: "x \<noteq> Diverge" "rank left s1 \<le> rank left s"
    using x poll_response_returns [of env s x s1] poll_response_rank [OF fin, of s x s1] by (auto split: if_splits)
  obtain a s2 where a: "poll_state env s1 = (a, s2)" by (cases "poll_state env s1")
  have "rank left s2 < n" if "\<forall>r. a \<noteq> Return r"
    using poll_state_rank [OF fin a that] s1(2) Suc.prems by simp
  with x s1(1) a Suc.IH show ?case
    by (cases a; cases x) (simp_all add: act_then_def)
qed simp

text \<open>The state \<open>Shutdown\<close> is reached with an empty queue only.\<close>

lemma loop_st [simp]:
  "io_st (fst (check_keepalive env s)) = io_st (fst s)"
  "io_st (fst (update_keepalive env s)) = io_st (fst s)"
  "io_st (fst (call_service env item s)) = io_st (fst s)"
  by (simp_all add: check_keepalive_def update_keepalive_def call_service_def Let_def split_beta split: option.split)

lemma stopped_item_st:
  "stopped_item env s = (item, s') \<Longrightarrow> io_st (fst s') = io_st (fst s) \<or> io_st (fst s') = Stop"
  by (auto simp: stopped_item_def Let_def split_beta split: sum.splits option.splits)

lemma call_and_go_on_st:
  "call_and_go_on env retry (item, s) = (a, s') \<Longrightarrow> io_st (fst s') = io_st (fst s) \<and> (\<forall>r. a \<noteq> Return r)"
  by (auto simp: call_and_go_on_def split: option.splits if_splits)

lemma processing_st:
  assumes "processing env (d, w) = (a, s')" "io_st d = Processing"
  shows "io_st (fst s') \<noteq> Shutdown \<and> a \<noteq> Return (Some r)"
proof (cases "service_poll_ready env w")
  case (Pair x w1)
  obtain d2 w2 where ka: "check_keepalive env (d, read_resume env w1) = (d2, w2)" by fastforce
  have d2: "io_st d2 = Processing"
    using loop_st(1) [of env "(d, read_resume env w1)"] ka assms(2) by simp
  obtain item s2 where stopped: "stopped_item env (d2, w2) = (item, s2)" by (cases "stopped_item env (d2, w2)")
  have "io_st (fst s2) \<noteq> Shutdown" using stopped_item_st [OF stopped] d2 by auto
  moreover have "io_st (fst (update_keepalive env (d2, w3))) = Processing" for w3
    using loop_st(2) [of env "(d2, w3)"] d2 by simp
  ultimately show ?thesis
    using assms Pair ka stopped d2
    by (auto simp: processing_def dest!: call_and_go_on_st split: option.splits sum.splits if_splits prod.splits)
qed

definition drained :: "('w, 'fut, 'e, 'p) loop_state \<Rightarrow> bool" where
  "drained s \<longleftrightarrow> (io_st (fst s) = Shutdown \<longrightarrow> ds_queue (io_inner (fst s)) = [])"

lemma handle_result_empty:
  "\<lbrakk>handle_result env r idx wake s = (Ok b, s'); ds_queue (fst s) = []\<rbrakk> \<Longrightarrow> ds_queue (fst s') = []"
  by (auto simp: handle_result_def Let_def split: if_splits)

lemma poll_response_drained:
  assumes "poll_response env s = (Ok x, s')" "drained s"
  shows "drained s'"
proof -
  obtain d w where s: "s = (d, w)" by fastforce
  from assms(1) [unfolded s] show ?thesis
  proof (cases rule: poll_response_cases)
    case (answered fut item w1 r ds w2 d')
    then obtain b where "r = Ok b" by (cases r) simp_all
    with answered assms(2) s handle_result_empty [OF answered(2) [unfolded \<open>r = Ok b\<close>]] show ?thesis
      by (auto simp: drained_def)
  qed (use assms(2) s in \<open>auto simp: drained_def\<close>)
qed

lemma poll_state_drained:
  assumes "poll_state env s = (a, s')" "drained s"
  shows "drained s' \<and> (a = Return (Some r) \<longrightarrow> io_st (fst s') = Shutdown)"
proof (cases "io_st (fst s)")
  case Processing
  then show ?thesis
    using processing_st [of env "fst s" "snd s" a s'] assms(1) by (auto simp: poll_state_def drained_def)
next
  case Stop
  then show ?thesis
    using assms by (auto simp: poll_state_def stopping_def drained_def Let_def split_beta split: if_splits)
next
  case Shutdown
  then show ?thesis
    using assms by (auto simp: poll_state_def shutting_down_def drained_def Let_def split_beta split: if_splits)
qed

lemma poll_drained:
  "\<lbrakk>poll env n start s = (Ok (Some r) :: ('err, _) outcome, s'); drained s\<rbrakk> \<Longrightarrow> drained s' \<and> io_st (fst s') = Shutdown"
proof (induction n arbitrary: start s)
  case (Suc n)
  obtain x :: "('err, unit) outcome" and s1 where
    x: "(if start then poll_response env else (\<lambda>s. (Ok (), s))) s = (x, s1)" by (metis prod.exhaust)
  then have ok: "x = Ok ()" using Suc.prems(1) by (cases x) (auto simp: act_then_def)
  then have s1: "drained s1" using x Suc.prems(2) poll_response_drained [of env s "()" s1] by (auto split: if_splits)
  obtain a s2 where a: "poll_state env s1 = (a, s2)" by (cases "poll_state env s1")
  show ?case
    using Suc x ok a poll_state_drained [OF a s1, of r] by (cases a) (auto simp: act_then_def)
qed simp

text \<open>C18: A poll of the transport loop returns: if the transport holds a finite amount of input, of which every
  decoded packet takes some and to which nothing adds, the number of iterations is at most the amount plus
  three (the last ones stop, drain and shut down).\<close>

theorem io_poll_returns:
  assumes "finite_input env left" and "left w + 3 \<le> n"
  shows "fst (poll env n True (d, w) :: (unit, _) outcome \<times> _) \<noteq> Diverge"
proof (rule poll_enough_fuel [OF assms(1)])
  show "rank left (d, w) < n"
    using assms(2) by (cases "io_st d") (simp_all add: rank_def)
qed

theorem io_poll_returns_witness:
  "fst (poll log_env 3 True (fst (Dispatcher_with log_env []), []) :: (unit, _) outcome \<times> _) \<noteq> Diverge"
  using io_poll_returns [of log_env "\<lambda>_. 0" "[]" 3 "fst (Dispatcher_with log_env [])"]
  by (simp add: finite_input_def log_env_def split: sum.split)

text \<open>C19: The loop drains before it ends: when a poll completes, the loop is in its shutdown state and the
  response queue is empty, so that no response of a handled request is left behind.\<close>

theorem io_poll_drains:
  assumes "io_st d = Shutdown \<longrightarrow> ds_queue (io_inner d) = []"
    and "poll env n start (d, w) = (Ok (Some r) :: (unit, _) outcome, (d', w'))"
  shows "io_st d' = Shutdown \<and> ds_queue (io_inner d') = []"
  using poll_drained [OF assms(2)] assms(1) by (simp add: drained_def)

text \<open>The keep-alive timeout of an idle connection: the service answers with a packet, which is written
  before the loop ends.\<close>

definition expired_env :: "(nat option list, unit, unit, nat) io_env" where
  "expired_env = log_env\<lparr>is_keepalive := \<lambda>_. True, is_dispatcher_stopped := \<lambda>_. True,
     future_poll := \<lambda>_ w. (Some (Inr (Some 5)), w)\<rparr>"

lemma expired_poll:
  "\<exists>d'. poll expired_env 3 True (fst (Dispatcher_with expired_env []), []) =
    (Ok (Some (Inr ())) :: (unit, _) outcome, (d', [Some 5]))"
  by (simp add: numeral_3_eq_3 act_then_def poll_response_def poll_state_def processing_def check_keepalive_def
      stopped_item_def unregister_keepalive_def IoDispatcherError_take_def call_and_go_on_def call_service_def
      answer_now_def write_response_def stopping_def shutting_down_def Dispatcher_with_def expired_env_def
      log_env_def)

theorem io_poll_drains_witness:
  "\<exists>d'. poll expired_env 3 True (fst (Dispatcher_with expired_env []), []) =
    (Ok (Some (Inr ())) :: (unit, _) outcome, (d', [Some 5])) \<and> ds_queue (io_inner d') = []"
proof -
  have "io_st (fst (Dispatcher_with expired_env [])) = Shutdown \<longrightarrow>
      ds_queue (io_inner (fst (Dispatcher_with expired_env []))) = []"
    by (simp add: Dispatcher_with_def Let_def)
  from io_poll_drains [OF this] expired_poll show ?thesis by metis
qed

end
