(* ===== verification/Connection.thy ===== *)
theory Connection
  imports Io_Dispatcher
begin

text \<open>
  A connection between a client and a server of this crate, for either protocol version. The client has a sink,
  with which the application sends requests, and a dispatcher, which reads the replies; the server has a
  dispatcher, whose handlers answer the requests in any order, and the transport loop of \<^verbatim>\<open>io.rs\<close>, which writes
  the answers. A direction of the connection is the sequence of the packets written to it, with the number of
  packets that the other side has read.

  What the two sides promise each other is the locale \<open>connection\<close>; the theories \<open>V3_Connection\<close> and
  \<open>V5_Connection\<close> show it of the two protocols' sinks and dispatchers.
\<close>

section \<open>Both sides\<close>

text \<open>The operations of the two sides: the client sends some requests, the client reads a packet, what the client
  has written; the server reads a packet, for which there is a handler then, and a handler answers.\<close>

record ('cl, 'sv, 'f, 'p, 'req, 'e) peers =
  client_sends :: "'cl \<Rightarrow> 'req list \<Rightarrow> 'cl \<Rightarrow> bool"
  client_reads :: "'p \<Rightarrow> 'cl \<Rightarrow> 'cl \<Rightarrow> bool"
  client_out :: "'cl \<Rightarrow> 'p list"
  server_reads :: "'p \<Rightarrow> 'sv \<Rightarrow> 'f \<Rightarrow> 'sv \<Rightarrow> bool"
  server_answers :: "'f \<Rightarrow> 'sv \<Rightarrow> ('e, 'p) response \<Rightarrow> 'sv \<Rightarrow> bool"

text \<open>The state of a connection. \<open>sent_reqs\<close> is the history of the requests whose packets the client has sent, with the
  channel of the sender; a sender that waits for credit has not sent its packet and is not in it.\<close>

record ('cl, 'sv, 'f, 'p, 'req, 'e, 'w) conn =
  cl :: 'cl
  sent_reqs :: "'req list"
  up_read :: nat
  sv :: 'sv
  sv_loop :: "('e, 'p) DispatcherState \<times> 'w"
  sv_tasks :: "((usize \<times> nat) \<times> 'f) list"
  down_read :: nat

text \<open>The packets from the client and those to it.\<close>

abbreviation up :: "('cl, 'sv, 'f, 'p, 'req, 'e) peers \<Rightarrow> ('cl, 'sv, 'f, 'p, 'req, 'e, 'w) conn \<Rightarrow> 'p list" where
  "up P c \<equiv> client_out P (cl c)"

abbreviation down :: "('w \<Rightarrow> 'p list) \<Rightarrow> ('cl, 'sv, 'f, 'p, 'req, 'e, 'w) conn \<Rightarrow> 'p list" where
  "down wr c \<equiv> wr (snd (sv_loop c))"

text \<open>The application of the client sends; the server reads a packet, whose handler is pending or answers at
  once; a pending handler answers; the client reads a packet.\<close>

inductive conn_step ::
  "('cl, 'sv, 'f, 'p, 'req, 'e) peers \<Rightarrow> ('w, 'fut, 'e, 'p) io_env \<Rightarrow> ('w \<Rightarrow> 'p list) \<Rightarrow>
   ('cl, 'sv, 'f, 'p, 'req, 'e, 'w) conn \<Rightarrow> ('cl, 'sv, 'f, 'p, 'req, 'e, 'w) conn \<Rightarrow> bool" for P env wr where
  client: "client_sends P (cl c) reqs d \<Longrightarrow> conn_step P env wr c (c\<lparr>cl := d, sent_reqs := sent_reqs c @ reqs\<rparr>)"
| called: "\<lbrakk>up_read c < length (up P c); Suc (length (ds_queue (fst (sv_loop c)))) < 2 ^ 64;
     server_reads P (up P c ! up_read c) (sv c) f d\<rbrakk> \<Longrightarrow>
    conn_step P env wr c
      (c\<lparr>up_read := Suc (up_read c), sv := d, sv_loop := (push_response Pending (fst (sv_loop c)), snd (sv_loop c)),
         sv_tasks := sv_tasks c @ [((next_response_idx (fst (sv_loop c)), up_read c), f)]\<rparr>)"
| answered: "\<lbrakk>up_read c < length (up P c); Suc (length (ds_queue (fst (sv_loop c)))) < 2 ^ 64;
     server_reads P (up P c ! up_read c) (sv c) f d; server_answers P f d r d'\<rbrakk> \<Longrightarrow>
    conn_step P env wr c
      (c\<lparr>up_read := Suc (up_read c), sv := d', sv_loop := answer_now env r (sv_loop c)\<rparr>)"
| finished: "\<lbrakk>sv_tasks c = xs @ ((idx, k), f) # ys; server_answers P f (sv c) r d;
     handle_result env r idx wake (sv_loop c) = (Ok woken :: (unit, bool) outcome, l)\<rbrakk> \<Longrightarrow>
    conn_step P env wr c (c\<lparr>sv := d, sv_loop := l, sv_tasks := xs @ ys\<rparr>)"
| received: "\<lbrakk>down_read c < length (down wr c); client_reads P (down wr c ! down_read c) (cl c) d\<rbrakk> \<Longrightarrow>
    conn_step P env wr c (c\<lparr>cl := d, down_read := Suc (down_read c)\<rparr>)"

text \<open>A connection on which nothing has happened yet.\<close>

definition conn_start :: "'cl \<Rightarrow> 'sv \<Rightarrow> 'w \<Rightarrow> ('cl, 'sv, 'f, 'p, 'req, 'e, 'w) conn" where
  "conn_start d s w =
    \<lparr>cl = d, sent_reqs = [], up_read = 0, sv = s, sv_loop = (\<lparr>ds_error = None, ds_base = 0, ds_queue = []\<rparr>, w),
     sv_tasks = [], down_read = 0\<rparr>"

abbreviation conn_reaches ::
  "('cl, 'sv, 'f, 'p, 'req, 'e) peers \<Rightarrow> ('w, 'fut, 'e, 'p) io_env \<Rightarrow> ('w \<Rightarrow> 'p list) \<Rightarrow>
   ('cl, 'sv, 'f, 'p, 'req, 'e, 'w) conn \<Rightarrow> ('cl, 'sv, 'f, 'p, 'req, 'e, 'w) conn \<Rightarrow> bool" where
  "conn_reaches P env wr \<equiv> (conn_step P env wr)\<^sup>*\<^sup>*"

text \<open>The loop's transport appends the response to what it has written \<open>wr\<close>.\<close>

definition replies_of :: "('e, 'p) response \<Rightarrow> 'p list" where
  "replies_of r = (case r of Inr (Some p) \<Rightarrow> [p] | _ \<Rightarrow> [])"

definition loop_logs :: "('w, 'fut, 'e, 'p) io_env \<Rightarrow> ('w \<Rightarrow> 'p list) \<Rightarrow> bool" where
  "loop_logs env wr \<longleftrightarrow> (\<forall>p w. fst (encode_result env (Inr p) w) = None \<and>
     wr (snd (encode_result env (Inr p) w)) = wr w @ replies_of (Inr p :: ('e, 'p) response))"

lemma write_all_replies:
  assumes "loop_logs env wr" "\<forall>r \<in> set rs. \<exists>x. r = Inr x"
  shows "wr (write_all env rs w) = wr w @ concat (map replies_of rs)"
  using assms(2)
proof (induction rs arbitrary: w)
  case (Cons r rs)
  then obtain x where "r = Inr x" by auto
  with Cons assms(1) show ?case by (simp add: loop_logs_def)
qed simp

text \<open>The requests that a server works on, by their number, and those whose responses are written.\<close>

abbreviation works_on :: "((usize \<times> nat) \<times> 'f) list \<Rightarrow> nat set" where
  "works_on ts \<equiv> snd ` fst ` set ts"

abbreviation front :: "('e, 'p) DispatcherState \<times> 'w \<Rightarrow> nat \<Rightarrow> nat" where
  "front l n \<equiv> n - length (ds_queue (fst l))"

lemma front_answer_now: "front l n \<le> front (answer_now env r l) (Suc n)"
  by (auto simp: answer_now_def push_response_def)

abbreviation key_of :: "u16 \<times> 'tx \<times> 'tp \<Rightarrow> u16 \<times> 'tp" where
  "key_of e \<equiv> (fst e, snd (snd e))"

text \<open>The keys of some packets: for each, the identifier and the kind of the request that it makes or answers.\<close>

abbreviation keys :: "('p \<Rightarrow> (u16 \<times> 'tp) list) \<Rightarrow> 'p list \<Rightarrow> (u16 \<times> 'tp) list" where
  "keys key ps \<equiv> concat (map key ps)"

lemma keys_split: "keys key ps = keys key (take m ps) @ keys key (drop m ps)"
  by (metis append_take_drop_id concat_append map_append)

lemma keys_take: "length (keys key (take k qs)) \<le> length (keys key qs)"
  by (subst (2) append_take_drop_id [of k qs, symmetric]) (simp del: append_take_drop_id)

lemma keys_ids_disjoint:
  assumes "distinct (map fst (keys key ps))" "i < j" "j < length ps"
  shows "fst ` set (key (ps ! i)) \<inter> fst ` set (key (ps ! j)) = {}"
proof -
  have "ps = take j ps @ ps ! j # drop (Suc j) ps"
    using assms(3) by (simp add: Cons_nth_drop_Suc)
  with assms(1) have "distinct (map fst (keys key (take j ps @ ps ! j # drop (Suc j) ps)))"
    by (simp only:)
  then have "fst ` set (keys key (take j ps)) \<inter> fst ` set (key (ps ! j)) = {}"
    by (simp add: Int_Un_distrib del: set_concat)
  moreover have "ps ! i \<in> set (take j ps)"
    using assms(2,3) by (auto simp: in_set_conv_nth)
  then have "fst ` set (key (ps ! i)) \<subseteq> fst ` set (keys key (take j ps))"
    by (intro image_mono) auto
  ultimately show ?thesis by blast
qed

text \<open>The requests of some senders are answered by what their channels got.\<close>

abbreviation answered_with :: "('ack \<Rightarrow> u16 \<Rightarrow> 'tp \<Rightarrow> bool) \<Rightarrow> ('tx \<times> 'tp) list \<Rightarrow> ('tx \<times> 'ack) list \<Rightarrow> bool" where
  "answered_with answers \<equiv> list_all2 (\<lambda>(tx, tp) (tx', a). tx = tx' \<and> (\<exists>i. answers a i tp))"

section \<open>The sink of a client\<close>

text \<open>The transport appends a packet that it encodes to its output \<open>out\<close>, and stays open.\<close>

definition io_logs :: "('io, 'p) io_ops \<Rightarrow> ('io \<Rightarrow> 'p list) \<Rightarrow> bool" where
  "io_logs ops out \<longleftrightarrow> (\<forall>enc pkt st b st'. io_is_open ops st \<and> io_encode ops enc pkt st = (Ok b, st') \<longrightarrow>
     io_is_open ops st' \<and> out st' = out st @ [pkt])"

text \<open>A sender that has sent its packet waits for the acknowledgement; one without credit has not sent_reqs yet.\<close>

fun reqs_of :: "'tp \<Rightarrow> ('tx, 'req) pending \<Rightarrow> ('tx \<times> 'tp) list" where
  "reqs_of tp (AwaitAck tx) = [(tx, tp)]"
| "reqs_of tp (AwaitCredit _ _) = []"

text \<open>A step of the sink puts into flight exactly what it writes: nothing, or one packet of a kind \<open>Q\<close>.\<close>

definition grows ::
  "('p \<Rightarrow> (u16 \<times> 'tp) list) \<Rightarrow> ('p \<Rightarrow> bool) \<Rightarrow> ('io, 'p) io_ops \<Rightarrow> ('io \<Rightarrow> 'p list) \<Rightarrow>
   ('tx, 'tp, 'io, 'codec, 'ack) MqttShared \<Rightarrow> ('tx \<times> 'tp) list \<Rightarrow> ('tx, 'tp, 'io, 'codec, 'ack) MqttShared \<Rightarrow> bool" where
  "grows key Q ops out sh reqs sh' \<longleftrightarrow> queue_ok sh' \<and> inflight_idx sh' \<noteq> - 1 \<and> io_is_open ops (sh_state sh') \<and>
     delivered sh' = delivered sh \<and> cap sh' = cap sh \<and>
     (\<exists>new ps. flight sh' = flight sh @ new \<and> map snd new = reqs \<and> out (sh_state sh') = out (sh_state sh) @ ps \<and>
       map key_of new = keys key ps \<and> (ps = [] \<or> (\<exists>p. ps = [p] \<and> Q p)))"

lemma grows_idle:
  "\<lbrakk>same_flight sh sh'; queue_ok sh; inflight_idx sh \<noteq> - 1; io_is_open ops (sh_state sh);
    inflight_idx sh' = inflight_idx sh; sh_state sh' = sh_state sh; cap sh' = cap sh\<rbrakk> \<Longrightarrow> grows key Q ops out sh [] sh'"
  by (auto simp: grows_def same_flightD)

lemma grows_write:
  assumes "io_logs ops out" "queue_ok sh" "inflight_idx sh \<noteq> - 1" "io_is_open ops (sh_state sh)"
    and "write_packet ops encode p sh = (Ok b, sh')" "key p = []" "Q p"
  shows "grows key Q ops out sh [] sh'"
proof -
  from assms(5) obtain st where st: "io_encode ops (encode (sh_codec sh)) p (sh_state sh) = (Ok b, st)"
      "sh' = sh\<lparr>sh_state := st\<rparr>"
    by (auto simp: write_packet_def split: prod.splits)
  moreover have "io_is_open ops st" "out st = out (sh_state sh) @ [p]"
    using assms(1,4) st(1) unfolding io_logs_def by blast+
  moreover have "same_flight sh sh'" by (simp add: st)
  ultimately show ?thesis
    using assms(2,3,6,7) same_flightD [of sh sh'] by (auto simp: grows_def)
qed

lemma grows_send:
  assumes "io_logs ops out" "queue_ok sh" "io_is_open ops (sh_state sh)" "j \<noteq> - 1" "idx \<noteq> 0"
    and "act_then (allocate e idx tp tx) (\<lambda>_. send_and_wait ops encode err p tx) (sh\<lparr>inflight_idx := j\<rparr>) = (Ok r, sh')"
    and "key p = [(idx, tp)]" "Q p"
  shows "grows key Q ops out sh (reqs_of tp r) sh'"
proof -
  let ?sh = "sh\<lparr>inflight_idx := j\<rparr>"
  have ok: "queue_ok ?sh" "flight ?sh = flight sh" "delivered ?sh = delivered sh"
    using assms(2) same_flightD [of sh ?sh] by simp_all
  have fresh: "idx \<notin> Mapping.keys (inflight (queues ?sh))"
    using assms(6) by (auto simp: act_then_def allocate_cases split: if_splits)
  let ?en = "enqueue idx tp tx ?sh"
  have en: "flight ?en = flight sh @ [(idx, tx, tp)]" "queue_ok ?en" "delivered ?en = delivered sh"
      "sh_state ?en = sh_state sh" "inflight_idx ?en = j" "cap ?en = cap sh"
    using enqueue_flight [of ?sh idx tp tx] enqueue_ok [OF ok(1) assms(5) fresh] fresh ok
    by (simp_all add: queue_ok_def enqueue_def delivered_def)
  from assms(6) fresh obtain b st where
    st: "io_encode ops (encode (sh_codec ?en)) p (sh_state sh) = (Ok b, st)"
      "sh' = ?en\<lparr>sh_state := st\<rparr>" "r = AwaitAck tx"
    by (auto simp: act_then_def allocate_cases send_and_wait_def write_packet_def en(4)
        split: prod.splits outcome.splits)
  moreover have "io_is_open ops st" "out st = out (sh_state sh) @ [p]"
    using assms(1,3) st(1) unfolding io_logs_def by blast+
  moreover have "same_flight ?en sh'" by (simp add: st)
  ultimately show ?thesis
    using assms(4,7,8) en same_flightD [of ?en sh'] by (auto simp: grows_def)
qed

text \<open>A sender that does not have to wait has credit: there is room for its packet.\<close>

lemma has_credit_room: "\<lbrakk>queue_ok sh; has_credit sh = Ok True\<rbrakk> \<Longrightarrow> length (flight sh) < cap sh"
  using size_flight [of sh] by (auto simp: has_credit_def Let_def split: if_splits)

lemma grows_await_credit:
  fixes e :: 'err
  assumes "queue_ok sh" "inflight_idx sh \<noteq> - 1" "io_is_open ops (sh_state sh)"
    and "await_credit ops e wtx req k sh = (Ok r, sh')"
    and "\<lbrakk>k sh = (Ok r, sh'); length (flight sh) < cap sh\<rbrakk> \<Longrightarrow> grows key Q ops out sh (reqs_of tp r) sh'"
  shows "grows key Q ops out sh (reqs_of tp r) sh' \<and> (reqs_of tp r = [] \<or> length (flight sh) < cap sh)"
proof -
  have free: "\<not> borrowed sh" using assms(1) by (simp add: queue_ok_def)
  let ?sh = "sh\<lparr>queues := (queues sh)\<lparr>waiters := waiters (queues sh) @ [wtx]\<rparr>\<rparr>"
  from assms(3,4) free consider (go) "k sh = (Ok r, sh')" "(has_credit sh :: ('err, bool) outcome) = Ok True"
    | (wait) "r = AwaitCredit wtx req" "sh' = ?sh"
    by (auto simp: await_credit_def act_then_def push_waiter_eq split: prod.splits outcome.splits if_splits)
  then show ?thesis
  proof cases
    case go
    then show ?thesis using assms(1,5) has_credit_room by blast
  next
    case wait
    have "grows key Q ops out sh [] ?sh"
      by (rule grows_idle) (use assms(1-3) in simp_all)
    with wait show ?thesis by simp
  qed
qed

text \<open>A QoS 0 packet, a ping and \<^verbatim>\<open>ready\<close>.\<close>

lemma grows_ready:
  assumes "queue_ok sh" "inflight_idx sh \<noteq> - 1" "io_is_open ops (sh_state sh)"
    and "ready ops tx sh = (Ok r :: (unit, _) outcome, sh')"
  shows "grows key Q ops out sh [] sh'"
proof -
  have "\<not> borrowed sh" using assms(1) by (simp add: queue_ok_def)
  with assms have "same_flight sh sh'" "inflight_idx sh' = inflight_idx sh" "sh_state sh' = sh_state sh" "cap sh' = cap sh"
    by (auto simp: ready_def with_queues_def act_then_def same_flight_def delivered_def split: if_splits)
  then show ?thesis
    using assms by (auto intro: grows_idle)
qed

text \<open>The acknowledgement of the oldest packet in flight.\<close>

definition acked :: "('tx \<Rightarrow> bool) \<Rightarrow> u16 \<Rightarrow> 'tx \<Rightarrow> 'ack \<Rightarrow> ('tx, 'tp, 'io, 'codec, 'ack) MqttShared \<Rightarrow> ('tx, 'tp, 'io, 'codec, 'ack) MqttShared" where
  "acked alive i tx a sh = wake_waiter alive ((dequeue i sh)\<lparr>events := events sh @ [Delivered tx a]\<rparr>)"

lemma acked_head:
  assumes "queue_ok sh" and "flight sh = (i, tx, tp) # q"
  shows "flight (acked alive i tx a sh) = q" "queue_ok (acked alive i tx a sh)"
    "delivered (acked alive i tx a sh) = delivered sh @ [(tx, a)]" "sh_state (acked alive i tx a sh) = sh_state sh"
    "inflight_idx (acked alive i tx a sh) = inflight_idx sh" "cap (acked alive i tx a sh) = cap sh"
proof -
  let ?mid = "(dequeue i sh)\<lparr>events := events sh @ [Delivered tx a]\<rparr>"
  note same = same_flightD [OF wake_waiter_same [of ?mid alive]]
  have mid: "flight ?mid = q" "queue_ok ?mid" "delivered ?mid = delivered sh @ [(tx, a)]"
    using dequeue_flight(1,2) [OF assms] by (simp_all add: flight_def queue_ok_def delivered_def)
  show "flight (acked alive i tx a sh) = q" "queue_ok (acked alive i tx a sh)"
    "delivered (acked alive i tx a sh) = delivered sh @ [(tx, a)]"
    unfolding acked_def using same mid by simp_all
  show "sh_state (acked alive i tx a sh) = sh_state sh" "inflight_idx (acked alive i tx a sh) = inflight_idx sh"
    "cap (acked alive i tx a sh) = cap sh"
    by (simp_all add: acked_def wake_waiter_def dequeue_def split: prod.split)
qed

text \<open>Different identifiers that are not 0.\<close>

lemma flight_distinct: "queue_ok sh \<Longrightarrow> distinct (map fst (flight sh))"
  by (simp add: queue_ok_def flight_ids)

lemma flight_length: "queue_ok sh \<Longrightarrow> length (flight sh) \<le> 65536"
proof -
  assume "queue_ok sh"
  then have "length (map fst (flight sh)) = card (set (map fst (flight sh)))"
    by (simp only: flight_distinct distinct_card)
  also have "\<dots> \<le> card (UNIV :: u16 set)" by (rule card_mono) simp_all
  finally show ?thesis by (simp add: card_word)
qed

text \<open>A transport and a transport loop that keep the packets written to them.\<close>

definition packets_io :: "('p list, 'p) io_ops" where
  "packets_io = \<lparr>io_is_open = (\<lambda>_. True), io_close = id, io_force_close = id,
     io_encode = (\<lambda>enc pkt s. (Ok True, s @ [pkt]))\<rparr>"

definition packets_env :: "('p list, unit, 'e, 'p) io_env" where
  "packets_env =
    \<lparr>read_resume = id, read_pause = id, read_wake = id, read_is_ready = (\<lambda>_. False),
     read_decode = (\<lambda>w. (Inr None, w)),
     encode_result = (\<lambda>r w. case r of Inr _ \<Rightarrow> (None, w @ replies_of r) | Inl e \<Rightarrow> (Some (Inl e), w)),
     is_keepalive = (\<lambda>_. False), is_dispatcher_stopped = (\<lambda>_. False), dispatcher_stopped = id,
     register_dispatcher = id, shutdown_io = id, take_io_error = (\<lambda>w. (None, w)),
     set_disconnect_timeout = (\<lambda>_. id), timer_now = (\<lambda>_. 0), timer_register = (\<lambda>_ _. id),
     timer_unregister = (\<lambda>_. id), service_poll_ready = (\<lambda>w. (Some (Inr ()), w)),
     service_call = (\<lambda>_ w. ((), w)), service_poll_shutdown = (\<lambda>_ w. (True, w)),
     future_poll = (\<lambda>_ w. (None, w)), spawn_response = (\<lambda>_ _. id)\<rparr>"

lemma packets_env_encode: "encode_result (packets_env :: (_, _, 'e, 'p) io_env) (Inr p) w = (None, w @ replies_of (Inr p :: ('e, 'p) response))"
  by (simp add: packets_env_def replies_of_def)

lemma packets_io_open [simp]: "io_is_open packets_io st"
  by (simp add: packets_io_def)

lemma packets_logs: "io_logs packets_io id" "loop_logs (packets_env :: (_, _, 'e, 'p) io_env) id"
  by (simp_all add: io_logs_def packets_io_def loop_logs_def packets_env_encode replies_of_def)

text \<open>A sink with nothing in flight has credit, unless it may have nothing in flight.\<close>

lemma idle_credit: "\<lbrakk>queue_ok sh; flight sh = []\<rbrakk> \<Longrightarrow> has_credit sh = Ok (cap sh > 0)"
  using size_flight [of sh] by (simp add: has_credit_def queue_ok_def del: flight_Nil)

section \<open>The client\<close>

text \<open>
  The contract of a client: while its state is \<open>good\<close>, it has its packets in flight under different identifiers, at
  most \<open>window\<close> of them. What it sends is put into flight and keeps the sequence of its packets \<open>legal\<close>; a reply to
  the oldest packet in flight is accepted and reaches its sender.
\<close>

locale client_side =
  fixes P :: "('cl, 'sv, 'f, 'p, 'tx \<times> 'tp, 'e) peers"
    and good :: "'cl \<Rightarrow> bool"
    and flying :: "'cl \<Rightarrow> (u16 \<times> 'tx \<times> 'tp) list"
    and got :: "'cl \<Rightarrow> ('tx \<times> 'ack) list"
    and accepts :: "'p \<Rightarrow> 'cl \<Rightarrow> bool"
    and legal :: "'p list \<Rightarrow> bool"
    and request_key :: "'p \<Rightarrow> (u16 \<times> 'tp) list"
    and is_reply :: "'p \<Rightarrow> bool"
    and reply_key :: "'p \<Rightarrow> (u16 \<times> 'tp) list"
    and answers :: "'ack \<Rightarrow> u16 \<Rightarrow> 'tp \<Rightarrow> bool"
    and window :: nat
  assumes good_client: "good d \<Longrightarrow>
      legal (client_out P d) \<and> distinct (map fst (flying d)) \<and> length (flying d) \<le> window"
    and sending: "\<lbrakk>good d; client_sends P d reqs d'\<rbrakk> \<Longrightarrow> good d' \<and> got d' = got d \<and>
      (\<exists>new ps. flying d' = flying d @ new \<and> map snd new = reqs \<and> client_out P d' = client_out P d @ ps \<and>
        map key_of new = keys request_key ps)"
    and reply_accepted: "\<lbrakk>good d; is_reply p; map key_of (flying d) = reply_key p @ rest\<rbrakk> \<Longrightarrow>
      accepts p d \<and> (\<exists>d'. client_reads P p d d')"
    and reply_read: "\<lbrakk>good d; is_reply p; map key_of (flying d) = reply_key p @ rest; client_reads P p d d'\<rbrakk> \<Longrightarrow>
      good d' \<and> client_out P d' = client_out P d \<and>
      (\<exists>new. flying d = take (length (reply_key p)) (flying d) @ flying d' \<and> got d' = got d @ new \<and>
        answered_with answers (map snd (take (length (reply_key p)) (flying d))) new)"
begin

text \<open>The requests \<open>reqs\<close> of the application, the packets \<open>ps\<close> written for them, and the replies \<open>qs\<close> read.\<close>

definition client_inv :: "'cl \<Rightarrow> ('tx \<times> 'tp) list \<Rightarrow> 'p list \<Rightarrow> bool" where
  "client_inv d reqs qs \<longleftrightarrow> good d \<and>
     map key_of (flying d) = drop (length (keys reply_key qs)) (keys request_key (client_out P d)) \<and>
     (\<exists>old. reqs = old @ map snd (flying d) \<and> answered_with answers old (got d)) \<and>
     length (keys reply_key qs) \<le> length (keys request_key (client_out P d))"

lemma client_inv_start:
  "\<lbrakk>good d; flying d = []; got d = []; client_out P d = []\<rbrakk> \<Longrightarrow> client_inv d [] []"
  by (simp add: client_inv_def)

lemma client_inv_sends:
  assumes inv: "client_inv d reqs qs" and "client_sends P d new d'"
  shows "client_inv d' (reqs @ new) qs \<and> (\<exists>ps. client_out P d' = client_out P d @ ps)"
proof -
  have "good d" using inv by (simp add: client_inv_def)
  from sending [OF this assms(2)] inv show ?thesis
    by (auto simp: client_inv_def)
qed

text \<open>The next reply is the one for the oldest packet in flight.\<close>

lemma client_inv_next:
  assumes inv: "client_inv d reqs qs" and "keys request_key (client_out P d) = keys reply_key (qs @ [p]) @ rest"
  shows "map key_of (flying d) = reply_key p @ rest"
  using assms by (simp add: client_inv_def)

lemma client_inv_reads:
  assumes inv: "client_inv d reqs qs" and "is_reply p"
    and ps: "keys request_key (client_out P d) = keys reply_key (qs @ [p]) @ rest" and "client_reads P p d d'"
  shows "client_inv d' reqs (qs @ [p]) \<and> client_out P d' = client_out P d"
proof -
  let ?n = "length (reply_key p)"
  have "good d" using inv by (simp add: client_inv_def)
  note next_key = client_inv_next [OF inv ps]
  from reply_read [OF \<open>good d\<close> assms(2) next_key assms(4)] obtain new where
    d': "good d'" "client_out P d' = client_out P d" "flying d = take ?n (flying d) @ flying d'" "got d' = got d @ new"
      "answered_with answers (map snd (take ?n (flying d))) new" by blast
  from inv obtain old where old: "reqs = old @ map snd (flying d)" "answered_with answers old (got d)"
    by (auto simp: client_inv_def)
  have "map key_of (take ?n (flying d)) @ map key_of (flying d') = reply_key p @ rest"
    using arg_cong [OF d'(3), of "map key_of"] next_key by (simp only: map_append)
  moreover have "length (map key_of (take ?n (flying d))) = ?n"
    using arg_cong [OF next_key, of length] by simp
  ultimately have "map key_of (flying d') = rest" by simp
  moreover have "reqs = (old @ map snd (take ?n (flying d))) @ map snd (flying d')"
    using old(1) arg_cong [OF d'(3), of "map snd"] by (simp only: map_append append_assoc)
  moreover have "answered_with answers (old @ map snd (take ?n (flying d))) (got d')"
    using old(2) d'(4,5) by (simp add: list_all2_appendI)
  ultimately show ?thesis
    using d'(1,2) ps unfolding client_inv_def by auto
qed

end

section \<open>The server\<close>

text \<open>
  The contract of a server that has read the packets \<open>ps\<close>: it accepts every packet that continues a legal sequence,
  whose identifier is not in use and leaves no more than \<open>window\<close> identifiers in use; the handler of a packet can
  answer it, with the reply for it.
\<close>

locale server_side =
  fixes P :: "('cl, 'sv, 'f, 'p, 'tx \<times> 'tp, 'e) peers"
    and serving :: "'p list \<Rightarrow> 'sv \<Rightarrow> bool"
    and in_use :: "'sv \<Rightarrow> u16 set"
    and serves :: "'f \<Rightarrow> 'p \<Rightarrow> bool"
    and legal :: "'p list \<Rightarrow> bool"
    and request_key :: "'p \<Rightarrow> (u16 \<times> 'tp) list"
    and is_reply :: "'p \<Rightarrow> bool"
    and reply_key :: "'p \<Rightarrow> (u16 \<times> 'tp) list"
    and window :: nat
  assumes legal_prefix: "legal (ps @ qs) \<Longrightarrow> legal ps"
    and request_accepted: "\<lbrakk>serving ps s; legal (ps @ [p]); fst ` set (request_key p) \<inter> in_use s = {};
        card (in_use s \<union> fst ` set (request_key p)) \<le> window\<rbrakk> \<Longrightarrow> \<exists>f s'. server_reads P p s f s'"
    and request_read: "\<lbrakk>serving ps s; legal (ps @ [p]); fst ` set (request_key p) \<inter> in_use s = {};
        card (in_use s \<union> fst ` set (request_key p)) \<le> window; server_reads P p s f s'\<rbrakk> \<Longrightarrow>
      serves f p \<and> serving (ps @ [p]) s' \<and> in_use s' = in_use s \<union> fst ` set (request_key p)"
    and request_answered: "\<lbrakk>serving ps s; serves f p; server_answers P f s r s'\<rbrakk> \<Longrightarrow>
      serving ps s' \<and> in_use s' = in_use s - fst ` set (request_key p) \<and>
      (\<exists>x. r = Inr x) \<and> keys reply_key (replies_of r) = request_key p \<and> list_all is_reply (replies_of r)"
    and request_answerable: "\<lbrakk>serving ps s; serves f p\<rbrakk> \<Longrightarrow> \<exists>r s'. server_answers P f s r s'"
begin

abbreviation ids_of :: "'p \<Rightarrow> u16 set" where
  "ids_of p \<equiv> fst ` set (request_key p)"

definition reply_ok :: "'p \<Rightarrow> ('e, 'p) response \<Rightarrow> bool" where
  "reply_ok p r \<longleftrightarrow> (\<exists>x. r = Inr x) \<and> keys reply_key (replies_of r) = request_key p \<and> list_all is_reply (replies_of r)"

text \<open>The requests \<open>ps\<close> of the client, the first \<open>n\<close> of them read.\<close>

definition server_inv ::
  "('w, 'fut, 'e, 'p) io_env \<Rightarrow> 'w \<Rightarrow> (nat \<Rightarrow> ('e, 'p) response) \<Rightarrow> 'p list \<Rightarrow> 'sv \<Rightarrow>
   ('e, 'p) DispatcherState \<times> 'w \<Rightarrow> ((usize \<times> nat) \<times> 'f) list \<Rightarrow> nat \<Rightarrow> bool" where
  "server_inv env w0 res ps s l ts n \<longleftrightarrow>
     resp_inv env res w0 (l, map fst ts, n) \<and> n \<le> length ps \<and> legal ps \<and> serving (take n ps) s \<and>
     (\<forall>k < n. k \<in> works_on ts \<or> reply_ok (ps ! k) (res k)) \<and>
     (\<forall>((idx, k), f) \<in> set ts. serves f (ps ! k)) \<and> in_use s \<subseteq> (\<Union>k \<in> works_on ts. ids_of (ps ! k))"

lemma works_on_less:
  assumes inv: "server_inv env w0 res ps s l ts n" and k: "k \<in> works_on ts"
  shows "k < n"
proof -
  from inv have "resp_inv env res w0 (l, map fst ts, n)" by (simp add: server_inv_def)
  with k show ?thesis by (elim resp_inv_cases) auto
qed

lemma server_inv_more:
  assumes inv: "server_inv env w0 res ps s l ts n" and "legal (ps @ qs)"
  shows "server_inv env w0 res (ps @ qs) s l ts n"
proof -
  have "(ps @ qs) ! k = ps ! k" if "k < n" for k
    using inv that by (simp add: server_inv_def nth_append)
  moreover have "k < n" if "((idx, k), f) \<in> set ts" for idx k f
    using works_on_less [OF inv, of k] that by force
  moreover have "take n (ps @ qs) = take n ps" using inv by (simp add: server_inv_def)
  ultimately show ?thesis
    using assms works_on_less [OF inv] unfolding server_inv_def
    by (auto 0 3 simp: subset_iff)
qed

text \<open>The replies written answer the first requests, up to the front of the loop's queue.\<close>

lemma server_front:
  assumes inv: "server_inv env w0 res ps s l ts n"
  shows "length (ds_queue (fst l)) \<le> n" "k \<in> works_on ts \<Longrightarrow> front l n \<le> k" "ts = [] \<Longrightarrow> front l n = n"
    "k < front l n \<Longrightarrow> reply_ok (ps ! k) (res k)" "snd l = write_all env (map res [0..<front l n]) w0"
proof -
  from inv have "resp_inv env res w0 (l, map fst ts, n)" by (simp add: server_inv_def)
  then obtain m where m: "n = m + length (ds_queue (fst l))" "snd l = write_all env (map res [0..<m]) w0"
      "\<forall>k \<in> snd ` set (map fst ts). m \<le> k \<and> k < n \<and> ds_queue (fst l) ! (k - m) = Pending"
      "map fst ts = [] \<longrightarrow> m = n"
    by (rule resp_inv_cases)
  then show "length (ds_queue (fst l)) \<le> n" "snd l = write_all env (map res [0..<front l n]) w0"
    "ts = [] \<Longrightarrow> front l n = n" by auto
  show pending: "k \<in> works_on ts \<Longrightarrow> front l n \<le> k" for k
    using m(1,3) by auto
  show "reply_ok (ps ! k) (res k)" if "k < front l n"
  proof -
    from that have "k < n" "k \<notin> works_on ts"
      using pending [of k] by linarith+
    with inv show ?thesis unfolding server_inv_def by blast
  qed
qed

lemma replies_keys:
  assumes "\<And>k. k < m \<Longrightarrow> reply_ok (ps ! k) (res k)" "m \<le> length ps"
  shows "keys reply_key (concat (map (replies_of \<circ> res) [0..<m])) = keys request_key (take m ps) \<and>
    list_all is_reply (concat (map (replies_of \<circ> res) [0..<m]))"
  using assms
proof (induction m)
  case (Suc m)
  from Suc.prems(1) [of m] have "reply_ok (ps ! m) (res m)" by simp
  with Suc show ?case by (simp add: reply_ok_def take_Suc_conv_app_nth)
qed simp

lemma server_written:
  assumes inv: "server_inv env w0 res ps s l ts n" and "loop_logs env wr" "wr w0 = []"
  shows "wr (snd l) = concat (map (replies_of \<circ> res) [0..<front l n])"
    "keys reply_key (wr (snd l)) = keys request_key (take (front l n) ps)" "list_all is_reply (wr (snd l))"
proof -
  note front = server_front [OF inv]
  have "\<forall>r \<in> set (map res [0..<front l n]). \<exists>x. r = Inr x"
    using front(4) by (auto simp: reply_ok_def)
  from write_all_replies [OF assms(2) this, of w0] assms(3) front(5)
  show wr: "wr (snd l) = concat (map (replies_of \<circ> res) [0..<front l n])" by simp
  have "front l n \<le> length ps" using inv by (auto simp: server_inv_def)
  from replies_keys [OF front(4) this] wr
  show "keys reply_key (wr (snd l)) = keys request_key (take (front l n) ps)" "list_all is_reply (wr (snd l))"
    by simp_all
qed

lemma server_writes_on:
  assumes "server_inv env w0 res ps s l ts n" "server_inv env w0 res' ps' s' l' ts' n'"
    and "loop_logs env wr" "wr w0 = []" "front l n \<le> front l' n'" "\<And>k. k < front l n \<Longrightarrow> res' k = res k"
  shows "\<exists>ys. wr (snd l') = wr (snd l) @ ys"
proof -
  have "map (replies_of \<circ> res') [0..<front l n] = map (replies_of \<circ> res) [0..<front l n]"
    using assms(6) by simp
  moreover have "[0..<front l' n'] = [0..<front l n] @ [front l n..<front l' n']"
    using assms(5) upt_add_eq_append [of 0 "front l n" "front l' n' - front l n"]
    by (simp only: le_add_diff_inverse le0)
  ultimately have "wr (snd l') = wr (snd l) @ concat (map (replies_of \<circ> res') [front l n..<front l' n'])"
    unfolding server_written(1) [OF assms(1,3,4)] server_written(1) [OF assms(2,3,4)]
    by (simp only: map_append concat_append)
  then show ?thesis by blast
qed

text \<open>While the open requests have different identifiers, no more than the window, the next one is accepted.\<close>

lemma server_next:
  assumes inv: "server_inv env w0 res ps s l ts n" and n: "n < length ps"
    and ids: "distinct (map fst (keys request_key (drop (front l n) ps)))"
      "length (keys request_key (drop (front l n) ps)) \<le> window"
  shows "serving (take n ps) s \<and> legal (take n ps @ [ps ! n]) \<and> ids_of (ps ! n) \<inter> in_use s = {} \<and>
    card (in_use s \<union> ids_of (ps ! n)) \<le> window"
proof -
  let ?open = "fst ` set (keys request_key (drop (front l n) ps))"
  have work: "k < n" "front l n \<le> k" if "k \<in> works_on ts" for k
    using that works_on_less [OF inv] server_front(2) [OF inv] by blast+
  have "ids_of (ps ! k) \<inter> ids_of (ps ! n) = {}" if "k \<in> works_on ts" for k
    using keys_ids_disjoint [OF ids(1), of "k - front l n" "n - front l n"] n work [OF that]
      server_front(1) [OF inv] by simp
  then have fresh: "ids_of (ps ! n) \<inter> in_use s = {}"
    using inv unfolding server_inv_def by blast
  have sub: "ids_of (ps ! k) \<subseteq> ?open" if "front l n \<le> k" "k < length ps" for k
  proof -
    have "drop (front l n) ps ! (k - front l n) \<in> set (drop (front l n) ps)"
      using that by (intro nth_mem) simp
    then have "ps ! k \<in> set (drop (front l n) ps)"
      using that by simp
    then show ?thesis by (intro image_mono) auto
  qed
  have "(\<Union>k \<in> works_on ts. ids_of (ps ! k)) \<subseteq> ?open"
  proof (rule UN_least)
    fix k assume "k \<in> works_on ts"
    from work [OF this] n show "ids_of (ps ! k) \<subseteq> ?open" by (intro sub) simp_all
  qed
  with inv have "in_use s \<subseteq> ?open" unfolding server_inv_def by (meson subset_trans)
  with sub [of n] n have "in_use s \<union> ids_of (ps ! n) \<subseteq> ?open" by simp
  then have "card (in_use s \<union> ids_of (ps ! n)) \<le> card ?open"
    by (rule card_mono [rotated]) simp
  also have "\<dots> \<le> window"
    using card_length [of "map fst (keys request_key (drop (front l n) ps))"] ids(2) by (simp del: set_concat)
  finally have "card (in_use s \<union> ids_of (ps ! n)) \<le> window" .
  moreover have "legal (take (Suc n) ps)"
    using inv legal_prefix [of "take (Suc n) ps" "drop (Suc n) ps"] by (simp add: server_inv_def)
  ultimately show ?thesis
    using inv fresh n by (simp add: server_inv_def take_Suc_conv_app_nth)
qed

text \<open>The steps of the server.\<close>

lemma server_inv_called:
  assumes inv: "server_inv env w0 res ps s l ts n" and "n < length ps" "Suc (length (ds_queue (fst l))) < 2 ^ 64"
    and "serves f (ps ! n)" "serving (take (Suc n) ps) s'" "in_use s' = in_use s \<union> ids_of (ps ! n)"
  shows "server_inv env w0 res ps s' (push_response Pending (fst l), snd l)
    (ts @ [((next_response_idx (fst l), n), f)]) (Suc n)"
proof -
  have "resp_inv env res w0 (l, map fst ts, n)" using inv by (simp add: server_inv_def)
  from resp_inv_called [OF this assms(3)] show ?thesis
    using assms inv unfolding server_inv_def by (auto simp: less_Suc_eq)
qed

lemma server_inv_answered:
  assumes inv: "server_inv env w0 res ps s l ts n" and "n < length ps" "Suc (length (ds_queue (fst l))) < 2 ^ 64"
    and "reply_ok (ps ! n) r" "serving (take (Suc n) ps) s'" "in_use s' \<subseteq> in_use s"
  shows "server_inv env w0 (res(n := r)) ps s' (answer_now env r l) ts (Suc n)"
proof -
  have "resp_inv env (res(n := r)) w0 (l, map fst ts, n)"
    using inv by (auto simp: server_inv_def intro: resp_inv_update)
  from resp_inv_answered [OF this assms(3)] show ?thesis
    using assms inv unfolding server_inv_def by (auto simp: less_Suc_eq)
qed

lemma server_inv_finished:
  assumes inv: "server_inv env w0 res ps s l (xs @ ((idx, k), f) # ys) n"
    and "reply_ok (ps ! k) r" "serving (take n ps) s'" "in_use s' = in_use s - ids_of (ps ! k)"
    and step: "handle_result env r idx wake l = (Ok woken :: (unit, bool) outcome, l')"
  shows "server_inv env w0 (res(k := r)) ps s' l' (xs @ ys) n"
proof -
  have "resp_inv env (res(k := r)) w0 (l, map fst (xs @ ((idx, k), f) # ys), n)"
    using inv by (intro resp_inv_update) (auto simp: server_inv_def)
  then have "resp_inv env (res(k := r)) w0 (l, map fst xs @ (idx, k) # map fst ys, n)" by simp
  from resp_inv_finished [OF this, of wake] step have "resp_inv env (res(k := r)) w0 (l', map fst (xs @ ys), n)"
    by auto
  then show ?thesis
    using assms(2-4) inv unfolding server_inv_def by auto
qed

end

section \<open>The connection\<close>

text \<open>A client and a server that agree on the legal sequences, on the keys of requests and replies, and on the
  number of open requests.\<close>

locale connection =
  client_side P good flying got accepts legal request_key is_reply reply_key answers window +
  server_side P serving in_use serves legal request_key is_reply reply_key window
  for P :: "('cl, 'sv, 'f, 'p, 'tx \<times> 'tp, 'e) peers"
    and good flying and got :: "'cl \<Rightarrow> ('tx \<times> 'ack) list" and accepts legal request_key is_reply reply_key answers window
    and serving in_use serves
begin

definition conn_inv ::
  "('w, 'fut, 'e, 'p) io_env \<Rightarrow> ('w \<Rightarrow> 'p list) \<Rightarrow> 'w \<Rightarrow> (nat \<Rightarrow> ('e, 'p) response) \<Rightarrow>
   ('cl, 'sv, 'f, 'p, 'tx \<times> 'tp, 'e, 'w) conn \<Rightarrow> bool" where
  "conn_inv env wr w0 res c \<longleftrightarrow>
     server_inv env w0 res (up P c) (sv c) (sv_loop c) (sv_tasks c) (up_read c) \<and>
     client_inv (cl c) (sent_reqs c) (take (down_read c) (down wr c)) \<and> down_read c \<le> length (down wr c)"

lemma open_requests:
  assumes inv: "conn_inv env wr w0 res c" and logs: "loop_logs env wr" "wr w0 = []"
  shows "distinct (map fst (keys request_key (drop (front (sv_loop c) (up_read c)) (up P c))))"
    "length (keys request_key (drop (front (sv_loop c) (up_read c)) (up P c))) \<le> window"
proof -
  let ?m = "front (sv_loop c) (up_read c)" and ?ps = "up P c" and ?qs = "take (down_read c) (down wr c)"
  let ?a = "length (keys reply_key ?qs)" and ?open = "keys request_key (drop ?m ?ps)"
  from inv have cl: "client_inv (cl c) (sent_reqs c) ?qs"
    and sv: "server_inv env w0 res ?ps (sv c) (sv_loop c) (sv_tasks c) (up_read c)"
    by (simp_all add: conn_inv_def)
  have "?a \<le> length (keys reply_key (down wr c))"
    by (rule keys_take)
  also have "\<dots> = length (keys request_key (take ?m ?ps))"
    by (simp only: server_written(2) [OF sv logs])
  finally have fl: "map key_of (flying (cl c)) = drop ?a (keys request_key (take ?m ?ps)) @ ?open"
    using cl keys_split [of request_key ?ps ?m] by (simp add: client_inv_def)
  from cl have good: "distinct (map fst (flying (cl c)))" "length (flying (cl c)) \<le> window"
    using good_client by (auto simp: client_inv_def)
  from good(1) have "distinct (map fst (map key_of (flying (cl c))))" by (simp add: comp_def)
  then show "distinct (map fst ?open)" unfolding fl by (simp only: map_append distinct_append)
  from arg_cong [OF fl, of length] good(2) show "length ?open \<le> window" by simp
qed

text \<open>The server accepts the next packet of the client.\<close>

lemma server_accepts:
  assumes inv: "conn_inv env wr w0 res c" and logs: "loop_logs env wr" "wr w0 = []"
    and n: "up_read c < length (up P c)"
  shows "\<exists>f s. server_reads P (up P c ! up_read c) (sv c) f s"
    "server_reads P (up P c ! up_read c) (sv c) f s \<Longrightarrow> serves f (up P c ! up_read c) \<and>
       serving (take (Suc (up_read c)) (up P c)) s \<and> in_use s = in_use (sv c) \<union> ids_of (up P c ! up_read c)"
proof -
  from inv have "server_inv env w0 res (up P c) (sv c) (sv_loop c) (sv_tasks c) (up_read c)"
    by (simp add: conn_inv_def)
  note next_ok = server_next [OF this n open_requests [OF inv logs]]
  from next_ok show "\<exists>f s. server_reads P (up P c ! up_read c) (sv c) f s"
    by (blast intro: request_accepted)
  show "server_reads P (up P c ! up_read c) (sv c) f s \<Longrightarrow> serves f (up P c ! up_read c) \<and>
       serving (take (Suc (up_read c)) (up P c)) s \<and> in_use s = in_use (sv c) \<union> ids_of (up P c ! up_read c)"
    unfolding take_Suc_conv_app_nth [OF n] using next_ok by (intro request_read) simp_all
qed

text \<open>The client accepts the next packet of the server.\<close>

lemma client_next:
  assumes inv: "conn_inv env wr w0 res c" and logs: "loop_logs env wr" "wr w0 = []"
    and n: "down_read c < length (down wr c)"
  shows "accepts (down wr c ! down_read c) (cl c)" "\<exists>d. client_reads P (down wr c ! down_read c) (cl c) d"
    "client_reads P (down wr c ! down_read c) (cl c) d \<Longrightarrow>
       client_inv d (sent_reqs c) (take (Suc (down_read c)) (down wr c)) \<and> client_out P d = up P c"
proof -
  let ?ds = "down wr c" and ?n = "down_read c"
  let ?p = "?ds ! ?n" and ?m = "front (sv_loop c) (up_read c)"
  from inv have cl: "client_inv (cl c) (sent_reqs c) (take ?n ?ds)"
    and sv: "server_inv env w0 res (up P c) (sv c) (sv_loop c) (sv_tasks c) (up_read c)"
    by (simp_all add: conn_inv_def)
  note wr = server_written [OF sv logs]
  have take: "take (Suc ?n) ?ds = take ?n ?ds @ [?p]"
    using n by (simp add: take_Suc_conv_app_nth)
  have reply: "is_reply ?p" using wr(3) n by (simp add: list_all_length)
  have "keys reply_key ?ds = keys reply_key (take ?n ?ds @ [?p]) @ keys reply_key (drop (Suc ?n) ?ds)"
    unfolding take [symmetric] by (rule keys_split)
  then have ks: "keys request_key (up P c) =
      keys reply_key (take ?n ?ds @ [?p]) @ keys reply_key (drop (Suc ?n) ?ds) @ keys request_key (drop ?m (up P c))"
    using wr(2) keys_split [of request_key "up P c" ?m] by simp
  have "good (cl c)" using cl by (simp add: client_inv_def)
  from reply_accepted [OF this reply client_inv_next [OF cl ks]]
  show "accepts ?p (cl c)" "\<exists>d. client_reads P ?p (cl c) d" by blast+
  show "client_reads P ?p (cl c) d \<Longrightarrow> client_inv d (sent_reqs c) (take (Suc ?n) ?ds) \<and> client_out P d = up P c"
    unfolding take by (rule client_inv_reads [OF cl reply ks])
qed

text \<open>The server only adds to what it has written.\<close>

lemma conn_server_moves:
  assumes inv: "conn_inv env wr w0 res c" and logs: "loop_logs env wr" "wr w0 = []"
    and sv: "server_inv env w0 (res(k := r)) (up P c) s l ts n"
    and "front (sv_loop c) (up_read c) \<le> k" "front (sv_loop c) (up_read c) \<le> front l n"
  shows "conn_inv env wr w0 (res(k := r)) (c\<lparr>up_read := n, sv := s, sv_loop := l, sv_tasks := ts\<rparr>)"
proof -
  from inv have "server_inv env w0 res (up P c) (sv c) (sv_loop c) (sv_tasks c) (up_read c)"
    by (simp add: conn_inv_def)
  from server_writes_on [OF this sv logs assms(6)] assms(5) obtain ys where "wr (snd l) = down wr c @ ys"
    by auto
  with inv sv show ?thesis by (simp add: conn_inv_def)
qed

lemma conn_inv_step:
  assumes "conn_step P env wr c c'" "conn_inv env wr w0 res c" and logs: "loop_logs env wr" "wr w0 = []"
  shows "\<exists>res'. conn_inv env wr w0 res' c'"
  using assms(1,2)
proof (induction rule: conn_step.induct)
  case (client c reqs d)
  then have "client_inv (cl c) (sent_reqs c) (take (down_read c) (down wr c))"
    by (simp add: conn_inv_def)
  from client_inv_sends [OF this client(1)] obtain ps where
    d: "client_inv d (sent_reqs c @ reqs) (take (down_read c) (down wr c))" "client_out P d = up P c @ ps" by blast
  then have "legal (up P c @ ps)" using good_client [of d] by (simp add: client_inv_def)
  with d client(2) have "conn_inv env wr w0 res (c\<lparr>cl := d, sent_reqs := sent_reqs c @ reqs\<rparr>)"
    by (simp add: conn_inv_def server_inv_more)
  then show ?case by blast
next
  case (called c f s)
  from called(4) have inv: "server_inv env w0 res (up P c) (sv c) (sv_loop c) (sv_tasks c) (up_read c)"
    by (simp add: conn_inv_def)
  have "server_inv env w0 (res(up_read c := res (up_read c))) (up P c) s
      (push_response Pending (fst (sv_loop c)), snd (sv_loop c))
      (sv_tasks c @ [((next_response_idx (fst (sv_loop c)), up_read c), f)]) (Suc (up_read c))"
    using server_inv_called [OF inv called(1,2)] server_accepts(2) [OF called(4) logs called(1,3)] by simp
  from conn_server_moves [OF called(4) logs this] show ?case
    by (auto simp: push_response_def)
next
  case (answered c f s r s')
  note f = server_accepts(2) [OF answered(5) logs answered(1,3)]
  then have "serving (take (Suc (up_read c)) (up P c)) s" "serves f (up P c ! up_read c)" by simp_all
  from request_answered [OF this answered(4)] f have reply: "reply_ok (up P c ! up_read c) r" "serving (take (Suc (up_read c)) (up P c)) s'"
      "in_use s' \<subseteq> in_use (sv c)"
    by (auto simp: reply_ok_def)
  from answered(5) have "server_inv env w0 res (up P c) (sv c) (sv_loop c) (sv_tasks c) (up_read c)"
    by (simp add: conn_inv_def)
  from conn_server_moves [OF answered(5) logs server_inv_answered [OF this answered(1,2) reply] _ front_answer_now]
  show ?case by auto
next
  case (finished c xs idx k f ys r s wake woken l)
  then have sv: "server_inv env w0 res (up P c) (sv c) (sv_loop c) (xs @ ((idx, k), f) # ys) (up_read c)"
    by (simp add: conn_inv_def)
  then have "serves f (up P c ! k)" "serving (take (up_read c) (up P c)) (sv c)" by (auto simp: server_inv_def)
  from request_answered [OF this(2,1) finished(2)]
  have "server_inv env w0 (res(k := r)) (up P c) s l (xs @ ys) (up_read c)"
    using server_inv_finished [OF sv _ _ _ finished(3), of s] by (simp add: reply_ok_def)
  from conn_server_moves [OF finished(4) logs this] server_front(2) [OF sv, of k] handle_result_shrinks [OF finished(3)]
  show ?case by (auto simp: diff_le_mono2)
next
  case (received c d)
  from client_next(3) [OF received(3) logs received(1,2)] received(1,3)
  have "conn_inv env wr w0 res (c\<lparr>cl := d, down_read := Suc (down_read c)\<rparr>)"
    by (simp add: conn_inv_def)
  then show ?case by blast
qed

text \<open>A fresh client and a fresh server.\<close>

definition fresh :: "'cl \<Rightarrow> 'sv \<Rightarrow> bool" where
  "fresh d s \<longleftrightarrow> good d \<and> flying d = [] \<and> got d = [] \<and> client_out P d = [] \<and> serving [] s \<and> in_use s = {}"

lemma conn_inv_start:
  assumes "fresh d s" "wr w = []"
  shows "conn_inv env wr w res (conn_start d s w)"
proof -
  have "resp_inv env res w ((\<lparr>ds_error = None, ds_base = 0, ds_queue = []\<rparr>, w), [], 0)"
    by (rule resp_inv_reachable) (rule resp_reachable.start)
  moreover have "legal []" using assms(1) good_client [of d] by (simp add: fresh_def)
  ultimately show ?thesis
    using assms client_inv_start [of d] by (simp add: conn_inv_def conn_start_def server_inv_def fresh_def)
qed

lemma conn_inv_reaches:
  assumes "conn_reaches P env wr (conn_start d s w) c" "fresh d s" and logs: "loop_logs env wr" "wr w = []"
  shows "\<exists>res. conn_inv env wr w res c"
  using assms(1)
proof (induction rule: rtranclp_induct)
  case base
  from conn_inv_start [of d s wr w] assms(2) logs(2) show ?case by blast
next
  case (step c c')
  then show ?case using conn_inv_step [OF _ _ logs] by blast
qed

text \<open>Once everything is read and no handler is at work, every sender has been answered.\<close>

lemma all_answered:
  assumes inv: "conn_inv env wr w0 res c" and logs: "loop_logs env wr" "wr w0 = []"
    and all: "sv_tasks c = []" "up_read c = length (up P c)" "down_read c = length (down wr c)"
  shows "answered_with answers (sent_reqs c) (got (cl c))"
proof -
  from inv have cl: "client_inv (cl c) (sent_reqs c) (down wr c)"
    and sv: "server_inv env w0 res (up P c) (sv c) (sv_loop c) (sv_tasks c) (up_read c)"
    by (simp_all add: conn_inv_def all(3))
  have "keys reply_key (down wr c) = keys request_key (up P c)"
    using server_written(2) [OF sv logs] server_front(3) [OF sv all(1)] all(2) by simp
  with cl show ?thesis by (auto simp: client_inv_def)
qed

lemma acknowledged:
  assumes "conn_reaches P env wr (conn_start d s w) c" "fresh d s" "loop_logs env wr" "wr w = []"
  shows "(down_read c < length (down wr c) \<longrightarrow> accepts (down wr c ! down_read c) (cl c)) \<and>
    (up_read c < length (up P c) \<longrightarrow>
      (\<exists>f s'. server_reads P (up P c ! up_read c) (sv c) f s' \<and> serves f (up P c ! up_read c))) \<and>
    (\<exists>old. sent_reqs c = old @ map snd (flying (cl c)) \<and> answered_with answers old (got (cl c))) \<and>
    (sv_tasks c = [] \<and> up_read c = length (up P c) \<and> down_read c = length (down wr c) \<longrightarrow>
      answered_with answers (sent_reqs c) (got (cl c)))"
proof -
  from conn_inv_reaches [OF assms] obtain res where inv: "conn_inv env wr w res c" by blast
  then have "\<exists>old. sent_reqs c = old @ map snd (flying (cl c)) \<and> answered_with answers old (got (cl c))"
    by (simp add: conn_inv_def client_inv_def)
  then show ?thesis
    using client_next(1) [OF inv assms(3,4)] server_accepts [OF inv assms(3,4)] all_answered [OF inv assms(3,4)]
    by blast
qed

text \<open>A connection can catch up: the handlers can answer, the server can read what is left and the client the
  replies, and then every request that was sent is answered.\<close>

lemma handlers_finish:
  assumes "conn_inv env wr w0 res c" and logs: "loop_logs env wr" "wr w0 = []"
  shows "\<exists>c' res'. conn_reaches P env wr c c' \<and> conn_inv env wr w0 res' c' \<and> sv_tasks c' = [] \<and>
    cl c' = cl c \<and> sent_reqs c' = sent_reqs c"
  using assms(1)
proof (induction "length (sv_tasks c)" arbitrary: c res)
  case 0
  then show ?case by (intro exI [of _ c] exI [of _ res]) simp
next
  case (Suc m)
  obtain idx k f ys where ts: "sv_tasks c = [] @ ((idx, k), f) # ys"
    using Suc(2) by (cases "sv_tasks c") auto
  from Suc(3) have sv: "server_inv env w0 res (up P c) (sv c) (sv_loop c) (((idx, k), f) # ys) (up_read c)"
    by (simp add: conn_inv_def ts)
  then have "serves f (up P c ! k)" "serving (take (up_read c) (up P c)) (sv c)" by (auto simp: server_inv_def)
  with request_answerable obtain r s where ans: "server_answers P f (sv c) r s" by blast
  have "resp_inv env (res(k := r)) w0 (sv_loop c, [] @ (idx, k) # map fst ys, up_read c)"
    using sv resp_inv_update [of env res w0 "sv_loop c" "map fst (((idx, k), f) # ys)" "up_read c" k r]
    by (simp add: server_inv_def)
  from resp_inv_finished [OF this, of False] obtain woken l where
    l: "handle_result env r idx False (sv_loop c) = (Ok woken :: (unit, bool) outcome, l)" by auto
  let ?c = "c\<lparr>sv := s, sv_loop := l, sv_tasks := [] @ ys\<rparr>"
  have step: "conn_step P env wr c ?c" by (rule conn_step.finished [OF ts ans l])
  from conn_inv_step [OF this Suc(3) logs] obtain res' where "conn_inv env wr w0 res' ?c" by blast
  from Suc(1) [of ?c, OF _ this] Suc(2) ts obtain c' res' where
    "conn_reaches P env wr ?c c'" "conn_inv env wr w0 res' c'" "sv_tasks c' = []" "cl c' = cl c" "sent_reqs c' = sent_reqs c"
    by auto
  note reached = this
  from converse_rtranclp_into_rtranclp [OF step reached(1)] reached(2-) show ?case by blast
qed

lemma server_reads_all:
  assumes "conn_inv env wr w0 res c" "sv_tasks c = []" and logs: "loop_logs env wr" "wr w0 = []"
  shows "\<exists>c' res'. conn_reaches P env wr c c' \<and> conn_inv env wr w0 res' c' \<and> sv_tasks c' = [] \<and>
    up_read c' = length (up P c') \<and> cl c' = cl c \<and> sent_reqs c' = sent_reqs c"
  using assms(1,2)
proof (induction "length (up P c) - up_read c" arbitrary: c res)
  case 0
  then have "up_read c = length (up P c)" by (auto simp: conn_inv_def server_inv_def)
  with 0 show ?case by (intro exI [of _ c] exI [of _ res]) simp
next
  case (Suc m)
  then have n: "up_read c < length (up P c)" by simp
  from server_accepts(1) [OF Suc(3) logs n] obtain f s where f: "server_reads P (up P c ! up_read c) (sv c) f s"
    by blast
  from server_accepts(2) [OF Suc(3) logs n f]
  have "serving (take (Suc (up_read c)) (up P c)) s" "serves f (up P c ! up_read c)" by simp_all
  from request_answerable [OF this] obtain r s' where ans: "server_answers P f s r s'" by blast
  from Suc(3) have "server_inv env w0 res (up P c) (sv c) (sv_loop c) (sv_tasks c) (up_read c)"
    by (simp add: conn_inv_def)
  from server_front(1,3) [OF this] Suc(4) have "length (ds_queue (fst (sv_loop c))) = 0" by linarith
  then have "Suc (length (ds_queue (fst (sv_loop c)))) < 2 ^ 64" by simp
  note step = conn_step.answered [OF n this f ans, of env wr]
  let ?c = "c\<lparr>up_read := Suc (up_read c), sv := s', sv_loop := answer_now env r (sv_loop c)\<rparr>"
  from conn_inv_step [OF step Suc(3) logs] obtain res' where "conn_inv env wr w0 res' ?c"
    by blast
  moreover have "m = length (up P ?c) - up_read ?c" "sv_tasks ?c = []" using Suc(2,4) by simp_all
  ultimately obtain c' res' where
    "conn_reaches P env wr ?c c'"
    "conn_inv env wr w0 res' c'" "sv_tasks c' = []" "up_read c' = length (up P c')" "cl c' = cl c" "sent_reqs c' = sent_reqs c"
    using Suc(1) [of ?c res'] by auto
  note reached = this
  from converse_rtranclp_into_rtranclp [OF step reached(1)] reached(2-) show ?case by blast
qed

lemma client_reads_all:
  assumes "conn_inv env wr w0 res c" and logs: "loop_logs env wr" "wr w0 = []"
  shows "\<exists>c' res'. conn_reaches P env wr c c' \<and> conn_inv env wr w0 res' c' \<and> sv_tasks c' = sv_tasks c \<and>
    up_read c' = up_read c \<and> up P c' = up P c \<and> down_read c' = length (down wr c') \<and> sent_reqs c' = sent_reqs c"
  using assms(1)
proof (induction "length (down wr c) - down_read c" arbitrary: c res)
  case 0
  then have "down_read c = length (down wr c)" by (auto simp: conn_inv_def)
  with 0 show ?case by (intro exI [of _ c] exI [of _ res]) simp
next
  case (Suc m)
  then have n: "down_read c < length (down wr c)" by simp
  from client_next(2) [OF Suc(3) logs n] obtain d where d: "client_reads P (down wr c ! down_read c) (cl c) d" by blast
  let ?c = "c\<lparr>cl := d, down_read := Suc (down_read c)\<rparr>"
  note step = conn_step.received [where wr = wr and c = c, OF n d, of env]
  from conn_inv_step [OF step Suc(3) logs] obtain res' where "conn_inv env wr w0 res' ?c" by blast
  moreover have "m = length (down wr ?c) - down_read ?c" using Suc(2) by simp
  ultimately obtain c' res' where
    "conn_reaches P env wr ?c c'" "conn_inv env wr w0 res' c'" "sv_tasks c' = sv_tasks c"
    "up_read c' = up_read c" "up P c' = up P c" "down_read c' = length (down wr c')" "sent_reqs c' = sent_reqs c"
    using Suc(1) [of ?c res'] client_next(3) [OF Suc(3) logs n d] by auto
  note reached = this
  from converse_rtranclp_into_rtranclp [OF step reached(1)] reached(2-) show ?case by blast
qed

lemma catches_up:
  assumes "conn_reaches P env wr (conn_start d s w) c" "fresh d s" and logs: "loop_logs env wr" "wr w = []"
  shows "\<exists>c'. conn_reaches P env wr c c' \<and> sent_reqs c' = sent_reqs c \<and> sv_tasks c' = [] \<and> up_read c' = length (up P c') \<and>
    down_read c' = length (down wr c') \<and> answered_with answers (sent_reqs c) (got (cl c')) \<and>
    good (cl c') \<and> flying (cl c') = []"
proof -
  from conn_inv_reaches [OF assms] obtain res where "conn_inv env wr w res c" by blast
  from handlers_finish [OF this logs] obtain c1 res1 where
    c1: "conn_reaches P env wr c c1" "conn_inv env wr w res1 c1" "sv_tasks c1 = []" "sent_reqs c1 = sent_reqs c" by blast
  from server_reads_all [OF c1(2,3) logs] obtain c2 res2 where
    c2: "conn_reaches P env wr c1 c2" "conn_inv env wr w res2 c2" "sv_tasks c2 = []" "up_read c2 = length (up P c2)"
      "sent_reqs c2 = sent_reqs c1" by blast
  from client_reads_all [OF c2(2) logs] obtain c3 res3 where
    c3: "conn_reaches P env wr c2 c3" "conn_inv env wr w res3 c3" "sv_tasks c3 = sv_tasks c2" "up_read c3 = up_read c2"
      "up P c3 = up P c2" "down_read c3 = length (down wr c3)" "sent_reqs c3 = sent_reqs c2" by blast
  have all: "answered_with answers (sent_reqs c3) (got (cl c3))"
    by (rule all_answered [OF c3(2) logs]) (simp_all add: c2 c3)
  moreover from c3(2) obtain old where "good (cl c3)" "sent_reqs c3 = old @ map snd (flying (cl c3))"
      "answered_with answers old (got (cl c3))"
    by (auto simp: conn_inv_def client_inv_def)
  moreover from this all have "flying (cl c3) = []"
    by (auto dest!: list_all2_lengthD)
  moreover have "conn_reaches P env wr c c3"
    using c1(1) c2(1) c3(1) by (meson rtranclp_trans)
  ultimately show ?thesis
    using c1(4) c2(3,4,5) c3(3-) by auto
qed

end

end
