(* ===== verification/Control.thy ===== *)
theory Control
  imports Prelude
begin

text \<open>
  What the control messages of both protocol versions share: the iterators over the topic filters of a
  SUBSCRIBE or UNSUBSCRIBE (\<^verbatim>\<open>SubscribeIter::next_unsafe\<close> in \<^verbatim>\<open>v3/control.rs\<close> and \<^verbatim>\<open>v5/control.rs\<close>), which
  hand out the filters by index together with a mutable reference to the status at the same index. The
  handler that drives the loop is a function from a filter and its current status to the new status.
\<close>

text \<open>One call of \<^verbatim>\<open>next_unsafe\<close>: the next entry with its filter and status, or the end. Indexing the
  statuses out of range panics.\<close>

definition next_unsafe :: "nat \<Rightarrow> 'f list \<Rightarrow> 'c list \<Rightarrow> ('e, ('f \<times> 'c) option) outcome" where
  "next_unsafe entry filters codes =
    (if entry < length filters
     then if entry < length codes then Ok (Some (filters ! entry, codes ! entry)) else Panic
     else Ok None)"

text \<open>The loop \<^verbatim>\<open>for s in subscribe.iter_mut() { .. }\<close>.\<close>

function visit_from :: "nat \<Rightarrow> ('f \<Rightarrow> 'c \<Rightarrow> 'c) \<Rightarrow> 'f list \<Rightarrow> 'c list \<Rightarrow> ('e, 'c list) outcome" where
  "visit_from entry handler filters codes =
    and_then (next_unsafe entry filters codes) (\<lambda>item.
      case item of
        Some (flt, code) \<Rightarrow> visit_from (Suc entry) handler filters (codes[entry := handler flt code])
      | None \<Rightarrow> Ok codes)"
  by pat_completeness auto
termination
  by (relation "measure (\<lambda>(entry, _, filters, _). length filters - entry)")
    (auto simp: next_unsafe_def split: if_splits)

declare visit_from.simps [simp del]

lemma visit_from_append:
  assumes "length codes = length filters" and "length seen = length done_codes"
  shows "visit_from (length done_codes) handler (seen @ filters) (done_codes @ codes) =
    Ok (done_codes @ map2 handler filters codes)"
  using assms
proof (induction filters arbitrary: seen done_codes codes)
  case Nil
  then show ?case
    by (subst visit_from.simps) (simp add: next_unsafe_def)
next
  case (Cons f filters)
  then obtain c cs where codes: "codes = c # cs" "length cs = length filters"
    by (cases codes) auto
  from Cons.IH [OF codes(2), of "seen @ [f]" "done_codes @ [handler f c]"] Cons.prems(2) codes(1)
  show ?case
    by (subst visit_from.simps) (simp add: next_unsafe_def nth_append)
qed

lemma visit_all:
  "length codes = length filters \<Longrightarrow> visit_from 0 handler filters codes = Ok (map2 handler filters codes)"
  using visit_from_append [of codes filters "[]" "[]"] by simp

lemma map2_replicate: "map2 handler filters (replicate (length filters) c) = map (\<lambda>f. handler f c) filters"
  by (induction filters) auto

end
