(* ===== verification/V3_Packet.thy ===== *)
theory V3_Packet
  imports VarLen
begin

text \<open>
  The MQTT 3.1.1 packets of \<^verbatim>\<open>src/v3/codec/packet.rs\<close>. \<open>valid_Packet\<close> collects what the Rust types
  guarantee of a packet (strings are UTF-8, packet ids are not zero); \<open>encodable\<close> adds the limits of
  the wire format.
\<close>

datatype ConnectAckReason =
    ConnectionAccepted | UnacceptableProtocolVersion | IdentifierRejected | ServiceUnavailable
  | BadUserNameOrPassword | NotAuthorized | Reserved

fun ConnectAckReason_to_u8 :: "ConnectAckReason \<Rightarrow> u8" where
  "ConnectAckReason_to_u8 ConnectionAccepted = 0"
| "ConnectAckReason_to_u8 UnacceptableProtocolVersion = 1"
| "ConnectAckReason_to_u8 IdentifierRejected = 2"
| "ConnectAckReason_to_u8 ServiceUnavailable = 3"
| "ConnectAckReason_to_u8 BadUserNameOrPassword = 4"
| "ConnectAckReason_to_u8 NotAuthorized = 5"
| "ConnectAckReason_to_u8 Reserved = 6"

definition ConnectAckReason_variants :: "ConnectAckReason list" where
  "ConnectAckReason_variants =
     [ConnectionAccepted, UnacceptableProtocolVersion, IdentifierRejected, ServiceUnavailable,
      BadUserNameOrPassword, NotAuthorized, Reserved]"

definition ConnectAckReason_try_from :: "u8 \<Rightarrow> (DecodeError, ConnectAckReason) outcome" where
  "ConnectAckReason_try_from = try_from_u8 ConnectAckReason_to_u8 ConnectAckReason_variants"

interpretation v3_ConnectAckReason: prim_enum ConnectAckReason_to_u8 ConnectAckReason_variants
  rewrites "try_from_u8 ConnectAckReason_to_u8 ConnectAckReason_variants = ConnectAckReason_try_from"
proof -
  show "prim_enum ConnectAckReason_to_u8 ConnectAckReason_variants"
  proof
    show "x \<in> set ConnectAckReason_variants" for x
      by (cases x) (simp_all add: ConnectAckReason_variants_def)
  qed (simp add: ConnectAckReason_variants_def)
qed (simp add: ConnectAckReason_try_from_def)

fun ConnectAckReason_reason :: "ConnectAckReason \<Rightarrow> string" where
  "ConnectAckReason_reason ConnectionAccepted = ''Connection Accepted''"
| "ConnectAckReason_reason UnacceptableProtocolVersion =
     ''Connection Refused, unacceptable protocol version''"
| "ConnectAckReason_reason IdentifierRejected = ''Connection Refused, identifier rejected''"
| "ConnectAckReason_reason ServiceUnavailable = ''Connection Refused, Server unavailable''"
| "ConnectAckReason_reason BadUserNameOrPassword = ''Connection Refused, bad user name or password''"
| "ConnectAckReason_reason NotAuthorized = ''Connection Refused, not authorized''"
| "ConnectAckReason_reason _ = ''Connection Refused''"

record LastWill =
  lw_qos :: QoS
  lw_retain :: bool
  lw_topic :: bytestring
  lw_message :: bytes

record Connect =
  clean_session :: bool
  keep_alive :: u16
  last_will :: "LastWill option"
  client_id :: bytestring
  username :: "bytestring option"
  password :: "bytes option"

record Publish =
  dup :: bool
  retain :: bool
  qos :: QoS
  topic :: bytestring
  packet_id :: "u16 option"
  payload :: bytes

datatype SubscribeReturnCode = Success QoS | Failure

datatype Packet =
    Connect Connect
  | ConnectAck bool ConnectAckReason
  | Publish Publish
  | PublishAck u16
  | PublishReceived u16
  | PublishRelease u16
  | PublishComplete u16
  | Subscribe u16 "(bytestring \<times> QoS) list"
  | SubscribeAck u16 "SubscribeReturnCode list"
  | Unsubscribe u16 "bytestring list"
  | UnsubscribeAck u16
  | PingRequest
  | PingResponse
  | Disconnect

fun packet_type :: "Packet \<Rightarrow> u8" where
  "packet_type (Connect _) = CONNECT"
| "packet_type (ConnectAck _ _) = CONNACK"
| "packet_type (Publish _) = PUBLISH_START"
| "packet_type (PublishAck _) = PUBACK"
| "packet_type (PublishReceived _) = PUBREC"
| "packet_type (PublishRelease _) = PUBREL"
| "packet_type (PublishComplete _) = PUBCOMP"
| "packet_type (Subscribe _ _) = SUBSCRIBE"
| "packet_type (SubscribeAck _ _) = SUBACK"
| "packet_type (Unsubscribe _ _) = UNSUBSCRIBE"
| "packet_type (UnsubscribeAck _) = UNSUBACK"
| "packet_type PingRequest = PINGREQ"
| "packet_type PingResponse = PINGRESP"
| "packet_type Disconnect = DISCONNECT"

section \<open>Well-formed packets\<close>

definition valid_LastWill :: "LastWill \<Rightarrow> bool" where
  "valid_LastWill w \<longleftrightarrow> valid_ByteString (lw_topic w) \<and> valid_Bytes (lw_message w)"

text \<open>A CONNECT without a client id must ask for a clean session.\<close>

definition valid_Connect :: "Connect \<Rightarrow> bool" where
  "valid_Connect c \<longleftrightarrow> valid_ByteString (client_id c) \<and> (client_id c = [] \<longrightarrow> clean_session c) \<and>
     valid_opt valid_LastWill (last_will c) \<and> valid_opt valid_ByteString (username c) \<and>
     valid_opt valid_Bytes (password c)"

text \<open>A packet id goes with QoS 1 and 2, and only with them.\<close>

definition valid_Publish :: "Publish \<Rightarrow> bool" where
  "valid_Publish p \<longleftrightarrow> valid_ByteString (topic p) \<and>
     (qos p = AtMostOnce \<longleftrightarrow> packet_id p = None) \<and> packet_id p \<noteq> Some 0"

fun valid_Packet :: "Packet \<Rightarrow> bool" where
  "valid_Packet (Connect c) = valid_Connect c"
| "valid_Packet (Publish p) = valid_Publish p"
| "valid_Packet (PublishAck pid) = (pid \<noteq> 0)"
| "valid_Packet (PublishReceived pid) = (pid \<noteq> 0)"
| "valid_Packet (PublishRelease pid) = (pid \<noteq> 0)"
| "valid_Packet (PublishComplete pid) = (pid \<noteq> 0)"
| "valid_Packet (Subscribe pid fs) = (pid \<noteq> 0 \<and> (\<forall>f \<in> set fs. valid_ByteString (fst f)))"
| "valid_Packet (SubscribeAck pid st) = (pid \<noteq> 0)"
| "valid_Packet (Unsubscribe pid fs) = (pid \<noteq> 0 \<and> (\<forall>f \<in> set fs. valid_ByteString f))"
| "valid_Packet (UnsubscribeAck pid) = (pid \<noteq> 0)"
| "valid_Packet _ = True"

end
