(* ===== verification/V3_Control.thy ===== *)
theory V3_Control
  imports Control V3_Packet
begin

text \<open>
  The control messages of the 3.1.1 server (\<^verbatim>\<open>v3/control.rs\<close>) and the publish message of
  \<^verbatim>\<open>v3/publish.rs\<close>. The router path of a publish message belongs to \<^verbatim>\<open>ntex::router\<close> and is left out.
\<close>

record Subscribe =
  s_packet_id :: u16
  s_topics :: "(bytestring \<times> QoS) list"
  s_codes :: "SubscribeReturnCode list"

record Unsubscribe =
  u_packet_id :: u16
  u_topics :: "bytestring list"

datatype ControlMessage =
    Ping
  | Disconnect
  | Subscribe Subscribe
  | Unsubscribe Unsubscribe
  | Closed bool

record SubscribeResult =
  sr_codes :: "SubscribeReturnCode list"
  sr_packet_id :: u16

datatype ControlResultKind =
    Nothing
  | PublishAck u16
  | Ping
  | Disconnect
  | Subscribe SubscribeResult
  | Unsubscribe u16
  | Closed

definition Subscribe_new :: "u16 \<Rightarrow> (bytestring \<times> QoS) list \<Rightarrow> Subscribe" where
  "Subscribe_new pid topics =
    \<lparr>s_packet_id = pid, s_topics = topics, s_codes = replicate (length topics) Failure\<rparr>"

text \<open>What a handler can do with one subscription.\<close>

definition Subscription_fail :: "SubscribeReturnCode \<Rightarrow> SubscribeReturnCode" where
  "Subscription_fail code = Failure"

definition Subscription_confirm :: "QoS \<Rightarrow> SubscribeReturnCode \<Rightarrow> SubscribeReturnCode" where
  "Subscription_confirm q code = Success q"

definition Subscribe_iter ::
  "(bytestring \<times> QoS \<Rightarrow> SubscribeReturnCode \<Rightarrow> SubscribeReturnCode) \<Rightarrow> Subscribe \<Rightarrow> ('e, Subscribe) outcome" where
  "Subscribe_iter handler s =
    and_then (visit_from 0 handler (s_topics s) (s_codes s)) (\<lambda>codes. Ok (s\<lparr>s_codes := codes\<rparr>))"

definition Subscribe_ack :: "Subscribe \<Rightarrow> ControlResultKind" where
  "Subscribe_ack s =
    ControlResultKind.Subscribe \<lparr>sr_codes = s_codes s, sr_packet_id = s_packet_id s\<rparr>"

definition Unsubscribe_new :: "u16 \<Rightarrow> bytestring list \<Rightarrow> Unsubscribe" where
  "Unsubscribe_new pid topics = \<lparr>u_packet_id = pid, u_topics = topics\<rparr>"

definition Unsubscribe_ack :: "Unsubscribe \<Rightarrow> ControlResultKind" where
  "Unsubscribe_ack u = ControlResultKind.Unsubscribe (u_packet_id u)"

definition Ping_ack :: ControlResultKind where "Ping_ack = ControlResultKind.Ping"

definition Disconnect_ack :: ControlResultKind where "Disconnect_ack = ControlResultKind.Disconnect"

definition Closed_ack :: ControlResultKind where "Closed_ack = ControlResultKind.Closed"

definition take_payload :: "Publish \<Rightarrow> bytes \<times> Publish" where
  "take_payload publish = (payload publish, publish\<lparr>payload := []\<rparr>)"

text \<open>The services that stand in where the application gives none (\<^verbatim>\<open>v3/default.rs\<close>).\<close>

definition DefaultPublishService_call :: "Publish \<Rightarrow> 'e + unit" where
  "DefaultPublishService_call req = Inr ()"

fun DefaultControlService_call :: "ControlMessage \<Rightarrow> 'e + ControlResultKind" where
  "DefaultControlService_call ControlMessage.Ping = Inr Ping_ack"
| "DefaultControlService_call ControlMessage.Disconnect = Inr Disconnect_ack"
| "DefaultControlService_call (ControlMessage.Subscribe subs) = Inr (Subscribe_ack subs)"
| "DefaultControlService_call (ControlMessage.Unsubscribe unsubs) = Inr (Unsubscribe_ack unsubs)"
| "DefaultControlService_call (ControlMessage.Closed msg) = Inr Closed_ack"

text \<open>The result of a handler that goes over all subscriptions of a SUBSCRIBE.\<close>

lemma Subscribe_iter_new:
  "Subscribe_iter handler (Subscribe_new pid topics) =
    Ok \<lparr>s_packet_id = pid, s_topics = topics, s_codes = map (\<lambda>t. handler t Failure) topics\<rparr>"
  by (simp add: Subscribe_iter_def Subscribe_new_def visit_all map2_replicate)

end
