(* ===== verification/V3_Decode.thy ===== *)
theory V3_Decode
  imports V3_Packet
begin

text \<open>
  \<^verbatim>\<open>src/v3/codec/decode.rs\<close>: from the bytes of one frame to a packet. The lemmas show that decoding
  returns on every input (no panic, no endless loop) and only yields valid packets.
\<close>

definition decode_ack :: "bytes \<Rightarrow> (u16 \<Rightarrow> Packet) \<Rightarrow> (DecodeError, Packet) outcome" where
  "decode_ack src f =
     and_then (NonZeroU16_decode src) (\<lambda>(packet_id, src).
     ensure (src = []) DecodeError.InvalidLength (Ok (f packet_id)))"

definition decode_last_will :: "u8 \<Rightarrow> (DecodeError, LastWill) decoder" where
  "decode_last_will flags src =
     and_then (ByteString_decode src) (\<lambda>(topic, src).
     and_then (Bytes_decode src) (\<lambda>(message, src).
     and_then (QoS_try_from (drop_bit WILL_QOS_SHIFT (flags AND CF_WILL_QOS))) (\<lambda>qos.
     Ok (\<lparr>lw_qos = qos, lw_retain = flags_contains flags CF_WILL_RETAIN,
          lw_topic = topic, lw_message = message\<rparr>, src))))"

definition decode_connect_packet :: "bytes \<Rightarrow> (DecodeError, Packet) outcome" where
  "decode_connect_packet src =
     ensure (10 \<le> length src) DecodeError.InvalidLength
     (and_then (get_u16 src) (\<lambda>(len, src).
      ensure (len = 4 \<and> take 4 src = MQTT) InvalidProtocol
     (and_then (advance 4 src) (\<lambda>src.
      and_then (get_u8 src) (\<lambda>(level, src).
      ensure (level = MQTT_LEVEL_3) UnsupportedProtocolLevel
     (and_then (get_u8 src) (\<lambda>(b, src).
      and_then (ok_or (flags_from_bits ConnectFlags_all b) ConnectReservedFlagSet) (\<lambda>flags.
      and_then (u16_decode src) (\<lambda>(keep_alive, src).
      and_then (ByteString_decode src) (\<lambda>(client_id, src).
      ensure (client_id \<noteq> [] \<or> flags_contains flags CF_CLEAN_START) InvalidClientId
     (and_then (decode_if (flags_contains flags CF_WILL) (decode_last_will flags) src)
        (\<lambda>(last_will, src).
      and_then (decode_if (flags_contains flags CF_USERNAME) ByteString_decode src)
        (\<lambda>(username, src).
      and_then (decode_if (flags_contains flags CF_PASSWORD) Bytes_decode src)
        (\<lambda>(password, src).
      Ok (Connect \<lparr>clean_session = flags_contains flags CF_CLEAN_START, keep_alive = keep_alive,
        last_will = last_will, client_id = client_id, username = username,
        password = password\<rparr>)))))))))))))))"

definition decode_connect_ack_packet :: "bytes \<Rightarrow> (DecodeError, Packet) outcome" where
  "decode_connect_ack_packet src =
     ensure (2 \<le> length src) DecodeError.InvalidLength
     (and_then (get_u8 src) (\<lambda>(b, src).
      and_then (ok_or (flags_from_bits ConnectAckFlags_all b) ConnAckReservedFlagSet) (\<lambda>flags.
      and_then (get_u8 src) (\<lambda>(c, src).
      and_then (ConnectAckReason_try_from c) (\<lambda>return_code.
      Ok (ConnectAck (flags_contains flags CAF_SESSION_PRESENT) return_code))))))"

definition decode_publish_packet :: "bytes \<Rightarrow> u8 \<Rightarrow> (DecodeError, Packet) outcome" where
  "decode_publish_packet src packet_flags =
     and_then (ByteString_decode src) (\<lambda>(topic, src).
     and_then (QoS_try_from (drop_bit 1 (packet_flags AND 6))) (\<lambda>qos.
     and_then (decode_if (qos \<noteq> AtMostOnce) NonZeroU16_decode src) (\<lambda>(packet_id, src).
     Ok (Publish \<lparr>dup = (packet_flags AND 8 = 8), retain = (packet_flags AND 1 = 1), qos = qos,
       topic = topic, packet_id = packet_id, payload = src\<rparr>))))"

definition subscribe_filter_decode :: "(DecodeError, bytestring \<times> QoS) decoder" where
  "subscribe_filter_decode src =
     and_then (ByteString_decode src) (\<lambda>(topic, src).
     ensure (1 \<le> length src) DecodeError.InvalidLength
     (and_then (get_u8 src) (\<lambda>(b, src).
      and_then (QoS_try_from (b AND 3)) (\<lambda>qos. Ok ((topic, qos), src)))))"

definition decode_subscribe_packet :: "bytes \<Rightarrow> (DecodeError, Packet) outcome" where
  "decode_subscribe_packet src =
     and_then (NonZeroU16_decode src) (\<lambda>(packet_id, src).
     and_then (while_remaining (push_body subscribe_filter_decode) [] src) (\<lambda>topic_filters.
     Ok (Subscribe packet_id topic_filters)))"

text \<open>The loop over the status bytes, which stops at the first byte that is no return code.\<close>

fun decode_status :: "bytes \<Rightarrow> (DecodeError, SubscribeReturnCode list) outcome" where
  "decode_status [] = Ok []"
| "decode_status (code # codes) =
     and_then (if code = 0x80 then Ok Failure else and_then (QoS_try_from code) (\<lambda>q. Ok (Success q)))
     (\<lambda>s. and_then (decode_status codes) (\<lambda>status. Ok (s # status)))"

definition decode_subscribe_ack_packet :: "bytes \<Rightarrow> (DecodeError, Packet) outcome" where
  "decode_subscribe_ack_packet src =
     and_then (NonZeroU16_decode src) (\<lambda>(packet_id, src).
     and_then (decode_status src) (\<lambda>status. Ok (SubscribeAck packet_id status)))"

definition decode_unsubscribe_packet :: "bytes \<Rightarrow> (DecodeError, Packet) outcome" where
  "decode_unsubscribe_packet src =
     and_then (NonZeroU16_decode src) (\<lambda>(packet_id, src).
     and_then (while_remaining (push_body ByteString_decode) [] src) (\<lambda>topic_filters.
     Ok (Unsubscribe packet_id topic_filters)))"

definition decode_packet :: "bytes \<Rightarrow> u8 \<Rightarrow> (DecodeError, Packet) outcome" where
  "decode_packet src fb =
     (if fb = CONNECT then decode_connect_packet src
      else if fb = CONNACK then decode_connect_ack_packet src
      else if PUBLISH_START \<le> fb \<and> fb \<le> PUBLISH_END then
        decode_publish_packet src (fb AND 0x0F)
      else if fb = PUBACK then decode_ack src PublishAck
      else if fb = PUBREC then decode_ack src PublishReceived
      else if fb = PUBREL then decode_ack src PublishRelease
      else if fb = PUBCOMP then decode_ack src PublishComplete
      else if fb = SUBSCRIBE then decode_subscribe_packet src
      else if fb = SUBACK then decode_subscribe_ack_packet src
      else if fb = UNSUBSCRIBE then decode_unsubscribe_packet src
      else if fb = UNSUBACK then decode_ack src UnsubscribeAck
      else if fb = PINGREQ then Ok PingRequest
      else if fb = PINGRESP then Ok PingResponse
      else if fb = DISCONNECT then Ok Disconnect
      else Err UnsupportedPacketType)"

section \<open>Decoding returns\<close>

lemma returns_QoS_try_from [returns_intro]: "returns (QoS_try_from v)"
  by (simp add: QoS_try_from_def returns_try_from_u8)

lemma returns_decode_ack: "returns (decode_ack src f)"
  by (auto simp: decode_ack_def intro!: returns_intro)

lemma returns_decode_last_will [returns_intro]: "returns (decode_last_will flags src)"
  by (auto simp: decode_last_will_def intro!: returns_intro)

lemma returns_decode_connect: "returns (decode_connect_packet src)"
  unfolding decode_connect_packet_def
  by (intro returns_intro; (clarsimp simp: advance_def dest!: get_u16_Ok_length split: if_splits)?)
    (auto dest: arg_cong [of _ _ length])

lemma subscribe_filter_consuming: "consuming subscribe_filter_decode"
  by (auto simp: consuming_def subscribe_filter_decode_def
      dest: consumingD [OF ByteString.decode_consuming])

lemma returns_subscribe_filter: "returns (subscribe_filter_decode src)"
  unfolding subscribe_filter_decode_def by (intro returns_intro) (auto intro!: returns_intro)

lemma push_body_shrinks: "consuming d \<Longrightarrow> consuming (push_body d acc)"
  by (auto simp: consuming_def push_body_def)

lemma returns_decode_subscribe: "returns (decode_subscribe_packet src)"
  unfolding decode_subscribe_packet_def
  by (intro returns_intro push_body_shrinks subscribe_filter_consuming)
    (auto simp: push_body_def intro!: returns_intro returns_subscribe_filter
      push_body_shrinks subscribe_filter_consuming)

lemma returns_decode_status: "returns (decode_status codes)"
  by (induction codes) (auto intro!: returns_intro)

lemma returns_decode_packet: "returns (decode_packet src fb)"
proof -
  have "returns (decode_connect_ack_packet src)"
    by (cases src) (auto simp: decode_connect_ack_packet_def ConnectAckReason_try_from_def Suc_le_eq
        intro!: returns_intro)
  moreover have "returns (decode_publish_packet src fl)" for fl
    by (auto simp: decode_publish_packet_def intro!: returns_intro)
  moreover have "returns (decode_subscribe_ack_packet src)"
    by (auto simp: decode_subscribe_ack_packet_def intro!: returns_intro returns_decode_status)
  moreover have "returns (decode_unsubscribe_packet src)"
    by (auto simp: decode_unsubscribe_packet_def intro!: returns_intro ByteString.push_loop_returns)
  ultimately show ?thesis
    by (simp add: decode_packet_def returns_decode_connect returns_decode_subscribe returns_decode_ack)
qed

section \<open>Decoded packets are valid\<close>

lemma decode_last_will_valid: "decode_last_will fl src = Ok (w, rest) \<Longrightarrow> valid_LastWill w"
  by (auto simp: decode_last_will_def ByteString_decode_iff Bytes.decode_iff valid_LastWill_def)

lemma decode_connect_valid: "decode_connect_packet src = Ok p \<Longrightarrow> valid_Packet p"
  by (clarsimp simp: decode_connect_packet_def ByteString_decode_iff Bytes.decode_iff decode_if_Ok
      valid_Connect_def split: if_splits)
    (auto simp: valid_Connect_def dest!: decode_last_will_valid)

lemma subscribe_filter_valid:
  "subscribe_filter_decode src = Ok (f, rest) \<Longrightarrow> valid_ByteString (fst f)"
  by (auto simp: subscribe_filter_decode_def ByteString_decode_iff)

lemma push_loop_all:
  assumes "while_remaining (push_body d) [] src = Ok vs" "consuming d"
    and "\<And>src v rest. d src = Ok (v, rest) \<Longrightarrow> Q v"
  shows "\<forall>v \<in> set vs. Q v"
  by (rule while_remaining_invar [where body = "push_body d" and P = "\<lambda>vs. \<forall>v \<in> set vs. Q v"])
    (use assms in \<open>auto simp: push_body_def intro!: push_body_shrinks\<close>)

lemma decode_subscribe_valid: "decode_subscribe_packet src = Ok p \<Longrightarrow> valid_Packet p"
  by (auto simp: decode_subscribe_packet_def NonZeroU16.decode_iff
      dest!: push_loop_all [where Q = "\<lambda>f. valid_ByteString (fst f)"]
      intro: subscribe_filter_consuming subscribe_filter_valid)

lemma decode_unsubscribe_valid: "decode_unsubscribe_packet src = Ok p \<Longrightarrow> valid_Packet p"
  by (auto simp: decode_unsubscribe_packet_def NonZeroU16.decode_iff
      dest!: ByteString.push_loop_valid)

lemma decode_publish_valid: "decode_publish_packet src fl = Ok p \<Longrightarrow> valid_Packet p"
  by (auto simp: decode_publish_packet_def ByteString_decode_iff NonZeroU16.decode_iff decode_if_Ok
      valid_Publish_def split: if_splits)

lemma decode_packet_valid: "decode_packet src fb = Ok p \<Longrightarrow> valid_Packet p"
proof -
  have ack: "decode_ack src f = Ok p \<Longrightarrow> \<exists>pid. pid \<noteq> 0 \<and> p = f pid" for f
    by (auto simp: decode_ack_def NonZeroU16.decode_iff)
  have suback: "decode_subscribe_ack_packet src = Ok p \<Longrightarrow> valid_Packet p"
    by (auto simp: decode_subscribe_ack_packet_def NonZeroU16.decode_iff)
  have connack: "decode_connect_ack_packet src = Ok p \<Longrightarrow> valid_Packet p"
    by (auto simp: decode_connect_ack_packet_def)
  show "decode_packet src fb = Ok p \<Longrightarrow> valid_Packet p"
    unfolding decode_packet_def
    by (auto split: if_splits dest: ack suback connack decode_connect_valid decode_publish_valid
        decode_subscribe_valid decode_unsubscribe_valid)
qed

end
