(* ===== verification/V3_Encode.thy ===== *)
theory V3_Encode
  imports V3_Decode
begin

text \<open>
  \<^verbatim>\<open>src/v3/codec/encode.rs\<close>: the announced size of a packet and its encoding. For every encodable
  packet the encoder writes the fixed header, the remaining length and exactly the announced number
  of bytes, and the frame decoder reads the packet back.
\<close>

fun get_encoded_size :: "Packet \<Rightarrow> nat" where
  "get_encoded_size (Connect c) =
     2 + 4 + 1 + 1 + 2
     + (2 + length (client_id c))
     + (case last_will c of Some w \<Rightarrow> 2 + length (lw_topic w) + 2 + length (lw_message w) | None \<Rightarrow> 0)
     + (case username c of Some s \<Rightarrow> 2 + length s | None \<Rightarrow> 0)
     + (case password c of Some s \<Rightarrow> 2 + length s | None \<Rightarrow> 0)"
| "get_encoded_size (Publish p) =
     (if qos p = AtLeastOnce \<or> qos p = ExactlyOnce then 4 + length (topic p) + length (payload p)
      else 2 + length (topic p) + length (payload p))"
| "get_encoded_size (ConnectAck _ _) = 2"
| "get_encoded_size (PublishAck _) = 2"
| "get_encoded_size (PublishReceived _) = 2"
| "get_encoded_size (PublishRelease _) = 2"
| "get_encoded_size (PublishComplete _) = 2"
| "get_encoded_size (UnsubscribeAck _) = 2"
| "get_encoded_size (Subscribe _ topic_filters) =
     2 + fold (\<lambda>(filter, _) acc. acc + 2 + length filter + 1) topic_filters 0"
| "get_encoded_size (SubscribeAck _ status) = 2 + length status"
| "get_encoded_size (Unsubscribe _ topic_filters) =
     2 + fold (\<lambda>filter acc. acc + 2 + length filter) topic_filters 0"
| "get_encoded_size PingRequest = 0"
| "get_encoded_size PingResponse = 0"
| "get_encoded_size Disconnect = 0"

definition connect_flags :: "Connect \<Rightarrow> u8" where
  "connect_flags c =
     (let flags = 0;
          flags = (if username c \<noteq> None then flags OR CF_USERNAME else flags);
          flags = (if password c \<noteq> None then flags OR CF_PASSWORD else flags);
          flags = (case last_will c of None \<Rightarrow> flags
            | Some w \<Rightarrow>
               (let flags = flags OR CF_WILL;
                    flags = (if lw_retain w then flags OR CF_WILL_RETAIN else flags)
                in flags OR (push_bit WILL_QOS_SHIFT (QoS_to_u8 (lw_qos w)) AND ConnectFlags_all)));
          flags = (if clean_session c then flags OR CF_CLEAN_START else flags)
      in flags)"

definition encode_connect :: "Connect \<Rightarrow> EncodeError encoder" where
  "encode_connect c = steps
     [Slice_encode MQTT,
      put [MQTT_LEVEL_3, connect_flags c],
      put (u16_be (keep_alive c)),
      ByteString_encode (client_id c),
      encode_opt (last_will c)
        (\<lambda>w. steps [ByteString_encode (lw_topic w), Bytes_encode (lw_message w)]),
      encode_opt (username c) ByteString_encode,
      encode_opt (password c) Bytes_encode]"

definition publish_first_byte :: "Publish \<Rightarrow> u8" where
  "publish_first_byte p =
     PUBLISH_START OR push_bit 1 (QoS_to_u8 (qos p)) OR push_bit 3 (of_bool (dup p))
     OR of_bool (retain p)"

fun status_to_u8 :: "SubscribeReturnCode \<Rightarrow> u8" where
  "status_to_u8 (Success q) = QoS_to_u8 q"
| "status_to_u8 Failure = 0x80"

fun encode :: "Packet \<Rightarrow> u32 \<Rightarrow> EncodeError encoder" where
  "encode (Connect c) content_size =
     steps [put [CONNECT], write_variable_length content_size, encode_connect c]"
| "encode (ConnectAck session_present return_code) content_size =
     steps [put [CONNACK], write_variable_length content_size,
       put [if session_present then 1 else 0, ConnectAckReason_to_u8 return_code]]"
| "encode (Publish p) content_size =
     steps [put [publish_first_byte p], write_variable_length content_size,
       ByteString_encode (topic p),
       (if qos p = AtMostOnce then
          (if packet_id p \<noteq> None then enc_fail (Err EncodeError.MalformedPacket) else put [])
        else enc_val (ok_or (packet_id p) EncodeError.PacketIdRequired) NonZeroU16_encode),
       put (payload p)]"
| "encode (PublishAck pid) content_size =
     steps [put [PUBACK], write_variable_length content_size, NonZeroU16_encode pid]"
| "encode (PublishReceived pid) content_size =
     steps [put [PUBREC], write_variable_length content_size, NonZeroU16_encode pid]"
| "encode (PublishRelease pid) content_size =
     steps [put [PUBREL], write_variable_length content_size, NonZeroU16_encode pid]"
| "encode (PublishComplete pid) content_size =
     steps [put [PUBCOMP], write_variable_length content_size, NonZeroU16_encode pid]"
| "encode (Subscribe pid topic_filters) content_size =
     steps [put [SUBSCRIBE], write_variable_length content_size, NonZeroU16_encode pid,
       for_each topic_filters
         (\<lambda>(filter, qos). steps [ByteString_encode filter, put [QoS_to_u8 qos]])]"
| "encode (SubscribeAck pid status) content_size =
     steps [put [SUBACK], write_variable_length content_size, NonZeroU16_encode pid,
       put (map status_to_u8 status)]"
| "encode (Unsubscribe pid topic_filters) content_size =
     steps [put [UNSUBSCRIBE], write_variable_length content_size, NonZeroU16_encode pid,
       for_each topic_filters ByteString_encode]"
| "encode (UnsubscribeAck pid) content_size =
     steps [put [UNSUBACK], write_variable_length content_size, NonZeroU16_encode pid]"
| "encode PingRequest content_size = put [PINGREQ, 0]"
| "encode PingResponse content_size = put [PINGRESP, 0]"
| "encode Disconnect content_size = put [DISCONNECT, 0]"

definition encodable :: "Packet \<Rightarrow> bool" where
  "encodable p \<longleftrightarrow> valid_Packet p \<and> get_encoded_size p \<le> 268435455"

section \<open>Wire images\<close>

text \<open>The first byte and the bytes after the remaining length, as the encoder writes them.\<close>

fun header_byte :: "Packet \<Rightarrow> u8" where
  "header_byte (Publish p) = publish_first_byte p"
| "header_byte p = packet_type p"

fun content :: "Packet \<Rightarrow> bytes" where
  "content (Connect c) = Bytes_image MQTT @ [MQTT_LEVEL_3, connect_flags c] @ u16_be (keep_alive c)
     @ Bytes_image (client_id c)
     @ opt_image (\<lambda>w. Bytes_image (lw_topic w) @ Bytes_image (lw_message w)) (last_will c)
     @ opt_image Bytes_image (username c) @ opt_image Bytes_image (password c)"
| "content (ConnectAck s r) = [if s then 1 else 0, ConnectAckReason_to_u8 r]"
| "content (Publish p) = Bytes_image (topic p) @ opt_image u16_be (packet_id p) @ payload p"
| "content (PublishAck pid) = u16_be pid"
| "content (PublishReceived pid) = u16_be pid"
| "content (PublishRelease pid) = u16_be pid"
| "content (PublishComplete pid) = u16_be pid"
| "content (Subscribe pid fs) =
     u16_be pid @ concat (map (\<lambda>(f, q). Bytes_image f @ [QoS_to_u8 q]) fs)"
| "content (SubscribeAck pid st) = u16_be pid @ map status_to_u8 st"
| "content (Unsubscribe pid fs) = u16_be pid @ concat (map Bytes_image fs)"
| "content (UnsubscribeAck pid) = u16_be pid"
| "content _ = []"

lemma fold_subscribe:
  "fold (\<lambda>(filter, _) acc. acc + 2 + length filter + 1) fs a =
   a + length (concat (map (\<lambda>(f, q). Bytes_image f @ [QoS_to_u8 q]) fs))"
  by (induction fs arbitrary: a) (auto simp: Bytes_encoded_size_def)

lemma fold_unsubscribe:
  "fold (\<lambda>filter acc. acc + 2 + length filter) fs a = a + length (concat (map Bytes_image fs))"
  by (induction fs arbitrary: a) (auto simp: Bytes_encoded_size_def)

lemma length_content: "valid_Packet p \<Longrightarrow> length (content p) = get_encoded_size p"
proof (cases p)
  case (Connect c)
  then show ?thesis
    by (auto simp: MQTT_def Bytes_encoded_size_def opt_image_def split: option.splits)
next
  case (Publish pb)
  moreover assume "valid_Packet p"
  ultimately show ?thesis
    by (cases "qos pb"; cases "packet_id pb") (auto simp: valid_Publish_def Bytes_encoded_size_def)
qed (simp_all add: fold_subscribe [simplified] fold_unsubscribe [simplified])

lemma writes_encode_connect:
  "valid_Connect c \<Longrightarrow> writes (encode_connect c) (content (Connect c))"
  unfolding encode_connect_def Slice_Bytes
  by (rule writes_eqI, (rule writes_intro | (auto simp: valid_Connect_def valid_LastWill_def
        valid_Bytes_def MQTT_def)[1])+)

lemma writes_frame:
  assumes "n \<le> 268435455" "writes (steps body) bs"
  shows "writes (steps (put [b] # write_variable_length (of_nat n) # body)) (b # varlen_spec n @ bs)"
proof -
  have n: "unat (of_nat n :: u32) = n" using assms(1) by (simp add: unat_u32_of_nat)
  show ?thesis
    by (rule writes_eqI, (rule writes_put writes_varlen assms(2) writes_steps_Cons |
        (simp add: n assms(1))[1])+)
qed

lemma writes_filter:
  "valid_ByteString f \<Longrightarrow> writes (steps [ByteString_encode f, put [q]]) (Bytes_image f @ [q])"
  by (rule writes_eqI, (rule writes_intro | simp)+)

lemma writes_packet_id:
  "valid_Publish p \<Longrightarrow>
   writes (if qos p = AtMostOnce then
       (if packet_id p \<noteq> None then enc_fail (Err EncodeError.MalformedPacket) else put [])
     else enc_val (ok_or (packet_id p) EncodeError.PacketIdRequired) NonZeroU16_encode)
   (opt_image u16_be (packet_id p))"
  by (cases "packet_id p") (auto simp: valid_Publish_def intro!: writes_intro)

lemma writes_encode:
  assumes "encodable p"
  shows "writes (encode p (of_nat (get_encoded_size p)))
    (header_byte p # varlen_spec (get_encoded_size p) @ content p)"
proof -
  from assms have v: "valid_Packet p" and n: "get_encoded_size p \<le> 268435455"
    by (simp_all add: encodable_def)
  note frame = writes_frame [OF n]
  show ?thesis
  proof (cases p)
    case (Connect c)
    with v have "writes (steps [encode_connect c]) (content p)"
      by (intro writes_eqI [OF writes_steps_Cons [OF writes_encode_connect writes_steps_Nil]])
        simp_all
    from frame [OF this] Connect show ?thesis by (simp del: get_encoded_size.simps)
  next
    case (Publish pb)
    let ?pid = "if qos pb = AtMostOnce then
       (if packet_id pb \<noteq> None then enc_fail (Err EncodeError.MalformedPacket) else put [])
     else enc_val (ok_or (packet_id pb) EncodeError.PacketIdRequired) NonZeroU16_encode"
    from Publish v
    have "writes (steps [ByteString_encode (topic pb), ?pid, put (payload pb)]) (content p)"
      by (intro writes_eqI [OF writes_steps_Cons [OF ByteString.writes_image
            writes_steps_Cons [OF writes_packet_id writes_steps_Cons [OF writes_put writes_steps_Nil]]]])
        (simp_all add: valid_Publish_def)
    from frame [OF this] Publish show ?thesis by (simp del: get_encoded_size.simps)
  next
    case (Subscribe pid fs)
    with v have "writes (steps [NonZeroU16_encode pid, for_each fs
        (\<lambda>(filter, qos). steps [ByteString_encode filter, put [QoS_to_u8 qos]])]) (content p)"
      by (intro writes_eqI [OF writes_steps_Cons [OF NonZeroU16.writes_image
            writes_steps_Cons [OF writes_for_each writes_steps_Nil]]])
        (auto intro!: writes_filter dest!: bspec)
    from frame [OF this] Subscribe show ?thesis by (simp del: get_encoded_size.simps)
  next
    case (Unsubscribe pid fs)
    with v have "writes (steps [NonZeroU16_encode pid, for_each fs ByteString_encode]) (content p)"
      by (intro writes_eqI [OF writes_steps_Cons [OF NonZeroU16.writes_image
            writes_steps_Cons [OF writes_for_each writes_steps_Nil]]])
        (auto intro!: ByteString.writes_image)
    from frame [OF this] Unsubscribe show ?thesis by (simp del: get_encoded_size.simps)
  next
    case (SubscribeAck pid st)
    with v have "writes (steps [NonZeroU16_encode pid, put (map status_to_u8 st)]) (content p)"
      by (intro writes_eqI [OF writes_steps_Cons [OF NonZeroU16.writes_image
            writes_steps_Cons [OF writes_put writes_steps_Nil]]]) simp_all
    from frame [OF this] SubscribeAck show ?thesis
      by (simp del: get_encoded_size.simps)
  next
    case (ConnectAck s r)
    have "writes (steps [put [if s then 1 else 0, ConnectAckReason_to_u8 r]]) (content p)"
      using ConnectAck by (intro writes_eqI [OF writes_steps_Cons [OF writes_put writes_steps_Nil]])
        simp_all
    from frame [OF this] ConnectAck show ?thesis by (cases s) simp_all
  qed (use v in \<open>auto simp: varlen_spec_1 intro!: writes_put
      writes_eqI [OF writes_frame [OF _ writes_steps_Cons [OF NonZeroU16.writes_image writes_steps_Nil],
      of 2, simplified]]\<close>)
qed

section \<open>Reading the image back\<close>

lemma connect_flags_known:
  "flags_from_bits ConnectFlags_all (connect_flags c) = Some (connect_flags c)"
  by (cases "username c"; cases "password c"; cases "last_will c"; cases "clean_session c";
      cases "lw_retain (the (last_will c))"; cases "lw_qos (the (last_will c))")
    (simp_all add: connect_flags_def connect_flag_defs flags_from_bits_def Let_def WILL_QOS_SHIFT_def)

lemma connect_flags_contains:
  "flags_contains (connect_flags c) CF_USERNAME \<longleftrightarrow> username c \<noteq> None"
  "flags_contains (connect_flags c) CF_PASSWORD \<longleftrightarrow> password c \<noteq> None"
  "flags_contains (connect_flags c) CF_WILL \<longleftrightarrow> last_will c \<noteq> None"
  "flags_contains (connect_flags c) CF_CLEAN_START \<longleftrightarrow> clean_session c"
  by (cases "username c"; cases "password c"; cases "last_will c"; cases "clean_session c";
      cases "lw_retain (the (last_will c))"; cases "lw_qos (the (last_will c))";
      simp add: connect_flags_def connect_flag_defs flags_contains_def Let_def WILL_QOS_SHIFT_def)+

lemma connect_flags_will:
  assumes "last_will c = Some w"
  shows "drop_bit WILL_QOS_SHIFT (connect_flags c AND CF_WILL_QOS) = QoS_to_u8 (lw_qos w)"
    and "flags_contains (connect_flags c) CF_WILL_RETAIN \<longleftrightarrow> lw_retain w"
  using assms by (cases "username c"; cases "password c"; cases "clean_session c";
      cases "lw_retain w"; cases "lw_qos w";
      simp add: connect_flags_def connect_flag_defs flags_contains_def Let_def WILL_QOS_SHIFT_def)+

lemma decode_last_will_image:
  assumes "last_will c = Some w" "valid_LastWill w"
  shows "decode_last_will (connect_flags c) (Bytes_image (lw_topic w) @ Bytes_image (lw_message w) @ rest)
    = Ok (w, rest)"
  using assms by (simp add: decode_last_will_def wire_simps valid_LastWill_def QoS.try_from_to
      connect_flags_will del: drop_bit_and)

lemma decode_connect_content:
  assumes "valid_Connect c"
  shows "decode_connect_packet (content (Connect c)) = Ok (Connect c)"
proof -
  let ?w = "opt_image (\<lambda>w. Bytes_image (lw_topic w) @ Bytes_image (lw_message w)) (last_will c)"
  let ?u = "opt_image Bytes_image (username c)" and ?p = "opt_image Bytes_image (password c)"
  have "Bytes_image MQTT = 0 # 4 # MQTT" by (simp add: Bytes_image_def MQTT_def u16_be_def)
  then have shape: "content (Connect c) = 0 # 4 # MQTT @ MQTT_LEVEL_3 # connect_flags c #
    u16_be (keep_alive c) @ Bytes_image (client_id c) @ ?w @ ?u @ ?p" by simp
  have hdr: "get_u16 (0 # 4 # xs) = Ok (4, xs)" "take 4 (MQTT @ xs) = MQTT"
    "advance 4 (MQTT @ xs) = Ok xs" for xs
    by (simp_all add: get_u16_def be_u16_def MQTT_def advance_def)
  have len: "10 \<le> length (content (Connect c))"
    unfolding shape by (simp add: MQTT_def)
  have id: "ByteString_decode (Bytes_image (client_id c) @ ?w @ ?u @ ?p) = Ok (client_id c, ?w @ ?u @ ?p)"
    and ok: "client_id c \<noteq> [] \<or> clean_session c"
    using assms by (auto simp: valid_Connect_def wire_simps)
  have will: "decode_if (last_will c \<noteq> None) (decode_last_will (connect_flags c)) (?w @ ?u @ ?p)
      = Ok (last_will c, ?u @ ?p)"
    using assms by (cases "last_will c") (auto simp: wire_simps decode_last_will_image valid_Connect_def)
  have user: "decode_if (username c \<noteq> None) ByteString_decode (?u @ ?p) = Ok (username c, ?p)"
    using assms by (cases "username c") (auto simp: wire_simps valid_Connect_def)
  have pass: "decode_if (password c \<noteq> None) Bytes_decode ?p = Ok (password c, [])"
    using assms Bytes.decode_image [of _ "[]"]
    by (cases "password c") (auto simp: wire_simps valid_Connect_def)
  show ?thesis
    using len unfolding decode_connect_packet_def shape
    by (simp only: ensure_simps and_then_simps prod.case hdr get_u8_Cons
        connect_flags_known ok_or_simps u16.decode_image [OF TrueI] id connect_flags_contains ok will
        user pass simp_thms) simp
qed

lemma publish_first_byte_facts:
  "PUBLISH_START \<le> publish_first_byte p" "publish_first_byte p \<le> PUBLISH_END"
  "drop_bit 1 ((publish_first_byte p AND 0x0F) AND 6) = QoS_to_u8 (qos p)"
  "((publish_first_byte p AND 0x0F) AND 8 = 8) = dup p"
  "((publish_first_byte p AND 0x0F) AND 1 = 1) = retain p"
  by (cases "qos p"; cases "dup p"; cases "retain p";
      simp add: publish_first_byte_def packet_type_defs)+

lemma decode_publish_content:
  assumes "valid_Publish p"
  shows "decode_publish_packet (content (Publish p)) (publish_first_byte p AND 0x0F) = Ok (Publish p)"
proof -
  let ?fl = "publish_first_byte p AND 0x0F"
  have t: "ByteString_decode (Bytes_image (topic p) @ xs) = Ok (topic p, xs)" for xs
    using assms by (simp add: wire_simps valid_Publish_def)
  have i: "decode_if (qos p \<noteq> AtMostOnce) NonZeroU16_decode (opt_image u16_be (packet_id p) @ payload p)
      = Ok (packet_id p, payload p)"
    using assms by (cases "packet_id p") (auto simp: wire_simps valid_Publish_def)
  show ?thesis
    by (simp only: decode_publish_packet_def content.simps t and_then_simps prod.case QoS.try_from_to i
        publish_first_byte_facts) simp
qed

lemma subscribe_filter_image:
  "valid_ByteString (fst f) \<Longrightarrow>
   subscribe_filter_decode ((case f of (t, q) \<Rightarrow> Bytes_image t @ [QoS_to_u8 q]) @ rest) = Ok (f, rest)"
proof -
  have "QoS_to_u8 q AND 3 = QoS_to_u8 q" for q by (cases q) simp_all
  then show "valid_ByteString (fst f) \<Longrightarrow>
      subscribe_filter_decode ((case f of (t, q) \<Rightarrow> Bytes_image t @ [QoS_to_u8 q]) @ rest) = Ok (f, rest)"
    by (cases f) (simp add: subscribe_filter_decode_def wire_simps QoS.try_from_to)
qed

lemma push_loop_filters:
  "\<forall>f \<in> set fs. valid_ByteString (fst f) \<Longrightarrow>
   while_remaining (push_body subscribe_filter_decode) acc
     (concat (map (\<lambda>(t, q). Bytes_image t @ [QoS_to_u8 q]) fs)) = Ok (acc @ fs)"
proof (induction fs arbitrary: acc)
  case (Cons f fs)
  let ?tl = "concat (map (\<lambda>(t, q). Bytes_image t @ [QoS_to_u8 q]) fs)"
  let ?im = "(case f of (t, q) \<Rightarrow> Bytes_image t @ [QoS_to_u8 q]) @ ?tl"
  have ne: "?im \<noteq> []" by (cases f) simp
  note unfold = while_remaining_unfold [OF push_body_shrinks [OF subscribe_filter_consuming] ne]
  from Cons.prems have "subscribe_filter_decode ?im = Ok (f, ?tl)"
    using subscribe_filter_image [of f] by simp
  then have "push_body subscribe_filter_decode acc ?im = Ok (acc @ [f], ?tl)"
    by (simp add: push_body_def)
  with Cons unfold show ?case by simp
qed simp

lemma decode_status_image: "decode_status (map status_to_u8 st) = Ok st"
proof (induction st)
  case (Cons s st)
  have "QoS_to_u8 q \<noteq> 0x80" for q by (cases q) simp_all
  with Cons show ?case by (cases s) (simp_all add: QoS.try_from_to)
qed simp

lemma decode_ack_image: "pid \<noteq> 0 \<Longrightarrow> decode_ack (u16_be pid) f = Ok (f pid)"
  using NonZeroU16.decode_image [of pid "[]"] by (simp add: decode_ack_def)

lemma decode_connect_ack_content:
  "decode_connect_ack_packet [if s then 1 else 0, ConnectAckReason_to_u8 r] = Ok (ConnectAck s r)"
  by (simp add: decode_connect_ack_packet_def connect_flag_defs flags_from_bits_def
      flags_contains_def v3_ConnectAckReason.try_from_to)

lemma decode_packet_content:
  assumes "valid_Packet p"
  shows "decode_packet (content p) (header_byte p) = Ok p"
proof (cases p)
  case (Publish pb)
  from publish_first_byte_facts(1,2) [of pb] have
    "publish_first_byte pb \<noteq> CONNECT" "publish_first_byte pb \<noteq> CONNACK"
    by (auto simp: packet_type_defs)
  with Publish assms publish_first_byte_facts(1,2) [of pb] show ?thesis
    by (simp add: decode_packet_def decode_publish_content del: content.simps)
next
  case (Connect c)
  with assms show ?thesis
    by (simp add: decode_packet_def decode_connect_content del: content.simps)
next
  case (Subscribe pid fs)
  with assms show ?thesis
    by (simp add: decode_packet_def packet_type_defs decode_subscribe_packet_def wire_simps
        push_loop_filters)
next
  case (Unsubscribe pid fs)
  with assms show ?thesis
    by (simp add: decode_packet_def packet_type_defs decode_unsubscribe_packet_def wire_simps
        ByteString.push_loop_images)
next
  case (SubscribeAck pid st)
  with assms show ?thesis
    by (simp add: decode_packet_def packet_type_defs decode_subscribe_ack_packet_def wire_simps
        decode_status_image)
qed (use assms in \<open>simp_all add: decode_packet_def packet_type_defs decode_ack_image
    decode_connect_ack_content\<close>)

lemma appends_encode: "appends (encode p n)"
  by (cases p) (auto simp: encode_connect_def Slice_Bytes encode_opt_def split: option.split prod.split)

end
