(* ===== verification/V3_Codec.thy ===== *)
theory V3_Codec
  imports V3_Encode Framing
begin

text \<open>
  \<^verbatim>\<open>src/v3/codec/codec.rs\<close>: the \<^verbatim>\<open>Codec\<close> with its decode state and maximal inbound frame size. Frame
  decoding is \<open>frame_step\<close> of the theory \<open>Framing\<close> around the 3.1.1 packet decoder; the
  interpretations below discharge its interface.
\<close>

record Codec =
  state :: DecodeState
  max_size :: u32

definition Codec_new :: Codec where
  "Codec_new = \<lparr>state = FrameHeader, max_size = 0\<rparr>"

definition Codec_max_size :: "Codec \<Rightarrow> u32 \<Rightarrow> Codec" where
  "Codec_max_size self sz = self\<lparr>max_size := sz\<rparr>"

definition Codec_set_max_size :: "Codec \<Rightarrow> u32 \<Rightarrow> Codec" where
  "Codec_set_max_size self sz = self\<lparr>max_size := sz\<rparr>"

definition Codec_decode ::
  "Codec \<Rightarrow> bytes \<Rightarrow> (DecodeError, Packet option) outcome \<times> Codec \<times> bytes" where
  "Codec_decode self src =
     (case frame_step decode_packet (max_size self) (state self) src of
        (r, st, rest) \<Rightarrow> (r, self\<lparr>state := st\<rparr>, rest))"

text \<open>\<^verbatim>\<open>content_size as u32\<close> truncates.\<close>

definition Codec_encode :: "Codec \<Rightarrow> Packet \<Rightarrow> EncodeError encoder" where
  "Codec_encode self item =
     (if (case item of
            Publish p \<Rightarrow> (qos p = AtLeastOnce \<or> qos p = ExactlyOnce) \<and> packet_id p = None
          | _ \<Rightarrow> False)
      then enc_fail (Err EncodeError.PacketIdRequired)
      else encode item (of_nat (get_encoded_size item)))"

interpretation v3: framed_stream decode_packet header_byte content encodable
  by standard (auto simp: returns_decode_packet encodable_def decode_packet_content length_content)

lemma frame_bytes_content:
  "valid_Packet p \<Longrightarrow>
   frame_bytes (header_byte p) (content p) =
     header_byte p # varlen_spec (get_encoded_size p) @ content p"
  by (simp add: frame_bytes_def length_content)

lemma writes_Codec_encode [writes_intro]:
  assumes "encodable p"
  shows "writes (Codec_encode c p) (frame_bytes (header_byte p) (content p))"
proof -
  have "Codec_encode c p = encode p (of_nat (get_encoded_size p))"
    using assms
    by (cases p) (auto simp: Codec_encode_def encodable_def valid_Publish_def
        simp del: get_encoded_size.simps encode.simps)
  with writes_encode [OF assms] assms show ?thesis
    by (simp add: frame_bytes_content encodable_def)
qed

lemma Codec_encode_ok:
  "encodable p \<Longrightarrow> Codec_encode c p buf = (Ok (), buf @ frame_bytes (header_byte p) (content p))"
  by (rule writes_apply [OF writes_Codec_encode])

lemma Codec_decode_image:
  assumes "encodable p" and "state dec = FrameHeader"
    and "max_size dec = 0 \<or> get_encoded_size p \<le> unat (max_size dec)"
  shows "Codec_decode dec (frame_bytes (header_byte p) (content p) @ rest) = (Ok (Some p), dec, rest)"
proof -
  have "length (content p) = get_encoded_size p"
    using assms(1) by (simp add: encodable_def length_content)
  with v3.frame_step_image [OF assms(1), of "max_size dec" rest] assms
  show ?thesis by (simp add: Codec_decode_def)
qed

lemma steps_oversize:
  "268435455 < n \<Longrightarrow> n < 2 ^ 32 \<Longrightarrow>
   steps (put bs # write_variable_length (of_nat n) # as) buf = (Panic, buf @ bs)"
  by (simp add: steps.simps enc_seq_def put_def enc_fail_def write_variable_length_def
      u32_le_numerals unat_u32_of_nat)

section \<open>Properties\<close>

text \<open>C1: A valid packet that the 3.1.1 codec writes is read back by the codec as the same packet, with
  the bytes that follow it left in the buffer and the codec ready for the next header. This holds for the
  packets that are \<open>encodable\<close>: strings are UTF-8 and, like byte strings, at most 65535 bytes long, packet identifiers
  are not 0, a publish has an identifier exactly if its QoS is not 0, a CONNECT without a client id asks for a clean
  session (the decoder refuses any other, the default CONNECT among them), and the size fits the remaining
  length; and for a decoder between two packets whose frame limit admits the packet.\<close>

theorem v3_codec_roundtrip:
  assumes "encodable p" and "state dec = FrameHeader"
    and "max_size dec = 0 \<or> get_encoded_size p \<le> unat (max_size dec)"
  shows "fst (Codec_encode enc p []) = Ok () \<and>
    Codec_decode dec (snd (Codec_encode enc p []) @ rest) = (Ok (Some p), dec, rest)"
  using assms by (simp add: Codec_decode_image Codec_encode_ok)

definition example_publish :: Packet where
  "example_publish = Publish \<lparr>dup = False, retain = False, qos = AtLeastOnce,
     topic = [0x61, 0x2F, 0x62], packet_id = Some 7, payload = [1, 2]\<rparr>"

lemma encodable_example: "encodable example_publish" "get_encoded_size example_publish = 9"
  by (simp_all add: encodable_def example_publish_def valid_Publish_def valid_ByteString_def)

theorem v3_codec_roundtrip_witness:
  "fst (Codec_encode Codec_new example_publish []) = Ok () \<and>
   Codec_decode Codec_new (snd (Codec_encode Codec_new example_publish []) @ [0xC0]) =
     (Ok (Some example_publish), Codec_new, [0xC0])"
  by (rule v3_codec_roundtrip) (simp_all add: encodable_example Codec_new_def)

text \<open>C7: The chunks in which the transport delivers the bytes do not matter. A sequence of packets
  is encoded into one buffer; however the buffer is cut into chunks, feeding them to a fresh decoder
  yields the packets in order, with nothing left over. As for a single packet, every packet has to be
  \<open>encodable\<close> (valid strings and identifiers, a client id or a clean session in a CONNECT, a size that fits the
  remaining length) and within the limit of the decoder, if there is one.\<close>

theorem v3_stream_chunks:
  assumes "\<forall>p \<in> set ps. encodable p \<and> (m = 0 \<or> get_encoded_size p \<le> unat m)"
    and "concat chunks = snd (for_each ps (Codec_encode enc) [])"
  shows "feed decode_packet m (state Codec_new) [] chunks = (ps, Ok (), FrameHeader, [])"
proof -
  let ?img = "\<lambda>p. frame_bytes (header_byte p) (content p)"
  have "writes (for_each ps (Codec_encode enc)) (concat (map ?img ps))"
    using assms(1) by (auto intro!: writes_intro)
  then have "concat chunks = concat (map ?img ps)"
    using assms(2) by (simp add: writes_apply)
  moreover have "encodable p \<and> (m = 0 \<or> length (content p) \<le> unat m)" if "p \<in> set ps" for p
    using assms(1) that by (auto simp: encodable_def length_content)
  ultimately show ?thesis by (simp add: Codec_new_def v3.feed_stream)
qed

lemma encode_two: "snd (for_each [PingRequest, PublishAck 7] (Codec_encode Codec_new) []) =
   [0xC0, 0x00, 0x40, 0x02, 0x00, 0x07]"
  by (simp add: for_each_def steps.simps enc_seq_def Codec_encode_def put_def packet_type_defs
      write_variable_length_def NonZeroU16_encode_def u16_encode_def u16_be_def)

theorem v3_stream_chunks_witness:
  "feed decode_packet 0 (state Codec_new) [] [[0xC0], [0x00, 0x40, 0x02, 0x00], [], [0x07]] =
     ([PingRequest, PublishAck 7], Ok (), FrameHeader, [])"
  by (rule v3_stream_chunks [where enc = Codec_new]) (simp_all add: encode_two encodable_def)

text \<open>C9: Decoding never panics and never loops, whatever bytes arrive and in whatever state the codec
  is; a packet it yields is valid: UTF-8 strings, non-zero packet ids, a packet id exactly with
  QoS 1 and 2, and a client id unless a clean session is asked for.\<close>

theorem v3_decode_total:
  "returns (fst (Codec_decode c src)) \<and>
   (\<forall>p. fst (Codec_decode c src) = Ok (Some p) \<longrightarrow> valid_Packet p)"
proof -
  have frame: "decode_frame decode_packet fixed src = (Ok (Some p), st, rest) \<Longrightarrow> valid_Packet p"
    for fixed src p st rest
    by (auto simp: decode_frame_def Let_def decode_packet_valid split: if_splits outcome.splits)
  have "frame_step decode_packet m st src = (Ok (Some p), st', rest) \<Longrightarrow> valid_Packet p"
    for m st p st' rest
    by (cases st) (auto simp: frame_step_simps decode_header_def advance_def Let_def frame
        split: if_splits outcome.splits option.splits)
  then show ?thesis
    using v3.frame_step_returns [of "max_size c" "state c" src]
    by (auto simp: Codec_decode_def split: prod.splits)
qed

theorem v3_decode_total_witness:
  "returns (fst (Codec_decode Codec_new [0x40, 0x02, 0, 7])) \<and>
   fst (Codec_decode Codec_new [0x40, 0x02, 0, 7]) = Ok (Some (PublishAck 7)) \<and>
   valid_Packet (PublishAck 7)"
proof -
  have img: "snd (Codec_encode Codec_new (PublishAck 7) []) = [0x40, 0x02, 0, 7]"
    by (simp add: steps.simps enc_seq_def Codec_encode_def put_def packet_type_defs
        write_variable_length_def NonZeroU16_encode_def u16_encode_def u16_be_def)
  have "fst (Codec_decode Codec_new [0x40, 0x02, 0, 7]) = Ok (Some (PublishAck 7))"
    using v3.frame_step_image [of "PublishAck 7" 0 "[]"] Codec_encode_ok [of "PublishAck 7" Codec_new "[]"]
      img by (simp add: encodable_def Codec_decode_def Codec_new_def)
  with v3_decode_total [of Codec_new "[0x40, 0x02, 0, 7]"] show ?thesis by blast
qed

text \<open>A frame that announces more than the configured maximum is refused before any of it is
  taken from the buffer, and the codec stays where it was.\<close>

theorem v3_max_size:
  assumes "state c = FrameHeader" and "max_size c \<noteq> 0"
    and "n \<le> 268435455" and "unat (max_size c) < n"
  shows "Codec_decode c (b # varlen_spec n @ rest) =
    (Err MaxSizeExceeded, c, b # varlen_spec n @ rest)"
proof -
  have "max_size c < of_nat n"
    using assms(3,4) by (simp add: word_less_nat_alt unat_u32_of_nat)
  moreover have "\<not> length (b # varlen_spec n @ rest) < 2"
    by (cases "varlen_spec n") simp_all
  ultimately show ?thesis
    using assms(1-3) decode_variable_length_spec [of n rest]
    by (simp add: Codec_decode_def frame_step_simps decode_header_def)
qed

theorem v3_max_size_witness:
  "Codec_decode (Codec_max_size Codec_new 5) (0 # varlen_spec 9 @ []) =
   (Err MaxSizeExceeded, Codec_max_size Codec_new 5, 0 # varlen_spec 9 @ [])"
  by (rule v3_max_size) (simp_all add: Codec_max_size_def Codec_new_def)

text \<open>A packet whose content does not fit the four-byte remaining length makes the 3.1.1 encoder
  panic instead of returning an error: nothing above \<^verbatim>\<open>write_variable_length\<close> checks the size.\<close>

theorem v3_encode_oversize_panics:
  assumes "valid_Packet p" and "268435455 < get_encoded_size p" and "get_encoded_size p < 2 ^ 32"
  shows "fst (Codec_encode c p buf) = Panic"
proof -
  from assms show ?thesis
    by (cases p) (auto simp: Codec_encode_def steps_oversize valid_Publish_def
        simp del: get_encoded_size.simps(1,2,9,10,11))
qed

theorem v3_encode_oversize_panics_witness:
  "fst (Codec_encode Codec_new (Publish \<lparr>dup = False, retain = False, qos = AtMostOnce, topic = [0x61],
     packet_id = None, payload = replicate 268435456 0\<rparr>) []) = Panic"
  by (rule v3_encode_oversize_panics) (simp_all add: valid_Publish_def valid_ByteString_def)

text \<open>A QoS 1 or 2 publish without a packet id is refused with the buffer untouched, but a QoS 0
  publish with a packet id is refused only after its header and topic are in the output buffer:
  the broken frame start stays there.\<close>

theorem v3_encode_publish_id_errors:
  assumes "valid_ByteString (topic p)" and "get_encoded_size (Publish p) \<le> 268435455"
  shows "Codec_encode c (Publish p) buf =
    (if qos p \<noteq> AtMostOnce \<and> packet_id p = None then (Err EncodeError.PacketIdRequired, buf)
     else if qos p = AtMostOnce \<and> packet_id p \<noteq> None then
       (Err EncodeError.MalformedPacket, buf @ publish_first_byte p #
          varlen_spec (get_encoded_size (Publish p)) @ Bytes_image (topic p))
     else (Ok (), buf @ publish_first_byte p #
          varlen_spec (get_encoded_size (Publish p)) @ Bytes_image (topic p) @
          opt_image u16_be (packet_id p) @ payload p))"
proof -
  have s: "write_variable_length (of_nat (get_encoded_size (Publish p))) =
      (put (varlen_spec (get_encoded_size (Publish p))) :: EncodeError encoder)"
    using assms(2) by (simp add: write_variable_length_put unat_u32_of_nat)
  have t: "ByteString_encode (topic p) b = (Ok (), b @ Bytes_image (topic p))" for b
    by (rule writes_apply [OF ByteString.writes_image [OF assms(1)]])
  show ?thesis
    by (cases "qos p"; cases "packet_id p")
      (simp_all add: Codec_encode_def s t steps.simps enc_seq_def put_def enc_fail_def
        NonZeroU16_encode_def u16_encode_def del: get_encoded_size.simps)
qed

theorem v3_encode_publish_id_errors_witness:
  "Codec_encode Codec_new (Publish \<lparr>dup = False, retain = False, qos = AtMostOnce, topic = [0x61],
     packet_id = Some 1, payload = [2]\<rparr>) [] =
   (Err EncodeError.MalformedPacket, [0x30, 0x04, 0x00, 0x01, 0x61])"
  by (subst v3_encode_publish_id_errors)
    (simp_all add: valid_ByteString_def publish_first_byte_def packet_type_defs varlen_spec_1
      Bytes_image_def u16_be_def)

end
