(* ===== verification/V3_Sink.thy ===== *)
theory V3_Sink
  imports Sink V3_Codec
begin

text \<open>
  The sink of an MQTT 3.1.1 connection: \<^verbatim>\<open>v3/shared.rs\<close> and \<^verbatim>\<open>v3/sink.rs\<close>. Publishing with QoS 1,
  subscribing and unsubscribing register the packet in flight, write it and wait for the peer's
  acknowledgement; \<^verbatim>\<open>pkt_ack\<close> hands an acknowledgement to the sender at the head of the queue.
\<close>

section \<open>Acknowledgements\<close>

datatype Ack =
    Publish u16
  | Subscribe u16 "SubscribeReturnCode list"
  | Unsubscribe u16

datatype AckType = Publish | Subscribe | Unsubscribe

fun Ack_packet_type :: "Ack \<Rightarrow> u8" where
  "Ack_packet_type (Ack.Publish _) = PUBACK"
| "Ack_packet_type (Ack.Subscribe _ _) = SUBACK"
| "Ack_packet_type (Ack.Unsubscribe _) = UNSUBACK"

fun Ack_packet_id :: "Ack \<Rightarrow> u16" where
  "Ack_packet_id (Ack.Publish i) = i"
| "Ack_packet_id (Ack.Subscribe i _) = i"
| "Ack_packet_id (Ack.Unsubscribe i) = i"

fun Ack_subscribe :: "Ack \<Rightarrow> ('e, SubscribeReturnCode list) outcome" where
  "Ack_subscribe (Ack.Subscribe _ status) = Ok status"
| "Ack_subscribe _ = Panic"

fun Ack_is_match :: "Ack \<Rightarrow> AckType \<Rightarrow> bool" where
  "Ack_is_match (Ack.Publish _) AckType.Publish = True"
| "Ack_is_match (Ack.Subscribe _ _) AckType.Subscribe = True"
| "Ack_is_match (Ack.Unsubscribe _) AckType.Unsubscribe = True"
| "Ack_is_match _ _ = False"

fun AckType_name :: "AckType \<Rightarrow> string" where
  "AckType_name AckType.Publish = ''PublishAck''"
| "AckType_name AckType.Subscribe = ''SubscribeAck''"
| "AckType_name AckType.Unsubscribe = ''UnsubscribeAck''"

type_synonym ('tx, 'io) shared = "('tx, AckType, 'io, Codec, Ack) MqttShared"

section \<open>Operations on the shared state\<close>

definition next_id :: "(('tx, 'io) shared, 'e, u16) action" where
  "next_id sh =
    (case checked_add (inflight_idx sh) 1 :: (unit, u16) outcome of
       Ok idx \<Rightarrow>
         if idx = - 1 then (Ok (- 1), sh\<lparr>inflight_idx := 0\<rparr>)
         else (Ok idx, sh\<lparr>inflight_idx := idx\<rparr>)
     | _ \<Rightarrow> (Panic, sh))"

definition close :: "('io, Packet) io_ops \<Rightarrow> (('tx, 'io) shared, 'e, unit) action" where
  "close ops sh =
    clear_queues
      (if io_is_open ops (sh_state sh) then sh\<lparr>sh_state := io_close ops (sh_state sh)\<rparr> else sh)"

definition force_close :: "('io, Packet) io_ops \<Rightarrow> (('tx, 'io) shared, 'e, unit) action" where
  "force_close ops sh =
    clear_queues
      (if io_is_open ops (sh_state sh) then sh\<lparr>sh_state := io_force_close ops (sh_state sh)\<rparr> else sh)"

definition ping :: "('io, Packet) io_ops \<Rightarrow> (('tx, 'io) shared, 'e, bool) action" where
  "ping ops sh =
    (case write_packet ops Codec_encode PingRequest sh of
       (Ok _, sh') \<Rightarrow> (Ok True, sh') | (Err _, sh') \<Rightarrow> (Ok False, sh')
     | (Panic, sh') \<Rightarrow> (Panic, sh') | (Diverge, sh') \<Rightarrow> (Diverge, sh'))"

text \<open>An acknowledgement arrives.  The closure of \<^verbatim>\<open>with_queues\<close> first, then the \<^verbatim>\<open>map_err\<close> that closes the
  connection.\<close>

definition pkt_ack_queues :: "('tx \<Rightarrow> bool) \<Rightarrow> Ack \<Rightarrow> (('tx, 'io) shared, ProtocolError, unit) action" where
  "pkt_ack_queues alive pkt sh =
    (case inflight_order (queues sh) of
       idx # order \<Rightarrow>
         (let sh = sh\<lparr>queues := (queues sh)\<lparr>inflight_order := order\<rparr>\<rparr> in
          if idx \<noteq> Ack_packet_id pkt then (Err PacketIdMismatch, sh)
          else
            (let idx = Ack_packet_id pkt in
             case Mapping.lookup (inflight (queues sh)) idx of
               Some (tx, tp) \<Rightarrow>
                 (let sh = sh\<lparr>queues := (queues sh)\<lparr>inflight := Mapping.delete idx (inflight (queues sh))\<rparr>\<rparr> in
                  if Ack_is_match pkt tp
                  then (Ok (), wake_waiter alive (sh\<lparr>events := events sh @ [Delivered tx pkt]\<rparr>))
                  else (Err (Unexpected (Ack_packet_type pkt) (AckType_name tp)),
                        sh\<lparr>events := events sh @ [Dropped {tx}]\<rparr>))
             | None \<Rightarrow> (Err PacketIdMismatch, sh)))
     | [] \<Rightarrow> (Err PacketIdMismatch, sh))"

definition pkt_ack :: "('io, Packet) io_ops \<Rightarrow> ('tx \<Rightarrow> bool) \<Rightarrow> Ack \<Rightarrow> (('tx, 'io) shared, ProtocolError, unit) action" where
  "pkt_ack ops alive pkt sh =
    (case with_queues (pkt_ack_queues alive pkt) sh of
       (Err e, sh') \<Rightarrow> act_then (close ops) (\<lambda>_ sh. (Err e, sh)) sh'
     | r \<Rightarrow> r)"

section \<open>Publishing\<close>

definition publish :: "bytestring \<Rightarrow> bytes \<Rightarrow> Publish" where
  "publish t p =
    \<lparr>dup = False, retain = False, qos = AtMostOnce, topic = t, packet_id = None, payload = p\<rparr>"

text \<open>\<^verbatim>\<open>PublishBuilder::packet_id\<close> panics on 0.\<close>

definition publish_packet_id :: "u16 \<Rightarrow> Publish \<Rightarrow> ('e, Publish) outcome" where
  "publish_packet_id i pkt = (if i = 0 then Panic else Ok (pkt\<lparr>packet_id := Some i\<rparr>))"

definition publish_dup :: "bool \<Rightarrow> Publish \<Rightarrow> Publish" where
  "publish_dup val pkt = pkt\<lparr>dup := val\<rparr>"

definition publish_retain :: "Publish \<Rightarrow> Publish" where
  "publish_retain pkt = pkt\<lparr>retain := True\<rparr>"

definition send_at_most_once ::
  "('io, Packet) io_ops \<Rightarrow> Publish \<Rightarrow> (('tx, 'io) shared, SendPacketError, unit) action" where
  "send_at_most_once ops pkt sh =
    (if io_is_open ops (sh_state sh)
     then case write_packet ops Codec_encode (Packet.Publish pkt) sh of
         (Ok _, sh') \<Rightarrow> (Ok (), sh') | (Err e, sh') \<Rightarrow> (Err (SendPacketError.Encode e), sh')
       | (Panic, sh') \<Rightarrow> (Panic, sh') | (Diverge, sh') \<Rightarrow> (Diverge, sh')
     else (Err SendPacketError.Disconnected, sh))"

text \<open>The identifier a publish gets, and the packet with it.\<close>

definition publish_number :: "Publish \<Rightarrow> (('tx, 'io) shared, 'e, u16 \<times> Publish) action" where
  "publish_number pkt =
    (let idx = (case packet_id pkt of Some i \<Rightarrow> i | None \<Rightarrow> 0) in
     if idx = 0
     then act_then next_id (\<lambda>idx sh.
            (Ok (idx, pkt\<lparr>packet_id := (if idx = 0 then None else Some idx)\<rparr>), sh))
     else (\<lambda>sh. (Ok (idx, pkt), sh)))"

definition send_at_least_once_inner ::
  "('io, Packet) io_ops \<Rightarrow> 'tx \<Rightarrow> Publish \<Rightarrow>
   (('tx, 'io) shared, SendPacketError, ('tx, Publish) pending) action" where
  "send_at_least_once_inner ops tx pkt =
    act_then
      (with_queues
        (act_then
          (publish_number pkt)
          (\<lambda>(idx, pkt). act_then (allocate PacketIdInUse idx AckType.Publish tx) (\<lambda>_ sh. (Ok pkt, sh)))))
      (\<lambda>pkt. send_and_wait ops Codec_encode SendPacketError.Encode (Packet.Publish pkt) tx)"

definition send_at_least_once ::
  "('io, Packet) io_ops \<Rightarrow> 'tx \<Rightarrow> 'tx \<Rightarrow> Publish \<Rightarrow>
   (('tx, 'io) shared, SendPacketError, ('tx, Publish) pending) action" where
  "send_at_least_once ops wtx tx pkt =
    (let pkt = pkt\<lparr>qos := AtLeastOnce\<rparr> in
     await_credit ops SendPacketError.Disconnected wtx pkt (send_at_least_once_inner ops tx pkt))"

text \<open>The sender that waited for credit is woken (\<open>True\<close>), or its channel was dropped.\<close>

definition send_at_least_once_woken ::
  "('io, Packet) io_ops \<Rightarrow> bool \<Rightarrow> 'tx \<Rightarrow> Publish \<Rightarrow>
   (('tx, 'io) shared, SendPacketError, ('tx, Publish) pending) action" where
  "send_at_least_once_woken ops woken tx pkt sh =
    (if \<not> woken then (Err SendPacketError.Disconnected, sh) else send_at_least_once_inner ops tx pkt sh)"

definition publish_acked :: "Ack option \<Rightarrow> (SendPacketError, unit) outcome" where
  "publish_acked r = (case r of Some _ \<Rightarrow> Ok () | None \<Rightarrow> Err SendPacketError.Disconnected)"

section \<open>Subscribing and unsubscribing\<close>

record SubscribeBuilder =
  sub_id :: u16
  sub_filters :: "(bytestring \<times> QoS) list"

definition subscribe :: SubscribeBuilder where
  "subscribe = \<lparr>sub_id = 0, sub_filters = []\<rparr>"

definition SubscribeBuilder_packet_id :: "u16 \<Rightarrow> SubscribeBuilder \<Rightarrow> ('e, SubscribeBuilder) outcome" where
  "SubscribeBuilder_packet_id i b = (if i = 0 then Panic else Ok (b\<lparr>sub_id := i\<rparr>))"

definition SubscribeBuilder_topic_filter :: "bytestring \<Rightarrow> QoS \<Rightarrow> SubscribeBuilder \<Rightarrow> SubscribeBuilder" where
  "SubscribeBuilder_topic_filter f q b = b\<lparr>sub_filters := sub_filters b @ [(f, q)]\<rparr>"

text \<open>The part of \<^verbatim>\<open>send\<close> after the credit: \<open>pkt\<close> builds the packet from its identifier, which
  \<^verbatim>\<open>NonZeroU16::new(idx).unwrap()\<close> checks.\<close>

definition allocate_and_send ::
  "('io, Packet) io_ops \<Rightarrow> 'tx \<Rightarrow> AckType \<Rightarrow> u16 \<Rightarrow> (u16 \<Rightarrow> Packet) \<Rightarrow>
   (('tx, 'io) shared, SendPacketError, ('tx, 'req) pending) action" where
  "allocate_and_send ops tx tp i pkt =
    act_then (if i = 0 then next_id else (\<lambda>sh. (Ok i, sh))) (\<lambda>idx.
    act_then (with_queues (allocate PacketIdInUse idx tp tx)) (\<lambda>_.
      if idx = 0 then (\<lambda>sh. (Panic, sh)) else send_and_wait ops Codec_encode SendPacketError.Encode (pkt idx) tx))"

definition subscribe_send_inner ::
  "('io, Packet) io_ops \<Rightarrow> 'tx \<Rightarrow> SubscribeBuilder \<Rightarrow>
   (('tx, 'io) shared, SendPacketError, ('tx, SubscribeBuilder) pending) action" where
  "subscribe_send_inner ops tx b =
    allocate_and_send ops tx AckType.Subscribe (sub_id b) (\<lambda>idx. Packet.Subscribe idx (sub_filters b))"

definition subscribe_send ::
  "('io, Packet) io_ops \<Rightarrow> 'tx \<Rightarrow> 'tx \<Rightarrow> SubscribeBuilder \<Rightarrow>
   (('tx, 'io) shared, SendPacketError, ('tx, SubscribeBuilder) pending) action" where
  "subscribe_send ops wtx tx b = await_credit ops SendPacketError.Disconnected wtx b (subscribe_send_inner ops tx b)"

definition subscribe_send_woken ::
  "('io, Packet) io_ops \<Rightarrow> bool \<Rightarrow> 'tx \<Rightarrow> SubscribeBuilder \<Rightarrow>
   (('tx, 'io) shared, SendPacketError, ('tx, SubscribeBuilder) pending) action" where
  "subscribe_send_woken ops woken tx b sh =
    (if \<not> woken then (Err SendPacketError.Disconnected, sh) else subscribe_send_inner ops tx b sh)"

definition subscribe_acked :: "Ack option \<Rightarrow> (SendPacketError, SubscribeReturnCode list) outcome" where
  "subscribe_acked r =
    (case r of Some pkt \<Rightarrow> Ack_subscribe pkt | None \<Rightarrow> Err SendPacketError.Disconnected)"

record UnsubscribeBuilder =
  unsub_id :: u16
  unsub_filters :: "bytestring list"

definition unsubscribe :: UnsubscribeBuilder where
  "unsubscribe = \<lparr>unsub_id = 0, unsub_filters = []\<rparr>"

definition UnsubscribeBuilder_packet_id :: "u16 \<Rightarrow> UnsubscribeBuilder \<Rightarrow> ('e, UnsubscribeBuilder) outcome" where
  "UnsubscribeBuilder_packet_id i b = (if i = 0 then Panic else Ok (b\<lparr>unsub_id := i\<rparr>))"

definition UnsubscribeBuilder_topic_filter :: "bytestring \<Rightarrow> UnsubscribeBuilder \<Rightarrow> UnsubscribeBuilder" where
  "UnsubscribeBuilder_topic_filter f b = b\<lparr>unsub_filters := unsub_filters b @ [f]\<rparr>"

definition unsubscribe_send_inner ::
  "('io, Packet) io_ops \<Rightarrow> 'tx \<Rightarrow> UnsubscribeBuilder \<Rightarrow>
   (('tx, 'io) shared, SendPacketError, ('tx, UnsubscribeBuilder) pending) action" where
  "unsubscribe_send_inner ops tx b =
    allocate_and_send ops tx AckType.Unsubscribe (unsub_id b) (\<lambda>idx. Packet.Unsubscribe idx (unsub_filters b))"

definition unsubscribe_send ::
  "('io, Packet) io_ops \<Rightarrow> 'tx \<Rightarrow> 'tx \<Rightarrow> UnsubscribeBuilder \<Rightarrow>
   (('tx, 'io) shared, SendPacketError, ('tx, UnsubscribeBuilder) pending) action" where
  "unsubscribe_send ops wtx tx b = await_credit ops SendPacketError.Disconnected wtx b (unsubscribe_send_inner ops tx b)"

definition unsubscribe_send_woken ::
  "('io, Packet) io_ops \<Rightarrow> bool \<Rightarrow> 'tx \<Rightarrow> UnsubscribeBuilder \<Rightarrow>
   (('tx, 'io) shared, SendPacketError, ('tx, UnsubscribeBuilder) pending) action" where
  "unsubscribe_send_woken ops woken tx b sh =
    (if \<not> woken then (Err SendPacketError.Disconnected, sh) else unsubscribe_send_inner ops tx b sh)"

definition unsubscribe_acked :: "Ack option \<Rightarrow> (SendPacketError, unit) outcome" where
  "unsubscribe_acked r = (case r of Some _ \<Rightarrow> Ok () | None \<Rightarrow> Err SendPacketError.Disconnected)"

section \<open>Steps of a sink\<close>

datatype 'tx sink_op =
    SendAtMostOnce Publish
  | SendAtLeastOnce 'tx 'tx Publish
  | SendAtLeastOnceWoken bool 'tx Publish
  | SubscribeSend 'tx 'tx SubscribeBuilder
  | SubscribeSendWoken bool 'tx SubscribeBuilder
  | UnsubscribeSend 'tx 'tx UnsubscribeBuilder
  | UnsubscribeSendWoken bool 'tx UnsubscribeBuilder
  | PktAck "'tx \<Rightarrow> bool" Ack
  | Ready 'tx
  | Ping
  | Close
  | ForceClose

fun sink_step :: "('io, Packet) io_ops \<Rightarrow> 'tx sink_op \<Rightarrow> ('tx, 'io) shared \<Rightarrow> ('tx, 'io) shared" where
  "sink_step ops (SendAtMostOnce pkt) sh = snd (send_at_most_once ops pkt sh)"
| "sink_step ops (SendAtLeastOnce wtx tx pkt) sh = snd (send_at_least_once ops wtx tx pkt sh)"
| "sink_step ops (SendAtLeastOnceWoken ok tx pkt) sh = snd (send_at_least_once_woken ops ok tx pkt sh)"
| "sink_step ops (SubscribeSend wtx tx b) sh = snd (subscribe_send ops wtx tx b sh)"
| "sink_step ops (SubscribeSendWoken ok tx b) sh = snd (subscribe_send_woken ops ok tx b sh)"
| "sink_step ops (UnsubscribeSend wtx tx b) sh = snd (unsubscribe_send ops wtx tx b sh)"
| "sink_step ops (UnsubscribeSendWoken ok tx b) sh = snd (unsubscribe_send_woken ops ok tx b sh)"
| "sink_step ops (PktAck alive pkt) sh = snd (pkt_ack ops alive pkt sh)"
| "sink_step ops (Ready tx) sh = snd (ready ops tx sh :: (unit, _) outcome \<times> _)"
| "sink_step ops Ping sh = snd (ping ops sh :: (unit, _) outcome \<times> _)"
| "sink_step ops Close sh = snd (close ops sh :: (unit, _) outcome \<times> _)"
| "sink_step ops ForceClose sh = snd (force_close ops sh :: (unit, _) outcome \<times> _)"

fun request_of :: "'tx sink_op \<Rightarrow> ('tx \<times> AckType) option" where
  "request_of (SendAtLeastOnce _ tx _) = Some (tx, AckType.Publish)"
| "request_of (SendAtLeastOnceWoken _ tx _) = Some (tx, AckType.Publish)"
| "request_of (SubscribeSend _ tx _) = Some (tx, AckType.Subscribe)"
| "request_of (SubscribeSendWoken _ tx _) = Some (tx, AckType.Subscribe)"
| "request_of (UnsubscribeSend _ tx _) = Some (tx, AckType.Unsubscribe)"
| "request_of (UnsubscribeSendWoken _ tx _) = Some (tx, AckType.Unsubscribe)"
| "request_of _ = None"

fun ack_of :: "'tx sink_op \<Rightarrow> Ack option" where
  "ack_of (PktAck _ pkt) = Some pkt"
| "ack_of _ = None"

definition answers :: "Ack \<Rightarrow> u16 \<Rightarrow> AckType \<Rightarrow> bool" where
  "answers pkt i tp \<longleftrightarrow> Ack_packet_id pkt = i \<and> Ack_is_match pkt tp"

definition sink_live :: "('tx, 'io) shared \<Rightarrow> bool" where
  "sink_live sh \<longleftrightarrow> queue_ok sh \<and> inflight_idx sh \<noteq> - 1"

section \<open>Lemmas\<close>

lemma next_id_eq:
  assumes "inflight_idx sh \<noteq> - 1"
  shows "next_id sh = (Ok (inflight_idx sh + 1),
    sh\<lparr>inflight_idx := (if inflight_idx sh + 1 = - 1 then 0 else inflight_idx sh + 1)\<rparr>)"
  using u16_succ_ok [OF assms] by (simp add: next_id_def checked_add_def)

lemma close_queues:
  assumes "\<not> borrowed sh"
  shows "delivered (snd (close ops sh)) = delivered sh"
    "queue_ok (snd (close ops sh)) \<Longrightarrow> flight (snd (close ops sh)) = []"
    "delivered (snd (force_close ops sh)) = delivered sh"
    "queue_ok (snd (force_close ops sh)) \<Longrightarrow> flight (snd (force_close ops sh)) = []"
  using assms by (simp_all add: close_def force_close_def clear_queues_flight)

lemma publish_number_facts:
  assumes "inflight_idx sh \<noteq> - 1"
  obtains idx pkt' i' where "idx \<noteq> 0" "pkt' = pkt\<lparr>packet_id := Some idx\<rparr>"
    "\<And>b. publish_number pkt (sh\<lparr>borrowed := b\<rparr>) = (Ok (idx, pkt'), sh\<lparr>borrowed := b, inflight_idx := i'\<rparr>)"
    "i' \<noteq> - 1"
proof (cases "packet_id pkt = None \<or> packet_id pkt = Some 0")
  case True
  then show ?thesis
    using u16_succ_ok(2) [OF assms] assms
    by (intro that [of "inflight_idx sh + 1" _ "if inflight_idx sh + 1 = - 1 then 0 else inflight_idx sh + 1"])
      (auto simp: publish_number_def Let_def act_then_def next_id_eq)
next
  case False
  then obtain i where "packet_id pkt = Some i" "i \<noteq> 0" by auto
  then show ?thesis
    using that [of i pkt "inflight_idx sh"] assms by (simp add: publish_number_def)
qed

lemma inner_eq:
  assumes "\<not> borrowed sh" and "inflight_idx sh \<noteq> - 1"
  obtains idx i' where "idx \<noteq> 0" "i' \<noteq> - 1"
    "send_at_least_once_inner ops tx pkt sh =
      act_then (allocate PacketIdInUse idx AckType.Publish tx)
        (\<lambda>_. send_and_wait ops Codec_encode SendPacketError.Encode (Packet.Publish (pkt\<lparr>packet_id := Some idx\<rparr>)) tx) (sh\<lparr>inflight_idx := i'\<rparr>)"
proof -
  obtain idx pkt' i' where n: "idx \<noteq> 0" "pkt' = pkt\<lparr>packet_id := Some idx\<rparr>"
    "\<And>b. publish_number pkt (sh\<lparr>borrowed := b\<rparr>) =
      (Ok (idx, pkt') :: (SendPacketError, _) outcome, sh\<lparr>borrowed := b, inflight_idx := i'\<rparr>)" "i' \<noteq> - 1"
    using publish_number_facts [OF assms(2)] by metis
  have "send_at_least_once_inner ops tx pkt sh =
      act_then (with_queues (act_then (publish_number pkt)
          (\<lambda>(idx, pkt). act_then (allocate PacketIdInUse idx AckType.Publish tx) (\<lambda>_ sh. (Ok pkt, sh)))))
        (\<lambda>pkt. send_and_wait ops Codec_encode SendPacketError.Encode (Packet.Publish pkt) tx) sh"
    by (simp add: send_at_least_once_inner_def publish_number_def)
  also have "\<dots> = act_then (allocate PacketIdInUse idx AckType.Publish tx)
        (\<lambda>_. send_and_wait ops Codec_encode SendPacketError.Encode (Packet.Publish (pkt\<lparr>packet_id := Some idx\<rparr>)) tx) (sh\<lparr>inflight_idx := i'\<rparr>)"
    using assms(1) n(2,3)
    by (cases sh) (simp add: act_then_def with_queues_def allocate_def)
  finally show ?thesis
    using that n(1,4) by blast
qed

lemma sends_inner:
  assumes "sink_live sh"
  shows "sends tx AckType.Publish sh (snd (send_at_least_once_inner ops tx pkt sh))"
proof -
  have live: "\<not> borrowed sh" "inflight_idx sh \<noteq> - 1" "queue_ok sh"
    using assms by (auto simp: sink_live_def queue_ok_def)
  obtain idx i' where "idx \<noteq> 0" "send_at_least_once_inner ops tx pkt sh =
      act_then (allocate PacketIdInUse idx AckType.Publish tx)
        (\<lambda>_. send_and_wait ops Codec_encode SendPacketError.Encode (Packet.Publish (pkt\<lparr>packet_id := Some idx\<rparr>)) tx) (sh\<lparr>inflight_idx := i'\<rparr>)"
    using inner_eq [OF live(1,2)] by blast
  moreover have "same_flight sh (sh\<lparr>inflight_idx := i'\<rparr>)" by simp
  ultimately show ?thesis
    using sends_allocate_and_wait sends_same_left live(3) same_flightD(2) by metis
qed

lemma allocate_and_send_eq:
  fixes sh :: "('tx, 'io) shared"
  assumes live: "\<not> borrowed sh" "inflight_idx sh \<noteq> - 1"
  obtains idx i' where "idx \<noteq> 0" "i' \<noteq> - 1"
    "allocate_and_send ops tx tp i pkt sh =
      act_then (allocate PacketIdInUse idx tp tx) (\<lambda>_. send_and_wait ops Codec_encode SendPacketError.Encode (pkt idx) tx) (sh\<lparr>inflight_idx := i'\<rparr>)"
proof -
  define start :: "(('tx, 'io) shared, SendPacketError, u16) action" where
    "start = (if i = 0 then next_id else (\<lambda>sh. (Ok i, sh)))"
  obtain idx i' where idx: "idx \<noteq> 0" "i' \<noteq> - 1" and start: "start sh = (Ok idx, sh\<lparr>inflight_idx := i'\<rparr>)"
  proof (cases "i = 0")
    case True
    then show ?thesis
      using next_id_eq [OF live(2)] u16_succ_ok(2) [OF live(2)]
      by (intro that [of "inflight_idx sh + 1" "if inflight_idx sh + 1 = - 1 then 0 else inflight_idx sh + 1"])
        (auto simp: start_def)
  next
    case False
    then show ?thesis
      using live(2) by (intro that [of i "inflight_idx sh"]) (simp_all add: start_def)
  qed
  have "allocate_and_send ops tx tp i pkt sh =
      act_then (allocate PacketIdInUse idx tp tx) (\<lambda>_. send_and_wait ops Codec_encode SendPacketError.Encode (pkt idx) tx) (sh\<lparr>inflight_idx := i'\<rparr>)"
    unfolding allocate_and_send_def start_def [symmetric]
    using start idx live(1) by (simp add: act_then_def with_queues_allocate)
  then show ?thesis
    using that idx by blast
qed

lemma sends_allocate_and_send:
  fixes sh :: "('tx, 'io) shared"
  assumes "sink_live sh"
  shows "sends tx tp sh (snd (allocate_and_send ops tx tp i pkt sh :: (_, ('tx, 'req) pending) outcome \<times> _))"
proof -
  have live: "\<not> borrowed sh" "inflight_idx sh \<noteq> - 1" "queue_ok sh"
    using assms by (auto simp: sink_live_def queue_ok_def)
  obtain idx i' where idx: "idx \<noteq> 0" "(allocate_and_send ops tx tp i pkt sh :: (_, ('tx, 'req) pending) outcome \<times> _) =
      act_then (allocate PacketIdInUse idx tp tx) (\<lambda>_. send_and_wait ops Codec_encode SendPacketError.Encode (pkt idx) tx) (sh\<lparr>inflight_idx := i'\<rparr>)"
    by (rule allocate_and_send_eq [OF live(1,2)])
  moreover have "same_flight sh (sh\<lparr>inflight_idx := i'\<rparr>)" by simp
  ultimately show ?thesis
    using sends_allocate_and_wait idx sends_same_left live(3) same_flightD(2) by metis
qed

lemma sends_request:
  assumes "sink_live sh" and "request_of c = Some (tx, tp)"
  shows "sends tx tp sh (sink_step ops c sh)"
proof -
  have ok: "queue_ok sh" using assms(1) by (simp add: sink_live_def)
  show ?thesis
    using assms ok
    by (cases c) (auto simp: send_at_least_once_def Let_def send_at_least_once_woken_def subscribe_send_def
        subscribe_send_woken_def unsubscribe_send_def unsubscribe_send_woken_def subscribe_send_inner_def
        unsubscribe_send_inner_def intro: sends_same sends_await_credit [OF ok] sends_inner sends_allocate_and_send)
qed

lemma same_flight_other:
  assumes "sink_live sh"
  shows "same_flight sh (sink_step ops (SendAtMostOnce pkt) sh)"
    "same_flight sh (sink_step ops (Ready tx) sh)" "same_flight sh (sink_step ops Ping sh)"
proof -
  have free: "\<not> borrowed sh" using assms by (auto simp: sink_live_def queue_ok_def)
  note w = write_packet_same [of sh ops Codec_encode]
  show "same_flight sh (sink_step ops (SendAtMostOnce pkt) sh)" "same_flight sh (sink_step ops Ping sh)"
    using w [of "Packet.Publish pkt"] w [of PingRequest]
    by (auto simp: send_at_most_once_def ping_def split: prod.splits outcome.splits)
  show "same_flight sh (sink_step ops (Ready tx) sh)"
    using free by (auto simp: ready_def with_queues_def act_then_def same_flight_def delivered_def)
qed

section \<open>Acknowledgements\<close>

lemma pkt_ack_head:
  assumes "queue_ok sh" and "flight sh = (i, tx, tp) # q" and "answers pkt i tp"
  shows "pkt_ack ops alive pkt sh =
    (Ok (), wake_waiter alive ((dequeue i sh)\<lparr>events := events sh @ [Delivered tx pkt]\<rparr>))"
proof -
  note d = dequeue_flight [OF assms(1,2)]
  have "\<not> borrowed sh" using assms(1) by (simp add: queue_ok_def)
  moreover obtain order where "inflight_order (queues sh) = i # order"
    using d(4) by metis
  ultimately show ?thesis
    using d(3) assms(3)
    by (cases sh) (auto simp: pkt_ack_def with_queues_def pkt_ack_queues_def answers_def dequeue_def
        wake_waiter_def Let_def split: prod.split)
qed

text \<open>The error of an acknowledgement that does not answer the head of the queue.\<close>

fun ack_error :: "(u16 \<times> 'tx \<times> AckType) list \<Rightarrow> Ack \<Rightarrow> ProtocolError" where
  "ack_error ((i, tx, tp) # q) pkt =
    (if Ack_packet_id pkt = i then Unexpected (Ack_packet_type pkt) (AckType_name tp) else PacketIdMismatch)"
| "ack_error [] pkt = PacketIdMismatch"

lemma pkt_ack_queues_bad:
  assumes "queue_ok sh" and "\<forall>i tx tp q. flight sh = (i, tx, tp) # q \<longrightarrow> \<not> answers pkt i tp"
  obtains sh' where "with_queues (pkt_ack_queues alive pkt) sh = (Err (ack_error (flight sh) pkt), sh')"
    "\<not> borrowed sh'" "delivered sh' = delivered sh" "sh_state sh' = sh_state sh"
    "\<forall>tx \<in> fst ` snd ` set (flight sh) \<union> set (waiters (queues sh)). tx \<in> dropped sh' \<union> holders (queues sh')"
proof -
  have free: "\<not> borrowed sh" using assms(1) by (simp add: queue_ok_def)
  show ?thesis
  proof (cases "flight sh")
    case Nil
    then have "inflight_order (queues sh) = []" "ack_error (flight sh) pkt = PacketIdMismatch"
      by (simp_all add: flight_def)
    then show ?thesis
      using that [of sh] free by (simp add: with_queues_def pkt_ack_queues_def flight_def holders_def)
  next
    case (Cons e q)
    obtain i tx tp where e: "flight sh = (i, tx, tp) # q" using Cons by (cases e) auto
    note d = dequeue_flight [OF assms(1) e]
    obtain order where order: "inflight_order (queues sh) = i # order"
      using d(4) by metis
    have bad: "\<not> answers pkt i tp" using assms(2) e by blast
    let ?q = "(queues sh)\<lparr>inflight_order := order\<rparr>"
    have held: "tx' \<in> holders ((queues sh)\<lparr>inflight_order := order\<rparr>)"
        "j \<noteq> i \<Longrightarrow> tx' \<in> holders (?q\<lparr>inflight := Mapping.delete i (inflight (queues sh))\<rparr>)"
      if "(j, tx', tp') \<in> set (flight sh)" for j tx' tp'
      using flight_lookup [OF assms(1) that]
      by (auto intro!: lookup_holders [of _ j _ tp'] simp: lookup_delete_neq)
    have head: "tx' = tx" if "(i, tx', tp') \<in> set (flight sh)" for tx' tp'
      using flight_lookup [OF assms(1) that] d(3) by simp
    show ?thesis
    proof (cases "Ack_packet_id pkt = i")
      case True
      let ?sh = "sh\<lparr>queues := ?q\<lparr>inflight := Mapping.delete i (inflight (queues sh))\<rparr>,
              events := events sh @ [Dropped {tx}]\<rparr>"
      have "tx' \<in> dropped ?sh \<union> holders (queues ?sh)" if "(j, tx', tp') \<in> set (flight sh)" for j tx' tp'
        using held(2) [OF that] head that by (cases "j = i") (auto simp: dropped_def)
      moreover have "set (waiters (queues sh)) \<subseteq> holders (queues ?sh)"
        by (simp add: holders_def)
      ultimately have "\<forall>tx \<in> fst ` snd ` set (flight sh) \<union> set (waiters (queues sh)).
          tx \<in> dropped ?sh \<union> holders (queues ?sh)"
        by fastforce
      then show ?thesis
        using free d(3) order e bad True
        by (intro that [of ?sh])
          (simp_all add: with_queues_def pkt_ack_queues_def answers_def Let_def delivered_def)
    next
      case False
      have "\<forall>tx \<in> fst ` snd ` set (flight sh) \<union> set (waiters (queues sh)).
          tx \<in> dropped (sh\<lparr>queues := ?q\<rparr>) \<union> holders (queues (sh\<lparr>queues := ?q\<rparr>))"
        using held(1) by (fastforce simp: holders_def)
      then show ?thesis
        using free order e False
        by (intro that [of "sh\<lparr>queues := ?q\<rparr>"])
          (simp_all add: with_queues_def pkt_ack_queues_def Let_def delivered_def)
    qed
  qed
qed

lemma pkt_ack_bad:
  assumes "queue_ok sh" and "\<forall>i tx tp q. flight sh = (i, tx, tp) # q \<longrightarrow> \<not> answers pkt i tp"
  obtains sh' where "pkt_ack ops alive pkt sh = (Err (ack_error (flight sh) pkt), sh')"
    "\<not> borrowed sh'" "delivered sh' = delivered sh"
    "sh_state sh' = (if io_is_open ops (sh_state sh) then io_close ops (sh_state sh) else sh_state sh)"
    "Mapping.keys (inflight (queues sh')) = {}" "waiters (queues sh') = []"
    "fst ` snd ` set (flight sh) \<union> set (waiters (queues sh)) \<subseteq> dropped sh'"
proof -
  obtain sh1 where sh1: "with_queues (pkt_ack_queues alive pkt) sh = (Err (ack_error (flight sh) pkt), sh1)"
    "\<not> borrowed sh1" "delivered sh1 = delivered sh" "sh_state sh1 = sh_state sh"
    "\<forall>tx \<in> fst ` snd ` set (flight sh) \<union> set (waiters (queues sh)). tx \<in> dropped sh1 \<union> holders (queues sh1)"
    using pkt_ack_queues_bad [OF assms] by metis
  let ?sh' = "sh1\<lparr>sh_state := (if io_is_open ops (sh_state sh) then io_close ops (sh_state sh) else sh_state sh),
      queues := (queues sh1)\<lparr>inflight := Mapping.empty, waiters := []\<rparr>,
      events := events sh1 @ [Dropped (holders (queues sh1))]\<rparr>"
  have "pkt_ack ops alive pkt sh = (Err (ack_error (flight sh) pkt), ?sh')"
    using sh1(2,4) by (simp add: pkt_ack_def sh1(1) act_then_def close_def clear_queues_eq)
  then show ?thesis
    by (rule that) (use sh1 in \<open>auto simp: delivered_def dropped_def\<close>)
qed

interpretation v3_sink: ack_queue flight sink_live delivered "sink_step ops" request_of ack_of answers
  for ops :: "('io, Packet) io_ops"
proof
  fix sh :: "('tx, 'io) shared" and c :: "'tx sink_op"
  assume live: "sink_live sh" and "ack_of c = None"
  have free: "\<not> borrowed sh" using live by (auto simp: sink_live_def queue_ok_def)
  show "delivered (sink_step ops c sh) = delivered sh \<and>
      (sink_live (sink_step ops c sh) \<longrightarrow>
        subseq (flight (sink_step ops c sh)) (flight sh @ entered (flight sh) (flight (sink_step ops c sh))) \<and>
        subseq (map snd (entered (flight sh) (flight (sink_step ops c sh)))) (requests request_of [c]))"
  proof (cases "request_of c")
    case (Some r)
    then obtain tx tp where r: "request_of c = Some (tx, tp)" by (cases r) auto
    have s: "sends tx tp sh (sink_step ops c sh)"
      using live r by (rule sends_request)
    show ?thesis
      using sends_entered [OF s] s r by (simp add: sends_def)
  next
    case None
    then consider (same) "same_flight sh (sink_step ops c sh)" | (close) "c = Close" | (force) "c = ForceClose"
      using \<open>ack_of c = None\<close> same_flight_other [OF live] by (cases c) auto
    then show ?thesis
    proof cases
      case same
      then show ?thesis by (simp add: same_flightD subseq_append_right)
    next
      case close
      show ?thesis
        unfolding close sink_step.simps sink_live_def
        by (auto simp: close_queues [OF free] simp del: flight_Nil)
    next
      case force
      show ?thesis
        unfolding force sink_step.simps sink_live_def
        by (auto simp: close_queues [OF free] simp del: flight_Nil)
    qed
  qed
next
  fix sh :: "('tx, 'io) shared" and c :: "'tx sink_op" and a i tx tp q
  assume live: "sink_live sh" and "ack_of c = Some a" and head: "flight sh = (i, tx, tp) # q" "answers a i tp"
  then obtain alive where c: "c = PktAck alive a" by (cases c) auto
  have ok: "queue_ok sh" using live by (simp add: sink_live_def)
  let ?sh = "(dequeue i sh)\<lparr>events := events sh @ [Delivered tx a]\<rparr>"
  note same = same_flightD [OF wake_waiter_same [of ?sh alive]]
  have "flight ?sh = q"
    using dequeue_flight(1) [OF ok head(1)] by (simp add: flight_def)
  moreover have "delivered ?sh = delivered sh @ [(tx, a)]"
    by (simp add: delivered_def)
  ultimately show "delivered (sink_step ops c sh) = delivered sh @ [(tx, a)] \<and>
      (sink_live (sink_step ops c sh) \<longrightarrow> flight (sink_step ops c sh) = q)"
    by (simp add: c pkt_ack_head [OF ok head] same)
next
  fix sh :: "('tx, 'io) shared" and c :: "'tx sink_op" and a
  assume live: "sink_live sh" and "ack_of c = Some a"
    and bad: "flight sh = [] \<or> (\<exists>i tx tp q. flight sh = (i, tx, tp) # q \<and> \<not> answers a i tp)"
  then obtain alive where c: "c = PktAck alive a" by (cases c) auto
  have ok: "queue_ok sh" using live by (simp add: sink_live_def)
  have "\<forall>i tx tp q. flight sh = (i, tx, tp) # q \<longrightarrow> \<not> answers a i tp"
    using bad by (auto simp del: flight_Nil)
  from pkt_ack_bad [OF ok this, of ops alive] obtain sh' where
    "pkt_ack ops alive a sh = (Err (ack_error (flight sh) a), sh')" "delivered sh' = delivered sh"
    "Mapping.keys (inflight (queues sh')) = {}"
    by metis
  then show "delivered (sink_step ops c sh) = delivered sh \<and>
      (sink_live (sink_step ops c sh) \<longrightarrow>
        subseq (flight (sink_step ops c sh)) (flight sh))"
    by (auto simp: c sink_live_def queue_ok_def flight_def)
qed

interpretation v3_ids: id_source next_id
  by unfold_locales (rule next_id_eq)

section \<open>Properties\<close>

text \<open>C34: Acknowledgements reach the 3.1.1 senders in order.  In every run of the sink from a fresh
  connection up to the point where it is closed, whatever senders, woken senders, acknowledgements,
  pings and closes are interleaved, the acknowledgements handed out answer a subsequence of the requests
  in the order in which their packets were put in flight, each at most once, and each with an
  acknowledgement of its own kind and of the identifier under which the packet was put in flight.\<close>

theorem v3_acks_in_order:
  "\<exists>ks. subseq ks (put_in_flight sink_live flight (sink_step ops) cs (MqttShared_new st codec n)) \<and>
    subseq (map snd ks) (requests request_of cs) \<and>
    list_all2 (\<lambda>(i, tx, tp) (tx', a). tx = tx' \<and> answers a i tp) ks
      (delivered (run_while sink_live (sink_step ops) cs (MqttShared_new st codec n)))"
  by (rule v3_sink.answers_in_order) (simp_all del: flight_Nil)

text \<open>An acknowledgement for the packet at the head of the queue is handed to exactly its sender, the
  packet leaves the queue and the first waiting sender that still exists is woken.  Any other
  acknowledgement is a protocol error of the right kind that closes the connection: nothing is handed
  out, nothing stays in flight, and every sender that waited for an acknowledgement or for credit learns
  that the connection is gone.\<close>

theorem v3_pkt_ack_correct:
  assumes "queue_ok sh" and "io_closes ops"
  shows "case pkt_ack ops alive pkt sh of (r, sh') \<Rightarrow>
    (if flight sh \<noteq> [] \<and> (case hd (flight sh) of (i, tx, tp) \<Rightarrow> answers pkt i tp)
     then r = Ok () \<and> queue_ok sh' \<and> flight sh' = tl (flight sh) \<and>
       delivered sh' = delivered sh @ [(fst (snd (hd (flight sh))), pkt)] \<and>
       waiters (queues sh') = snd (wake_waiters alive (waiters (queues sh)))
     else r = Err (ack_error (flight sh) pkt) \<and> sink_closed ops sh' \<and> delivered sh' = delivered sh \<and>
       fst ` snd ` set (flight sh) \<union> set (waiters (queues sh)) \<subseteq> dropped sh')"
proof (cases "flight sh \<noteq> [] \<and> (case hd (flight sh) of (i, tx, tp) \<Rightarrow> answers pkt i tp)")
  case True
  then obtain i tx tp q where head: "flight sh = (i, tx, tp) # q" "answers pkt i tp"
    by (cases "flight sh") (auto simp del: flight_Nil)
  let ?sh = "(dequeue i sh)\<lparr>events := events sh @ [Delivered tx pkt]\<rparr>"
  note same = same_flightD [OF wake_waiter_same [of ?sh alive]]
  have "flight ?sh = q" "queue_ok ?sh" "delivered ?sh = delivered sh @ [(tx, pkt)]"
    "waiters (queues ?sh) = waiters (queues sh)"
    using dequeue_flight(1,2) [OF assms(1) head(1)]
    by (simp_all add: flight_def queue_ok_def delivered_def dequeue_def)
  then show ?thesis
    using True
    by (simp add: pkt_ack_head [OF assms(1) head] same head del: flight_Nil)
      (simp add: wake_waiter_def split: prod.split)
next
  case False
  have "\<forall>i tx tp q. flight sh = (i, tx, tp) # q \<longrightarrow> \<not> answers pkt i tp"
    using False by (auto simp del: flight_Nil)
  from pkt_ack_bad [OF assms(1) this, of ops alive] obtain sh' where
    sh': "pkt_ack ops alive pkt sh = (Err (ack_error (flight sh) pkt), sh')"
    "\<not> borrowed sh'" "delivered sh' = delivered sh"
    "sh_state sh' = (if io_is_open ops (sh_state sh) then io_close ops (sh_state sh) else sh_state sh)"
    "Mapping.keys (inflight (queues sh')) = {}"
    "fst ` snd ` set (flight sh) \<union> set (waiters (queues sh)) \<subseteq> dropped sh'"
    by metis
  moreover have "\<not> io_is_open ops (sh_state sh')"
    using assms(2) by (simp add: sh'(4) io_closes_def)
  ultimately show ?thesis
    unfolding sh'(1) prod.case if_not_P [OF False] by (simp add: sink_closed_def)
qed

text \<open>A transport that is open or closed and writes nowhere.\<close>

definition flag_io :: "(bool, Packet) io_ops" where
  "flag_io = \<lparr>io_is_open = (\<lambda>s. s), io_close = (\<lambda>_. False), io_force_close = (\<lambda>_. False),
     io_encode = (\<lambda>enc pkt s. (Ok True, s))\<rparr>"

lemma flag_io_closes: "io_closes flag_io"
  by (simp add: io_closes_def flag_io_def)

text \<open>Two publishes in flight, the first with identifier 1.\<close>

definition two_sent :: "(nat, bool) shared" where
  "two_sent = fold (sink_step flag_io)
     [SendAtLeastOnce 10 11 (publish [0x61] []), SubscribeSend 20 21 subscribe]
     (MqttShared_new True Codec_new 2)"

lemmas sink_eval = flag_io_def MqttShared_new_def send_at_least_once_def send_at_least_once_woken_def
  send_at_least_once_inner_def publish_number_def publish_def has_credit_def Mapping.size_def
  act_then_def with_queues_def next_id_def checked_add_def allocate_def send_and_wait_def write_packet_def
  push_waiter_def subscribe_def subscribe_send_def await_credit_def subscribe_send_inner_def allocate_and_send_def
  pkt_ack_def pkt_ack_queues_def wake_waiter_def Let_def

lemma two_sent_flight:
  "queue_ok two_sent" "flight two_sent = [(1, 11, AckType.Publish), (2, 21, AckType.Subscribe)]"
  by (auto simp: two_sent_def sink_eval queue_ok_def flight_def lookup_update')

theorem v3_pkt_ack_correct_witness:
  "fst (pkt_ack flag_io (\<lambda>_. True) (Ack.Publish 1) two_sent) = Ok () \<and>
   fst (pkt_ack flag_io (\<lambda>_. True) (Ack.Publish 2) two_sent) = Err PacketIdMismatch \<and>
   sink_closed flag_io (snd (pkt_ack flag_io (\<lambda>_. True) (Ack.Publish 2) two_sent))"
  using v3_pkt_ack_correct [OF two_sent_flight(1) flag_io_closes, of "Ack.Publish 1" "\<lambda>_. True"]
    v3_pkt_ack_correct [OF two_sent_flight(1) flag_io_closes, of "Ack.Publish 2" "\<lambda>_. True"]
  unfolding two_sent_flight(2) by (simp add: answers_def split: prod.splits)

text \<open>The packet identifiers that a fresh 3.1.1 sink generates run through 1 to 65535 and start again,
  without overflow, for any number of packets; so up to 65535 packets in a row have different
  identifiers, and none of them is 0.\<close>

theorem v3_packet_ids:
  "fst (draw_ids next_id n (MqttShared_new st codec m)) = Ok (map (\<lambda>k. of_nat (k mod 65535 + 1)) [0..<n]) \<and>
   distinct (map (\<lambda>k. of_nat (k mod 65535 + 1) :: u16) [0..<min n 65535]) \<and>
   0 \<notin> set (map (\<lambda>k. of_nat (k mod 65535 + 1) :: u16) [0..<min n 65535])"
  using cycle_ids [of "min n 65535"] by (simp add: v3_ids.draw_ids_cycle)

text \<open>C37: The receive maximum can be exceeded.  A sender that waited for credit and was woken does not look
  at the credit again; when another sender has used the credit in the meantime, its packet is sent beyond
  the limit, and from then on the credit computation underflows: every sender that asks for credit
  panics.\<close>

theorem v3_credit_overrun:
  assumes "sink_live sh" and "length (flight sh) = cap sh" and "packet_id pkt = None"
    and "inflight_idx sh + 1 \<notin> Mapping.keys (inflight (queues sh))"
  shows "length (flight (snd (send_at_least_once_woken ops True tx pkt sh))) = cap sh + 1 \<and>
    (has_credit (snd (send_at_least_once_woken ops True tx pkt sh)) :: (SendPacketError, bool) outcome) = Panic"
proof -
  have live: "\<not> borrowed sh" "inflight_idx sh \<noteq> - 1" "queue_ok sh"
    using assms(1) by (auto simp: sink_live_def queue_ok_def)
  let ?i = "inflight_idx sh + 1"
  obtain i' where n: "\<And>b. publish_number pkt (sh\<lparr>borrowed := b\<rparr>) =
      (Ok (?i, pkt\<lparr>packet_id := Some ?i\<rparr>) :: (SendPacketError, _) outcome, sh\<lparr>borrowed := b, inflight_idx := i'\<rparr>)"
    using assms(3) live(2) u16_succ_ok(2) [OF live(2)]
    by (intro that [of "if ?i = - 1 then 0 else ?i"]) (auto simp: publish_number_def act_then_def next_id_eq)
  let ?sh = "enqueue ?i AckType.Publish tx (sh\<lparr>inflight_idx := i'\<rparr>)"
  have "send_at_least_once_woken ops True tx pkt sh =
      send_and_wait ops Codec_encode SendPacketError.Encode (Packet.Publish (pkt\<lparr>packet_id := Some ?i\<rparr>)) tx ?sh"
    using live(1) assms(4) n
    by (cases sh) (simp add: send_at_least_once_woken_def send_at_least_once_inner_def act_then_def
        with_queues_def allocate_cases enqueue_def)
  then have same: "same_flight ?sh (snd (send_at_least_once_woken ops True tx pkt sh))"
    and cap: "cap (snd (send_at_least_once_woken ops True tx pkt sh)) = cap sh"
    by (auto simp: send_and_wait_same)
      (auto simp: send_and_wait_def write_packet_def enqueue_def split: prod.split outcome.split)
  have ok: "queue_ok (sh\<lparr>inflight_idx := i'\<rparr>)" "flight (sh\<lparr>inflight_idx := i'\<rparr>) = flight sh"
    using live(3) by (simp_all add: queue_ok_def flight_def)
  have "sends tx AckType.Publish (sh\<lparr>inflight_idx := i'\<rparr>) ?sh"
    using ok(1) u16_succ_ok(2) [OF live(2)] assms(4) by (intro sends_enqueue) simp_all
  moreover have "flight ?sh = flight sh @ [(?i, tx, AckType.Publish)]"
    using live(3) assms(4) ok(2) by (subst enqueue_flight) (simp_all add: queue_ok_def)
  ultimately have res: "queue_ok (snd (send_at_least_once_woken ops True tx pkt sh))"
    "length (flight (snd (send_at_least_once_woken ops True tx pkt sh))) = cap sh + 1"
    using same_flightD [OF same] assms(2) by (simp_all add: sends_def)
  then show ?thesis
    using size_flight [OF res(1)] by (simp add: has_credit_def cap)
qed

text \<open>With a limit of one packet: a first sender, a second that waits, the acknowledgement that wakes it,
  and a third sender that takes the credit before the second runs.\<close>

definition overtaken :: "(nat, bool) shared" where
  "overtaken = fold (sink_step flag_io)
     [SendAtLeastOnce 10 11 (publish [0x61] []), SendAtLeastOnce 20 21 (publish [0x62] []),
      PktAck (\<lambda>_. True) (Ack.Publish 1), SendAtLeastOnce 30 31 (publish [0x63] [])]
     (MqttShared_new True Codec_new 1)"

lemma overtaken_eq:
  "sink_live overtaken" "length (flight overtaken) = cap overtaken"
  "inflight_idx overtaken + 1 \<notin> Mapping.keys (inflight (queues overtaken))"
  "Woken 20 \<in> set (events overtaken)" "cap overtaken = 1"
  by (auto simp: overtaken_def sink_eval sink_live_def queue_ok_def flight_def)

theorem v3_credit_overrun_witness:
  "length (flight (snd (send_at_least_once_woken flag_io True 21 (publish [0x62] []) overtaken))) = 2 \<and>
   (has_credit (snd (send_at_least_once_woken flag_io True 21 (publish [0x62] []) overtaken))
      :: (SendPacketError, bool) outcome) = Panic"
  using v3_credit_overrun [OF overtaken_eq(1,2), of "publish [0x62] []" flag_io 21] overtaken_eq(3,5)
  by (simp add: publish_def)

end
