(* ===== verification/V3_Dispatcher.thy ===== *)
theory V3_Dispatcher
  imports Dispatch V3_Control V3_Sink
begin

text \<open>
  The MQTT 3.1.1 server dispatcher (\<^verbatim>\<open>v3/dispatcher.rs\<close>). A call of a service of the application is
  recorded in the future that waits for it; the polls of the futures take the service's result. The limit
  on the number of calls (\<^verbatim>\<open>ntex::util::inflight::InFlightService\<close>) wraps the dispatcher and is not part
  of it.
\<close>

section \<open>State\<close>

record ('tx, 'io) Dispatcher =
  d_sink :: "('tx, 'io) shared"
  d_shutdown :: bool
  d_inflight :: "u16 set"

definition Dispatcher_new :: "('tx, 'io) shared \<Rightarrow> ('tx, 'io) Dispatcher" where
  "Dispatcher_new sink = \<lparr>d_sink = sink, d_shutdown = False, d_inflight = {}\<rparr>"

datatype 'e Future =
    PublishFuture "u16 option" Publish
  | ReadyResult "'e MqttError + Packet option"
  | ControlFuture ControlMessage

definition on_sink ::
  "(('tx, 'io) shared, 'err, 'a) action \<Rightarrow> (('tx, 'io) Dispatcher, 'err, 'a) action" where
  "on_sink act d = (case act (d_sink d) of (r, sink) \<Rightarrow> (r, d\<lparr>d_sink := sink\<rparr>))"

section \<open>Calls\<close>

definition insert_inflight :: "u16 \<Rightarrow> ('tx, 'io) Dispatcher \<Rightarrow> ('tx, 'io) Dispatcher" where
  "insert_inflight i d = d\<lparr>d_inflight := insert i (d_inflight d)\<rparr>"

definition call_publish :: "Publish \<Rightarrow> (('tx, 'io) Dispatcher, 'err, 'e Future) action" where
  "call_publish pub d =
    (case packet_id pub of
       Some pid \<Rightarrow>
         if pid \<in> d_inflight d
         then (Ok (ReadyResult (Inl (ServerError ''Duplicated packet id for publish packet''))), d)
         else (Ok (PublishFuture (packet_id pub) pub), insert_inflight pid d)
     | None \<Rightarrow> (Ok (PublishFuture (packet_id pub) pub), d))"

text \<open>An acknowledgement from the peer.\<close>

definition call_ack ::
  "('io, Packet) io_ops \<Rightarrow> ('tx \<Rightarrow> bool) \<Rightarrow> Ack \<Rightarrow> (('tx, 'io) Dispatcher, 'err, 'e Future) action" where
  "call_ack ops alive ack d =
    (case pkt_ack ops alive ack (d_sink d) of
       (Ok _, sink) \<Rightarrow> (Ok (ReadyResult (Inr None)), d\<lparr>d_sink := sink\<rparr>)
     | (Err e, sink) \<Rightarrow> (Ok (ReadyResult (Inl (Protocol e))), d\<lparr>d_sink := sink\<rparr>)
     | (Panic, sink) \<Rightarrow> (Panic, d\<lparr>d_sink := sink\<rparr>)
     | (Diverge, sink) \<Rightarrow> (Diverge, d\<lparr>d_sink := sink\<rparr>))"

text \<open>A packet with an identifier that goes to the control service.\<close>

definition call_control :: "u16 \<Rightarrow> ControlMessage \<Rightarrow> (('tx, 'io) Dispatcher, 'err, 'e Future) action" where
  "call_control pid msg d =
    (if pid \<in> d_inflight d
     then (Ok (ReadyResult (Inl (ServerError ''Duplicated packet id for unsubscribe packet''))), d)
     else (Ok (ControlFuture msg), insert_inflight pid d))"

fun call ::
  "('io, Packet) io_ops \<Rightarrow> ('tx \<Rightarrow> bool) \<Rightarrow> Packet \<Rightarrow> (('tx, 'io) Dispatcher, 'err, 'e Future) action" where
  "call ops alive (Packet.Publish pub) = call_publish pub"
| "call ops alive (Packet.PublishAck pid) = call_ack ops alive (Ack.Publish pid)"
| "call ops alive PingRequest = (\<lambda>d. (Ok (ControlFuture ControlMessage.Ping), d))"
| "call ops alive Packet.Disconnect = (\<lambda>d. (Ok (ControlFuture ControlMessage.Disconnect), d))"
| "call ops alive (Packet.Subscribe pid topic_filters) =
    call_control pid (ControlMessage.Subscribe (Subscribe_new pid topic_filters))"
| "call ops alive (Packet.Unsubscribe pid topic_filters) =
    call_control pid (ControlMessage.Unsubscribe (Unsubscribe_new pid topic_filters))"
| "call ops alive _ = (\<lambda>d. (Ok (ReadyResult (Inr None)), d))"

section \<open>Readiness and shutdown\<close>

definition poll_ready ::
  "('e MqttError + unit) option \<Rightarrow> ('e MqttError + unit) option \<Rightarrow> ('e MqttError + unit) option" where
  "poll_ready pub control = both_ready pub control"

definition poll_shutdown ::
  "('io, Packet) io_ops \<Rightarrow> bool \<Rightarrow> (('tx, 'io) Dispatcher, 'err, ControlMessage option) action" where
  "poll_shutdown ops is_error d =
    (if \<not> d_shutdown d
     then act_then (on_sink (close ops))
            (\<lambda>_ d. (Ok (Some (ControlMessage.Closed is_error)), d\<lparr>d_shutdown := True\<rparr>)) d
     else (Ok None, d))"

section \<open>Futures\<close>

definition remove_inflight :: "u16 \<Rightarrow> ('tx, 'io) Dispatcher \<Rightarrow> ('tx, 'io) Dispatcher" where
  "remove_inflight i d = d\<lparr>d_inflight := d_inflight d - {i}\<rparr>"

text \<open>The publish service has answered.\<close>

definition publish_poll ::
  "'e MqttError + unit \<Rightarrow> u16 option \<Rightarrow> (('tx, 'io) Dispatcher, 'err, 'e MqttError + Packet option) action" where
  "publish_poll res pid d =
    (case res of
       Inl e \<Rightarrow> (Ok (Inl e), d)
     | Inr _ \<Rightarrow>
       (case pid of
          Some i \<Rightarrow> (Ok (Inr (Some (Packet.PublishAck i))), remove_inflight i d)
        | None \<Rightarrow> (Ok (Inr None), d)))"

text \<open>The control service has answered.\<close>

definition control_poll ::
  "('io, Packet) io_ops \<Rightarrow> 'e MqttError + ControlResultKind \<Rightarrow>
   (('tx, 'io) Dispatcher, 'err, 'e MqttError + Packet option) action" where
  "control_poll ops res d =
    (case res of
       Inl e \<Rightarrow> (Ok (Inl e), d)
     | Inr ControlResultKind.Ping \<Rightarrow> (Ok (Inr (Some PingResponse)), d)
     | Inr (ControlResultKind.Subscribe r) \<Rightarrow>
         (Ok (Inr (Some (Packet.SubscribeAck (sr_packet_id r) (sr_codes r)))), remove_inflight (sr_packet_id r) d)
     | Inr (ControlResultKind.Unsubscribe i) \<Rightarrow>
         (Ok (Inr (Some (Packet.UnsubscribeAck i))), remove_inflight i d)
     | Inr (ControlResultKind.PublishAck _) \<Rightarrow> (Panic, d)
     | Inr _ \<Rightarrow> act_then (on_sink (close ops)) (\<lambda>_ d. (Ok (Inr None), d)) d)"

section \<open>The dispatcher with its futures as a state machine\<close>

fun live_id :: "'e Future \<Rightarrow> u16 list" where
  "live_id (PublishFuture pid _) = (case pid of Some i \<Rightarrow> [i] | None \<Rightarrow> [])"
| "live_id (ReadyResult _) = []"
| "live_id (ControlFuture (ControlMessage.Subscribe s)) = [s_packet_id s]"
| "live_id (ControlFuture (ControlMessage.Unsubscribe u)) = [u_packet_id u]"
| "live_id (ControlFuture _) = []"

abbreviation live_ids :: "'e Future list \<Rightarrow> u16 list" where
  "live_ids fs \<equiv> concat (map live_id fs)"

text \<open>The results that a handler can make of a message: the constructors of a result consume the message,
  or ask for a disconnect.\<close>

fun answer_to :: "ControlMessage \<Rightarrow> ControlResultKind \<Rightarrow> bool" where
  "answer_to msg ControlResultKind.Disconnect = True"
| "answer_to ControlMessage.Ping r = (r = Ping_ack)"
| "answer_to ControlMessage.Disconnect r = (r = Disconnect_ack)"
| "answer_to (ControlMessage.Closed _) r = (r = Closed_ack)"
| "answer_to (ControlMessage.Subscribe s) r = (\<exists>codes. r = Subscribe_ack (s\<lparr>s_codes := codes\<rparr>))"
| "answer_to (ControlMessage.Unsubscribe u) r = (r = Unsubscribe_ack u)"

inductive disp_step ::
  "('io, Packet) io_ops \<Rightarrow> ('tx, 'io) Dispatcher \<times> 'e Future list \<Rightarrow>
   ('tx, 'io) Dispatcher \<times> 'e Future list \<Rightarrow> bool" for ops where
  call: "call ops alive pkt d = (Ok f :: (unit, 'e Future) outcome, d') \<Longrightarrow> disp_step ops (d, fs) (d', fs @ [f])"
| published: "publish_poll res pid d = (Ok r :: (unit, 'e MqttError + Packet option) outcome, d') \<Longrightarrow>
    disp_step ops (d, xs @ PublishFuture pid pub # ys) (d', xs @ ys)"
| controlled: "\<lbrakk>control_poll ops (Inr k) d = (Ok r :: (unit, 'e MqttError + Packet option) outcome, d');
     answer_to msg k\<rbrakk> \<Longrightarrow>
    disp_step ops (d, xs @ ControlFuture msg # ys) (d', xs @ ys)"
| control_failed: "control_poll ops (Inl e) d = (Ok r :: (unit, 'e MqttError + Packet option) outcome, d') \<Longrightarrow>
    disp_step ops (d, xs @ ControlFuture msg # ys) (d', xs @ ys)"
| ready: "disp_step ops (d, xs @ ReadyResult r # ys) (d, xs @ ys)"
| sink: "disp_step ops (d, fs) (d\<lparr>d_sink := sink'\<rparr>, fs)"

inductive disp_reachable ::
  "('io, Packet) io_ops \<Rightarrow> ('tx, 'io) Dispatcher \<times> 'e Future list \<Rightarrow> bool" for ops where
  start: "disp_reachable ops (Dispatcher_new sink, [])"
| step: "\<lbrakk>disp_reachable ops s; disp_step ops s s'\<rbrakk> \<Longrightarrow> disp_reachable ops s'"

section \<open>Lemmas\<close>

lemma insert_inflight_inflight [simp]: "d_inflight (insert_inflight i d) = insert i (d_inflight d)"
  by (simp add: insert_inflight_def)

lemma remove_inflight_inflight [simp]: "d_inflight (remove_inflight i d) = d_inflight d - {i}"
  by (simp add: remove_inflight_def)

lemma call_ack_inflight:
  "call_ack ops alive ack d = (Ok f, d') \<Longrightarrow> live_id f = [] \<and> d_inflight d' = d_inflight d"
  by (auto simp: call_ack_def split: prod.splits outcome.splits)

lemma call_live:
  assumes "call ops alive pkt d = (Ok f, d')"
  shows "live_id f = [] \<and> d_inflight d \<subseteq> d_inflight d' \<or>
    (\<exists>i. live_id f = [i] \<and> i \<notin> d_inflight d \<and> d_inflight d' = insert i (d_inflight d))"
  using assms
  by (cases pkt)
     (auto simp: call_publish_def call_control_def Subscribe_new_def Unsubscribe_new_def
       dest!: call_ack_inflight split: option.splits if_splits)

lemma publish_poll_inflight:
  "publish_poll res pid d = (Ok r, d') \<Longrightarrow>
    d_inflight d' = d_inflight d - set (live_id (PublishFuture pid pub)) \<or> d_inflight d' = d_inflight d"
  by (auto simp: publish_poll_def split: sum.splits option.splits)

lemma on_sink_inflight: "on_sink act d = (r, d') \<Longrightarrow> d_inflight d' = d_inflight d"
  by (auto simp: on_sink_def split: prod.splits)

lemma close_then_inflight:
  "act_then (on_sink act) (\<lambda>_ d. (Ok x, d)) d = (r, d') \<Longrightarrow> d_inflight d' = d_inflight d"
  by (auto simp: act_then_def dest: on_sink_inflight split: prod.splits outcome.splits)

lemma control_poll_inflight:
  assumes "control_poll ops (Inr k) d = (Ok r, d')" "answer_to msg k"
  shows "d_inflight d' = d_inflight d - set (live_id (ControlFuture msg)) \<or> d_inflight d' = d_inflight d"
  using assms
  by (cases "(msg, k)" rule: answer_to.cases)
     (auto simp: control_poll_def Subscribe_ack_def Unsubscribe_ack_def Ping_ack_def Disconnect_ack_def
       Closed_ack_def dest: close_then_inflight)

lemma disp_step_exclusive:
  assumes "disp_step ops s s'" "exclusive live_id (d_inflight (fst s)) (snd s)"
  shows "exclusive live_id (d_inflight (fst s')) (snd s')"
  using assms
proof (induction rule: disp_step.induct)
  case (call alive pkt d f d' fs)
  then show ?case by (simp add: exclusive_snoc call_live)
next
  case (published res pid d r d' xs pub ys)
  show ?case
    using exclusive_finish [of live_id "d_inflight d" xs "PublishFuture pid pub" ys "d_inflight d'"]
      publish_poll_inflight [OF published(1)] published(2) by simp
next
  case (controlled k d r d' msg xs ys)
  show ?case
    using exclusive_finish [of live_id "d_inflight d" xs "ControlFuture msg" ys "d_inflight d'"]
      control_poll_inflight [OF controlled(1,2)] controlled(3) by simp
next
  case (control_failed e d r d' xs msg ys)
  then show ?case by (auto simp: control_poll_def elim: exclusive_finish)
next
  case (ready d xs r ys)
  then show ?case by (auto elim: exclusive_finish)
next
  case (sink d fs sink')
  then show ?case by simp
qed

lemma disp_reachable_exclusive:
  "disp_reachable ops s \<Longrightarrow> exclusive live_id (d_inflight (fst s)) (snd s)"
  by (induction rule: disp_reachable.induct) (auto intro: disp_step_exclusive)

section \<open>Properties\<close>

text \<open>While the publish service works on a publish, no other handler has its identifier and another publish
  with it is refused; when the service answers, the dispatcher returns exactly the PUBACK of the publish, and
  the identifier is free: the next publish with it goes to the service.\<close>

theorem v3_publish_exclusive:
  assumes "disp_reachable ops (d, xs @ PublishFuture (Some i) pub # ys)"
    and "packet_id pub' = Some i"
  shows "i \<notin> set (live_ids (xs @ ys)) \<and>
    call ops alive (Packet.Publish pub') d =
      (Ok (ReadyResult (Inl (ServerError ''Duplicated packet id for publish packet''))) :: (unit, 'e Future) outcome, d) \<and>
    (\<exists>d'. publish_poll (Inr ()) (Some i) d =
        (Ok (Inr (Some (Packet.PublishAck i))) :: (unit, 'e MqttError + Packet option) outcome, d') \<and>
      disp_reachable ops (d', xs @ ys :: 'e Future list) \<and>
      fst (call ops alive (Packet.Publish pub') d' :: (unit, 'e Future) outcome \<times> _) = Ok (PublishFuture (Some i) pub'))"
proof -
  have poll: "publish_poll (Inr ()) (Some i) d =
        (Ok (Inr (Some (Packet.PublishAck i))) :: (unit, 'e MqttError + Packet option) outcome, remove_inflight i d)"
    by (simp add: publish_poll_def)
  have excl: "exclusive live_id (d_inflight d) (xs @ PublishFuture (Some i) pub # ys)"
    using disp_reachable_exclusive [OF assms(1)] by simp
  have "i \<notin> set (live_ids (xs @ ys))"
    using exclusive_fresh [OF excl, of i] by simp
  moreover have "i \<in> d_inflight d"
    using excl by (simp add: exclusive_def)
  moreover have "disp_reachable ops (remove_inflight i d, xs @ ys)"
    using disp_reachable.step [OF assms(1) disp_step.published [OF poll]] .
  ultimately show ?thesis
    using poll assms(2) by (simp add: call_publish_def)
qed

definition one_publish :: "(nat, bool) Dispatcher \<times> unit Future list" where
  "one_publish =
    (insert_inflight 7 (Dispatcher_new (MqttShared_new True Codec_new 5)),
     [PublishFuture (Some 7) (publish [0x61] [] \<lparr>packet_id := Some 7\<rparr>)])"

lemma v3_one_publish_reachable: "disp_reachable flag_io one_publish"
proof -
  have "disp_step flag_io (Dispatcher_new (MqttShared_new True Codec_new 5), []) (fst one_publish, [] @ snd one_publish)"
    unfolding one_publish_def fst_conv snd_conv
    by (rule disp_step.call [of _ "\<lambda>_. True" "Packet.Publish (publish [0x61] [] \<lparr>packet_id := Some 7\<rparr>)"])
       (simp add: call_publish_def Dispatcher_new_def)
  then show ?thesis
    using disp_reachable.step [OF disp_reachable.start] by fastforce
qed

theorem v3_publish_exclusive_witness:
  "\<exists>d'. publish_poll (Inr ()) (Some 7) (fst one_publish) =
      (Ok (Inr (Some (Packet.PublishAck 7))) :: (unit, unit MqttError + Packet option) outcome, d')"
  using v3_publish_exclusive [of flag_io "fst one_publish" "[]" 7 _ "[]" "publish [0x61] [] \<lparr>packet_id := Some 7\<rparr>"]
    v3_one_publish_reachable
  by (auto simp: one_publish_def)

end
