(* ===== verification/V3_Client_Dispatcher.thy ===== *)
theory V3_Client_Dispatcher
  imports V3_Dispatcher
begin

text \<open>
  The MQTT 3.1.1 client dispatcher (\<^verbatim>\<open>v3/client/dispatcher.rs\<close>) with its control messages
  (\<^verbatim>\<open>v3/client/control.rs\<close>). Its state has the fields of the server dispatcher. A publish goes to the publish
  service first; a publish that the service gives back goes to the control service.
\<close>

section \<open>Control messages\<close>

datatype ControlMessage = Publish Publish | Disconnect | Closed bool

definition ControlMessage_disconnect :: ControlResultKind where
  "ControlMessage_disconnect = ControlResultKind.Disconnect"

definition Publish_ack :: "Publish \<Rightarrow> ControlResultKind" where
  "Publish_ack pkt =
    (case packet_id pkt of Some i \<Rightarrow> ControlResultKind.PublishAck i | None \<Rightarrow> ControlResultKind.Nothing)"

section \<open>State and calls\<close>

text \<open>The future of a publish holds the control call once there is one (\<^verbatim>\<open>fut_c\<close>).\<close>

datatype 'e Future =
    PublishFuture "u16 option" Publish "ControlMessage option"
  | ReadyResult "'e MqttError + Packet option"
  | ControlFuture ControlMessage

definition Dispatcher_new :: "('tx, 'io) shared \<Rightarrow> ('tx, 'io) Dispatcher" where
  "Dispatcher_new sink = \<lparr>d_sink = sink, d_shutdown = False, d_inflight = {}\<rparr>"

definition call_publish :: "Publish \<Rightarrow> (('tx, 'io) Dispatcher, 'err, 'e Future) action" where
  "call_publish pub d =
    (case packet_id pub of
       Some pid \<Rightarrow>
         if pid \<in> d_inflight d
         then (Ok (ReadyResult (Inl (ServerError ''Duplicated packet id for publish packet''))), d)
         else (Ok (PublishFuture (packet_id pub) pub None), insert_inflight pid d)
     | None \<Rightarrow> (Ok (PublishFuture (packet_id pub) pub None), d))"

definition call_ack ::
  "('io, Packet) io_ops \<Rightarrow> ('tx \<Rightarrow> bool) \<Rightarrow> Ack \<Rightarrow> (('tx, 'io) Dispatcher, 'err, 'e Future) action" where
  "call_ack ops alive ack d =
    (case pkt_ack ops alive ack (d_sink d) of
       (Ok _, sink) \<Rightarrow> (Ok (ReadyResult (Inr None)), d\<lparr>d_sink := sink\<rparr>)
     | (Err e, sink) \<Rightarrow> (Ok (ReadyResult (Inl (Protocol e))), d\<lparr>d_sink := sink\<rparr>)
     | (Panic, sink) \<Rightarrow> (Panic, d\<lparr>d_sink := sink\<rparr>)
     | (Diverge, sink) \<Rightarrow> (Diverge, d\<lparr>d_sink := sink\<rparr>))"

definition unexpected :: "u8 \<Rightarrow> string \<Rightarrow> (('tx, 'io) Dispatcher, 'err, 'e Future) action" where
  "unexpected pt msg d =
    (Ok (ReadyResult (Inl (MqttError_from_protocol (ProtocolError.Unexpected pt msg)))), d)"

fun call ::
  "('io, Packet) io_ops \<Rightarrow> ('tx \<Rightarrow> bool) \<Rightarrow> Packet \<Rightarrow> (('tx, 'io) Dispatcher, 'err, 'e Future) action" where
  "call ops alive (Packet.Publish pub) = call_publish pub"
| "call ops alive (Packet.PublishAck pid) = call_ack ops alive (Ack.Publish pid)"
| "call ops alive PingRequest = (\<lambda>d. (Ok (ReadyResult (Inr (Some PingResponse))), d))"
| "call ops alive Packet.Disconnect = (\<lambda>d. (Ok (ControlFuture Disconnect), d))"
| "call ops alive (Packet.SubscribeAck pid status) = call_ack ops alive (Ack.Subscribe pid status)"
| "call ops alive (Packet.UnsubscribeAck pid) = call_ack ops alive (Ack.Unsubscribe pid)"
| "call ops alive (Packet.Subscribe _ _) = unexpected SUBSCRIBE ''Subscribe packet is not supported''"
| "call ops alive (Packet.Unsubscribe _ _) = unexpected UNSUBSCRIBE ''Unsubscribe packet is not supported''"
| "call ops alive _ = (\<lambda>d. (Ok (ReadyResult (Inr None)), d))"

definition poll_ready ::
  "('e MqttError + unit) option \<Rightarrow> ('e MqttError + unit) option \<Rightarrow> ('e MqttError + unit) option" where
  "poll_ready pub control = both_ready pub control"

definition poll_shutdown ::
  "('io, Packet) io_ops \<Rightarrow> bool \<Rightarrow> (('tx, 'io) Dispatcher, 'err, ControlMessage option) action" where
  "poll_shutdown ops is_error d =
    (if \<not> d_shutdown d
     then act_then (on_sink (close ops))
            (\<lambda>_ d. (Ok (Some (Closed is_error)), d\<lparr>d_shutdown := True\<rparr>)) d
     else (Ok None, d))"

section \<open>Futures\<close>

text \<open>A poll whose service has answered finishes the future, or leaves another one.\<close>

datatype 'e polled = Finished "'e MqttError + Packet option" | Goes_on "'e Future"

text \<open>The publish service has answered: it took the publish, or gives it back.\<close>

definition publish_poll ::
  "'e MqttError + (unit + Publish) \<Rightarrow> u16 option \<Rightarrow> Publish \<Rightarrow> (('tx, 'io) Dispatcher, 'err, 'e polled) action" where
  "publish_poll res pid pub d =
    (case res of
       Inl e \<Rightarrow> (Ok (Finished (Inl e)), d)
     | Inr (Inl _) \<Rightarrow>
       (case pid of
          Some i \<Rightarrow> (Ok (Finished (Inr (Some (Packet.PublishAck i)))), remove_inflight i d)
        | None \<Rightarrow> (Ok (Finished (Inr None)), d))
     | Inr (Inr pkt) \<Rightarrow> (Ok (Goes_on (PublishFuture pid pub (Some (Publish pkt)))), d))"

definition control_poll ::
  "('io, Packet) io_ops \<Rightarrow> 'e MqttError + ControlResultKind \<Rightarrow>
   (('tx, 'io) Dispatcher, 'err, 'e MqttError + Packet option) action" where
  "control_poll ops res d =
    (case res of
       Inl e \<Rightarrow> (Ok (Inl e), d)
     | Inr ControlResultKind.Ping \<Rightarrow> (Ok (Inr (Some PingResponse)), d)
     | Inr (ControlResultKind.PublishAck i) \<Rightarrow> (Ok (Inr (Some (Packet.PublishAck i))), remove_inflight i d)
     | Inr (ControlResultKind.Subscribe _) \<Rightarrow> (Panic, d)
     | Inr (ControlResultKind.Unsubscribe _) \<Rightarrow> (Panic, d)
     | Inr ControlResultKind.Disconnect \<Rightarrow>
         act_then (on_sink (close ops)) (\<lambda>_ d. (Ok (Inr (Some Packet.Disconnect)), d)) d
     | Inr ControlResultKind.Closed \<Rightarrow> (Ok (Inr None), d)
     | Inr ControlResultKind.Nothing \<Rightarrow> (Ok (Inr None), d))"

section \<open>The dispatcher with its futures as a state machine\<close>

definition opt_id :: "u16 option \<Rightarrow> u16 list" where
  "opt_id pid = (case pid of Some i \<Rightarrow> [i] | None \<Rightarrow> [])"

fun live_id :: "'e Future \<Rightarrow> u16 list" where
  "live_id (PublishFuture pid _ _) = opt_id pid"
| "live_id (ReadyResult _) = []"
| "live_id (ControlFuture _) = []"

abbreviation live_ids :: "'e Future list \<Rightarrow> u16 list" where
  "live_ids fs \<equiv> concat (map live_id fs)"

text \<open>The results that a handler can make of a message.\<close>

fun answer_to :: "ControlMessage \<Rightarrow> ControlResultKind \<Rightarrow> bool" where
  "answer_to (Publish pkt) r = (r = ControlMessage_disconnect \<or> r = Publish_ack pkt)"
| "answer_to Disconnect r = (r = ControlMessage_disconnect \<or> r = Disconnect_ack)"
| "answer_to (Closed _) r = (r = ControlMessage_disconnect \<or> r = Closed_ack)"

text \<open>The steps: a publish that the publish service gives back, or that the control service acknowledges,
  keeps its identifier.\<close>

inductive disp_step ::
  "('io, Packet) io_ops \<Rightarrow> ('tx, 'io) Dispatcher \<times> 'e Future list \<Rightarrow>
   ('tx, 'io) Dispatcher \<times> 'e Future list \<Rightarrow> bool" for ops where
  call: "call ops alive pkt d = (Ok f :: (unit, 'e Future) outcome, d') \<Longrightarrow> disp_step ops (d, fs) (d', fs @ [f])"
| published: "publish_poll res pid pub d = (Ok (Finished r) :: (unit, 'e polled) outcome, d') \<Longrightarrow>
    disp_step ops (d, xs @ PublishFuture pid pub None # ys) (d', xs @ ys)"
| unhandled: "\<lbrakk>publish_poll (Inr (Inr pkt)) pid pub d = (Ok (Goes_on f) :: (unit, 'e polled) outcome, d');
     packet_id pkt = pid\<rbrakk> \<Longrightarrow>
    disp_step ops (d, xs @ PublishFuture pid pub None # ys) (d', xs @ f # ys)"
| publish_controlled: "\<lbrakk>control_poll ops (Inr k) d = (Ok r :: (unit, 'e MqttError + Packet option) outcome, d');
     answer_to (Publish pkt) k; packet_id pkt = pid\<rbrakk> \<Longrightarrow>
    disp_step ops (d, xs @ PublishFuture pid pub (Some msg) # ys) (d', xs @ ys)"
| controlled: "\<lbrakk>control_poll ops (Inr k) d = (Ok r :: (unit, 'e MqttError + Packet option) outcome, d');
     answer_to msg k; \<forall>pkt. msg \<noteq> Publish pkt\<rbrakk> \<Longrightarrow>
    disp_step ops (d, xs @ ControlFuture msg # ys) (d', xs @ ys)"
| failed: "\<lbrakk>control_poll ops (Inl e) d = (Ok r :: (unit, 'e MqttError + Packet option) outcome, d');
     f \<in> {PublishFuture pid pub (Some msg), ControlFuture msg}\<rbrakk> \<Longrightarrow>
    disp_step ops (d, xs @ f # ys) (d', xs @ ys)"
| ready: "disp_step ops (d, xs @ ReadyResult r # ys) (d, xs @ ys)"
| sink: "disp_step ops (d, fs) (d\<lparr>d_sink := sink'\<rparr>, fs)"

inductive disp_reachable ::
  "('io, Packet) io_ops \<Rightarrow> ('tx, 'io) Dispatcher \<times> 'e Future list \<Rightarrow> bool" for ops where
  start: "disp_reachable ops (Dispatcher_new sink, [])"
| step: "\<lbrakk>disp_reachable ops s; disp_step ops s s'\<rbrakk> \<Longrightarrow> disp_reachable ops s'"

section \<open>Lemmas\<close>

lemma client_call_ack_inflight:
  "call_ack ops alive ack d = (Ok f, d') \<Longrightarrow> live_id f = [] \<and> d_inflight d' = d_inflight d"
  by (auto simp: call_ack_def split: prod.splits outcome.splits)

lemma client_call_live:
  assumes "call ops alive pkt d = (Ok f, d')"
  shows "live_id f = [] \<and> d_inflight d \<subseteq> d_inflight d' \<or>
    (\<exists>i. live_id f = [i] \<and> i \<notin> d_inflight d \<and> d_inflight d' = insert i (d_inflight d))"
  using assms
  by (cases pkt)
     (auto simp: call_publish_def unexpected_def opt_id_def
       dest!: client_call_ack_inflight split: option.splits if_splits)

lemma client_publish_poll_inflight:
  "publish_poll res pid pub d = (Ok (Finished r), d') \<Longrightarrow>
    d_inflight d' = d_inflight d - set (opt_id pid) \<or> d_inflight d' = d_inflight d"
  by (auto simp: publish_poll_def opt_id_def split: sum.splits option.splits)

lemma client_control_poll_inflight:
  assumes "control_poll ops (Inr k) d = (Ok r, d')" "answer_to msg k"
  shows "d_inflight d' = d_inflight d - set (case msg of Publish pkt \<Rightarrow> opt_id (packet_id pkt) | _ \<Rightarrow> []) \<or>
    d_inflight d' = d_inflight d"
  using assms
  by (cases msg)
     (auto simp: control_poll_def Publish_ack_def Disconnect_ack_def Closed_ack_def ControlMessage_disconnect_def
       opt_id_def dest!: close_then_inflight split: option.splits)

text \<open>The \<^verbatim>\<open>unreachable!()\<close> arms are not reached by the results of handlers.\<close>

lemma client_control_poll_no_panic:
  assumes "answer_to msg k" "\<not> borrowed (d_sink d)"
  shows "fst (control_poll ops (Inr k) d) \<noteq> Panic"
  using assms
  by (cases msg; cases "io_is_open ops (sh_state (d_sink d))")
     (auto simp: control_poll_def Publish_ack_def Disconnect_ack_def Closed_ack_def ControlMessage_disconnect_def
       act_then_def on_sink_def close_def clear_queues_def with_queues_def split: option.splits)

lemma client_disp_step_exclusive:
  assumes "disp_step ops s s'" "exclusive live_id (d_inflight (fst s)) (snd s)"
  shows "exclusive live_id (d_inflight (fst s')) (snd s')"
  using assms
proof (induction rule: disp_step.induct)
  case (call alive pkt d f d' fs)
  then show ?case by (simp add: exclusive_snoc client_call_live)
next
  case (published res pid pub d r d' xs ys)
  show ?case
    using exclusive_finish [of live_id "d_inflight d" xs "PublishFuture pid pub None" ys "d_inflight d'"]
      client_publish_poll_inflight [OF published(1)] published(2) by simp
next
  case (unhandled pkt pid pub d f d' xs ys)
  then show ?case by (auto simp: publish_poll_def elim!: exclusive_replace)
next
  case (publish_controlled k d r d' pkt pid xs pub msg ys)
  show ?case
    using exclusive_finish [of live_id "d_inflight d" xs "PublishFuture pid pub (Some msg)" ys "d_inflight d'"]
      client_control_poll_inflight [OF publish_controlled(1,2)] publish_controlled(3,4) by simp
next
  case (controlled k d r d' msg xs ys)
  show ?case
    using exclusive_finish [of live_id "d_inflight d" xs "ControlFuture msg" ys "d_inflight d'"]
      client_control_poll_inflight [OF controlled(1,2)] controlled(3,4)
    by (cases msg) simp_all
next
  case (failed e d r d' f pid pub msg xs ys)
  then show ?case by (auto simp: control_poll_def elim: exclusive_finish)
next
  case (ready d xs r ys)
  then show ?case by (auto elim: exclusive_finish)
next
  case (sink d fs sink')
  then show ?case by simp
qed

lemma client_disp_reachable_exclusive:
  "disp_reachable ops s \<Longrightarrow> exclusive live_id (d_inflight (fst s)) (snd s)"
  by (induction rule: disp_reachable.induct) (auto intro: client_disp_step_exclusive)

section \<open>Properties\<close>

text \<open>The answer is the PUBACK of an identifier, which is free again.\<close>

definition acked_once ::
  "u16 \<Rightarrow> (unit, 'e MqttError + Packet option) outcome \<times> ('tx, 'io) Dispatcher \<Rightarrow> bool" where
  "acked_once i r \<longleftrightarrow> fst r = Ok (Inr (Some (Packet.PublishAck i))) \<and> i \<notin> d_inflight (snd r)"

text \<open>C20: A QoS 1 publish that reaches the client is acknowledged once, whoever handles it: if the publish
  service takes it, the answer is its PUBACK; if the service gives it back and the control service
  acknowledges it, the answer is its PUBACK as well. Meanwhile no other handler has the identifier and a
  second publish with it is refused; afterwards the identifier is free.\<close>

theorem v3_client_publish_acked:
  assumes "disp_reachable ops (d, xs @ PublishFuture (Some i) pub None # ys :: 'e Future list)"
    and "packet_id pkt = Some i"
  shows "i \<notin> set (live_ids (xs @ ys)) \<and>
    fst (call ops alive (Packet.Publish pkt) d :: (unit, 'e Future) outcome \<times> _) =
      Ok (ReadyResult (Inl (ServerError ''Duplicated packet id for publish packet''))) \<and>
    (\<exists>d'. publish_poll (Inr (Inl ())) (Some i) pub d =
        (Ok (Finished (Inr (Some (Packet.PublishAck i)))) :: (unit, 'e polled) outcome, d') \<and> i \<notin> d_inflight d') \<and>
    (\<exists>f d'. publish_poll (Inr (Inr pkt)) (Some i) pub d = (Ok (Goes_on f) :: (unit, 'e polled) outcome, d') \<and>
        disp_reachable ops (d', xs @ f # ys) \<and> acked_once i (control_poll ops (Inr (Publish_ack pkt)) d'))"
proof (intro conjI)
  have excl: "exclusive live_id (d_inflight d) (xs @ PublishFuture (Some i) pub None # ys)"
    using client_disp_reachable_exclusive [OF assms(1)] by simp
  then show "i \<notin> set (live_ids (xs @ ys))"
    using exclusive_fresh [OF excl, of i] by (simp add: opt_id_def)
  have "i \<in> d_inflight d"
    using excl by (simp add: exclusive_def opt_id_def)
  then show "fst (call ops alive (Packet.Publish pkt) d :: (unit, 'e Future) outcome \<times> _) =
      Ok (ReadyResult (Inl (ServerError ''Duplicated packet id for publish packet'')))"
    using assms(2) by (simp add: call_publish_def)
  show "\<exists>d'. publish_poll (Inr (Inl ())) (Some i) pub d =
        (Ok (Finished (Inr (Some (Packet.PublishAck i)))) :: (unit, 'e polled) outcome, d') \<and> i \<notin> d_inflight d'"
    by (simp add: publish_poll_def)
  have "publish_poll (Inr (Inr pkt)) (Some i) pub d =
      (Ok (Goes_on (PublishFuture (Some i) pub (Some (Publish pkt)))) :: (unit, 'e polled) outcome, d)"
    by (simp add: publish_poll_def)
  from this disp_reachable.step [OF assms(1) disp_step.unhandled [OF this assms(2)]]
  show "\<exists>f d'. publish_poll (Inr (Inr pkt)) (Some i) pub d = (Ok (Goes_on f) :: (unit, 'e polled) outcome, d') \<and>
        disp_reachable ops (d', xs @ f # ys) \<and> acked_once i (control_poll ops (Inr (Publish_ack pkt)) d')"
    by (intro exI conjI) (assumption, assumption, simp add: acked_once_def control_poll_def Publish_ack_def assms(2))
qed

definition test_publish :: Publish where
  "test_publish = publish [0x61] [] \<lparr>packet_id := Some 7\<rparr>"

theorem v3_client_publish_acked_witness:
  "\<exists>f d'. publish_poll (Inr (Inr test_publish)) (Some 7) test_publish
      (insert_inflight 7 (Dispatcher_new (MqttShared_new True Codec_new 5 :: (nat, bool) shared))) =
        (Ok (Goes_on f) :: (unit, unit polled) outcome, d') \<and>
     acked_once 7 (control_poll flag_io (Inr (Publish_ack test_publish)) d' ::
       (unit, unit MqttError + Packet option) outcome \<times> (nat, bool) Dispatcher)"
proof -
  let ?d = "Dispatcher_new (MqttShared_new True Codec_new 5 :: (nat, bool) shared)"
  have "disp_step flag_io (?d, []) (insert_inflight 7 ?d, [] @ [PublishFuture (Some 7) test_publish None :: unit Future])"
    by (rule disp_step.call [of _ "\<lambda>_. True" "Packet.Publish test_publish"])
       (simp add: call_publish_def Dispatcher_new_def test_publish_def)
  then have "disp_reachable flag_io (insert_inflight 7 ?d, [] @ PublishFuture (Some 7) test_publish None # [] :: unit Future list)"
    using disp_reachable.step [OF disp_reachable.start] by fastforce
  from v3_client_publish_acked [OF this, of test_publish] show ?thesis
    by (auto simp: test_publish_def)
qed

end
