(* ===== verification/V3_Connection.thy ===== *)
theory V3_Connection
  imports Connection V3_Client_Dispatcher
begin

text \<open>
  A whole MQTT 3.1.1 connection: the sink and the dispatcher of a client (\<^verbatim>\<open>v3/sink.rs\<close>,
  \<^verbatim>\<open>v3/client/dispatcher.rs\<close>), and the dispatcher of a server (\<^verbatim>\<open>v3/dispatcher.rs\<close>) in the transport loop, as
  an instance of the contract of \<open>Connection\<close>.

  The connection is open and in use: the services answer without an error and do not ask for a disconnect, and
  a packet that cannot be encoded is not part of a run.
\<close>

section \<open>Packets\<close>

text \<open>The packets that a client's sink writes and those that answer them, with the identifier and the kind
  of the request.\<close>

fun is_request :: "Packet \<Rightarrow> bool" where
  "is_request (Packet.Publish _) = True"
| "is_request (Packet.Subscribe _ _) = True"
| "is_request (Packet.Unsubscribe _ _) = True"
| "is_request PingRequest = True"
| "is_request _ = False"

fun request_key :: "Packet \<Rightarrow> (u16 \<times> AckType) list" where
  "request_key (Packet.Publish pub) = (case packet_id pub of Some i \<Rightarrow> [(i, AckType.Publish)] | None \<Rightarrow> [])"
| "request_key (Packet.Subscribe i _) = [(i, AckType.Subscribe)]"
| "request_key (Packet.Unsubscribe i _) = [(i, AckType.Unsubscribe)]"
| "request_key _ = []"

fun is_reply :: "Packet \<Rightarrow> bool" where
  "is_reply (Packet.PublishAck _) = True"
| "is_reply (Packet.SubscribeAck _ _) = True"
| "is_reply (Packet.UnsubscribeAck _) = True"
| "is_reply PingResponse = True"
| "is_reply _ = False"

fun reply_key :: "Packet \<Rightarrow> (u16 \<times> AckType) list" where
  "reply_key (Packet.PublishAck i) = [(i, AckType.Publish)]"
| "reply_key (Packet.SubscribeAck i _) = [(i, AckType.Subscribe)]"
| "reply_key (Packet.UnsubscribeAck i) = [(i, AckType.Unsubscribe)]"
| "reply_key _ = []"

section \<open>The client\<close>

text \<open>What the application can do with the sink, with the requests that wait for an acknowledgement
  afterwards.  The codec refuses a publish with QoS 0 that has an identifier.\<close>

inductive client_step ::
  "('io, Packet) io_ops \<Rightarrow> ('tx, 'io) shared \<Rightarrow> ('tx \<times> AckType) list \<Rightarrow> ('tx, 'io) shared \<Rightarrow> bool" for ops where
  at_most_once: "\<lbrakk>send_at_most_once ops pkt sh = (Ok (), sh'); packet_id pkt = None\<rbrakk> \<Longrightarrow> client_step ops sh [] sh'"
| at_least_once: "send_at_least_once ops wtx tx pkt sh = (Ok r, sh') \<Longrightarrow>
    client_step ops sh (reqs_of AckType.Publish r) sh'"
| at_least_once_woken: "send_at_least_once_woken ops True tx pkt sh = (Ok r, sh') \<Longrightarrow>
    client_step ops sh (reqs_of AckType.Publish r) sh'"
| subscribe: "subscribe_send ops wtx tx b sh = (Ok r, sh') \<Longrightarrow>
    client_step ops sh (reqs_of AckType.Subscribe r) sh'"
| subscribe_woken: "subscribe_send_woken ops True tx b sh = (Ok r, sh') \<Longrightarrow>
    client_step ops sh (reqs_of AckType.Subscribe r) sh'"
| unsubscribe: "unsubscribe_send ops wtx tx u sh = (Ok r, sh') \<Longrightarrow>
    client_step ops sh (reqs_of AckType.Unsubscribe r) sh'"
| unsubscribe_woken: "unsubscribe_send_woken ops True tx u sh = (Ok r, sh') \<Longrightarrow>
    client_step ops sh (reqs_of AckType.Unsubscribe r) sh'"
| ready: "ready ops tx sh = (Ok r :: (unit, _) outcome, sh') \<Longrightarrow> client_step ops sh [] sh'"
| ping: "ping ops sh = (Ok True :: (unit, _) outcome, sh') \<Longrightarrow> client_step ops sh [] sh'"

section \<open>The server\<close>

text \<open>The services answer: the publish service takes the publish, and a handler of control messages answers
  without asking for a disconnect.\<close>

inductive completes ::
  "('sio, Packet) io_ops \<Rightarrow> 'e V3_Dispatcher.Future \<Rightarrow> ('stx, 'sio) V3_Dispatcher.Dispatcher \<Rightarrow>
   'e MqttError + Packet option \<Rightarrow> ('stx, 'sio) V3_Dispatcher.Dispatcher \<Rightarrow> bool" for sops where
  published: "V3_Dispatcher.publish_poll (Inr ()) pid d = (Ok r :: (unit, _) outcome, d') \<Longrightarrow>
    completes sops (V3_Dispatcher.PublishFuture pid pub) d r d'"
| controlled: "\<lbrakk>V3_Dispatcher.answer_to msg k; k \<noteq> ControlResultKind.Disconnect;
     V3_Dispatcher.control_poll sops (Inr k) d = (Ok r :: (unit, _) outcome, d')\<rbrakk> \<Longrightarrow>
    completes sops (V3_Dispatcher.ControlFuture msg) d r d'"
| immediate: "completes sops (V3_Dispatcher.ReadyResult r) d r d"

text \<open>A handler works on a packet.\<close>

fun serves :: "'e V3_Dispatcher.Future \<Rightarrow> Packet \<Rightarrow> bool" where
  "serves (V3_Dispatcher.PublishFuture pid pub) p = (p = Packet.Publish pub \<and> pid = packet_id pub)"
| "serves (V3_Dispatcher.ControlFuture V3_Control.ControlMessage.Ping) p = (p = PingRequest)"
| "serves (V3_Dispatcher.ControlFuture (V3_Control.ControlMessage.Subscribe s)) p =
    (p = Packet.Subscribe (s_packet_id s) (s_topics s))"
| "serves (V3_Dispatcher.ControlFuture (V3_Control.ControlMessage.Unsubscribe u)) p =
    (p = Packet.Unsubscribe (u_packet_id u) (u_topics u))"
| "serves _ p = False"

section \<open>Both sides\<close>

type_synonym ('tx, 'io, 'stx, 'sio, 'e) v3_sides =
  "(('tx, 'io) V3_Dispatcher.Dispatcher, ('stx, 'sio) V3_Dispatcher.Dispatcher, 'e V3_Dispatcher.Future, Packet,
    'tx \<times> AckType, 'e MqttError) peers"

type_synonym ('tx, 'io, 'stx, 'sio, 'e, 'w) v3_conn =
  "(('tx, 'io) V3_Dispatcher.Dispatcher, ('stx, 'sio) V3_Dispatcher.Dispatcher, 'e V3_Dispatcher.Future, Packet,
    'tx \<times> AckType, 'e MqttError, 'w) conn"

definition v3_peers ::
  "('io, Packet) io_ops \<Rightarrow> ('sio, Packet) io_ops \<Rightarrow> ('io \<Rightarrow> Packet list) \<Rightarrow> ('tx, 'io, 'stx, 'sio, 'e) v3_sides" where
  "v3_peers ops sops out =
    \<lparr>client_sends = (\<lambda>d reqs d'. \<exists>sink. client_step ops (d_sink d) reqs sink \<and> d' = d\<lparr>d_sink := sink\<rparr>),
     client_reads = (\<lambda>p d d'. \<exists>alive g. V3_Client_Dispatcher.call ops alive p d =
       (Ok g :: (unit, unit V3_Client_Dispatcher.Future) outcome, d')),
     client_out = (\<lambda>d. out (sh_state (d_sink d))),
     server_reads = (\<lambda>p s f s'. \<exists>alive. V3_Dispatcher.call sops alive p s = (Ok f :: (unit, _) outcome, s')),
     server_answers = completes sops\<rparr>"

lemma v3_peers_simps [simp]:
  "client_out (v3_peers ops sops out) d = out (sh_state (d_sink d))"
  "client_sends (v3_peers ops sops out) d reqs d' \<longleftrightarrow>
    (\<exists>sink. client_step ops (d_sink d) reqs sink \<and> d' = d\<lparr>d_sink := sink\<rparr>)"
  "client_reads (v3_peers ops sops out) p d d' \<longleftrightarrow> (\<exists>alive g. V3_Client_Dispatcher.call ops alive p d =
    (Ok g :: (unit, unit V3_Client_Dispatcher.Future) outcome, d'))"
  "server_reads (v3_peers ops sops out) p s f s' \<longleftrightarrow>
    (\<exists>alive. V3_Dispatcher.call sops alive p s = (Ok f :: (unit, _) outcome, s'))"
  "server_answers (v3_peers ops sops out) = completes sops"
  by (simp_all add: v3_peers_def)

section \<open>The client keeps its contract\<close>

abbreviation v3_grows ::
  "('io, Packet) io_ops \<Rightarrow> ('io \<Rightarrow> Packet list) \<Rightarrow> ('tx, 'io) shared \<Rightarrow> ('tx \<times> AckType) list \<Rightarrow> ('tx, 'io) shared \<Rightarrow> bool" where
  "v3_grows \<equiv> grows request_key is_request"

lemma v3_grows_inner:
  assumes "io_logs ops out" "sink_live sh" "io_is_open ops (sh_state sh)"
    and "send_at_least_once_inner ops tx pkt sh = (Ok r, sh')"
  shows "v3_grows ops out sh (reqs_of AckType.Publish r) sh'"
proof -
  have live: "\<not> borrowed sh" "inflight_idx sh \<noteq> - 1" "queue_ok sh"
    using assms(2) by (simp_all add: sink_live_def queue_ok_def)
  from inner_eq [OF live(1,2), of ops tx pkt] obtain idx j where idx: "idx \<noteq> 0" "j \<noteq> - 1"
      "send_at_least_once_inner ops tx pkt sh =
        act_then (allocate PacketIdInUse idx AckType.Publish tx)
          (\<lambda>_. send_and_wait ops Codec_encode SendPacketError.Encode (Packet.Publish (pkt\<lparr>packet_id := Some idx\<rparr>)) tx)
          (sh\<lparr>inflight_idx := j\<rparr>)"
    by metis
  show ?thesis
    by (rule grows_send [OF assms(1) live(3) assms(3) idx(2,1) assms(4) [unfolded idx(3)]]) simp_all
qed

lemma v3_grows_allocate:
  fixes r :: "('tx, 'req) pending"
  assumes "io_logs ops out" "sink_live sh" "io_is_open ops (sh_state sh)"
    and "allocate_and_send ops tx tp i pkt sh = (Ok r, sh')" "\<And>i. request_key (pkt i) = [(i, tp)] \<and> is_request (pkt i)"
  shows "v3_grows ops out sh (reqs_of tp r) sh'"
proof -
  have live: "\<not> borrowed sh" "inflight_idx sh \<noteq> - 1" "queue_ok sh"
    using assms(2) by (simp_all add: sink_live_def queue_ok_def)
  obtain idx j where idx: "idx \<noteq> 0" "j \<noteq> - 1"
      "(allocate_and_send ops tx tp i pkt sh :: (_, ('tx, 'req) pending) outcome \<times> _) =
        act_then (allocate PacketIdInUse idx tp tx)
          (\<lambda>_. send_and_wait ops Codec_encode SendPacketError.Encode (pkt idx) tx) (sh\<lparr>inflight_idx := j\<rparr>)"
    by (rule allocate_and_send_eq [OF live(1,2)])
  show ?thesis
    by (rule grows_send [OF assms(1) live(3) assms(3) idx(2,1) assms(4) [unfolded idx(3)]]) (simp_all add: assms(5))
qed

lemma client_step_grows:
  assumes "client_step ops sh reqs sh'" and logs: "io_logs ops out" and live: "sink_live sh" "io_is_open ops (sh_state sh)"
  shows "v3_grows ops out sh reqs sh'"
  using assms(1)
proof cases
  note ok = live(1) [unfolded sink_live_def, THEN conjunct1] live(1) [unfolded sink_live_def, THEN conjunct2]
  {
    case (at_most_once pkt)
    then obtain b where "write_packet ops Codec_encode (Packet.Publish pkt) sh = (Ok b, sh')"
      by (auto simp: send_at_most_once_def split: if_splits prod.splits outcome.splits)
    from grows_write [where key = request_key and Q = is_request, OF logs ok live(2) this] at_most_once show ?thesis
      by simp
  next
    case (at_least_once wtx tx pkt r)
    from grows_await_credit [OF ok live(2) at_least_once(2) [unfolded send_at_least_once_def Let_def]]
      v3_grows_inner [OF logs live] at_least_once(1) show ?thesis by blast
  next
    case (at_least_once_woken tx pkt r)
    then show ?thesis using v3_grows_inner [OF logs live] by (simp add: send_at_least_once_woken_def)
  next
    case (subscribe wtx tx b r)
    from grows_await_credit [OF ok live(2) subscribe(2) [unfolded subscribe_send_def subscribe_send_inner_def]]
      v3_grows_allocate [OF logs live] subscribe(1) show ?thesis by fastforce
  next
    case (subscribe_woken tx b r)
    from subscribe_woken(2) have "allocate_and_send ops tx AckType.Subscribe (sub_id b) (\<lambda>i. Packet.Subscribe i (sub_filters b)) sh = (Ok r, sh')"
      by (simp add: subscribe_send_woken_def subscribe_send_inner_def)
    from v3_grows_allocate [OF logs live this] subscribe_woken(1) show ?thesis by simp
  next
    case (unsubscribe wtx tx u r)
    from grows_await_credit [OF ok live(2) unsubscribe(2) [unfolded unsubscribe_send_def unsubscribe_send_inner_def]]
      v3_grows_allocate [OF logs live] unsubscribe(1) show ?thesis by fastforce
  next
    case (unsubscribe_woken tx u r)
    from unsubscribe_woken(2) have "allocate_and_send ops tx AckType.Unsubscribe (unsub_id u) (\<lambda>i. Packet.Unsubscribe i (unsub_filters u)) sh = (Ok r, sh')"
      by (simp add: unsubscribe_send_woken_def unsubscribe_send_inner_def)
    from v3_grows_allocate [OF logs live this] unsubscribe_woken(1) show ?thesis by simp
  next
    case (ready tx r)
    then show ?thesis using grows_ready [OF ok live(2)] by blast
  next
    case ping
    then obtain b where "write_packet ops Codec_encode PingRequest sh = (Ok b, sh')"
      by (auto simp: ping_def split: prod.splits outcome.splits)
    from grows_write [where key = request_key and Q = is_request, OF logs ok live(2) this] ping show ?thesis
      by simp
  }
qed

lemma v3_reply:
  fixes d :: "('tx, 'io) V3_Dispatcher.Dispatcher"
  assumes ok: "queue_ok (d_sink d)" and p: "is_reply p" "map key_of (flight (d_sink d)) = reply_key p @ rest"
  shows "\<exists>d'. V3_Client_Dispatcher.call ops alive p d =
      (Ok (V3_Client_Dispatcher.ReadyResult (Inr None)) :: (unit, unit V3_Client_Dispatcher.Future) outcome, d') \<and>
    (reply_key p = [] \<and> d' = d \<or>
     (\<exists>i tx tp q a. flight (d_sink d) = (i, tx, tp) # q \<and> reply_key p = [(i, tp)] \<and> answers a i tp \<and>
       d' = d\<lparr>d_sink := acked alive i tx a (d_sink d)\<rparr>))"
proof -
  have ack: "\<exists>d'. V3_Client_Dispatcher.call_ack ops alive a d =
      (Ok (V3_Client_Dispatcher.ReadyResult (Inr None)) :: (unit, unit V3_Client_Dispatcher.Future) outcome, d') \<and>
    (\<exists>tx q a. flight (d_sink d) = (i, tx, tp) # q \<and> answers a i tp \<and> d' = d\<lparr>d_sink := acked alive i tx a (d_sink d)\<rparr>)"
    if key: "reply_key p = [(i, tp)]" and a: "answers a i tp" for i tp a
  proof -
    obtain tx q where fl: "flight (d_sink d) = (i, tx, tp) # q"
      using p(2) key by (cases "flight (d_sink d)") (auto simp del: flight_Nil)
    then show ?thesis
      using a by (auto simp: V3_Client_Dispatcher.call_ack_def pkt_ack_head [OF ok fl a] acked_def)
  qed
  from p(1) show ?thesis
  proof (cases p)
    case (PublishAck i)
    with ack [of i AckType.Publish "Ack.Publish i"] show ?thesis by (simp add: answers_def)
  next
    case (SubscribeAck i codes)
    with ack [of i AckType.Subscribe "Ack.Subscribe i codes"] show ?thesis by (simp add: answers_def)
  next
    case (UnsubscribeAck i)
    with ack [of i AckType.Unsubscribe "Ack.Unsubscribe i"] show ?thesis by (simp add: answers_def)
  qed simp_all
qed

text \<open>A client whose connection is open and whose identifiers have not run out.\<close>

definition v3_good :: "('io, Packet) io_ops \<Rightarrow> ('io \<Rightarrow> Packet list) \<Rightarrow> nat \<Rightarrow> ('tx, 'io) V3_Dispatcher.Dispatcher \<Rightarrow> bool" where
  "v3_good ops out n d \<longleftrightarrow> io_logs ops out \<and> sink_live (d_sink d) \<and> io_is_open ops (sh_state (d_sink d)) \<and>
     list_all is_request (out (sh_state (d_sink d))) \<and> cap (d_sink d) = n"

text \<open>The client takes a packet without an answer and without an error.\<close>

definition v3_accepts :: "('io, Packet) io_ops \<Rightarrow> Packet \<Rightarrow> ('tx, 'io) V3_Dispatcher.Dispatcher \<Rightarrow> bool" where
  "v3_accepts ops p d \<longleftrightarrow> (\<forall>alive. \<exists>d'. V3_Client_Dispatcher.call ops alive p d =
     (Ok (V3_Client_Dispatcher.ReadyResult (Inr None)) :: (unit, unit V3_Client_Dispatcher.Future) outcome, d'))"

interpretation v3_client: client_side "v3_peers ops sops out" "v3_good ops out n" "\<lambda>d. flight (d_sink d)" "\<lambda>d. delivered (d_sink d)"
  "v3_accepts ops" "list_all is_request" request_key is_reply reply_key answers 65536
proof unfold_locales
  fix d
  assume "v3_good ops out n d"
  then show "list_all is_request (client_out (v3_peers ops sops out) d) \<and> distinct (map fst (flight (d_sink d))) \<and>
      length (flight (d_sink d)) \<le> 65536"
    by (simp add: v3_good_def sink_live_def flight_distinct flight_length)
next
  fix d d' and reqs
  assume "v3_good ops out n d" "client_sends (v3_peers ops sops out) d reqs d'"
  then have "v3_grows ops out (d_sink d) reqs (d_sink d')" "v3_good ops out n d"
    using client_step_grows by (auto simp: v3_good_def)
  then show "v3_good ops out n d' \<and> delivered (d_sink d') = delivered (d_sink d) \<and>
      (\<exists>new ps. flight (d_sink d') = flight (d_sink d) @ new \<and> map snd new = reqs \<and>
        client_out (v3_peers ops sops out) d' = client_out (v3_peers ops sops out) d @ ps \<and>
        map key_of new = keys request_key ps)"
    by (auto simp: grows_def v3_good_def sink_live_def)
next
  fix d and p rest
  assume "v3_good ops out n d" and p: "is_reply p" "map key_of (flight (d_sink d)) = reply_key p @ rest"
  then have "queue_ok (d_sink d)" by (simp add: v3_good_def sink_live_def)
  from v3_reply [OF this p] show "v3_accepts ops p d \<and> (\<exists>d'. client_reads (v3_peers ops sops out) p d d')"
    unfolding v3_accepts_def v3_peers_simps by metis
next
  fix d d' and p rest
  assume good: "v3_good ops out n d" and p: "is_reply p" "map key_of (flight (d_sink d)) = reply_key p @ rest"
    and "client_reads (v3_peers ops sops out) p d d'"
  then obtain alive g where
    call: "V3_Client_Dispatcher.call ops alive p d = (Ok g :: (unit, unit V3_Client_Dispatcher.Future) outcome, d')"
    by auto
  have ok: "queue_ok (d_sink d)" using good by (simp add: v3_good_def sink_live_def)
  from v3_reply [OF ok p, of ops alive] call consider "reply_key p = []" "d' = d"
    | i tx tp q a where "flight (d_sink d) = (i, tx, tp) # q" "reply_key p = [(i, tp)]" "answers a i tp"
        "d' = d\<lparr>d_sink := acked alive i tx a (d_sink d)\<rparr>"
    by auto
  then show "v3_good ops out n d' \<and> client_out (v3_peers ops sops out) d' = client_out (v3_peers ops sops out) d \<and>
      (\<exists>new. flight (d_sink d) = take (length (reply_key p)) (flight (d_sink d)) @ flight (d_sink d') \<and>
        delivered (d_sink d') = delivered (d_sink d) @ new \<and>
        answered_with answers (map snd (take (length (reply_key p)) (flight (d_sink d)))) new)"
  proof cases
    case 2
    note sh' = acked_head [OF ok 2(1), of alive a]
    have "answered_with answers (map snd (take (length (reply_key p)) (flight (d_sink d)))) [(tx, a)]"
      using 2 by auto
    with 2 sh' good show ?thesis by (auto simp: v3_good_def sink_live_def)
  qed (use good in simp)
qed

section \<open>The server keeps its contract\<close>

lemma v3_server_call:
  assumes "is_request p" "fst ` set (request_key p) \<inter> d_inflight s = {}"
  shows "\<exists>f s'. V3_Dispatcher.call sops alive p s = (Ok f :: (unit, 'e V3_Dispatcher.Future) outcome, s') \<and> serves f p \<and>
    d_inflight s' = d_inflight s \<union> fst ` set (request_key p)"
  using assms
  by (cases p)
     (auto simp: V3_Dispatcher.call_publish_def call_control_def Subscribe_new_def Unsubscribe_new_def
       split: option.splits)

lemma v3_completes_reply:
  assumes "completes sops f s r s'" "serves f p"
  shows "(\<exists>x. r = Inr x) \<and> keys reply_key (replies_of r) = request_key p \<and> list_all is_reply (replies_of r) \<and>
    d_inflight s' = d_inflight s - fst ` set (request_key p)"
  using assms
proof cases
  case (published pid pub)
  with assms(2) show ?thesis
    by (auto simp: V3_Dispatcher.publish_poll_def replies_of_def split: option.splits)
next
  case (controlled msg k)
  with assms(2) show ?thesis
    by (cases "(msg, k)" rule: V3_Dispatcher.answer_to.cases)
       (auto simp: V3_Dispatcher.control_poll_def replies_of_def Subscribe_ack_def Unsubscribe_ack_def Ping_ack_def)
qed auto

lemma v3_answerable:
  fixes f :: "'e V3_Dispatcher.Future"
  assumes "serves f p"
  shows "\<exists>r s'. completes sops f s r s'"
proof (cases f)
  case (PublishFuture pid pub)
  obtain r s' where "V3_Dispatcher.publish_poll (Inr ()) pid s = (Ok r :: (unit, 'e MqttError + Packet option) outcome, s')"
    by (cases pid) (auto simp: V3_Dispatcher.publish_poll_def)
  with PublishFuture completes.published show ?thesis by blast
next
  case (ControlFuture msg)
  define k where "k = (case msg of V3_Control.ControlMessage.Subscribe b \<Rightarrow> Subscribe_ack b
    | V3_Control.ControlMessage.Unsubscribe u \<Rightarrow> Unsubscribe_ack u | _ \<Rightarrow> Ping_ack)"
  have "V3_Dispatcher.answer_to msg k" "k \<noteq> ControlResultKind.Disconnect"
    using assms ControlFuture by (cases msg; auto simp: k_def Subscribe_ack_def Unsubscribe_ack_def Ping_ack_def
        intro: exI [of _ "s_codes _"])+
  moreover have "\<exists>r s'. V3_Dispatcher.control_poll sops (Inr k) s = (Ok r :: (unit, 'e MqttError + Packet option) outcome, s')"
    using assms ControlFuture by (cases msg) (auto simp: k_def V3_Dispatcher.control_poll_def Subscribe_ack_def Unsubscribe_ack_def Ping_ack_def)
  ultimately show ?thesis
    using ControlFuture completes.controlled by metis
qed (use assms in simp)

interpretation v3_server: server_side
  "v3_peers ops sops out :: ('tx, 'io, 'stx, 'sio, 'e) v3_sides" "\<lambda>_ _. True" d_inflight serves "list_all is_request"
  request_key is_reply reply_key 65536
proof unfold_locales
  let ?P = "v3_peers ops sops out :: ('tx, 'io, 'stx, 'sio, 'e) v3_sides"
  fix ps p and s :: "('stx, 'sio) V3_Dispatcher.Dispatcher"
  assume "list_all is_request (ps @ [p])" and fresh: "fst ` set (request_key p) \<inter> d_inflight s = {}"
  then have "is_request p" by simp
  from v3_server_call [where 'e = 'e, OF this fresh, of sops "\<lambda>_. True"] show "\<exists>f s'. server_reads ?P p s f s'"
    by auto
next
  let ?P = "v3_peers ops sops out :: ('tx, 'io, 'stx, 'sio, 'e) v3_sides"
  fix ps p and f :: "'e V3_Dispatcher.Future" and s s' :: "('stx, 'sio) V3_Dispatcher.Dispatcher"
  assume "list_all is_request (ps @ [p])" and fresh: "fst ` set (request_key p) \<inter> d_inflight s = {}"
    and "server_reads ?P p s f s'"
  then obtain alive where "is_request p" "V3_Dispatcher.call sops alive p s = (Ok f :: (unit, _) outcome, s')" by auto
  with v3_server_call [where 'e = 'e, OF this(1) fresh, of sops alive]
  show "serves f p \<and> True \<and> d_inflight s' = d_inflight s \<union> fst ` set (request_key p)" by auto
next
  let ?P = "v3_peers ops sops out :: ('tx, 'io, 'stx, 'sio, 'e) v3_sides"
  fix s p r s' and f :: "'e V3_Dispatcher.Future"
  assume f: "serves f p" and "server_answers ?P f s r s'"
  then have "completes sops f s r s'" by simp
  from v3_completes_reply [OF this f] show "True \<and> d_inflight s' = d_inflight s - fst ` set (request_key p) \<and> (\<exists>x. r = Inr x) \<and>
      keys reply_key (replies_of r) = request_key p \<and> list_all is_reply (replies_of r)"
    by simp
next
  let ?P = "v3_peers ops sops out :: ('tx, 'io, 'stx, 'sio, 'e) v3_sides"
  fix s p and f :: "'e V3_Dispatcher.Future"
  assume "serves f p"
  then show "\<exists>r s'. server_answers ?P f s r s'"
    using v3_answerable by simp
qed simp

interpretation v3_conn: connection "v3_peers ops sops out" "v3_good ops out n" "\<lambda>d. flight (d_sink d)" "\<lambda>d. delivered (d_sink d)"
  "v3_accepts ops" "list_all is_request" request_key is_reply reply_key answers 65536 "\<lambda>_ _. True" d_inflight serves
  by unfold_locales

lemma v3_fresh:
  assumes "io_logs ops out" "io_is_open ops st" "out st = []"
  shows "v3_conn.fresh TYPE('e) ops sops out n (V3_Client_Dispatcher.Dispatcher_new (MqttShared_new st Codec_new n))
    (V3_Dispatcher.Dispatcher_new sink)"
proof -
  have "sink_live (MqttShared_new st Codec_new n)" by (simp add: sink_live_def)
  with assms show ?thesis
    unfolding v3_conn.fresh_def
    by (simp add: v3_good_def V3_Dispatcher.Dispatcher_new_def V3_Client_Dispatcher.Dispatcher_new_def
        MqttShared_new_def flight_def delivered_def)
qed

section \<open>Properties\<close>

text \<open>C3: A whole MQTT 3.1.1 connection works.  The client's application publishes, subscribes, unsubscribes and
  pings, the server reads and its handlers answer in any order, and the client reads the replies, in any
  interleaving: the client accepts every packet that the server writes, the server accepts every packet that the
  client writes and gives it to the handler for it, the senders are answered in the order in which they sent,
  each with an acknowledgement of its kind, and the others wait; once everything is read and no handler is at
  work, every sender has been answered.\<close>

theorem v3_connection_acknowledged:
  fixes c :: "('tx, 'io, 'stx, 'sio, 'e, 'w) v3_conn"
  assumes "conn_reaches (v3_peers ops sops out) env wr
      (conn_start (V3_Client_Dispatcher.Dispatcher_new (MqttShared_new st Codec_new n)) (V3_Dispatcher.Dispatcher_new sink) w) c"
    and "io_is_open ops st" "out st = []" "wr w = []" "io_logs ops out" "loop_logs env wr"
  defines "sh \<equiv> d_sink (cl c)" and "ups \<equiv> out (sh_state (d_sink (cl c)))" and "downs \<equiv> wr (snd (sv_loop c))"
  shows "(down_read c < length downs \<longrightarrow> (\<forall>alive. \<exists>d. V3_Client_Dispatcher.call ops alive (downs ! down_read c) (cl c) =
        (Ok (V3_Client_Dispatcher.ReadyResult (Inr None)) :: (unit, unit V3_Client_Dispatcher.Future) outcome, d))) \<and>
    (up_read c < length ups \<longrightarrow> (\<exists>alive f s. V3_Dispatcher.call sops alive (ups ! up_read c) (sv c) =
        (Ok f :: (unit, 'e V3_Dispatcher.Future) outcome, s) \<and> serves f (ups ! up_read c))) \<and>
    (\<exists>old. sent_reqs c = old @ map snd (flight sh) \<and> answered_with answers old (delivered sh)) \<and>
    (sv_tasks c = [] \<and> up_read c = length ups \<and> down_read c = length downs \<longrightarrow>
      answered_with answers (sent_reqs c) (delivered sh))"
  using v3_conn.acknowledged [OF assms(1) v3_fresh [OF assms(5,2,3)] assms(6,4)]
  unfolding sh_def ups_def downs_def v3_accepts_def v3_peers_simps by blast

text \<open>A publish and a subscribe, whose handler answers before the one of the publish.\<close>

definition first_sent :: "(nat, Packet list) shared" where
  "first_sent = snd (send_at_least_once packets_io 10 11 (publish [0x61] []) (MqttShared_new [] Codec_new 5))"

definition second_sent :: "(nat, Packet list) shared" where
  "second_sent = snd (subscribe_send packets_io 20 21 subscribe first_sent)"

definition first_packet :: Publish where
  "first_packet = \<lparr>dup = False, retain = False, qos = AtLeastOnce, topic = [0x61], packet_id = Some 1, payload = []\<rparr>"

lemma run_sends:
  "send_at_least_once packets_io 10 11 (publish [0x61] []) (MqttShared_new [] Codec_new 5) = (Ok (AwaitAck 11), first_sent)"
  "subscribe_send packets_io 20 21 subscribe first_sent = (Ok (AwaitAck 21), second_sent)"
  "sh_state second_sent = [Packet.Publish first_packet, Packet.Subscribe 2 []]"
  by (simp_all add: first_sent_def second_sent_def first_packet_def sink_eval packets_io_def lookup_update')

text \<open>The connection while the server works on both requests, in the loop state \<open>l\<close>.\<close>

definition first_handler :: "unit V3_Dispatcher.Future" where
  "first_handler = V3_Dispatcher.PublishFuture (Some 1) first_packet"

definition second_handler :: "unit V3_Dispatcher.Future" where
  "second_handler = V3_Dispatcher.ControlFuture (V3_Control.ControlMessage.Subscribe (Subscribe_new 2 []))"

type_synonym run = "(nat, Packet list, nat, bool, unit, Packet list) v3_conn"

abbreviation run_conn ::
  "nat \<Rightarrow> (nat, bool) V3_Dispatcher.Dispatcher \<Rightarrow> usize \<Rightarrow> (unit MqttError, Packet) response ServiceResult list \<Rightarrow> Packet list \<Rightarrow>
   ((usize \<times> nat) \<times> unit V3_Dispatcher.Future) list \<Rightarrow> run" where
  "run_conn n d b q w ts \<equiv>
    \<lparr>cl = V3_Client_Dispatcher.Dispatcher_new second_sent, sent_reqs = [(11, AckType.Publish), (21, AckType.Subscribe)],
     up_read = n, sv = d, sv_loop = (\<lparr>ds_error = None, ds_base = b, ds_queue = q\<rparr>, w), sv_tasks = ts, down_read = 0\<rparr>"

abbreviation run_peers :: "(nat, Packet list, nat, bool, unit) v3_sides" where
  "run_peers \<equiv> v3_peers packets_io flag_io id"

abbreviation run_start :: run where
  "run_start \<equiv> conn_start (V3_Client_Dispatcher.Dispatcher_new (MqttShared_new [] Codec_new 5))
     (V3_Dispatcher.Dispatcher_new (MqttShared_new True Codec_new 5)) []"

abbreviation run_reaches :: "run \<Rightarrow> bool" where
  "run_reaches \<equiv> conn_reaches run_peers packets_env id run_start"

abbreviation run_server :: "u16 set \<Rightarrow> (nat, bool) V3_Dispatcher.Dispatcher" where
  "run_server ids \<equiv> \<lparr>d_sink = MqttShared_new True Codec_new 5, d_shutdown = False, d_inflight = ids\<rparr>"

lemma run_step: "\<lbrakk>run_reaches c; conn_step run_peers packets_env id c c'\<rbrakk> \<Longrightarrow> run_reaches c'"
  by (rule rtranclp.rtrancl_into_rtrancl)

lemma run_sent: "run_reaches (run_conn 0 (run_server {}) 0 [] [] [])"
proof -
  have "client_sends run_peers (cl run_start) [(11, AckType.Publish)] ((cl run_start)\<lparr>d_sink := first_sent\<rparr>)"
    using client_step.at_least_once [OF run_sends(1)]
    by (auto simp: conn_start_def V3_Client_Dispatcher.Dispatcher_new_def)
  then have first: "run_reaches (run_start\<lparr>cl := (cl run_start)\<lparr>d_sink := first_sent\<rparr>, sent_reqs := sent_reqs run_start @ [(11, AckType.Publish)]\<rparr>)"
    by (rule run_step [OF rtranclp.rtrancl_refl conn_step.client])
  from run_step [OF first conn_step.client, of "[(21, AckType.Subscribe)]" "(cl run_start)\<lparr>d_sink := second_sent\<rparr>"]
    client_step.subscribe [OF run_sends(2)]
  show ?thesis
    by (auto simp: conn_start_def V3_Client_Dispatcher.Dispatcher_new_def V3_Dispatcher.Dispatcher_new_def)
qed

lemma run_up: "up run_peers (run_conn n d b q w ts) = [Packet.Publish first_packet, Packet.Subscribe 2 []]"
  by (simp add: V3_Client_Dispatcher.Dispatcher_new_def run_sends(3))

lemma run_called:
  "run_reaches (run_conn (Suc (Suc 0)) (run_server {1, 2}) 0 [Pending, Pending] [] [((0, 0), first_handler), ((1, 1), second_handler)])"
proof -
  have "server_reads run_peers (Packet.Publish first_packet) (run_server {}) first_handler (run_server {1})"
    by (simp add: V3_Dispatcher.call_publish_def first_packet_def first_handler_def insert_inflight_def)
  with run_step [OF run_sent conn_step.called [of _ _ first_handler "run_server {1}"]] run_up [of 0]
  have first: "run_reaches (run_conn 1 (run_server {1}) 0 [Pending] [] [((0, 0), first_handler)])"
    by (simp add: push_response_def next_response_idx_def del: v3_peers_simps)
  have "server_reads run_peers (Packet.Subscribe 2 []) (run_server {1}) second_handler (run_server {1, 2})"
    by (simp add: call_control_def second_handler_def insert_inflight_def insert_commute)
  with run_step [OF first conn_step.called [of _ _ second_handler "run_server {1, 2}"]] run_up [of 1]
  show ?thesis
    by (simp add: push_response_def next_response_idx_def del: v3_peers_simps)
qed

lemma run_answered:
  "run_reaches (run_conn (Suc (Suc 0)) (run_server {}) 2 [] [Packet.PublishAck 1, Packet.SubscribeAck 2 []] [])"
proof -
  let ?r1 = "Inr (Some (Packet.PublishAck 1)) :: (unit MqttError, Packet) response"
  let ?r2 = "Inr (Some (Packet.SubscribeAck 2 [])) :: (unit MqttError, Packet) response"
  have "completes flag_io second_handler (run_server {1, 2}) ?r2 (run_server {1})"
    unfolding second_handler_def
    by (rule completes.controlled [where k = "Subscribe_ack (Subscribe_new 2 [])"])
       (auto simp: Subscribe_ack_def Subscribe_new_def V3_Dispatcher.control_poll_def remove_inflight_def
         intro: exI [of _ "[]"])
  with run_step [OF run_called conn_step.finished [OF _ _, of _ "[((0, 0), first_handler)]" 1 1 second_handler "[]"
        run_peers ?r2 "run_server {1}" packets_env True False]]
  have mid: "run_reaches (run_conn (Suc (Suc 0)) (run_server {1}) 0 [Pending, ServiceResult.Ready ?r2] [] [((0, 0), first_handler)])"
    by (simp add: handle_result_def)
  have "completes flag_io first_handler (run_server {1}) ?r1 (run_server {})"
    unfolding first_handler_def
    by (rule completes.published) (simp add: V3_Dispatcher.publish_poll_def remove_inflight_def)
  with run_step [OF mid conn_step.finished [OF _ _, of _ "[]" 0 0 first_handler "[]"
        run_peers ?r1 "run_server {}" packets_env True True]]
  show ?thesis
    by (simp add: handle_result_def write_response_def packets_env_encode replies_of_def)
qed

lemma run_read:
  "\<exists>c. run_reaches c \<and> sv_tasks c = [] \<and> up_read c = length (up run_peers c) \<and> down_read c = length (down id c) \<and>
    sent_reqs c = [(11, AckType.Publish), (21, AckType.Subscribe)]"
proof -
  note fresh = v3_fresh [where 'e = unit, OF packets_logs(1), of "[]" flag_io 5 "MqttShared_new True Codec_new 5"]
  from v3_conn.conn_inv_reaches [OF run_answered fresh packets_logs(2)] obtain res where
    "v3_conn.conn_inv packets_io flag_io id 5 packets_env id [] res (run_conn (Suc (Suc 0)) (run_server {}) 2 []
      [Packet.PublishAck 1, Packet.SubscribeAck 2 []] [])"
    by (auto simp: packets_io_def)
  from v3_conn.client_reads_all [OF this packets_logs(2)] run_up [of "Suc (Suc 0)"] obtain c where
    "conn_reaches run_peers packets_env id (run_conn (Suc (Suc 0)) (run_server {}) 2 []
      [Packet.PublishAck 1, Packet.SubscribeAck 2 []] []) c" "sv_tasks c = []" "up_read c = length (up run_peers c)"
    "down_read c = length (down id c)" "sent_reqs c = [(11, AckType.Publish), (21, AckType.Subscribe)]"
    by auto
  with rtranclp_trans [OF run_answered this(1)] show ?thesis by blast
qed

theorem v3_connection_acknowledged_witness:
  "\<exists>c. run_reaches c \<and> sent_reqs c = [(11, AckType.Publish), (21, AckType.Subscribe)] \<and>
    answered_with answers (sent_reqs c) (delivered (d_sink (cl c)))"
proof -
  from run_read obtain c where c: "run_reaches c" "sv_tasks c = []" "up_read c = length (up run_peers c)"
    "down_read c = length (down id c)" "sent_reqs c = [(11, AckType.Publish), (21, AckType.Subscribe)]" by blast
  from v3_connection_acknowledged [OF c(1) _ _ _ packets_logs] c show ?thesis
    by (auto simp: packets_io_def)
qed

text \<open>C6: A MQTT 3.1.1 connection can always catch up.  In every state that it can reach, whatever packets have been sent,
  read and answered so far, the handlers can answer, the server can read what is left and the client can read the
  replies, until every request that has been sent is answered, in the order of the requests, and nothing is in flight;
  the sink has credit again then, if it is configured to have any. Senders that wait for credit have not sent their request yet
  and are not counted; the packets of a run can be encoded, the transport stays open, and the services answer without an error
  and without asking for a disconnect.\<close>

theorem v3_connection_catches_up:
  fixes c :: "('tx, 'io, 'stx, 'sio, 'e, 'w) v3_conn"
  assumes "conn_reaches (v3_peers ops sops out) env wr
      (conn_start (V3_Client_Dispatcher.Dispatcher_new (MqttShared_new st Codec_new n)) (V3_Dispatcher.Dispatcher_new sink) w) c"
    and "io_is_open ops st" "out st = []" "wr w = []" "io_logs ops out" "loop_logs env wr"
  shows "\<exists>c'. conn_reaches (v3_peers ops sops out) env wr c c' \<and> sent_reqs c' = sent_reqs c \<and>
    answered_with answers (sent_reqs c) (delivered (d_sink (cl c'))) \<and> flight (d_sink (cl c')) = [] \<and>
    has_credit (d_sink (cl c')) = (Ok (n > 0) :: (unit, bool) outcome)"
  using v3_conn.catches_up [OF assms(1) v3_fresh [OF assms(5,2,3)] assms(6,4)]
  by (auto simp: v3_good_def sink_live_def idle_credit simp del: flight_Nil)

theorem v3_connection_catches_up_witness:
  "\<exists>c'. conn_reaches run_peers packets_env id (run_conn 0 (run_server {}) 0 [] [] []) c' \<and>
    answered_with answers [(11, AckType.Publish), (21, AckType.Subscribe)] (delivered (d_sink (cl c'))) \<and>
    has_credit (d_sink (cl c')) = (Ok True :: (unit, bool) outcome)"
  using v3_connection_catches_up [OF run_sent _ _ _ packets_logs] by (auto simp: packets_io_def)

end
