(* ===== verification/V5_Control.thy ===== *)
theory V5_Control
  imports Control Errors V5_Codec
begin

text \<open>
  The control messages of the MQTT 5 server and client (\<^verbatim>\<open>v5/control.rs\<close>), with the disconnect packet that
  answers each error, and the publish acknowledgement of \<^verbatim>\<open>v5/publish.rs\<close>. The router path of a publish
  message belongs to \<^verbatim>\<open>ntex::router\<close> and is left out.
\<close>

section \<open>Messages and results\<close>

record Subscribe =
  s_packet :: V5_Subscribe.Subscribe
  s_result :: SubscribeAck

record Unsubscribe =
  u_packet :: V5_Subscribe.Unsubscribe
  u_result :: UnsubscribeAck

record 'e Error =
  e_err :: 'e
  e_pkt :: Disconnect

record ProtocolError =
  p_err :: Errors.ProtocolError
  p_pkt :: Disconnect

datatype 'e ControlMessage =
    Auth Auth
  | Ping
  | Disconnect Disconnect
  | Subscribe Subscribe
  | Unsubscribe Unsubscribe
  | Closed bool
  | Error "'e Error"
  | ProtocolError ProtocolError

record ControlResult =
  r_packet :: "Packet option"
  r_disconnect :: bool

definition ControlMessage_disconnect_with :: "Disconnect \<Rightarrow> ControlResult" where
  "ControlMessage_disconnect_with pkt =
    \<lparr>r_packet = Some (Packet.Disconnect pkt), r_disconnect = True\<rparr>"

definition ControlMessage_disconnect :: ControlResult where
  "ControlMessage_disconnect =
    \<lparr>r_packet = Some (Packet.Disconnect
       \<lparr>disc_reason_code = DisconnectReasonCode.NormalDisconnection,
        disc_session_expiry_interval_secs = None, disc_server_reference = None,
        disc_reason_string = None, disc_user_properties = []\<rparr>),
     r_disconnect = True\<rparr>"

definition Auth_ack :: "Auth \<Rightarrow> ControlResult" where
  "Auth_ack response = \<lparr>r_packet = Some (Packet.Auth response), r_disconnect = False\<rparr>"

definition Ping_ack :: ControlResult where
  "Ping_ack = \<lparr>r_packet = Some PingResponse, r_disconnect = False\<rparr>"

definition Disconnect_ack :: ControlResult where
  "Disconnect_ack = \<lparr>r_packet = None, r_disconnect = True\<rparr>"

definition Closed_ack :: ControlResult where
  "Closed_ack = \<lparr>r_packet = None, r_disconnect = False\<rparr>"

section \<open>Subscribe and unsubscribe\<close>

definition Subscribe_create :: "V5_Subscribe.Subscribe \<Rightarrow> Subscribe" where
  "Subscribe_create packet =
    \<lparr>s_packet = packet,
     s_result =
       \<lparr>sa_packet_id = sub_packet_id packet, sa_properties = [], sa_reason_string = None,
        sa_status = replicate (length (sub_topic_filters packet)) SubscribeAckReason.UnspecifiedError\<rparr>\<rparr>"

text \<open>What a handler can do with one subscription.\<close>

definition Subscription_fail :: "SubscribeAckReason \<Rightarrow> SubscribeAckReason \<Rightarrow> SubscribeAckReason" where
  "Subscription_fail status _ = status"

definition Subscription_confirm :: "QoS \<Rightarrow> SubscribeAckReason \<Rightarrow> SubscribeAckReason" where
  "Subscription_confirm qos _ =
    (case qos of AtMostOnce \<Rightarrow> GrantedQos0 | AtLeastOnce \<Rightarrow> GrantedQos1 | ExactlyOnce \<Rightarrow> GrantedQos2)"

definition Subscribe_iter ::
  "(bytestring \<times> SubscriptionOptions \<Rightarrow> SubscribeAckReason \<Rightarrow> SubscribeAckReason) \<Rightarrow> Subscribe \<Rightarrow>
   ('e, Subscribe) outcome" where
  "Subscribe_iter handler s =
    and_then (visit_from 0 handler (sub_topic_filters (s_packet s)) (sa_status (s_result s))) (\<lambda>status.
      Ok (s\<lparr>s_result := (s_result s)\<lparr>sa_status := status\<rparr>\<rparr>))"

definition Subscribe_ack_reason :: "bytestring \<Rightarrow> Subscribe \<Rightarrow> Subscribe" where
  "Subscribe_ack_reason reason s = s\<lparr>s_result := (s_result s)\<lparr>sa_reason_string := Some reason\<rparr>\<rparr>"

definition Subscribe_ack_properties :: "(UserProperties \<Rightarrow> UserProperties) \<Rightarrow> Subscribe \<Rightarrow> Subscribe" where
  "Subscribe_ack_properties f s =
    s\<lparr>s_result := (s_result s)\<lparr>sa_properties := f (sa_properties (s_result s))\<rparr>\<rparr>"

definition Subscribe_ack :: "Subscribe \<Rightarrow> ControlResult" where
  "Subscribe_ack s = \<lparr>r_packet = Some (Packet.SubscribeAck (s_result s)), r_disconnect = False\<rparr>"

definition Unsubscribe_create :: "V5_Subscribe.Unsubscribe \<Rightarrow> Unsubscribe" where
  "Unsubscribe_create packet =
    \<lparr>u_packet = packet,
     u_result =
       \<lparr>ua_packet_id = un_packet_id packet, ua_properties = [], ua_reason_string = None,
        ua_status = replicate (length (un_topic_filters packet)) UnsubscribeAckReason.Success\<rparr>\<rparr>"

definition UnsubscribeItem_fail :: "UnsubscribeAckReason \<Rightarrow> UnsubscribeAckReason \<Rightarrow> UnsubscribeAckReason" where
  "UnsubscribeItem_fail status _ = status"

definition UnsubscribeItem_success :: "UnsubscribeAckReason \<Rightarrow> UnsubscribeAckReason" where
  "UnsubscribeItem_success _ = UnsubscribeAckReason.Success"

definition Unsubscribe_iter ::
  "(bytestring \<Rightarrow> UnsubscribeAckReason \<Rightarrow> UnsubscribeAckReason) \<Rightarrow> Unsubscribe \<Rightarrow> ('e, Unsubscribe) outcome" where
  "Unsubscribe_iter handler u =
    and_then (visit_from 0 handler (un_topic_filters (u_packet u)) (ua_status (u_result u))) (\<lambda>status.
      Ok (u\<lparr>u_result := (u_result u)\<lparr>ua_status := status\<rparr>\<rparr>))"

definition Unsubscribe_ack_reason :: "bytestring \<Rightarrow> Unsubscribe \<Rightarrow> Unsubscribe" where
  "Unsubscribe_ack_reason reason u = u\<lparr>u_result := (u_result u)\<lparr>ua_reason_string := Some reason\<rparr>\<rparr>"

definition Unsubscribe_ack_properties :: "(UserProperties \<Rightarrow> UserProperties) \<Rightarrow> Unsubscribe \<Rightarrow> Unsubscribe" where
  "Unsubscribe_ack_properties f u =
    u\<lparr>u_result := (u_result u)\<lparr>ua_properties := f (ua_properties (u_result u))\<rparr>\<rparr>"

definition Unsubscribe_ack :: "Unsubscribe \<Rightarrow> ControlResult" where
  "Unsubscribe_ack u = \<lparr>r_packet = Some (Packet.UnsubscribeAck (u_result u)), r_disconnect = False\<rparr>"

section \<open>Errors\<close>

definition Error_new :: "'e \<Rightarrow> 'e Error" where
  "Error_new err = \<lparr>e_err = err, e_pkt = Disconnect_new DisconnectReasonCode.ImplementationSpecificError\<rparr>"

definition Error_reason_string :: "bytestring \<Rightarrow> 'e Error \<Rightarrow> 'e Error" where
  "Error_reason_string reason e = e\<lparr>e_pkt := (e_pkt e)\<lparr>disc_reason_string := Some reason\<rparr>\<rparr>"

definition Error_server_reference :: "bytestring \<Rightarrow> 'e Error \<Rightarrow> 'e Error" where
  "Error_server_reference reference e = e\<lparr>e_pkt := (e_pkt e)\<lparr>disc_server_reference := Some reference\<rparr>\<rparr>"

definition Error_properties :: "(UserProperties \<Rightarrow> UserProperties) \<Rightarrow> 'e Error \<Rightarrow> 'e Error" where
  "Error_properties f e = e\<lparr>e_pkt := (e_pkt e)\<lparr>disc_user_properties := f (disc_user_properties (e_pkt e))\<rparr>\<rparr>"

definition Error_ack :: "DisconnectReasonCode \<Rightarrow> 'e Error \<Rightarrow> ControlResult" where
  "Error_ack reason e =
    \<lparr>r_packet = Some (Packet.Disconnect ((e_pkt e)\<lparr>disc_reason_code := reason\<rparr>)), r_disconnect = True\<rparr>"

definition Error_ack_with :: "('e \<Rightarrow> Disconnect \<Rightarrow> Disconnect) \<Rightarrow> 'e Error \<Rightarrow> ControlResult" where
  "Error_ack_with f e =
    \<lparr>r_packet = Some (Packet.Disconnect (f (e_err e) (e_pkt e))), r_disconnect = True\<rparr>"

text \<open>The reason code for a protocol error.\<close>

fun protocol_error_reason :: "Errors.ProtocolError \<Rightarrow> DisconnectReasonCode" where
  "protocol_error_reason (Decode DecodeError.InvalidLength) = DisconnectReasonCode.MalformedPacket"
| "protocol_error_reason (Decode MaxSizeExceeded) = DisconnectReasonCode.PacketTooLarge"
| "protocol_error_reason (Unexpected _ _) = DisconnectReasonCode.ProtocolError"
| "protocol_error_reason ProtocolError.ReceiveMaximumExceeded = DisconnectReasonCode.ReceiveMaximumExceeded"
| "protocol_error_reason ProtocolError.KeepAliveTimeout = DisconnectReasonCode.KeepAliveTimeout"
| "protocol_error_reason ProtocolError.UnknownTopicAlias = DisconnectReasonCode.TopicAliasInvalid"
| "protocol_error_reason (ProtocolError.Encode _) = DisconnectReasonCode.ImplementationSpecificError"
| "protocol_error_reason _ = DisconnectReasonCode.ImplementationSpecificError"

definition ProtocolError_new :: "Errors.ProtocolError \<Rightarrow> ProtocolError" where
  "ProtocolError_new err = \<lparr>p_err = err, p_pkt = Disconnect_new (protocol_error_reason err)\<rparr>"

definition ProtocolError_reason_code :: "DisconnectReasonCode \<Rightarrow> ProtocolError \<Rightarrow> ProtocolError" where
  "ProtocolError_reason_code reason p = p\<lparr>p_pkt := (p_pkt p)\<lparr>disc_reason_code := reason\<rparr>\<rparr>"

definition ProtocolError_reason_string :: "bytestring \<Rightarrow> ProtocolError \<Rightarrow> ProtocolError" where
  "ProtocolError_reason_string reason p = p\<lparr>p_pkt := (p_pkt p)\<lparr>disc_reason_string := Some reason\<rparr>\<rparr>"

definition ProtocolError_server_reference :: "bytestring \<Rightarrow> ProtocolError \<Rightarrow> ProtocolError" where
  "ProtocolError_server_reference reference p =
    p\<lparr>p_pkt := (p_pkt p)\<lparr>disc_server_reference := Some reference\<rparr>\<rparr>"

definition ProtocolError_properties :: "(UserProperties \<Rightarrow> UserProperties) \<Rightarrow> ProtocolError \<Rightarrow> ProtocolError" where
  "ProtocolError_properties f p =
    p\<lparr>p_pkt := (p_pkt p)\<lparr>disc_user_properties := f (disc_user_properties (p_pkt p))\<rparr>\<rparr>"

definition ProtocolError_ack :: "ProtocolError \<Rightarrow> ControlResult" where
  "ProtocolError_ack p = \<lparr>r_packet = Some (Packet.Disconnect (p_pkt p)), r_disconnect = True\<rparr>"

definition ControlMessage_error :: "'e \<Rightarrow> 'e ControlMessage" where
  "ControlMessage_error err = ControlMessage.Error (Error_new err)"

definition ControlMessage_proto_error :: "Errors.ProtocolError \<Rightarrow> 'e ControlMessage" where
  "ControlMessage_proto_error err = ControlMessage.ProtocolError (ProtocolError_new err)"

section \<open>Publish acknowledgements\<close>

record PublishAck =
  ack_reason_code :: PublishAckReason
  ack_properties :: UserProperties
  ack_reason_string :: "bytestring option"

definition PublishAck_new :: "PublishAckReason \<Rightarrow> PublishAck" where
  "PublishAck_new code = \<lparr>ack_reason_code = code, ack_properties = [], ack_reason_string = None\<rparr>"

definition Publish_ack :: PublishAck where
  "Publish_ack = \<lparr>ack_reason_code = PublishAckReason.Success, ack_properties = [], ack_reason_string = None\<rparr>"

definition PublishAck_reason_code :: "PublishAckReason \<Rightarrow> PublishAck \<Rightarrow> PublishAck" where
  "PublishAck_reason_code code ack = ack\<lparr>ack_reason_code := code\<rparr>"

definition PublishAck_properties :: "(UserProperties \<Rightarrow> UserProperties) \<Rightarrow> PublishAck \<Rightarrow> PublishAck" where
  "PublishAck_properties f ack = ack\<lparr>ack_properties := f (ack_properties ack)\<rparr>"

definition PublishAck_reason :: "bytestring \<Rightarrow> PublishAck \<Rightarrow> PublishAck" where
  "PublishAck_reason reason ack = ack\<lparr>ack_reason_string := Some reason\<rparr>"

definition take_payload :: "Publish \<Rightarrow> bytes \<times> Publish" where
  "take_payload publish = (pub_payload publish, publish\<lparr>pub_payload := []\<rparr>)"

text \<open>The services that stand in where the application gives none (\<^verbatim>\<open>v5/default.rs\<close>).\<close>

definition DefaultPublishService_call :: "Publish \<Rightarrow> 'e + PublishAck" where
  "DefaultPublishService_call req = Inr Publish_ack"

fun DefaultControlService_call :: "'e ControlMessage \<Rightarrow> 'e + ControlResult" where
  "DefaultControlService_call ControlMessage.Ping = Inr Ping_ack"
| "DefaultControlService_call (ControlMessage.Disconnect pkt) = Inr Disconnect_ack"
| "DefaultControlService_call _ =
    Inr (ControlMessage_disconnect_with (Disconnect_new DisconnectReasonCode.UnspecifiedError))"

section \<open>Lemmas\<close>

lemma v5_Subscribe_iter_create:
  "Subscribe_iter handler (Subscribe_create packet) =
    Ok ((Subscribe_create packet)\<lparr>s_result := (s_result (Subscribe_create packet))\<lparr>
      sa_status := map (\<lambda>f. handler f SubscribeAckReason.UnspecifiedError) (sub_topic_filters packet)\<rparr>\<rparr>)"
  by (simp add: Subscribe_iter_def Subscribe_create_def visit_all map2_replicate)

lemma Unsubscribe_iter_create:
  "Unsubscribe_iter handler (Unsubscribe_create packet) =
    Ok ((Unsubscribe_create packet)\<lparr>u_result := (u_result (Unsubscribe_create packet))\<lparr>
      ua_status := map (\<lambda>f. handler f UnsubscribeAckReason.Success) (un_topic_filters packet)\<rparr>\<rparr>)"
  by (simp add: Unsubscribe_iter_def Unsubscribe_create_def visit_all map2_replicate)

section \<open>Properties\<close>

text \<open>The status codes of a SUBACK stand in the order of the topic filters.  A handler that goes over
  the subscriptions of a SUBSCRIBE, in any way, never indexes out of range and produces a SUBACK for the
  same packet identifier with exactly one code per filter, the one the handler chose for that filter;
  the same holds of UNSUBSCRIBE and UNSUBACK.\<close>

theorem v5_suback_codes:
  "and_then (Subscribe_iter handler (Subscribe_create packet)) (\<lambda>s. Ok (Subscribe_ack s)) =
    Ok \<lparr>r_packet = Some (Packet.SubscribeAck
       \<lparr>sa_packet_id = sub_packet_id packet, sa_properties = [], sa_reason_string = None,
        sa_status = map (\<lambda>f. handler f SubscribeAckReason.UnspecifiedError) (sub_topic_filters packet)\<rparr>),
     r_disconnect = False\<rparr> \<and>
   and_then (Unsubscribe_iter uhandler (Unsubscribe_create upacket)) (\<lambda>u. Ok (Unsubscribe_ack u)) =
    Ok \<lparr>r_packet = Some (Packet.UnsubscribeAck
       \<lparr>ua_packet_id = un_packet_id upacket, ua_properties = [], ua_reason_string = None,
        ua_status = map (\<lambda>f. uhandler f UnsubscribeAckReason.Success) (un_topic_filters upacket)\<rparr>),
     r_disconnect = False\<rparr>"
  unfolding v5_Subscribe_iter_create Unsubscribe_iter_create and_then_simps
  by (simp add: Subscribe_ack_def Unsubscribe_ack_def Subscribe_create_def Unsubscribe_create_def)

end
