(* ===== verification/V5_Sink.thy ===== *)
theory V5_Sink
  imports Sink V5_Codec
begin

text \<open>
  The sink of an MQTT 5 connection: \<^verbatim>\<open>v5/shared.rs\<close> and \<^verbatim>\<open>v5/sink.rs\<close>. It differs from the 3.1.1 sink in
  the acknowledgements, which carry whole packets, in \<^verbatim>\<open>pkt_ack\<close>, which skips cleared identifiers and
  leaves closing to the dispatcher, and in closing, which sends a DISCONNECT first.
\<close>

section \<open>Acknowledgements\<close>

datatype Ack = Publish PublishAck | Subscribe SubscribeAck | Unsubscribe UnsubscribeAck

datatype AckType = Publish | Subscribe | Unsubscribe

fun Ack_packet_type :: "Ack \<Rightarrow> u8" where
  "Ack_packet_type (Ack.Publish _) = PUBACK"
| "Ack_packet_type (Ack.Subscribe _) = SUBACK"
| "Ack_packet_type (Ack.Unsubscribe _) = UNSUBACK"

fun Ack_packet_id :: "Ack \<Rightarrow> u16" where
  "Ack_packet_id (Ack.Publish pkt) = pa_packet_id pkt"
| "Ack_packet_id (Ack.Subscribe pkt) = sa_packet_id pkt"
| "Ack_packet_id (Ack.Unsubscribe pkt) = ua_packet_id pkt"

fun Ack_publish :: "Ack \<Rightarrow> ('e, PublishAck) outcome" where
  "Ack_publish (Ack.Publish pkt) = Ok pkt"
| "Ack_publish _ = Panic"

fun Ack_subscribe :: "Ack \<Rightarrow> ('e, SubscribeAck) outcome" where
  "Ack_subscribe (Ack.Subscribe pkt) = Ok pkt"
| "Ack_subscribe _ = Panic"

fun Ack_unsubscribe :: "Ack \<Rightarrow> ('e, UnsubscribeAck) outcome" where
  "Ack_unsubscribe (Ack.Unsubscribe pkt) = Ok pkt"
| "Ack_unsubscribe _ = Panic"

fun Ack_is_match :: "Ack \<Rightarrow> AckType \<Rightarrow> bool" where
  "Ack_is_match (Ack.Publish _) AckType.Publish = True"
| "Ack_is_match (Ack.Subscribe _) AckType.Subscribe = True"
| "Ack_is_match (Ack.Unsubscribe _) AckType.Unsubscribe = True"
| "Ack_is_match _ _ = False"

fun AckType_name :: "AckType \<Rightarrow> string" where
  "AckType_name AckType.Publish = ''PublishAck''"
| "AckType_name AckType.Subscribe = ''SubscribeAck''"
| "AckType_name AckType.Unsubscribe = ''UnsubscribeAck''"

datatype PublishQos1Error = Fail PublishAck | Encode EncodeError | PacketIdInUse u16 | Disconnected

type_synonym ('tx, 'io) shared = "('tx, AckType, 'io, Codec, Ack) MqttShared"

section \<open>Operations on the shared state\<close>

definition next_id :: "(('tx, 'io) shared, 'e, u16) action" where
  "next_id sh =
    (case checked_add (inflight_idx sh) 1 :: (unit, u16) outcome of
       Ok idx \<Rightarrow>
         (let sh = sh\<lparr>inflight_idx := idx\<rparr> in
          if idx = - 1 then (Ok (- 1), sh\<lparr>inflight_idx := 0\<rparr>)
          else (Ok idx, sh\<lparr>inflight_idx := idx\<rparr>))
     | _ \<Rightarrow> (Panic, sh))"

text \<open>\<^verbatim>\<open>let _ = state.write().encode(..)\<close>: an error is ignored, a panic is not.\<close>

definition send :: "('io, Packet) io_ops \<Rightarrow> Packet \<Rightarrow> (('tx, 'io) shared, 'e, unit) action" where
  "send ops pkt sh =
    (case write_packet ops Codec_encode pkt sh of
       (Ok _, sh') \<Rightarrow> (Ok (), sh') | (Err _, sh') \<Rightarrow> (Ok (), sh')
     | (Panic, sh') \<Rightarrow> (Panic, sh') | (Diverge, sh') \<Rightarrow> (Diverge, sh'))"

definition close_with_reason :: "('io, Packet) io_ops \<Rightarrow> Disconnect \<Rightarrow> (('tx, 'io) shared, 'e, unit) action" where
  "close_with_reason ops pkt =
    act_then
      (\<lambda>sh. if io_is_open ops (sh_state sh)
       then act_then (send ops (Packet.Disconnect pkt))
              (\<lambda>_ sh. (Ok (), sh\<lparr>sh_state := io_close ops (sh_state sh)\<rparr>)) sh
       else (Ok (), sh))
      (\<lambda>_. clear_queues)"

definition close :: "('io, Packet) io_ops \<Rightarrow> (('tx, 'io) shared, 'e, unit) action" where
  "close ops = close_with_reason ops Disconnect_default"

definition drop_sink :: "('io, Packet) io_ops \<Rightarrow> (('tx, 'io) shared, 'e, unit) action" where
  "drop_sink ops = act_then clear_queues (\<lambda>_ sh. (Ok (), sh\<lparr>sh_state := io_close ops (sh_state sh)\<rparr>))"

definition ping :: "('io, Packet) io_ops \<Rightarrow> (('tx, 'io) shared, 'e, bool) action" where
  "ping ops sh =
    (case write_packet ops Codec_encode PingRequest sh of
       (Ok _, sh') \<Rightarrow> (Ok True, sh') | (Err _, sh') \<Rightarrow> (Ok False, sh')
     | (Panic, sh') \<Rightarrow> (Panic, sh') | (Diverge, sh') \<Rightarrow> (Diverge, sh'))"

text \<open>An acknowledgement arrives: the loop takes identifiers from the front until one is not 0.\<close>

fun pkt_ack_loop :: "('tx \<Rightarrow> bool) \<Rightarrow> Ack \<Rightarrow> u16 list \<Rightarrow> (('tx, 'io) shared, ProtocolError, unit) action" where
  "pkt_ack_loop alive pkt [] sh =
    (Err PacketIdMismatch, sh\<lparr>queues := (queues sh)\<lparr>inflight_order := []\<rparr>\<rparr>)"
| "pkt_ack_loop alive pkt (idx # order) sh =
    (if idx = 0 then pkt_ack_loop alive pkt order sh
     else
       (let sh = sh\<lparr>queues := (queues sh)\<lparr>inflight_order := order\<rparr>\<rparr> in
        if idx \<noteq> Ack_packet_id pkt then (Err PacketIdMismatch, sh)
        else
          (let idx = Ack_packet_id pkt in
           case Mapping.lookup (inflight (queues sh)) idx of
             Some (tx, tp) \<Rightarrow>
               (let sh = sh\<lparr>queues := (queues sh)\<lparr>inflight := Mapping.delete idx (inflight (queues sh))\<rparr>\<rparr> in
                if \<not> Ack_is_match pkt tp
                then (Err (Unexpected (Ack_packet_type pkt) (AckType_name tp)),
                      sh\<lparr>events := events sh @ [Dropped {tx}]\<rparr>)
                else (Ok (), wake_waiter alive (sh\<lparr>events := events sh @ [Delivered tx pkt]\<rparr>)))
           | None \<Rightarrow> (Err PacketIdMismatch, sh))))"

definition pkt_ack :: "('tx \<Rightarrow> bool) \<Rightarrow> Ack \<Rightarrow> (('tx, 'io) shared, ProtocolError, unit) action" where
  "pkt_ack alive pkt = with_queues (\<lambda>sh. pkt_ack_loop alive pkt (inflight_order (queues sh)) sh)"

section \<open>Publishing\<close>

definition publish :: "bytestring \<Rightarrow> bytes \<Rightarrow> Publish" where
  "publish t p =
    \<lparr>pub_dup = False, pub_retain = False, pub_qos = AtMostOnce, pub_packet_id = None, pub_topic = t,
     pub_payload = p, pub_properties = PublishProperties_default\<rparr>"

text \<open>\<^verbatim>\<open>PublishBuilder::packet_id\<close> panics on 0.\<close>

definition publish_packet_id :: "u16 \<Rightarrow> Publish \<Rightarrow> ('e, Publish) outcome" where
  "publish_packet_id i pkt = (if i = 0 then Panic else Ok (pkt\<lparr>pub_packet_id := Some i\<rparr>))"

definition publish_dup :: "bool \<Rightarrow> Publish \<Rightarrow> Publish" where
  "publish_dup val pkt = pkt\<lparr>pub_dup := val\<rparr>"

definition publish_retain :: "Publish \<Rightarrow> Publish" where
  "publish_retain pkt = pkt\<lparr>pub_retain := True\<rparr>"

definition publish_properties :: "(PublishProperties \<Rightarrow> PublishProperties) \<Rightarrow> Publish \<Rightarrow> Publish" where
  "publish_properties f pkt = pkt\<lparr>pub_properties := f (pub_properties pkt)\<rparr>"

definition send_at_most_once ::
  "('io, Packet) io_ops \<Rightarrow> Publish \<Rightarrow> (('tx, 'io) shared, SendPacketError, unit) action" where
  "send_at_most_once ops pkt sh =
    (if io_is_open ops (sh_state sh)
     then case write_packet ops Codec_encode (Packet.Publish pkt) sh of
         (Ok _, sh') \<Rightarrow> (Ok (), sh') | (Err e, sh') \<Rightarrow> (Err (SendPacketError.Encode e), sh')
       | (Panic, sh') \<Rightarrow> (Panic, sh') | (Diverge, sh') \<Rightarrow> (Diverge, sh')
     else (Err SendPacketError.Disconnected, sh))"

text \<open>The identifier a publish gets, and the packet with it.\<close>

definition publish_number :: "Publish \<Rightarrow> (('tx, 'io) shared, 'e, u16 \<times> Publish) action" where
  "publish_number pkt =
    (let idx = (case pub_packet_id pkt of Some i \<Rightarrow> i | None \<Rightarrow> 0) in
     if idx = 0
     then act_then next_id (\<lambda>idx sh.
            (Ok (idx, pkt\<lparr>pub_packet_id := (if idx = 0 then None else Some idx)\<rparr>), sh))
     else (\<lambda>sh. (Ok (idx, pkt), sh)))"

definition send_at_least_once_inner ::
  "('io, Packet) io_ops \<Rightarrow> 'tx \<Rightarrow> Publish \<Rightarrow>
   (('tx, 'io) shared, PublishQos1Error, ('tx, Publish) pending) action" where
  "send_at_least_once_inner ops tx pkt =
    act_then (publish_number pkt) (\<lambda>(idx, pkt).
    act_then (with_queues (allocate PublishQos1Error.PacketIdInUse idx AckType.Publish tx)) (\<lambda>_.
    send_and_wait ops Codec_encode PublishQos1Error.Encode (Packet.Publish pkt) tx))"

definition send_at_least_once ::
  "('io, Packet) io_ops \<Rightarrow> 'tx \<Rightarrow> 'tx \<Rightarrow> Publish \<Rightarrow>
   (('tx, 'io) shared, PublishQos1Error, ('tx, Publish) pending) action" where
  "send_at_least_once ops wtx tx pkt =
    (let pkt = pkt\<lparr>pub_qos := AtLeastOnce\<rparr> in
     await_credit ops PublishQos1Error.Disconnected wtx pkt (send_at_least_once_inner ops tx pkt))"

text \<open>The sender that waited for credit is woken (\<open>True\<close>), or its channel was dropped.\<close>

definition send_at_least_once_woken ::
  "('io, Packet) io_ops \<Rightarrow> bool \<Rightarrow> 'tx \<Rightarrow> Publish \<Rightarrow>
   (('tx, 'io) shared, PublishQos1Error, ('tx, Publish) pending) action" where
  "send_at_least_once_woken ops woken tx pkt sh =
    (if \<not> woken then (Err PublishQos1Error.Disconnected, sh) else send_at_least_once_inner ops tx pkt sh)"

definition publish_acked :: "Ack option \<Rightarrow> (PublishQos1Error, PublishAck) outcome" where
  "publish_acked r =
    (case r of
       Some pkt \<Rightarrow>
         and_then (Ack_publish pkt) (\<lambda>pkt.
           case pa_reason_code pkt of PublishAckReason.Success \<Rightarrow> Ok pkt | _ \<Rightarrow> Err (Fail pkt))
     | None \<Rightarrow> Err PublishQos1Error.Disconnected)"

section \<open>Subscribing and unsubscribing\<close>

record SubscribeBuilder =
  sb_id :: u16
  sb_packet :: Subscribe

definition subscribe :: "u32 option \<Rightarrow> SubscribeBuilder" where
  "subscribe i = \<lparr>sb_id = 0, sb_packet =
     \<lparr>sub_packet_id = 1, sub_id = i, sub_user_properties = [], sub_topic_filters = []\<rparr>\<rparr>"

definition SubscribeBuilder_packet_id :: "u16 \<Rightarrow> SubscribeBuilder \<Rightarrow> ('e, SubscribeBuilder) outcome" where
  "SubscribeBuilder_packet_id i b = (if i = 0 then Panic else Ok (b\<lparr>sb_id := i\<rparr>))"

definition SubscribeBuilder_topic_filter ::
  "bytestring \<Rightarrow> SubscriptionOptions \<Rightarrow> SubscribeBuilder \<Rightarrow> SubscribeBuilder" where
  "SubscribeBuilder_topic_filter f opts b = b\<lparr>sb_packet := (sb_packet b)\<lparr>
     sub_topic_filters := sub_topic_filters (sb_packet b) @ [(f, opts)]\<rparr>\<rparr>"

definition SubscribeBuilder_property :: "bytestring \<Rightarrow> bytestring \<Rightarrow> SubscribeBuilder \<Rightarrow> SubscribeBuilder" where
  "SubscribeBuilder_property k v b = b\<lparr>sb_packet := (sb_packet b)\<lparr>
     sub_user_properties := sub_user_properties (sb_packet b) @ [(k, v)]\<rparr>\<rparr>"

text \<open>\<^verbatim>\<open>NonZeroU16::new(idx).unwrap()\<close> stands before the allocation here.\<close>

definition subscribe_send_inner ::
  "('io, Packet) io_ops \<Rightarrow> 'tx \<Rightarrow> SubscribeBuilder \<Rightarrow>
   (('tx, 'io) shared, SendPacketError, ('tx, SubscribeBuilder) pending) action" where
  "subscribe_send_inner ops tx b =
    act_then (if sb_id b = 0 then next_id else (\<lambda>sh. (Ok (sb_id b), sh))) (\<lambda>idx.
      if idx = 0 then (\<lambda>sh. (Panic, sh))
      else
        act_then (with_queues (allocate SendPacketError.PacketIdInUse idx AckType.Subscribe tx)) (\<lambda>_.
        send_and_wait ops Codec_encode SendPacketError.Encode
          (Packet.Subscribe ((sb_packet b)\<lparr>sub_packet_id := idx\<rparr>)) tx))"

definition subscribe_send ::
  "('io, Packet) io_ops \<Rightarrow> 'tx \<Rightarrow> 'tx \<Rightarrow> SubscribeBuilder \<Rightarrow>
   (('tx, 'io) shared, SendPacketError, ('tx, SubscribeBuilder) pending) action" where
  "subscribe_send ops wtx tx b =
    await_credit ops SendPacketError.Disconnected wtx b (subscribe_send_inner ops tx b)"

definition subscribe_send_woken ::
  "('io, Packet) io_ops \<Rightarrow> bool \<Rightarrow> 'tx \<Rightarrow> SubscribeBuilder \<Rightarrow>
   (('tx, 'io) shared, SendPacketError, ('tx, SubscribeBuilder) pending) action" where
  "subscribe_send_woken ops woken tx b sh =
    (if \<not> woken then (Err SendPacketError.Disconnected, sh) else subscribe_send_inner ops tx b sh)"

definition subscribe_acked :: "Ack option \<Rightarrow> (SendPacketError, SubscribeAck) outcome" where
  "subscribe_acked r =
    (case r of Some pkt \<Rightarrow> Ack_subscribe pkt | None \<Rightarrow> Err SendPacketError.Disconnected)"

record UnsubscribeBuilder =
  ub_id :: u16
  ub_packet :: Unsubscribe

definition unsubscribe :: UnsubscribeBuilder where
  "unsubscribe = \<lparr>ub_id = 0, ub_packet =
     \<lparr>un_packet_id = 1, un_user_properties = [], un_topic_filters = []\<rparr>\<rparr>"

definition UnsubscribeBuilder_packet_id :: "u16 \<Rightarrow> UnsubscribeBuilder \<Rightarrow> ('e, UnsubscribeBuilder) outcome" where
  "UnsubscribeBuilder_packet_id i b = (if i = 0 then Panic else Ok (b\<lparr>ub_id := i\<rparr>))"

definition UnsubscribeBuilder_topic_filter :: "bytestring \<Rightarrow> UnsubscribeBuilder \<Rightarrow> UnsubscribeBuilder" where
  "UnsubscribeBuilder_topic_filter f b = b\<lparr>ub_packet := (ub_packet b)\<lparr>
     un_topic_filters := un_topic_filters (ub_packet b) @ [f]\<rparr>\<rparr>"

definition UnsubscribeBuilder_property :: "bytestring \<Rightarrow> bytestring \<Rightarrow> UnsubscribeBuilder \<Rightarrow> UnsubscribeBuilder" where
  "UnsubscribeBuilder_property k v b = b\<lparr>ub_packet := (ub_packet b)\<lparr>
     un_user_properties := un_user_properties (ub_packet b) @ [(k, v)]\<rparr>\<rparr>"

definition unsubscribe_send_inner ::
  "('io, Packet) io_ops \<Rightarrow> 'tx \<Rightarrow> UnsubscribeBuilder \<Rightarrow>
   (('tx, 'io) shared, SendPacketError, ('tx, UnsubscribeBuilder) pending) action" where
  "unsubscribe_send_inner ops tx b =
    act_then (if ub_id b = 0 then next_id else (\<lambda>sh. (Ok (ub_id b), sh))) (\<lambda>idx.
    act_then (with_queues (allocate SendPacketError.PacketIdInUse idx AckType.Unsubscribe tx)) (\<lambda>_.
      if idx = 0 then (\<lambda>sh. (Panic, sh))
      else send_and_wait ops Codec_encode SendPacketError.Encode
        (Packet.Unsubscribe ((ub_packet b)\<lparr>un_packet_id := idx\<rparr>)) tx))"

definition unsubscribe_send ::
  "('io, Packet) io_ops \<Rightarrow> 'tx \<Rightarrow> 'tx \<Rightarrow> UnsubscribeBuilder \<Rightarrow>
   (('tx, 'io) shared, SendPacketError, ('tx, UnsubscribeBuilder) pending) action" where
  "unsubscribe_send ops wtx tx b =
    await_credit ops SendPacketError.Disconnected wtx b (unsubscribe_send_inner ops tx b)"

definition unsubscribe_send_woken ::
  "('io, Packet) io_ops \<Rightarrow> bool \<Rightarrow> 'tx \<Rightarrow> UnsubscribeBuilder \<Rightarrow>
   (('tx, 'io) shared, SendPacketError, ('tx, UnsubscribeBuilder) pending) action" where
  "unsubscribe_send_woken ops woken tx b sh =
    (if \<not> woken then (Err SendPacketError.Disconnected, sh) else unsubscribe_send_inner ops tx b sh)"

definition unsubscribe_acked :: "Ack option \<Rightarrow> (SendPacketError, UnsubscribeAck) outcome" where
  "unsubscribe_acked r =
    (case r of Some pkt \<Rightarrow> Ack_unsubscribe pkt | None \<Rightarrow> Err SendPacketError.Disconnected)"

section \<open>Steps of a sink\<close>

datatype 'tx sink_op =
    SendAtMostOnce Publish
  | SendAtLeastOnce 'tx 'tx Publish
  | SendAtLeastOnceWoken bool 'tx Publish
  | SubscribeSend 'tx 'tx SubscribeBuilder
  | SubscribeSendWoken bool 'tx SubscribeBuilder
  | UnsubscribeSend 'tx 'tx UnsubscribeBuilder
  | UnsubscribeSendWoken bool 'tx UnsubscribeBuilder
  | PktAck "'tx \<Rightarrow> bool" Ack
  | Ready 'tx
  | Send Packet
  | Ping
  | Close
  | CloseWithReason Disconnect
  | DropSink

fun sink_step :: "('io, Packet) io_ops \<Rightarrow> 'tx sink_op \<Rightarrow> ('tx, 'io) shared \<Rightarrow> ('tx, 'io) shared" where
  "sink_step ops (SendAtMostOnce pkt) sh = snd (send_at_most_once ops pkt sh)"
| "sink_step ops (SendAtLeastOnce wtx tx pkt) sh = snd (send_at_least_once ops wtx tx pkt sh)"
| "sink_step ops (SendAtLeastOnceWoken ok tx pkt) sh = snd (send_at_least_once_woken ops ok tx pkt sh)"
| "sink_step ops (SubscribeSend wtx tx b) sh = snd (subscribe_send ops wtx tx b sh)"
| "sink_step ops (SubscribeSendWoken ok tx b) sh = snd (subscribe_send_woken ops ok tx b sh)"
| "sink_step ops (UnsubscribeSend wtx tx b) sh = snd (unsubscribe_send ops wtx tx b sh)"
| "sink_step ops (UnsubscribeSendWoken ok tx b) sh = snd (unsubscribe_send_woken ops ok tx b sh)"
| "sink_step ops (PktAck alive pkt) sh = snd (pkt_ack alive pkt sh)"
| "sink_step ops (Ready tx) sh = snd (ready ops tx sh :: (unit, _) outcome \<times> _)"
| "sink_step ops (Send pkt) sh = snd (send ops pkt sh :: (unit, _) outcome \<times> _)"
| "sink_step ops Ping sh = snd (ping ops sh :: (unit, _) outcome \<times> _)"
| "sink_step ops Close sh = snd (close ops sh :: (unit, _) outcome \<times> _)"
| "sink_step ops (CloseWithReason pkt) sh = snd (close_with_reason ops pkt sh :: (unit, _) outcome \<times> _)"
| "sink_step ops DropSink sh = snd (drop_sink ops sh :: (unit, _) outcome \<times> _)"

fun request_of :: "'tx sink_op \<Rightarrow> ('tx \<times> AckType) option" where
  "request_of (SendAtLeastOnce _ tx _) = Some (tx, AckType.Publish)"
| "request_of (SendAtLeastOnceWoken _ tx _) = Some (tx, AckType.Publish)"
| "request_of (SubscribeSend _ tx _) = Some (tx, AckType.Subscribe)"
| "request_of (SubscribeSendWoken _ tx _) = Some (tx, AckType.Subscribe)"
| "request_of (UnsubscribeSend _ tx _) = Some (tx, AckType.Unsubscribe)"
| "request_of (UnsubscribeSendWoken _ tx _) = Some (tx, AckType.Unsubscribe)"
| "request_of _ = None"

fun ack_of :: "'tx sink_op \<Rightarrow> Ack option" where
  "ack_of (PktAck _ pkt) = Some pkt"
| "ack_of _ = None"

definition answers :: "Ack \<Rightarrow> u16 \<Rightarrow> AckType \<Rightarrow> bool" where
  "answers pkt i tp \<longleftrightarrow> Ack_packet_id pkt = i \<and> Ack_is_match pkt tp"

definition sink_live :: "('tx, 'io) shared \<Rightarrow> bool" where
  "sink_live sh \<longleftrightarrow> queue_ok sh \<and> inflight_idx sh \<noteq> - 1"

section \<open>Lemmas\<close>

lemma v5_next_id_eq:
  assumes "inflight_idx sh \<noteq> - 1"
  shows "next_id sh = (Ok (inflight_idx sh + 1),
    sh\<lparr>inflight_idx := (if inflight_idx sh + 1 = - 1 then 0 else inflight_idx sh + 1)\<rparr>)"
  using u16_succ_ok [OF assms] by (simp add: next_id_def checked_add_def)

interpretation v5_ids: id_source next_id
  by unfold_locales (rule v5_next_id_eq)

lemma send_same: "same_flight sh (snd (send ops pkt sh))"
  using write_packet_same [of sh ops Codec_encode pkt]
  by (auto simp: send_def split: prod.splits outcome.splits)

text \<open>Closing empties the queues, unless the DISCONNECT cannot even be encoded.\<close>

lemma v5_close_queues:
  assumes "\<not> borrowed sh" and "close_with_reason ops pkt sh = (r, sh')"
  shows "delivered sh' = delivered sh" "queue_ok sh' \<Longrightarrow> flight sh' = flight sh \<or> flight sh' = []"
proof -
  obtain r1 sh1 where w: "write_packet ops Codec_encode (Packet.Disconnect pkt) sh = (r1, sh1)"
    by fastforce
  have same: "same_flight sh sh1"
    using write_packet_same [of sh ops Codec_encode "Packet.Disconnect pkt"] w by simp
  have free: "\<not> borrowed (sh1\<lparr>sh_state := st\<rparr>)" for st
    using same assms(1) by (simp add: same_flight_def)
  have cleared: "delivered sh2 = delivered sh0 \<and> (queue_ok sh2 \<longrightarrow> flight sh2 = [])"
    if "clear_queues sh0 = (r, sh2)" "\<not> borrowed sh0" for sh0 sh2
    using that(1) by (auto simp: clear_queues_eq [OF that(2)] delivered_def queue_ok_def)
  consider (stay) "sh' = sh1" | (close) "clear_queues (sh1\<lparr>sh_state := io_close ops (sh_state sh1)\<rparr>) = (r, sh')"
    | (closed) "clear_queues sh = (r, sh')"
    using assms(2)
    by (auto simp: close_with_reason_def send_def act_then_def w split: outcome.splits if_splits)
  then have "delivered sh' = delivered sh \<and> (queue_ok sh' \<longrightarrow> flight sh' = flight sh \<or> flight sh' = [])"
  proof cases
    case stay
    then show ?thesis using same_flightD [OF same] by simp
  next
    case close
    show ?thesis using cleared [OF close free] same_flightD [OF same] by (simp del: flight_Nil)
  next
    case closed
    show ?thesis using cleared [OF closed assms(1)] by (simp del: flight_Nil)
  qed
  then show "delivered sh' = delivered sh" "queue_ok sh' \<Longrightarrow> flight sh' = flight sh \<or> flight sh' = []"
    by blast+
qed

lemma v5_drop_queues:
  assumes "\<not> borrowed sh" and "drop_sink ops sh = (r, sh')"
  shows "delivered sh' = delivered sh" "queue_ok sh' \<Longrightarrow> flight sh' = []"
  using assms(2)
  by (auto simp: drop_sink_def act_then_def clear_queues_eq [OF assms(1)] delivered_def queue_ok_def)

lemma v5_publish_number:
  assumes "inflight_idx sh \<noteq> - 1"
  obtains idx i' where "idx \<noteq> 0" "i' \<noteq> - 1"
    "publish_number pkt sh = (Ok (idx, pkt\<lparr>pub_packet_id := Some idx\<rparr>), sh\<lparr>inflight_idx := i'\<rparr>)"
proof (cases "pub_packet_id pkt = None \<or> pub_packet_id pkt = Some 0")
  case True
  then show ?thesis
    using u16_succ_ok(2) [OF assms] assms
    by (intro that [of "inflight_idx sh + 1" "if inflight_idx sh + 1 = - 1 then 0 else inflight_idx sh + 1"])
      (auto simp: publish_number_def Let_def act_then_def v5_next_id_eq)
next
  case False
  then obtain i where "pub_packet_id pkt = Some i" "i \<noteq> 0" by auto
  then show ?thesis
    using that [of i "inflight_idx sh"] assms by (simp add: publish_number_def)
qed

lemma v5_choose_id:
  fixes sh :: "('tx, 'io) shared"
  assumes "inflight_idx sh \<noteq> - 1"
  obtains idx i' where "idx \<noteq> 0" "i' \<noteq> - 1"
    "(if i = 0 then next_id else (\<lambda>sh. (Ok i, sh))) sh = (Ok idx, sh\<lparr>inflight_idx := i'\<rparr>)"
proof (cases "i = 0")
  case True
  then show ?thesis
    using v5_next_id_eq [OF assms] u16_succ_ok(2) [OF assms]
    by (intro that [of "inflight_idx sh + 1" "if inflight_idx sh + 1 = - 1 then 0 else inflight_idx sh + 1"]) auto
next
  case False
  then show ?thesis
    using assms by (intro that [of i "inflight_idx sh"]) simp_all
qed

text \<open>The three kinds of requests: each chooses an identifier, then allocates it and sends.\<close>

lemma v5_publish_inner_eq:
  assumes "\<not> borrowed sh" "inflight_idx sh \<noteq> - 1"
  obtains idx i' where "idx \<noteq> 0" "i' \<noteq> - 1"
    "send_at_least_once_inner ops tx pkt sh =
      act_then (allocate PublishQos1Error.PacketIdInUse idx AckType.Publish tx)
        (\<lambda>_. send_and_wait ops Codec_encode PublishQos1Error.Encode (Packet.Publish (pkt\<lparr>pub_packet_id := Some idx\<rparr>)) tx)
        (sh\<lparr>inflight_idx := i'\<rparr>)"
proof -
  obtain idx i' where p: "idx \<noteq> 0" "i' \<noteq> - 1"
    "publish_number pkt sh =
      (Ok (idx, pkt\<lparr>pub_packet_id := Some idx\<rparr>) :: (PublishQos1Error, _) outcome, sh\<lparr>inflight_idx := i'\<rparr>)"
    by (rule v5_publish_number [OF assms(2)])
  then show ?thesis
    using assms(1)
    by (intro that [OF p(1,2)])
      (simp add: send_at_least_once_inner_def act_then_Ok [where m = "publish_number pkt", OF p(3)] act_then_allocate)
qed

lemma v5_subscribe_inner_eq:
  assumes "\<not> borrowed sh" "inflight_idx sh \<noteq> - 1"
  obtains idx i' where "idx \<noteq> 0" "i' \<noteq> - 1"
    "subscribe_send_inner ops tx b sh =
      act_then (allocate SendPacketError.PacketIdInUse idx AckType.Subscribe tx)
        (\<lambda>_. send_and_wait ops Codec_encode SendPacketError.Encode (Packet.Subscribe ((sb_packet b)\<lparr>sub_packet_id := idx\<rparr>)) tx)
        (sh\<lparr>inflight_idx := i'\<rparr>)"
proof -
  obtain idx i' where n: "idx \<noteq> 0" "i' \<noteq> - 1"
    "(if sb_id b = 0 then next_id else (\<lambda>sh. (Ok (sb_id b), sh))) sh =
      (Ok idx :: (SendPacketError, _) outcome, sh\<lparr>inflight_idx := i'\<rparr>)"
    by (rule v5_choose_id [OF assms(2)])
  then show ?thesis
    using assms(1)
    by (intro that [OF n(1,2)])
      (simp add: subscribe_send_inner_def act_then_Ok [where m = "if sb_id b = 0 then next_id else Pair (Ok (sb_id b))", OF n(3)]
        act_then_allocate)
qed

lemma v5_unsubscribe_inner_eq:
  assumes "\<not> borrowed sh" "inflight_idx sh \<noteq> - 1"
  obtains idx i' where "idx \<noteq> 0" "i' \<noteq> - 1"
    "unsubscribe_send_inner ops tx b sh =
      act_then (allocate SendPacketError.PacketIdInUse idx AckType.Unsubscribe tx)
        (\<lambda>_. send_and_wait ops Codec_encode SendPacketError.Encode (Packet.Unsubscribe ((ub_packet b)\<lparr>un_packet_id := idx\<rparr>)) tx)
        (sh\<lparr>inflight_idx := i'\<rparr>)"
proof -
  obtain idx i' where n: "idx \<noteq> 0" "i' \<noteq> - 1"
    "(if ub_id b = 0 then next_id else (\<lambda>sh. (Ok (ub_id b), sh))) sh =
      (Ok idx :: (SendPacketError, _) outcome, sh\<lparr>inflight_idx := i'\<rparr>)"
    by (rule v5_choose_id [OF assms(2)])
  then show ?thesis
    using assms(1)
    by (intro that [OF n(1,2)])
      (simp add: unsubscribe_send_inner_def act_then_Ok [where m = "if ub_id b = 0 then next_id else Pair (Ok (ub_id b))", OF n(3)]
        act_then_allocate)
qed

lemma sends_renumbered:
  assumes "queue_ok sh" and "idx \<noteq> 0"
  shows "sends tx tp sh (snd (act_then (allocate e idx tp tx) (\<lambda>_. send_and_wait ops Codec_encode err pkt tx)
    (sh\<lparr>inflight_idx := i'\<rparr>)))"
proof -
  have same: "same_flight sh (sh\<lparr>inflight_idx := i'\<rparr>)" by simp
  show ?thesis
    using assms by (intro sends_same_left [OF same] sends_allocate_and_wait) (simp_all add: same_flightD(2) [OF same])
qed

lemma v5_sends_inner:
  assumes "sink_live sh"
  shows "sends tx AckType.Publish sh (snd (send_at_least_once_inner ops tx pkt sh))"
    "sends tx AckType.Subscribe sh (snd (subscribe_send_inner ops tx sb sh))"
    "sends tx AckType.Unsubscribe sh (snd (unsubscribe_send_inner ops tx ub sh))"
proof -
  have live: "\<not> borrowed sh" "inflight_idx sh \<noteq> - 1" "queue_ok sh"
    using assms by (auto simp: sink_live_def queue_ok_def)
  show "sends tx AckType.Publish sh (snd (send_at_least_once_inner ops tx pkt sh))"
    by (rule v5_publish_inner_eq [OF live(1,2), of ops tx pkt]) (simp add: sends_renumbered live(3))
  show "sends tx AckType.Subscribe sh (snd (subscribe_send_inner ops tx sb sh))"
    by (rule v5_subscribe_inner_eq [OF live(1,2), of ops tx sb]) (simp add: sends_renumbered live(3))
  show "sends tx AckType.Unsubscribe sh (snd (unsubscribe_send_inner ops tx ub sh))"
    by (rule v5_unsubscribe_inner_eq [OF live(1,2), of ops tx ub]) (simp add: sends_renumbered live(3))
qed

lemma v5_sends_request:
  assumes "sink_live sh" and "request_of c = Some (tx, tp)"
  shows "sends tx tp sh (sink_step ops c sh)"
proof -
  have ok: "queue_ok sh" using assms(1) by (simp add: sink_live_def)
  show ?thesis
    using assms ok
    by (cases c) (auto simp: send_at_least_once_def Let_def send_at_least_once_woken_def subscribe_send_def
        subscribe_send_woken_def unsubscribe_send_def unsubscribe_send_woken_def
        intro: sends_same sends_await_credit [OF ok] v5_sends_inner)
qed

lemma v5_same_flight_other:
  assumes "sink_live sh"
  shows "same_flight sh (sink_step ops (SendAtMostOnce pkt) sh)"
    "same_flight sh (sink_step ops (Ready tx) sh)" "same_flight sh (sink_step ops Ping sh)"
proof -
  have free: "\<not> borrowed sh" using assms by (auto simp: sink_live_def queue_ok_def)
  note w = write_packet_same [of sh ops Codec_encode]
  show "same_flight sh (sink_step ops (SendAtMostOnce pkt) sh)" "same_flight sh (sink_step ops Ping sh)"
    using w [of "Packet.Publish pkt"] w [of PingRequest]
    by (auto simp: send_at_most_once_def ping_def split: prod.splits outcome.splits)
  show "same_flight sh (sink_step ops (Ready tx) sh)"
    using free by (auto simp: ready_def with_queues_def act_then_def same_flight_def delivered_def)
qed

section \<open>Acknowledgements\<close>

lemma v5_pkt_ack_head:
  assumes "queue_ok sh" and "flight sh = (i, tx, tp) # q" and "answers pkt i tp"
  shows "pkt_ack alive pkt sh =
    (Ok (), wake_waiter alive ((dequeue i sh)\<lparr>events := events sh @ [Delivered tx pkt]\<rparr>))"
proof -
  note d = dequeue_flight [OF assms(1,2)]
  have "\<not> borrowed sh" using assms(1) by (simp add: queue_ok_def)
  moreover obtain order where "inflight_order (queues sh) = i # order"
    using d(4) by metis
  moreover have "i \<noteq> 0"
    using assms(1) d(3) by (auto simp: queue_ok_def lookup_keys)
  ultimately show ?thesis
    using d(3) assms(3)
    by (cases sh) (auto simp: pkt_ack_def with_queues_def answers_def dequeue_def wake_waiter_def Let_def
        split: prod.split)
qed

text \<open>The error of an acknowledgement that does not answer the head of the queue.\<close>

fun ack_error :: "(u16 \<times> 'tx \<times> AckType) list \<Rightarrow> Ack \<Rightarrow> ProtocolError" where
  "ack_error ((i, tx, tp) # q) pkt =
    (if Ack_packet_id pkt = i then Unexpected (Ack_packet_type pkt) (AckType_name tp) else PacketIdMismatch)"
| "ack_error [] pkt = PacketIdMismatch"

lemma v5_pkt_ack_bad:
  assumes "queue_ok sh" and "\<forall>i tx tp q. flight sh = (i, tx, tp) # q \<longrightarrow> \<not> answers pkt i tp"
  shows "fst (pkt_ack alive pkt sh) = Err (ack_error (flight sh) pkt)"
    "delivered (snd (pkt_ack alive pkt sh)) = delivered sh"
    "queue_ok (snd (pkt_ack alive pkt sh)) \<Longrightarrow>
     flight (snd (pkt_ack alive pkt sh)) = [] \<or> flight (snd (pkt_ack alive pkt sh)) = tl (flight sh)"
proof -
  have free: "\<not> borrowed sh" using assms(1) by (simp add: queue_ok_def)
  have "fst (pkt_ack alive pkt sh) = Err (ack_error (flight sh) pkt) \<and>
    delivered (snd (pkt_ack alive pkt sh)) = delivered sh \<and>
    (queue_ok (snd (pkt_ack alive pkt sh)) \<longrightarrow>
     flight (snd (pkt_ack alive pkt sh)) = [] \<or> flight (snd (pkt_ack alive pkt sh)) = tl (flight sh))"
  proof (cases "flight sh")
    case Nil
    then have "inflight_order (queues sh) = []" "ack_error (flight sh) pkt = PacketIdMismatch"
      by (simp_all add: flight_def)
    then show ?thesis
      using free by (simp add: pkt_ack_def with_queues_def delivered_def)
  next
    case (Cons e q)
    obtain i tx tp where e: "flight sh = (i, tx, tp) # q" using Cons by (cases e) auto
    note d = dequeue_flight [OF assms(1) e]
    obtain order where order: "inflight_order (queues sh) = i # order"
      using d(4) by metis
    have bad: "\<not> answers pkt i tp" and i: "i \<noteq> 0"
      using assms e d(3) by (auto simp: queue_ok_def lookup_keys)
    have q: "queue_ok (dequeue i sh)" "flight (dequeue i sh) = q" by (fact d)+
    show ?thesis
    proof (cases "Ack_packet_id pkt = i")
      case True
      then have "pkt_ack alive pkt sh = (Err (Unexpected (Ack_packet_type pkt) (AckType_name tp)),
          (dequeue i sh)\<lparr>events := events sh @ [Dropped {tx}]\<rparr>)"
        using free d(3) order bad i
        by (cases sh) (simp add: pkt_ack_def with_queues_def answers_def dequeue_def)
      then show ?thesis
        using True e q by (simp add: delivered_def flight_def dequeue_def del: flight_Nil)
    next
      case False
      then have "pkt_ack alive pkt sh = (Err PacketIdMismatch, sh\<lparr>queues := (queues sh)\<lparr>inflight_order := order\<rparr>\<rparr>)"
        using free order i by (cases sh) (simp add: pkt_ack_def with_queues_def)
      moreover have "i \<in> Mapping.keys (inflight (queues sh))" "i \<notin> set order"
        using assms(1) order by (auto simp: queue_ok_def)
      ultimately show ?thesis
        using False e by (auto simp: delivered_def queue_ok_def simp del: flight_Nil)
    qed
  qed
  then show "fst (pkt_ack alive pkt sh) = Err (ack_error (flight sh) pkt)"
    "delivered (snd (pkt_ack alive pkt sh)) = delivered sh"
    "queue_ok (snd (pkt_ack alive pkt sh)) \<Longrightarrow>
     flight (snd (pkt_ack alive pkt sh)) = [] \<or> flight (snd (pkt_ack alive pkt sh)) = tl (flight sh)"
    by blast+
qed

interpretation v5_sink: ack_queue flight sink_live delivered "sink_step ops" request_of ack_of answers
  for ops :: "('io, Packet) io_ops"
proof
  fix sh :: "('tx, 'io) shared" and c :: "'tx sink_op"
  assume live: "sink_live sh" and "ack_of c = None"
  have free: "\<not> borrowed sh" using live by (auto simp: sink_live_def queue_ok_def)
  show "delivered (sink_step ops c sh) = delivered sh \<and>
      (sink_live (sink_step ops c sh) \<longrightarrow>
        subseq (flight (sink_step ops c sh)) (flight sh @ entered (flight sh) (flight (sink_step ops c sh))) \<and>
        subseq (map snd (entered (flight sh) (flight (sink_step ops c sh)))) (requests request_of [c]))"
  proof (cases "request_of c")
    case (Some r)
    then obtain tx tp where r: "request_of c = Some (tx, tp)" by (cases r) auto
    have s: "sends tx tp sh (sink_step ops c sh)"
      using live r by (rule v5_sends_request)
    show ?thesis
      using sends_entered [OF s] s r by (simp add: sends_def)
  next
    case None
    then consider (same) "same_flight sh (sink_step ops c sh)"
      | (close) pkt r where "close_with_reason ops pkt sh = (r :: (unit, _) outcome, sink_step ops c sh)"
      | (drop) r where "drop_sink ops sh = (r :: (unit, _) outcome, sink_step ops c sh)"
      using \<open>ack_of c = None\<close> v5_same_flight_other [OF live]
      by (cases c) (auto simp: close_def send_same intro: prod.collapse [symmetric])
    then show ?thesis
    proof cases
      case same
      then show ?thesis by (simp add: same_flightD subseq_append_right)
    next
      case close
      show ?thesis
        using v5_close_queues [OF free close] by (auto simp: sink_live_def subseq_append_right simp del: flight_Nil)
    next
      case drop
      show ?thesis
        using v5_drop_queues [OF free drop] by (auto simp: sink_live_def simp del: flight_Nil)
    qed
  qed
next
  fix sh :: "('tx, 'io) shared" and c :: "'tx sink_op" and a i tx tp q
  assume live: "sink_live sh" and "ack_of c = Some a" and head: "flight sh = (i, tx, tp) # q" "answers a i tp"
  then obtain alive where c: "c = PktAck alive a" by (cases c) auto
  have ok: "queue_ok sh" using live by (simp add: sink_live_def)
  let ?sh = "(dequeue i sh)\<lparr>events := events sh @ [Delivered tx a]\<rparr>"
  note same = same_flightD [OF wake_waiter_same [of ?sh alive]]
  have "flight ?sh = q"
    using dequeue_flight(1) [OF ok head(1)] by (simp add: flight_def)
  moreover have "delivered ?sh = delivered sh @ [(tx, a)]"
    by (simp add: delivered_def)
  ultimately show "delivered (sink_step ops c sh) = delivered sh @ [(tx, a)] \<and>
      (sink_live (sink_step ops c sh) \<longrightarrow> flight (sink_step ops c sh) = q)"
    by (simp add: c v5_pkt_ack_head [OF ok head] same)
next
  fix sh :: "('tx, 'io) shared" and c :: "'tx sink_op" and a
  assume live: "sink_live sh" and "ack_of c = Some a"
    and bad: "flight sh = [] \<or> (\<exists>i tx tp q. flight sh = (i, tx, tp) # q \<and> \<not> answers a i tp)"
  then obtain alive where c: "c = PktAck alive a" by (cases c) auto
  have ok: "queue_ok sh" using live by (simp add: sink_live_def)
  have "\<forall>i tx tp q. flight sh = (i, tx, tp) # q \<longrightarrow> \<not> answers a i tp"
    using bad by (auto simp del: flight_Nil)
  note r = v5_pkt_ack_bad [OF ok this, of alive]
  have tl: "subseq (tl (flight sh)) (flight sh)"
    by (cases "flight sh") (auto simp del: flight_Nil)
  show "delivered (sink_step ops c sh) = delivered sh \<and>
      (sink_live (sink_step ops c sh) \<longrightarrow>
        subseq (flight (sink_step ops c sh)) (flight sh))"
    using r(2,3) tl by (auto simp: c sink_live_def simp del: flight_Nil)
qed

section \<open>Properties\<close>

text \<open>C35: Acknowledgements reach the MQTT 5 senders in order: in every run of the sink from a fresh
  connection, while its queues are in order, the acknowledgements handed out answer a subsequence of the
  requests in the order in which their packets were put in flight, each at most once, and each with an
  acknowledgement of its own kind and of the identifier under which the packet was put in flight; so the
  \<^verbatim>\<open>panic!()\<close> of \<^verbatim>\<open>Ack::publish\<close>, \<^verbatim>\<open>Ack::subscribe\<close> and \<^verbatim>\<open>Ack::unsubscribe\<close> is never reached.\<close>

theorem v5_acks_in_order:
  "\<exists>ks. subseq ks (put_in_flight sink_live flight (sink_step ops) cs (MqttShared_new st codec n)) \<and>
    subseq (map snd ks) (requests request_of cs) \<and>
    list_all2 (\<lambda>(i, tx, tp) (tx', a). tx = tx' \<and> answers a i tp \<and>
        (case tp of AckType.Publish \<Rightarrow> returns (publish_acked (Some a))
         | AckType.Subscribe \<Rightarrow> returns (subscribe_acked (Some a))
         | AckType.Unsubscribe \<Rightarrow> returns (unsubscribe_acked (Some a)))) ks
      (delivered (run_while sink_live (sink_step ops) cs (MqttShared_new st codec n)))"
proof -
  obtain ks where "subseq ks (put_in_flight sink_live flight (sink_step ops) cs (MqttShared_new st codec n))"
    "subseq (map snd ks) (requests request_of cs)"
    "list_all2 (\<lambda>(i, tx, tp) (tx', a). tx = tx' \<and> answers a i tp) ks
      (delivered (run_while sink_live (sink_step ops) cs (MqttShared_new st codec n)))"
    using v5_sink.answers_in_order [where s = "MqttShared_new st codec n" and cs = cs and ops = ops] by (auto simp del: flight_Nil)
  moreover have "case tp of AckType.Publish \<Rightarrow> returns (publish_acked (Some a))
         | AckType.Subscribe \<Rightarrow> returns (subscribe_acked (Some a))
         | AckType.Unsubscribe \<Rightarrow> returns (unsubscribe_acked (Some a))" if "answers a i tp" for a i tp
    using that
    by (cases a; cases tp) (auto simp: answers_def publish_acked_def subscribe_acked_def unsubscribe_acked_def
        split: PublishAckReason.split)
  ultimately show ?thesis
    by (intro exI [of _ ks]) (auto elim!: list_all2_mono)
qed

text \<open>An MQTT 5 acknowledgement for the packet at the head of the queue is handed to exactly its
  sender, the packet leaves the queue and the first waiting sender that still exists is woken.  Any other
  acknowledgement is a protocol error of the right kind and is handed to nobody.\<close>

theorem v5_pkt_ack_correct:
  assumes "queue_ok sh"
  shows "case pkt_ack alive pkt sh of (r, sh') \<Rightarrow>
    (if flight sh \<noteq> [] \<and> (case hd (flight sh) of (i, tx, tp) \<Rightarrow> answers pkt i tp)
     then r = Ok () \<and> queue_ok sh' \<and> flight sh' = tl (flight sh) \<and>
       delivered sh' = delivered sh @ [(fst (snd (hd (flight sh))), pkt)] \<and>
       waiters (queues sh') = snd (wake_waiters alive (waiters (queues sh)))
     else r = Err (ack_error (flight sh) pkt) \<and> delivered sh' = delivered sh)"
proof (cases "flight sh \<noteq> [] \<and> (case hd (flight sh) of (i, tx, tp) \<Rightarrow> answers pkt i tp)")
  case True
  then obtain i tx tp q where head: "flight sh = (i, tx, tp) # q" "answers pkt i tp"
    by (cases "flight sh") (auto simp del: flight_Nil)
  let ?sh = "(dequeue i sh)\<lparr>events := events sh @ [Delivered tx pkt]\<rparr>"
  note same = same_flightD [OF wake_waiter_same [of ?sh alive]]
  have "flight ?sh = q" "queue_ok ?sh" "delivered ?sh = delivered sh @ [(tx, pkt)]"
    "waiters (queues ?sh) = waiters (queues sh)"
    using dequeue_flight(1,2) [OF assms(1) head(1)]
    by (simp_all add: flight_def queue_ok_def delivered_def dequeue_def)
  then show ?thesis
    using True
    by (simp add: v5_pkt_ack_head [OF assms(1) head] same head del: flight_Nil)
      (simp add: wake_waiter_def split: prod.split)
next
  case False
  have "\<forall>i tx tp q. flight sh = (i, tx, tp) # q \<longrightarrow> \<not> answers pkt i tp"
    using False by (auto simp del: flight_Nil)
  note v5_pkt_ack_bad [OF assms this, of alive]
  then show ?thesis
    unfolding if_not_P [OF False] by (simp add: split_beta)
qed

text \<open>C36: The packet identifiers that a fresh MQTT 5 sink generates run through 1 to 65535 and start again,
  without overflow; so up to 65535 packets in a row have different identifiers, and none of them is 0.\<close>

theorem v5_packet_ids:
  "fst (draw_ids next_id n (MqttShared_new st codec m)) = Ok (map (\<lambda>k. of_nat (k mod 65535 + 1)) [0..<n]) \<and>
   distinct (map (\<lambda>k. of_nat (k mod 65535 + 1) :: u16) [0..<min n 65535]) \<and>
   0 \<notin> set (map (\<lambda>k. of_nat (k mod 65535 + 1) :: u16) [0..<min n 65535])"
  using cycle_ids [of "min n 65535"] by (simp add: v5_ids.draw_ids_cycle)

text \<open>A transport whose encoder accepts every packet but a PUBLISH.\<close>

definition no_publish_io :: "(bool, Packet) io_ops" where
  "no_publish_io = \<lparr>io_is_open = (\<lambda>s. s), io_close = (\<lambda>_. False), io_force_close = (\<lambda>_. False),
     io_encode = (\<lambda>enc pkt s. (case pkt of
       Packet.Publish _ \<Rightarrow> (Err EncodeError.InvalidLength, s) | _ \<Rightarrow> (Ok True, s)))\<rparr>"

definition one_sent :: "(nat, bool) shared" where
  "one_sent = sink_step no_publish_io (SubscribeSend 10 11 (subscribe None)) (MqttShared_new True Codec_new 5)"

lemma one_sent_flight:
  "queue_ok one_sent" "flight one_sent = [(1, 11, AckType.Subscribe)]"
  by (auto simp: one_sent_def no_publish_io_def subscribe_def subscribe_send_def await_credit_def
      MqttShared_new_def subscribe_send_inner_def has_credit_def Mapping.size_def act_then_def next_id_def
      checked_add_def with_queues_def allocate_def send_and_wait_def write_packet_def queue_ok_def flight_def)

definition suback :: SubscribeAck where
  "suback = \<lparr>sa_packet_id = 1, sa_properties = [], sa_reason_string = None, sa_status = []\<rparr>"

theorem v5_pkt_ack_correct_witness:
  "fst (pkt_ack (\<lambda>_. True) (Ack.Subscribe suback) one_sent) = Ok () \<and>
   delivered (snd (pkt_ack (\<lambda>_. True) (Ack.Subscribe suback) one_sent)) =
     delivered one_sent @ [(11, Ack.Subscribe suback)]"
  using v5_pkt_ack_correct [OF one_sent_flight(1), of "Ack.Subscribe suback" "\<lambda>_. True"]
  unfolding one_sent_flight(2) by (simp add: answers_def suback_def split_beta)

text \<open>A publish whose packet cannot be encoded leaves its identifier in the queues, although the sender
  has its error: the packet still counts against the receive maximum, and the next acknowledgement of any
  packet that was really sent is refused as out of order. (\<^verbatim>\<open>pkt_ack\<close> skips identifiers that are 0,
  "errored publish", but no code ever clears one to 0.)\<close>

theorem v5_failed_send_blocks:
  assumes "sink_live sh" and "flight sh = []"
    and "send_at_least_once_inner ops tx pkt sh = (Err (PublishQos1Error.Encode e), sh')"
  shows "\<exists>i. flight sh' = [(i, tx, AckType.Publish)] \<and>
    (\<forall>a alive. Ack_packet_id a \<noteq> i \<longrightarrow> fst (pkt_ack alive a sh') = Err PacketIdMismatch)"
proof -
  have live: "\<And>i. \<not> borrowed (sh\<lparr>inflight_idx := i\<rparr>)" "inflight_idx sh \<noteq> - 1" "queue_ok sh"
    using assms(1) by (auto simp: sink_live_def queue_ok_def)
  obtain idx i' where p: "idx \<noteq> 0"
    "publish_number pkt sh =
      (Ok (idx, pkt\<lparr>pub_packet_id := Some idx\<rparr>) :: (PublishQos1Error, _) outcome, sh\<lparr>inflight_idx := i'\<rparr>)"
    using v5_publish_number [OF live(2)] by blast
  let ?sh = "sh\<lparr>inflight_idx := i'\<rparr>"
  have ok: "queue_ok ?sh" "flight ?sh = []" "idx \<notin> Mapping.keys (inflight (queues ?sh))"
    using live(3) assms(2) by (auto simp: queue_ok_def flight_def)
  have "send_and_wait ops Codec_encode PublishQos1Error.Encode
      (Packet.Publish (pkt\<lparr>pub_packet_id := Some idx\<rparr>)) tx (enqueue idx AckType.Publish tx ?sh) =
      (Err (PublishQos1Error.Encode e) :: (_, (_, Publish) pending) outcome, sh')"
    using assms(3) ok(3)
    by (simp add: send_at_least_once_inner_def act_then_def p(2) with_queues_allocate live(1) allocate_cases)
  then have same: "same_flight (enqueue idx AckType.Publish tx ?sh) sh'"
    using send_and_wait_same by (metis snd_conv)
  have "flight (enqueue idx AckType.Publish tx ?sh) = [(idx, tx, AckType.Publish)]"
    "queue_ok (enqueue idx AckType.Publish tx ?sh)"
    using ok(2) enqueue_flight [of ?sh idx AckType.Publish tx, OF _ ok(3)] ok(1)
      enqueue_ok [OF ok(1) p(1) ok(3)]
    by (auto simp: queue_ok_def [of ?sh] simp del: flight_Nil)
  then have "flight sh' = [(idx, tx, AckType.Publish)]" "queue_ok sh'"
    using same_flightD [OF same] by simp_all
  moreover from this have "fst (pkt_ack alive a sh') = Err PacketIdMismatch" if "Ack_packet_id a \<noteq> idx" for a alive
    using v5_pkt_ack_bad(1) [of sh' a alive] that by (simp add: answers_def)
  ultimately show ?thesis by blast
qed

theorem v5_failed_send_blocks_witness:
  "\<exists>i. flight (snd (send_at_least_once_inner no_publish_io 7 (publish [0x61] []) (MqttShared_new True Codec_new 5))) =
     [(i, 7, AckType.Publish)]"
proof -
  have "sink_live (MqttShared_new True Codec_new 5)"
    by (simp add: sink_live_def del: flight_Nil)
  from v5_failed_send_blocks [OF this queue_ok_new(2), of no_publish_io 7 "publish [0x61] []" EncodeError.InvalidLength]
  show ?thesis
    by (auto simp: send_at_least_once_inner_def publish_number_def publish_def act_then_def next_id_def
        checked_add_def with_queues_def allocate_def send_and_wait_def write_packet_def no_publish_io_def
        MqttShared_new_def)
qed

end
