(* ===== verification/V5_Dispatcher.thy ===== *)
theory V5_Dispatcher
  imports Dispatch V5_Control V5_Sink
begin

text \<open>
  The MQTT 5 server dispatcher (\<^verbatim>\<open>v5/dispatcher.rs\<close>): it hands publishes to the publish service, control
  packets and errors to the control service, and acknowledgements to the sink. The two services are the
  application's code: a call is recorded in the future that waits for it, and the polls of the futures
  take the service's result as an argument. The conversions of the application's error types are
  parameters as well.
\<close>

section \<open>State\<close>

record PublishInfo =
  info_inflight :: "u16 set"
  info_aliases :: "u16 set"

record ('tx, 'io) Dispatcher =
  d_sink :: "('tx, 'io) shared"
  d_shutdown :: bool
  max_receive :: nat
  max_topic_alias :: u16
  d_info :: PublishInfo

definition Dispatcher_new :: "('tx, 'io) shared \<Rightarrow> nat \<Rightarrow> u16 \<Rightarrow> ('tx, 'io) Dispatcher" where
  "Dispatcher_new sink receive alias_max =
    \<lparr>d_sink = sink, d_shutdown = False, max_receive = receive, max_topic_alias = alias_max,
     d_info = \<lparr>info_inflight = {}, info_aliases = {}\<rparr>\<rparr>"

text \<open>The futures of a dispatcher, over the type of its control messages: a call of a service stands for the
  future that waits for its answer.\<close>

record 'm ControlResponse =
  cr_call :: 'm
  cr_error :: bool
  cr_packet_id :: u16

datatype 'm PublishResponseState = Publish Publish | Control "'m ControlResponse"

record 'm PublishResponse =
  pr_packet_id :: u16
  pr_state :: "'m PublishResponseState"

datatype 'm Future =
    PublishFuture "'m PublishResponse"
  | ReadyPacket "Packet option"
  | ControlFuture "'m ControlResponse"

type_synonym 'e future = "'e ControlMessage Future"

section \<open>Calls\<close>

definition is_error_message :: "'e ControlMessage \<Rightarrow> bool" where
  "is_error_message pkt =
    (case pkt of ControlMessage.Error _ \<Rightarrow> True | ControlMessage.ProtocolError _ \<Rightarrow> True | _ \<Rightarrow> False)"

definition ControlResponse_new :: "'e ControlMessage \<Rightarrow> 'e ControlMessage ControlResponse" where
  "ControlResponse_new pkt = \<lparr>cr_call = pkt, cr_error = is_error_message pkt, cr_packet_id = 0\<rparr>"

definition ControlResponse_packet_id :: "u16 \<Rightarrow> 'e ControlMessage ControlResponse \<Rightarrow> 'e ControlMessage ControlResponse" where
  "ControlResponse_packet_id i cr = cr\<lparr>cr_packet_id := i\<rparr>"

text \<open>A sink operation inside the dispatcher.\<close>

definition on_sink ::
  "(('tx, 'io) shared, 'err, 'a) action \<Rightarrow> (('tx, 'io) Dispatcher, 'err, 'a) action" where
  "on_sink act d = (case act (d_sink d) of (r, sink) \<Rightarrow> (r, d\<lparr>d_sink := sink\<rparr>))"

definition proto_error :: "Errors.ProtocolError \<Rightarrow> 'e future" where
  "proto_error err = ControlFuture (ControlResponse_new (ControlMessage_proto_error err))"

definition insert_inflight :: "u16 \<Rightarrow> ('tx, 'io) Dispatcher \<Rightarrow> ('tx, 'io) Dispatcher" where
  "insert_inflight i d = d\<lparr>d_info := (d_info d)\<lparr>info_inflight := insert i (info_inflight (d_info d))\<rparr>\<rparr>"

text \<open>The topic alias of a publish: an error, or the dispatcher with the alias recorded.\<close>

definition check_alias ::
  "Publish \<Rightarrow> ('tx, 'io) Dispatcher \<Rightarrow> Errors.ProtocolError + ('tx, 'io) Dispatcher" where
  "check_alias pub d =
    (case pp_topic_alias (pub_properties pub) of
       None \<Rightarrow> Inr d
     | Some a \<Rightarrow>
         if pub_topic pub = []
         then (if a \<notin> info_aliases (d_info d) then Inl ProtocolError.UnknownTopicAlias else Inr d)
         else if a > max_topic_alias d then Inl ProtocolError.MaxTopicAlias
         else Inr (d\<lparr>d_info := (d_info d)\<lparr>info_aliases := insert a (info_aliases (d_info d))\<rparr>\<rparr>))"

definition accept_publish :: "Publish \<Rightarrow> (('tx, 'io) Dispatcher, 'err, 'e future) action" where
  "accept_publish pub d =
    (case check_alias pub d of
       Inl err \<Rightarrow> (Ok (proto_error err), d)
     | Inr d \<Rightarrow>
         (Ok (PublishFuture
            \<lparr>pr_packet_id = (case pub_packet_id pub of Some i \<Rightarrow> i | None \<Rightarrow> 0),
             pr_state = PublishResponseState.Publish pub\<rparr>), d))"

definition call_publish ::
  "('io, Packet) io_ops \<Rightarrow> Publish \<Rightarrow> (('tx, 'io) Dispatcher, 'err, 'e future) action" where
  "call_publish ops pub d =
    (case pub_packet_id pub of
       Some pid \<Rightarrow>
         if max_receive d \<noteq> 0 \<and> card (info_inflight (d_info d)) \<ge> max_receive d
         then (Ok (proto_error ProtocolError.ReceiveMaximumExceeded), d)
         else if pid \<in> info_inflight (d_info d)
         then act_then
                (on_sink (send ops (Packet.PublishAck (PublishAck_default\<lparr>pa_packet_id := pid,
                   pa_reason_code := PublishAckReason.PacketIdentifierInUse\<rparr>))))
                (\<lambda>_ d. (Ok (ReadyPacket None), d)) d
         else accept_publish pub (insert_inflight pid d)
     | None \<Rightarrow> accept_publish pub d)"

definition call_subscribe ::
  "('io, Packet) io_ops \<Rightarrow> V5_Subscribe.Subscribe \<Rightarrow> (('tx, 'io) Dispatcher, 'err, 'e future) action" where
  "call_subscribe ops pkt d =
    (if sub_packet_id pkt \<in> info_inflight (d_info d)
     then act_then
            (on_sink (send ops (Packet.SubscribeAck
               \<lparr>sa_packet_id = sub_packet_id pkt, sa_properties = [], sa_reason_string = None,
                sa_status = map (\<lambda>_. SubscribeAckReason.PacketIdentifierInUse) (sub_topic_filters pkt)\<rparr>)))
            (\<lambda>_ d. (Ok (ReadyPacket None), d)) d
     else (Ok (ControlFuture (ControlResponse_packet_id (sub_packet_id pkt)
             (ControlResponse_new (ControlMessage.Subscribe (Subscribe_create pkt))))),
           insert_inflight (sub_packet_id pkt) d))"

definition call_unsubscribe ::
  "('io, Packet) io_ops \<Rightarrow> V5_Subscribe.Unsubscribe \<Rightarrow> (('tx, 'io) Dispatcher, 'err, 'e future) action" where
  "call_unsubscribe ops pkt d =
    (if un_packet_id pkt \<in> info_inflight (d_info d)
     then act_then
            (on_sink (send ops (Packet.UnsubscribeAck
               \<lparr>ua_packet_id = un_packet_id pkt, ua_properties = [], ua_reason_string = None,
                ua_status = map (\<lambda>_. UnsubscribeAckReason.PacketIdentifierInUse) (un_topic_filters pkt)\<rparr>)))
            (\<lambda>_ d. (Ok (ReadyPacket None), d)) d
     else (Ok (ControlFuture (ControlResponse_packet_id (un_packet_id pkt)
             (ControlResponse_new (ControlMessage.Unsubscribe (Unsubscribe_create pkt))))),
           insert_inflight (un_packet_id pkt) d))"

text \<open>An acknowledgement from the peer.\<close>

definition call_publish_ack ::
  "('tx \<Rightarrow> bool) \<Rightarrow> V5_PubAcks.PublishAck \<Rightarrow> (('tx, 'io) Dispatcher, 'err, 'e future) action" where
  "call_publish_ack alive packet d =
    (case pkt_ack alive (Ack.Publish packet) (d_sink d) of
       (Ok _, sink) \<Rightarrow> (Ok (ReadyPacket None), d\<lparr>d_sink := sink\<rparr>)
     | (Err err, sink) \<Rightarrow> (Ok (proto_error err), d\<lparr>d_sink := sink\<rparr>)
     | (Panic, sink) \<Rightarrow> (Panic, d\<lparr>d_sink := sink\<rparr>)
     | (Diverge, sink) \<Rightarrow> (Diverge, d\<lparr>d_sink := sink\<rparr>))"

definition control_call :: "'e ControlMessage \<Rightarrow> (('tx, 'io) Dispatcher, 'err, 'e future) action" where
  "control_call pkt d = (Ok (ControlFuture (ControlResponse_new pkt)), d)"

fun call ::
  "('io, Packet) io_ops \<Rightarrow> ('tx \<Rightarrow> bool) \<Rightarrow> Packet DispatchItem \<Rightarrow>
   (('tx, 'io) Dispatcher, 'err, 'e future) action" where
  "call ops alive (Item (Packet.Publish pub)) = call_publish ops pub"
| "call ops alive (Item (Packet.PublishAck packet)) = call_publish_ack alive packet"
| "call ops alive (Item (Packet.Auth pkt)) = control_call (ControlMessage.Auth pkt)"
| "call ops alive (Item PingRequest) = control_call ControlMessage.Ping"
| "call ops alive (Item (Packet.Disconnect pkt)) = control_call (ControlMessage.Disconnect pkt)"
| "call ops alive (Item (Packet.Subscribe pkt)) = call_subscribe ops pkt"
| "call ops alive (Item (Packet.Unsubscribe pkt)) = call_unsubscribe ops pkt"
| "call ops alive (Item _) = (\<lambda>d. (Ok (ReadyPacket None), d))"
| "call ops alive (EncoderError err) = control_call (ControlMessage_proto_error (ProtocolError.Encode err))"
| "call ops alive DispatchItem.KeepAliveTimeout =
    control_call (ControlMessage_proto_error ProtocolError.KeepAliveTimeout)"
| "call ops alive (DecoderError err) = control_call (ControlMessage_proto_error (Decode err))"
| "call ops alive (IoError err) = control_call (ControlMessage_proto_error (Io err))"
| "call ops alive WBackPressureEnabled = (\<lambda>d. (Ok (ReadyPacket None), d))"
| "call ops alive WBackPressureDisabled = (\<lambda>d. (Ok (ReadyPacket None), d))"

section \<open>Readiness and shutdown\<close>

definition poll_ready ::
  "('e2 \<Rightarrow> 'e) \<Rightarrow> ('e2 + unit) option \<Rightarrow> ('e + unit) option \<Rightarrow> ('e MqttError + unit) option" where
  "poll_ready into pub control =
    both_ready (map_option (map_sum (\<lambda>e. Service (into e)) id) pub) (map_option (map_sum Service id) control)"

text \<open>The first call drops the sink and tells the control service; the result says whether it did.\<close>

definition poll_shutdown ::
  "('io, Packet) io_ops \<Rightarrow> bool \<Rightarrow> (('tx, 'io) Dispatcher, 'err, 'e ControlMessage option) action" where
  "poll_shutdown ops is_error d =
    (if \<not> d_shutdown d
     then act_then (on_sink (drop_sink ops))
            (\<lambda>_ d. (Ok (Some (ControlMessage.Closed is_error)), d\<lparr>d_shutdown := True\<rparr>)) d
     else (Ok None, d))"

section \<open>Futures\<close>

text \<open>A poll whose service has answered either finishes the future or leaves another future.\<close>

datatype ('e, 'f) polled = Finished "'e MqttError + Packet option" | Goes_on 'f

definition remove_inflight :: "u16 \<Rightarrow> ('tx, 'io) Dispatcher \<Rightarrow> ('tx, 'io) Dispatcher" where
  "remove_inflight i d =
    (if i = 0 then d
     else d\<lparr>d_info := (d_info d)\<lparr>info_inflight := info_inflight (d_info d) - {i}\<rparr>\<rparr>)"

definition control_poll ::
  "('io, Packet) io_ops \<Rightarrow> 'e + ControlResult \<Rightarrow> 'e ControlMessage ControlResponse \<Rightarrow>
   (('tx, 'io) Dispatcher, 'err, ('e, 'e ControlMessage ControlResponse) polled) action" where
  "control_poll ops res cr d =
    (case res of
       Inr result \<Rightarrow>
         (let d = remove_inflight (cr_packet_id cr) d in
          if cr_error cr
          then act_then (case r_packet result of Some pkt \<Rightarrow> on_sink (send ops pkt) | None \<Rightarrow> (\<lambda>d. (Ok (), d))) (\<lambda>_.
               act_then (if r_disconnect result then on_sink (drop_sink ops) else (\<lambda>d. (Ok (), d))) (\<lambda>_ d.
               (Ok (Finished (Inr None)), d))) d
          else act_then (if r_disconnect result then on_sink (drop_sink ops) else (\<lambda>d. (Ok (), d))) (\<lambda>_ d.
               (Ok (Finished (Inr (r_packet result))), d)) d)
     | Inl err \<Rightarrow>
         if cr_error cr then (Ok (Finished (Inl (Service err))), d)
         else (Ok (Goes_on (cr\<lparr>cr_error := True, cr_call := ControlMessage_error err\<rparr>)), d))"

text \<open>The publish service has answered.  \<open>try_from\<close> is \<^verbatim>\<open>PublishAck::try_from\<close> on the service's error,
  \<open>into\<close> its conversion to the connection's error.\<close>

definition publish_poll ::
  "('e2 \<Rightarrow> 'e + PublishAck) \<Rightarrow> ('e2 \<Rightarrow> 'e) \<Rightarrow> 'e2 + PublishAck \<Rightarrow> 'e ControlMessage PublishResponse \<Rightarrow>
   (('tx, 'io) Dispatcher, 'err, ('e, 'e ControlMessage PublishResponse) polled) action" where
  "publish_poll try_from into res pr d =
    (let control = (\<lambda>e. (Ok (Goes_on (pr\<lparr>pr_state := Control (ControlResponse_new (ControlMessage_error e))\<rparr>)), d));
         acked = (\<lambda>ack.
           if pr_packet_id pr \<noteq> 0
           then (Ok (Finished (Inr (Some (Packet.PublishAck
                  \<lparr>pa_packet_id = pr_packet_id pr, pa_reason_code = ack_reason_code ack,
                   pa_properties = ack_properties ack, pa_reason_string = ack_reason_string ack\<rparr>)))),
                 remove_inflight (pr_packet_id pr) d)
           else (Ok (Finished (Inr None)), d))
     in case res of
          Inr ack \<Rightarrow> acked ack
        | Inl e \<Rightarrow>
            if pr_packet_id pr \<noteq> 0
            then case try_from e of Inr ack \<Rightarrow> acked ack | Inl e \<Rightarrow> control e
            else control (into e))"

section \<open>The dispatcher with its futures as a state machine\<close>

text \<open>The packet identifier that a pending future works on: 0 stands for none.\<close>

definition some_id :: "u16 \<Rightarrow> u16 list" where
  "some_id i = (if i = 0 then [] else [i])"

fun live_id :: "'m Future \<Rightarrow> u16 list" where
  "live_id (PublishFuture pr) =
    (case pr_state pr of PublishResponseState.Publish _ \<Rightarrow> some_id (pr_packet_id pr)
     | Control cr \<Rightarrow> some_id (cr_packet_id cr))"
| "live_id (ReadyPacket _) = []"
| "live_id (ControlFuture cr) = some_id (cr_packet_id cr)"

abbreviation live_ids :: "'m Future list \<Rightarrow> u16 list" where
  "live_ids fs \<equiv> concat (map live_id fs)"

text \<open>The identifiers of the publishes that the publish service works on.\<close>

fun publishing_id :: "'m Future \<Rightarrow> u16 list" where
  "publishing_id (PublishFuture pr) =
    (case pr_state pr of PublishResponseState.Publish _ \<Rightarrow> some_id (pr_packet_id pr) | Control cr \<Rightarrow> [])"
| "publishing_id _ = []"

abbreviation publishing :: "'m Future list \<Rightarrow> u16 list" where
  "publishing fs \<equiv> concat (map publishing_id fs)"

text \<open>A step: a packet or an error arrives, a service answers one of the pending futures, or the
  application uses the sink.\<close>

inductive disp_step ::
  "('io, Packet) io_ops \<Rightarrow> ('e2 \<Rightarrow> 'e + PublishAck) \<Rightarrow> ('e2 \<Rightarrow> 'e) \<Rightarrow>
   ('tx, 'io) Dispatcher \<times> 'e future list \<Rightarrow> ('tx, 'io) Dispatcher \<times> 'e future list \<Rightarrow> bool"
  for ops try_from into where
  call: "call ops alive item d = (Ok f :: (unit, 'e future) outcome, d') \<Longrightarrow>
    disp_step ops try_from into (d, fs) (d', fs @ [f])"
| published: "\<lbrakk>pr_state pr = PublishResponseState.Publish pub;
     publish_poll try_from into res pr d = (Ok (Finished r) :: (unit, _) outcome, d')\<rbrakk> \<Longrightarrow>
    disp_step ops try_from into (d, xs @ PublishFuture pr # ys) (d', xs @ ys)"
| publish_failed: "\<lbrakk>pr_state pr = PublishResponseState.Publish pub;
     publish_poll try_from into res pr d = (Ok (Goes_on pr') :: (unit, _) outcome, d')\<rbrakk> \<Longrightarrow>
    disp_step ops try_from into (d, xs @ PublishFuture pr # ys) (d', xs @ PublishFuture pr' # ys)"
| publish_controlled: "\<lbrakk>pr_state pr = Control cr;
     control_poll ops res2 cr d = (Ok (Finished r) :: (unit, _) outcome, d')\<rbrakk> \<Longrightarrow>
    disp_step ops try_from into (d, xs @ PublishFuture pr # ys) (d', xs @ ys)"
| publish_control_failed: "\<lbrakk>pr_state pr = Control cr;
     control_poll ops res2 cr d = (Ok (Goes_on cr') :: (unit, _) outcome, d')\<rbrakk> \<Longrightarrow>
    disp_step ops try_from into (d, xs @ PublishFuture pr # ys)
      (d', xs @ PublishFuture (pr\<lparr>pr_state := Control cr'\<rparr>) # ys)"
| controlled: "control_poll ops res2 cr d = (Ok (Finished r) :: (unit, _) outcome, d') \<Longrightarrow>
    disp_step ops try_from into (d, xs @ ControlFuture cr # ys) (d', xs @ ys)"
| control_failed: "control_poll ops res2 cr d = (Ok (Goes_on cr') :: (unit, _) outcome, d') \<Longrightarrow>
    disp_step ops try_from into (d, xs @ ControlFuture cr # ys) (d', xs @ ControlFuture cr' # ys)"
| ready: "disp_step ops try_from into (d, xs @ ReadyPacket r # ys) (d, xs @ ys)"
| sink: "disp_step ops try_from into (d, fs) (d\<lparr>d_sink := sink'\<rparr>, fs)"

inductive disp_reachable ::
  "('io, Packet) io_ops \<Rightarrow> ('e2 \<Rightarrow> 'e + PublishAck) \<Rightarrow> ('e2 \<Rightarrow> 'e) \<Rightarrow> nat \<Rightarrow> u16 \<Rightarrow>
   ('tx, 'io) Dispatcher \<times> 'e future list \<Rightarrow> bool" for ops try_from into receive alias_max where
  start: "disp_reachable ops try_from into receive alias_max (Dispatcher_new sink receive alias_max, [])"
| step: "\<lbrakk>disp_reachable ops try_from into receive alias_max s; disp_step ops try_from into s s'\<rbrakk> \<Longrightarrow>
    disp_reachable ops try_from into receive alias_max s'"

section \<open>Lemmas\<close>

lemma on_sink_frame:
  assumes "on_sink act d = (r, d')"
  shows "d_info d' = d_info d" "max_topic_alias d' = max_topic_alias d" "max_receive d' = max_receive d"
  using assms by (auto simp: on_sink_def split: prod.splits)

lemma live_id_new [simp]:
  "live_id (ControlFuture (ControlResponse_new m)) = []"
  "cr_packet_id (ControlResponse_new m) = 0"
  "live_id (proto_error err) = []"
  by (simp_all add: ControlResponse_new_def some_id_def proto_error_def)

lemma some_id_0 [simp]: "some_id 0 = []"
  by (simp add: some_id_def)

lemma publishing_id_cases: "publishing_id f = [] \<or> publishing_id f = live_id f"
  by (cases f) (auto split: PublishResponseState.splits)

lemma publishing_id_Nil [simp]: "live_id f = [] \<Longrightarrow> publishing_id f = []"
  using publishing_id_cases [of f] by simp

text \<open>What a call does to the identifiers and aliases.\<close>

definition call_frame :: "('tx, 'io) Dispatcher \<Rightarrow> 'm Future \<Rightarrow> ('tx, 'io) Dispatcher \<Rightarrow> bool" where
  "call_frame d f d' \<longleftrightarrow>
     (live_id f = [] \<and> info_inflight (d_info d) \<subseteq> info_inflight (d_info d') \<or>
      (\<exists>i. live_id f = [i] \<and> i \<notin> info_inflight (d_info d) \<and>
           info_inflight (d_info d') = insert i (info_inflight (d_info d)))) \<and>
     (publishing_id f \<noteq> [] \<longrightarrow>
        (max_receive d = 0 \<or> card (info_inflight (d_info d)) < max_receive d)) \<and>
     max_topic_alias d' = max_topic_alias d \<and> max_receive d' = max_receive d \<and>
     info_aliases (d_info d') \<subseteq> info_aliases (d_info d) \<union> {a. a \<le> max_topic_alias d}"

lemma call_frame_same:
  "\<lbrakk>d_info d' = d_info d; max_topic_alias d' = max_topic_alias d; max_receive d' = max_receive d;
    live_id f = []\<rbrakk> \<Longrightarrow> call_frame d f d'"
  by (simp add: call_frame_def)

lemma sink_then_frame:
  "act_then (on_sink act) (\<lambda>_ d. (Ok (ReadyPacket None), d)) d = (Ok f, d') \<Longrightarrow> call_frame d f d'"
  by (auto simp: act_then_def on_sink_def call_frame_def split: prod.splits outcome.splits)

lemma accept_frame:
  assumes "accept_publish pub d = (Ok f, d')"
  shows "max_topic_alias d' = max_topic_alias d" "max_receive d' = max_receive d"
    "info_inflight (d_info d') = info_inflight (d_info d)"
    "info_aliases (d_info d') \<subseteq> info_aliases (d_info d) \<union> {a. a \<le> max_topic_alias d}"
    "live_id f = [] \<or> (\<exists>i. pub_packet_id pub = Some i \<and> live_id f = [i])"
  using assms
  by (auto simp: accept_publish_def check_alias_def some_id_def split: option.splits if_splits)

lemma accept_new_frame:
  "\<lbrakk>max_receive d = 0 \<or> card (info_inflight (d_info d)) < max_receive d; accept_publish pub (insert_inflight pid d) = (Ok f, d'); pub_packet_id pub = Some pid;
    pid \<notin> info_inflight (d_info d)\<rbrakk> \<Longrightarrow> call_frame d f d'"
  using accept_frame [of pub "insert_inflight pid d" f d'] by (auto simp: call_frame_def insert_inflight_def)

lemma accept_same_frame:
  "\<lbrakk>accept_publish pub d = (Ok f, d'); pub_packet_id pub = None\<rbrakk> \<Longrightarrow> call_frame d f d'"
  using accept_frame [of pub d f d'] by (auto simp: call_frame_def)

lemma call_publish_frame: "call_publish ops pub d = (Ok f, d') \<Longrightarrow> call_frame d f d'"
  unfolding call_publish_def
  by (auto simp: call_frame_same not_le split: option.splits if_splits
      intro: accept_new_frame accept_same_frame dest: sink_then_frame)

lemma insert_frame:
  "\<lbrakk>i \<notin> info_inflight (d_info d); live_id f = some_id i; publishing_id f = []\<rbrakk> \<Longrightarrow> call_frame d f (insert_inflight i d)"
  by (auto simp: call_frame_def insert_inflight_def some_id_def)

lemma call_subscribe_frame:
  "call_subscribe ops pkt d = (Ok f, d') \<Longrightarrow> call_frame d f d'"
  "call_unsubscribe ops upkt d = (Ok f, d') \<Longrightarrow> call_frame d f d'"
  by (auto simp: call_subscribe_def call_unsubscribe_def ControlResponse_packet_id_def
      intro: insert_frame dest: sink_then_frame split: if_splits)

lemma call_publish_ack_frame: "call_publish_ack alive packet d = (Ok f, d') \<Longrightarrow> call_frame d f d'"
  by (auto simp: call_publish_ack_def call_frame_def split: prod.splits outcome.splits)

lemma call_frame:
  assumes "call ops alive item d = (Ok f, d')"
  shows "call_frame d f d'"
proof (cases item)
  case (Item p)
  with assms show ?thesis
    by (cases p) (auto simp: control_call_def call_frame_same
        dest: call_publish_frame call_subscribe_frame call_publish_ack_frame)
qed (use assms in \<open>auto simp: control_call_def call_frame_same\<close>)

text \<open>What the answer of a service does to them.\<close>

definition poll_frame :: "u16 list \<Rightarrow> ('tx, 'io) Dispatcher \<Rightarrow> ('tx, 'io) Dispatcher \<Rightarrow> bool" where
  "poll_frame ids d d' \<longleftrightarrow>
     info_inflight (d_info d') = info_inflight (d_info d) - set ids \<and>
     max_topic_alias d' = max_topic_alias d \<and> max_receive d' = max_receive d \<and>
     info_aliases (d_info d') = info_aliases (d_info d)"

lemma poll_frame_Nil [simp]: "poll_frame [] d d"
  by (simp add: poll_frame_def)

lemma poll_frame_remove: "poll_frame (some_id i) d (remove_inflight i d)"
  by (auto simp: poll_frame_def some_id_def remove_inflight_def)

text \<open>Actions that leave the identifiers and aliases alone.\<close>

definition keeps_info :: "(('tx, 'io) Dispatcher, 'err, 'a) action \<Rightarrow> bool" where
  "keeps_info act \<longleftrightarrow> (\<forall>d r d'. act d = (r, d') \<longrightarrow>
     d_info d' = d_info d \<and> max_topic_alias d' = max_topic_alias d \<and> max_receive d' = max_receive d)"

lemma keeps_info_on_sink [intro]: "keeps_info (on_sink act)"
  unfolding keeps_info_def by (blast dest: on_sink_frame)

lemma keeps_info_pure [intro]: "keeps_info (Pair r)"
  by (simp add: keeps_info_def)

lemma keeps_info_then [intro]:
  "\<lbrakk>keeps_info act; \<And>x. keeps_info (k x)\<rbrakk> \<Longrightarrow> keeps_info (act_then act k)"
  unfolding keeps_info_def act_then_def
  by (clarsimp split: prod.splits outcome.splits)

lemma poll_frame_keeps:
  "\<lbrakk>keeps_info act; act d1 = (r, d'); poll_frame ids d d1\<rbrakk> \<Longrightarrow> poll_frame ids d d'"
  unfolding keeps_info_def poll_frame_def by metis

lemma control_poll_Inr:
  "control_poll ops (Inr result) cr d =
    act_then (if cr_error cr then (case r_packet result of Some pkt \<Rightarrow> on_sink (send ops pkt) | None \<Rightarrow> (\<lambda>d. (Ok (), d)))
              else (\<lambda>d. (Ok (), d)))
      (\<lambda>_. act_then (if r_disconnect result then on_sink (drop_sink ops) else (\<lambda>d. (Ok (), d)))
      (\<lambda>_ d. (Ok (Finished (Inr (if cr_error cr then None else r_packet result))), d)))
      (remove_inflight (cr_packet_id cr) d)"
  by (simp add: control_poll_def act_then_def)

lemma control_poll_frame:
  assumes "control_poll ops (Inr result) cr d = (r, d')"
  shows "poll_frame (some_id (cr_packet_id cr)) d d'"
  using assms unfolding control_poll_Inr
  by (rule poll_frame_keeps [rotated]) (auto intro: poll_frame_remove split: option.splits)

lemma publish_poll_frame:
  assumes "publish_poll try_from into res pr d = (Ok (Finished r), d')"
  shows "poll_frame (some_id (pr_packet_id pr)) d d'"
  using assms poll_frame_remove [of "pr_packet_id pr" d]
  by (auto simp: publish_poll_def Let_def split: sum.splits if_splits)

lemma publish_poll_Goes_on:
  assumes "publish_poll try_from into res pr d = (Ok (Goes_on pr'), d')"
  shows "d' = d" "\<exists>m. pr_state pr' = Control (ControlResponse_new m)"
  using assms by (auto simp: publish_poll_def Let_def split: sum.splits if_splits)

lemma control_poll_Inl:
  "control_poll ops (Inl err) cr d = (r, d') \<Longrightarrow> d' = d"
  by (auto simp: control_poll_def split: if_splits)

lemma control_poll_Goes_on:
  assumes "control_poll ops res cr d = (Ok (Goes_on cr'), d')"
  shows "d' = d" "cr_packet_id cr' = cr_packet_id cr"
proof -
  from assms obtain err where "res = Inl err"
    by (cases res) (auto simp: control_poll_Inr act_then_def split: prod.splits outcome.splits)
  with assms show "d' = d" "cr_packet_id cr' = cr_packet_id cr"
    by (auto simp: control_poll_def split: if_splits)
qed

lemma control_poll_Finished:
  assumes "control_poll ops res cr d = (Ok (Finished r), d')"
  obtains ids where "poll_frame ids d d'" "set ids \<subseteq> set (some_id (cr_packet_id cr))"
proof (cases res)
  case (Inl err)
  with assms have "d' = d" by (simp add: control_poll_Inl)
  with that [of "[]"] show ?thesis by simp
next
  case (Inr result)
  with assms that show ?thesis using control_poll_frame by blast
qed

lemma publishing_subseq: "subseq (publishing fs) (live_ids fs)"
proof (induction fs)
  case (Cons f fs)
  have "subseq (publishing_id f) (live_id f)"
    using publishing_id_cases [of f] by auto
  then show ?case using Cons by (simp add: list_emb_append_mono)
qed simp

text \<open>The invariant.\<close>

definition disp_inv :: "nat \<Rightarrow> u16 \<Rightarrow> ('tx, 'io) Dispatcher \<times> 'm Future list \<Rightarrow> bool" where
  "disp_inv receive alias_max s =
    (let (d, fs) = s in
      max_receive d = receive \<and> max_topic_alias d = alias_max \<and>
      exclusive live_id (info_inflight (d_info d)) fs \<and>
      (\<forall>a \<in> info_aliases (d_info d). a \<le> alias_max) \<and>
      (receive \<noteq> 0 \<longrightarrow> length (publishing fs) \<le> receive))"

lemma disp_inv_answer:
  assumes "disp_inv receive alias_max (d, xs @ f # ys)" "poll_frame ids d d'"
    and "set ids \<subseteq> set (live_id f)" "live_ids gs = []"
  shows "disp_inv receive alias_max (d', xs @ gs @ ys)"
proof -
  have "publishing gs = []"
    using assms(4) publishing_subseq [of gs] by simp
  moreover have "exclusive live_id (info_inflight (d_info d')) (xs @ gs @ ys)"
    using assms by (intro exclusive_answer [where ids = ids]) (simp_all add: disp_inv_def poll_frame_def)
  ultimately show ?thesis
    using assms by (auto simp: disp_inv_def poll_frame_def simp del: concat_eq_Nil_conv)
qed

lemma disp_inv_same:
  assumes "disp_inv receive alias_max (d, fs)" "live_ids gs = live_ids fs" "publishing gs = publishing fs"
    and "d_info d' = d_info d" "max_topic_alias d' = max_topic_alias d" "max_receive d' = max_receive d"
  shows "disp_inv receive alias_max (d', gs)"
  using assms by (simp add: disp_inv_def exclusive_def del: set_concat)

lemma disp_inv_call:
  assumes inv: "disp_inv receive alias_max (d, fs)"
    and frame: "call_frame d f d'"
  shows "disp_inv receive alias_max (d', fs @ [f])"
proof -
  have "length (publishing fs) \<le> length (live_ids fs)"
    by (rule list_emb_length [OF publishing_subseq])
  also have "\<dots> \<le> card (info_inflight (d_info d))"
    using inv by (intro exclusive_length) (auto simp: disp_inv_def)
  finally have "length (publishing fs) \<le> card (info_inflight (d_info d))" .
  moreover have "length (publishing_id f) \<le> 1"
    using frame publishing_id_cases [of f] by (auto simp: call_frame_def)
  moreover have "exclusive live_id (info_inflight (d_info d')) (fs @ [f])"
    using inv frame by (intro exclusive_snoc) (auto simp: disp_inv_def call_frame_def)
  ultimately show ?thesis
    using inv frame by (auto simp: disp_inv_def call_frame_def)
qed

lemma disp_inv_step:
  assumes "disp_step ops try_from into s s'" "disp_inv receive alias_max s"
  shows "disp_inv receive alias_max s'"
  using assms
proof (induction rule: disp_step.induct)
  case (call alive item d f d' fs)
  then show ?case by (blast intro: disp_inv_call call_frame)
next
  case (published pr pub res d r d' xs ys)
  then show ?case
    using disp_inv_answer [of receive alias_max d xs "PublishFuture pr" ys "some_id (pr_packet_id pr)" d' "[]"]
    by (simp add: publish_poll_frame)
next
  case (publish_failed pr pub res d pr' d' xs ys)
  then obtain m where "d' = d" "pr_state pr' = Control (ControlResponse_new m)"
    using publish_poll_Goes_on [of try_from into res pr d pr' d'] by auto
  then show ?case
    using publish_failed disp_inv_answer [of receive alias_max d xs "PublishFuture pr" ys "[]" d "[PublishFuture pr']"]
    by simp
next
  case (publish_controlled pr cr res2 d r d' xs ys)
  then obtain ids where "poll_frame ids d d'" "set ids \<subseteq> set (some_id (cr_packet_id cr))"
    using control_poll_Finished by metis
  then show ?case
    using publish_controlled disp_inv_answer [of receive alias_max d xs "PublishFuture pr" ys ids d' "[]"] by simp
next
  case (publish_control_failed pr cr res2 d cr' d' xs ys)
  from publish_control_failed(3) show ?case
    using control_poll_Goes_on [OF publish_control_failed(2)] publish_control_failed(1)
    by (auto elim!: disp_inv_same)
next
  case (controlled res2 cr d r d' xs ys)
  then obtain ids where "poll_frame ids d d'" "set ids \<subseteq> set (some_id (cr_packet_id cr))"
    using control_poll_Finished by metis
  then show ?case
    using controlled disp_inv_answer [of receive alias_max d xs "ControlFuture cr" ys ids d' "[]"] by simp
next
  case (control_failed res2 cr d cr' d' xs ys)
  from control_failed(2) show ?case
    using control_poll_Goes_on [OF control_failed(1)] by (auto elim!: disp_inv_same)
next
  case (ready d xs r ys)
  then show ?case by (rule disp_inv_same) simp_all
next
  case (sink d fs sink')
  then show ?case by (rule disp_inv_same) simp_all
qed

lemma disp_inv_reachable:
  assumes "disp_reachable ops try_from into receive alias_max s"
  shows "disp_inv receive alias_max s"
  using assms
proof (induction rule: disp_reachable.induct)
  case (start sink)
  then show ?case by (simp add: disp_inv_def Dispatcher_new_def)
next
  case (step s s')
  then show ?case by (blast intro: disp_inv_step)
qed

section \<open>Properties\<close>

text \<open>C14: Whatever packets arrive and in whatever order the services answer, no packet identifier is worked
  on by two handlers at once, every identifier that is worked on is in the in-flight set, every recorded
  topic alias is within the advertised maximum, and the publish service never works on more QoS 1 publishes
  than the advertised receive maximum.\<close>

theorem v5_dispatcher_invariant:
  assumes "disp_reachable ops try_from into receive alias_max (d, fs)"
  shows "distinct (live_ids fs) \<and> set (live_ids fs) \<subseteq> info_inflight (d_info d) \<and>
    (\<forall>a \<in> info_aliases (d_info d). a \<le> alias_max) \<and>
    (receive \<noteq> 0 \<longrightarrow> length (publishing fs) \<le> receive)"
  using disp_inv_reachable [OF assms] by (simp add: disp_inv_def exclusive_def)

definition test_publish :: "u16 option \<Rightarrow> bytestring \<Rightarrow> u16 option \<Rightarrow> Publish" where
  "test_publish pid tp al =
    \<lparr>pub_dup = False, pub_retain = False, pub_qos = (if pid = None then AtMostOnce else AtLeastOnce),
     pub_packet_id = pid, pub_topic = tp, pub_payload = [1],
     pub_properties = PublishProperties_default\<lparr>pp_topic_alias := al\<rparr>\<rparr>"

definition one_publish :: "(nat, bool) Dispatcher \<times> unit future list" where
  "one_publish =
    (let (r, d) = call no_publish_io (\<lambda>_. True) (Item (Packet.Publish (test_publish (Some 7) [0x61] (Some 2))))
       (Dispatcher_new (MqttShared_new True Codec_new 5) 1 3)
     in (d, case r :: (unit, unit future) outcome of Ok f \<Rightarrow> [f] | _ \<Rightarrow> []))"

lemmas one_publish_eval = one_publish_def call_publish_def accept_publish_def check_alias_def
  insert_inflight_def test_publish_def Dispatcher_new_def some_id_def

lemma one_publish_reachable:
  "disp_reachable no_publish_io (\<lambda>e :: unit. Inl e) (\<lambda>e. e) 1 3 one_publish"
proof -
  have "disp_step no_publish_io (\<lambda>e :: unit. Inl e) (\<lambda>e. e)
      (Dispatcher_new (MqttShared_new True Codec_new 5) 1 3, []) (fst one_publish, [] @ snd one_publish)"
    using disp_step.call [of no_publish_io "\<lambda>_. True" "Item (Packet.Publish (test_publish (Some 7) [0x61] (Some 2)))"
        "Dispatcher_new (MqttShared_new True Codec_new 5) 1 3" _ _ "\<lambda>e :: unit. Inl e" "\<lambda>e. e" "[]"]
    by (simp add: one_publish_eval)
  then show ?thesis
    using disp_reachable.step [OF disp_reachable.start] by fastforce
qed

theorem v5_dispatcher_invariant_witness:
  "live_ids (snd one_publish) = [7] \<and> info_aliases (d_info (fst one_publish)) = {2} \<and>
   distinct (live_ids (snd one_publish))"
  using v5_dispatcher_invariant [of no_publish_io _ _ 1 3 "fst one_publish" "snd one_publish"] one_publish_reachable
  by (simp add: one_publish_eval)

text \<open>The publishes that a dispatcher takes.\<close>

definition accepts :: "('tx, 'io) Dispatcher \<Rightarrow> Publish \<Rightarrow> bool" where
  "accepts d pub \<longleftrightarrow>
     (\<forall>pid. pub_packet_id pub = Some pid \<longrightarrow> pid \<notin> info_inflight (d_info d) \<and>
        (max_receive d = 0 \<or> card (info_inflight (d_info d)) < max_receive d)) \<and>
     (\<forall>a. pp_topic_alias (pub_properties pub) = Some a \<longrightarrow>
        (if pub_topic pub = [] then a \<in> info_aliases (d_info d) else a \<le> max_topic_alias d))"

text \<open>C15: Exactly these publishes reach the publish service: those without an identifier, or with one that is
  not in flight while fewer packets than the receive maximum are, whose topic alias, if any, is known when
  the topic is empty and within the advertised maximum otherwise.\<close>

theorem v5_publish_accepted:
  "(\<exists>pr. fst (call ops alive (Item (Packet.Publish pub)) d :: (unit, _) outcome \<times> _) = Ok (PublishFuture pr) \<and>
      pr_state pr = PublishResponseState.Publish pub) \<longleftrightarrow> accepts d pub"
  by (auto simp: accepts_def call_publish_def accept_publish_def check_alias_def insert_inflight_def
      proto_error_def act_then_def split: option.splits prod.splits outcome.splits)

text \<open>C16: When the publish service answers a QoS 1 publish, the dispatcher returns exactly one PUBACK with the
  publish's identifier and the service's reason, and the identifier is free again: no other handler has it,
  and the next publish with it is not refused as a duplicate.\<close>

theorem v5_publish_answered:
  assumes "disp_reachable ops try_from into receive alias_max (d, xs @ PublishFuture pr # ys)"
    and "pr_state pr = PublishResponseState.Publish pub" and "pr_packet_id pr \<noteq> 0"
  shows "\<exists>d'. publish_poll try_from into (Inr ack) pr d =
        (Ok (Finished (Inr (Some (Packet.PublishAck
          \<lparr>pa_packet_id = pr_packet_id pr, pa_reason_code = ack_reason_code ack,
           pa_properties = ack_properties ack, pa_reason_string = ack_reason_string ack\<rparr>)))) :: (unit, _) outcome, d') \<and>
      disp_reachable ops try_from into receive alias_max (d', xs @ ys) \<and>
      pr_packet_id pr \<notin> info_inflight (d_info d') \<and> pr_packet_id pr \<notin> set (live_ids (xs @ ys))"
proof (intro exI conjI)
  let ?d' = "remove_inflight (pr_packet_id pr) d"
  show poll: "publish_poll try_from into (Inr ack) pr d =
        (Ok (Finished (Inr (Some (Packet.PublishAck
          \<lparr>pa_packet_id = pr_packet_id pr, pa_reason_code = ack_reason_code ack,
           pa_properties = ack_properties ack, pa_reason_string = ack_reason_string ack\<rparr>)))) :: (unit, _) outcome, ?d')" for ack
    using assms(3) by (simp add: publish_poll_def)
  show "disp_reachable ops try_from into receive alias_max (?d', xs @ ys)"
    by (rule disp_reachable.step [OF assms(1) disp_step.published [OF assms(2) poll]])
  show "pr_packet_id pr \<notin> info_inflight (d_info ?d')"
    using assms(3) by (simp add: remove_inflight_def)
  show "pr_packet_id pr \<notin> set (live_ids (xs @ ys))"
    using disp_inv_reachable [OF assms(1)] assms(2, 3)
    by (intro exclusive_fresh [of live_id _ xs "PublishFuture pr" ys]) (auto simp: disp_inv_def some_id_def)
qed

theorem v5_publish_answered_witness:
  "\<exists>pr d'. snd one_publish = [PublishFuture pr] \<and>
     publish_poll (\<lambda>e :: unit. Inl e) (\<lambda>e. e) (Inr (PublishAck_new PublishAckReason.Success)) pr (fst one_publish) =
       (Ok (Finished (Inr (Some (Packet.PublishAck
          \<lparr>pa_packet_id = 7, pa_reason_code = PublishAckReason.Success, pa_properties = [], pa_reason_string = None\<rparr>))))
          :: (unit, _) outcome, d') \<and> 7 \<notin> info_inflight (d_info d')"
proof -
  let ?pr = "\<lparr>pr_packet_id = 7, pr_state = PublishResponseState.Publish (test_publish (Some 7) [0x61] (Some 2))\<rparr>"
  have fs: "snd one_publish = [PublishFuture ?pr]"
    by (simp add: one_publish_eval)
  have "disp_reachable no_publish_io (\<lambda>e :: unit. Inl e) (\<lambda>e. e) 1 3 (fst one_publish, [] @ PublishFuture ?pr # [])"
    using one_publish_reachable by (simp add: fs [symmetric])
  from v5_publish_answered [OF this, of _ "PublishAck_new PublishAckReason.Success"] fs show ?thesis
    by (auto simp: PublishAck_new_def)
qed

end
