(* ===== verification/V5_Client_Dispatcher.thy ===== *)
theory V5_Client_Dispatcher
  imports V5_Dispatcher
begin

text \<open>
  The MQTT 5 client dispatcher (\<^verbatim>\<open>v5/client/dispatcher.rs\<close>) with its control messages
  (\<^verbatim>\<open>v5/client/control.rs\<close>). Its state has the fields of the server dispatcher, and the futures are the
  same over the client's control messages. A publish goes to the publish service first; a publish that the
  service gives back goes to the control service.
\<close>

section \<open>Control messages\<close>

datatype 'e ControlMessage =
    Publish Publish
  | Disconnect Disconnect
  | Error "'e Error"
  | ProtocolError ProtocolError
  | Closed bool

definition ControlMessage_error :: "'e \<Rightarrow> 'e ControlMessage" where
  "ControlMessage_error err = Error (Error_new err)"

definition ControlMessage_proto_error :: "Errors.ProtocolError \<Rightarrow> 'e ControlMessage" where
  "ControlMessage_proto_error err = ProtocolError (ProtocolError_new err)"

definition ControlMessage_disconnect :: "Disconnect \<Rightarrow> ControlResult" where
  "ControlMessage_disconnect pkt = \<lparr>r_packet = Some (Packet.Disconnect pkt), r_disconnect = True\<rparr>"

definition Publish_ack :: "V5_PubAcks.PublishAck option \<Rightarrow> ControlResult" where
  "Publish_ack response = \<lparr>r_packet = map_option Packet.PublishAck response, r_disconnect = False\<rparr>"

section \<open>Calls\<close>

type_synonym 'e future = "'e ControlMessage Future"

definition Dispatcher_new :: "('tx, 'io) shared \<Rightarrow> nat \<Rightarrow> u16 \<Rightarrow> ('tx, 'io) Dispatcher" where
  "Dispatcher_new sink receive alias_max =
    \<lparr>d_sink = sink, d_shutdown = False, max_receive = receive, max_topic_alias = alias_max,
     d_info = \<lparr>info_inflight = {}, info_aliases = {}\<rparr>\<rparr>"

definition ControlResponse_new :: "'e ControlMessage \<Rightarrow> 'e ControlMessage ControlResponse" where
  "ControlResponse_new pkt =
    \<lparr>cr_call = pkt, cr_error = (case pkt of Error _ \<Rightarrow> True | ProtocolError _ \<Rightarrow> True | _ \<Rightarrow> False),
     cr_packet_id = 0\<rparr>"

definition ControlResponse_packet_id ::
  "u16 \<Rightarrow> 'e ControlMessage ControlResponse \<Rightarrow> 'e ControlMessage ControlResponse" where
  "ControlResponse_packet_id i cr = cr\<lparr>cr_packet_id := i\<rparr>"

definition proto_error :: "Errors.ProtocolError \<Rightarrow> 'e future" where
  "proto_error err = ControlFuture (ControlResponse_new (ControlMessage_proto_error err))"

text \<open>The checks of a publish (receive maximum, identifier, topic alias) are those of the server.\<close>

definition accept_publish :: "Publish \<Rightarrow> (('tx, 'io) Dispatcher, 'err, 'e future) action" where
  "accept_publish pub d =
    (case check_alias pub d of
       Inl err \<Rightarrow> (Ok (proto_error err), d)
     | Inr d \<Rightarrow>
         (Ok (PublishFuture
            \<lparr>pr_packet_id = (case pub_packet_id pub of Some i \<Rightarrow> i | None \<Rightarrow> 0),
             pr_state = PublishResponseState.Publish pub\<rparr>), d))"

definition call_publish ::
  "('io, Packet) io_ops \<Rightarrow> Publish \<Rightarrow> (('tx, 'io) Dispatcher, 'err, 'e future) action" where
  "call_publish ops pub d =
    (case pub_packet_id pub of
       Some pid \<Rightarrow>
         if max_receive d \<noteq> 0 \<and> card (info_inflight (d_info d)) \<ge> max_receive d
         then (Ok (proto_error ProtocolError.ReceiveMaximumExceeded), d)
         else if pid \<in> info_inflight (d_info d)
         then act_then
                (on_sink (send ops (Packet.PublishAck (PublishAck_default\<lparr>pa_packet_id := pid,
                   pa_reason_code := PublishAckReason.PacketIdentifierInUse\<rparr>))))
                (\<lambda>_ d. (Ok (ReadyPacket None), d)) d
         else accept_publish pub (insert_inflight pid d)
     | None \<Rightarrow> accept_publish pub d)"

definition call_ack :: "('tx \<Rightarrow> bool) \<Rightarrow> Ack \<Rightarrow> (('tx, 'io) Dispatcher, 'err, 'e future) action" where
  "call_ack alive ack d =
    (case pkt_ack alive ack (d_sink d) of
       (Ok _, sink) \<Rightarrow> (Ok (ReadyPacket None), d\<lparr>d_sink := sink\<rparr>)
     | (Err err, sink) \<Rightarrow> (Ok (proto_error err), d\<lparr>d_sink := sink\<rparr>)
     | (Panic, sink) \<Rightarrow> (Panic, d\<lparr>d_sink := sink\<rparr>)
     | (Diverge, sink) \<Rightarrow> (Diverge, d\<lparr>d_sink := sink\<rparr>))"

definition control_call :: "'e ControlMessage \<Rightarrow> (('tx, 'io) Dispatcher, 'err, 'e future) action" where
  "control_call pkt d = (Ok (ControlFuture (ControlResponse_new pkt)), d)"

definition unexpected :: "u8 \<Rightarrow> string \<Rightarrow> (('tx, 'io) Dispatcher, 'err, 'e future) action" where
  "unexpected pt msg = control_call (ControlMessage_proto_error (ProtocolError.Unexpected pt msg))"

fun call ::
  "('io, Packet) io_ops \<Rightarrow> ('tx \<Rightarrow> bool) \<Rightarrow> Packet DispatchItem \<Rightarrow>
   (('tx, 'io) Dispatcher, 'err, 'e future) action" where
  "call ops alive (Item (Packet.Publish pub)) = call_publish ops pub"
| "call ops alive (Item (Packet.PublishAck packet)) = call_ack alive (Ack.Publish packet)"
| "call ops alive (Item (Packet.SubscribeAck packet)) = call_ack alive (Ack.Subscribe packet)"
| "call ops alive (Item (Packet.UnsubscribeAck packet)) = call_ack alive (Ack.Unsubscribe packet)"
| "call ops alive (Item PingRequest) = (\<lambda>d. (Ok (ReadyPacket (Some PingResponse)), d))"
| "call ops alive (Item (Packet.Disconnect pkt)) = control_call (Disconnect pkt)"
| "call ops alive (Item (Packet.Auth _)) = unexpected AUTH ''Auth packet is not supported''"
| "call ops alive (Item (Packet.Subscribe _)) = unexpected SUBSCRIBE ''Subscribe packet is not supported''"
| "call ops alive (Item (Packet.Unsubscribe _)) = unexpected UNSUBSCRIBE ''Unsubscribe packet is not supported''"
| "call ops alive (Item _) = (\<lambda>d. (Ok (ReadyPacket None), d))"
| "call ops alive (EncoderError err) = control_call (ControlMessage_proto_error (ProtocolError.Encode err))"
| "call ops alive (DecoderError err) = control_call (ControlMessage_proto_error (Decode err))"
| "call ops alive (IoError err) = control_call (ControlMessage_proto_error (Io err))"
| "call ops alive DispatchItem.KeepAliveTimeout =
    control_call (ControlMessage_proto_error ProtocolError.KeepAliveTimeout)"
| "call ops alive WBackPressureEnabled = (\<lambda>d. (Ok (ReadyPacket None), d))"
| "call ops alive WBackPressureDisabled = (\<lambda>d. (Ok (ReadyPacket None), d))"

section \<open>Readiness and shutdown\<close>

definition poll_ready :: "('e + unit) option \<Rightarrow> ('e + unit) option \<Rightarrow> ('e MqttError + unit) option" where
  "poll_ready pub control =
    both_ready (map_option (map_sum Service id) pub) (map_option (map_sum Service id) control)"

definition poll_shutdown ::
  "('io, Packet) io_ops \<Rightarrow> bool \<Rightarrow> (('tx, 'io) Dispatcher, 'err, 'e ControlMessage option) action" where
  "poll_shutdown ops is_error d =
    (if \<not> d_shutdown d
     then act_then (on_sink (drop_sink ops))
            (\<lambda>_ d. (Ok (Some (Closed is_error)), d\<lparr>d_shutdown := True\<rparr>)) d
     else (Ok None, d))"

section \<open>Futures\<close>

definition control_poll ::
  "('io, Packet) io_ops \<Rightarrow> 'e + ControlResult \<Rightarrow> 'e ControlMessage ControlResponse \<Rightarrow>
   (('tx, 'io) Dispatcher, 'err, ('e, 'e ControlMessage ControlResponse) polled) action" where
  "control_poll ops res cr d =
    (case res of
       Inr result \<Rightarrow>
         (let d = remove_inflight (cr_packet_id cr) d in
          if cr_error cr
          then act_then (case r_packet result of Some pkt \<Rightarrow> on_sink (send ops pkt) | None \<Rightarrow> (\<lambda>d. (Ok (), d))) (\<lambda>_.
               act_then (if r_disconnect result then on_sink (drop_sink ops) else (\<lambda>d. (Ok (), d))) (\<lambda>_ d.
               (Ok (Finished (Inr None)), d))) d
          else act_then (if r_disconnect result then on_sink (drop_sink ops) else (\<lambda>d. (Ok (), d))) (\<lambda>_ d.
               (Ok (Finished (Inr (r_packet result))), d)) d)
     | Inl err \<Rightarrow>
         if cr_error cr then (Ok (Finished (Inl (Service err))), d)
         else (Ok (Goes_on (cr\<lparr>cr_error := True, cr_call := ControlMessage_error err\<rparr>)), d))"

text \<open>The publish service has answered: it gives the publish back, or acknowledges it, or fails.\<close>

definition publish_poll ::
  "'e + (Publish + PublishAck) \<Rightarrow> 'e ControlMessage PublishResponse \<Rightarrow>
   (('tx, 'io) Dispatcher, 'err, ('e, 'e ControlMessage PublishResponse) polled) action" where
  "publish_poll res pr d =
    (case res of
       Inr (Inr ack) \<Rightarrow>
         if pr_packet_id pr \<noteq> 0
         then (Ok (Finished (Inr (Some (Packet.PublishAck
                \<lparr>pa_packet_id = pr_packet_id pr, pa_reason_code = ack_reason_code ack,
                 pa_properties = ack_properties ack, pa_reason_string = ack_reason_string ack\<rparr>)))),
               remove_inflight (pr_packet_id pr) d)
         else (Ok (Finished (Inr None)), d)
     | Inr (Inl pkt) \<Rightarrow>
         (Ok (Goes_on (pr\<lparr>pr_state := Control (ControlResponse_packet_id (pr_packet_id pr)
            (ControlResponse_new (Publish pkt)))\<rparr>)), d)
     | Inl e \<Rightarrow> (Ok (Goes_on (pr\<lparr>pr_state := Control (ControlResponse_new (ControlMessage_error e))\<rparr>)), d))"

section \<open>The dispatcher with its futures as a state machine\<close>

inductive disp_step ::
  "('io, Packet) io_ops \<Rightarrow> ('tx, 'io) Dispatcher \<times> 'e future list \<Rightarrow>
   ('tx, 'io) Dispatcher \<times> 'e future list \<Rightarrow> bool" for ops where
  call: "call ops alive item d = (Ok f :: (unit, 'e future) outcome, d') \<Longrightarrow> disp_step ops (d, fs) (d', fs @ [f])"
| published: "\<lbrakk>pr_state pr = PublishResponseState.Publish pub;
     publish_poll res pr d = (Ok (Finished r) :: (unit, _) outcome, d')\<rbrakk> \<Longrightarrow>
    disp_step ops (d, xs @ PublishFuture pr # ys) (d', xs @ ys)"
| publish_goes_on: "\<lbrakk>pr_state pr = PublishResponseState.Publish pub;
     publish_poll res pr d = (Ok (Goes_on pr') :: (unit, _) outcome, d')\<rbrakk> \<Longrightarrow>
    disp_step ops (d, xs @ PublishFuture pr # ys) (d', xs @ PublishFuture pr' # ys)"
| publish_controlled: "\<lbrakk>pr_state pr = Control cr;
     control_poll ops res2 cr d = (Ok (Finished r) :: (unit, _) outcome, d')\<rbrakk> \<Longrightarrow>
    disp_step ops (d, xs @ PublishFuture pr # ys) (d', xs @ ys)"
| publish_control_failed: "\<lbrakk>pr_state pr = Control cr;
     control_poll ops res2 cr d = (Ok (Goes_on cr') :: (unit, _) outcome, d')\<rbrakk> \<Longrightarrow>
    disp_step ops (d, xs @ PublishFuture pr # ys)
      (d', xs @ PublishFuture (pr\<lparr>pr_state := Control cr'\<rparr>) # ys)"
| controlled: "control_poll ops res2 cr d = (Ok (Finished r) :: (unit, _) outcome, d') \<Longrightarrow>
    disp_step ops (d, xs @ ControlFuture cr # ys) (d', xs @ ys)"
| control_failed: "control_poll ops res2 cr d = (Ok (Goes_on cr') :: (unit, _) outcome, d') \<Longrightarrow>
    disp_step ops (d, xs @ ControlFuture cr # ys) (d', xs @ ControlFuture cr' # ys)"
| ready: "disp_step ops (d, xs @ ReadyPacket r # ys) (d, xs @ ys)"
| sink: "disp_step ops (d, fs) (d\<lparr>d_sink := sink'\<rparr>, fs)"

inductive disp_reachable ::
  "('io, Packet) io_ops \<Rightarrow> nat \<Rightarrow> u16 \<Rightarrow> ('tx, 'io) Dispatcher \<times> 'e future list \<Rightarrow> bool"
  for ops receive alias_max where
  start: "disp_reachable ops receive alias_max (Dispatcher_new sink receive alias_max, [])"
| step: "\<lbrakk>disp_reachable ops receive alias_max s; disp_step ops s s'\<rbrakk> \<Longrightarrow>
    disp_reachable ops receive alias_max s'"

section \<open>Lemmas\<close>

lemma client_live_id_new [simp]:
  "live_id (ControlFuture (ControlResponse_new m)) = []"
  "cr_packet_id (ControlResponse_new m) = 0"
  "live_id (proto_error err) = []"
  by (simp_all add: ControlResponse_new_def some_id_def proto_error_def)

lemma client_accept_frame:
  assumes "accept_publish pub d = (Ok f, d')"
  shows "max_topic_alias d' = max_topic_alias d" "max_receive d' = max_receive d"
    "info_inflight (d_info d') = info_inflight (d_info d)"
    "info_aliases (d_info d') \<subseteq> info_aliases (d_info d) \<union> {a. a \<le> max_topic_alias d}"
    "live_id f = [] \<or> (\<exists>i. pub_packet_id pub = Some i \<and> live_id f = [i])"
  using assms
  by (auto simp: accept_publish_def check_alias_def some_id_def split: option.splits if_splits)

lemma client_accept_new_frame:
  "\<lbrakk>max_receive d = 0 \<or> card (info_inflight (d_info d)) < max_receive d;
    accept_publish pub (insert_inflight pid d) = (Ok f, d'); pub_packet_id pub = Some pid;
    pid \<notin> info_inflight (d_info d)\<rbrakk> \<Longrightarrow> call_frame d f d'"
  using client_accept_frame [of pub "insert_inflight pid d" f d']
  by (auto simp: call_frame_def insert_inflight_def)

lemma client_accept_same_frame:
  "\<lbrakk>accept_publish pub d = (Ok f, d'); pub_packet_id pub = None\<rbrakk> \<Longrightarrow> call_frame d f d'"
  using client_accept_frame [of pub d f d'] by (auto simp: call_frame_def)

lemma client_call_publish_frame: "call_publish ops pub d = (Ok f, d') \<Longrightarrow> call_frame d f d'"
  unfolding call_publish_def
  by (auto simp: call_frame_same not_le split: option.splits if_splits
      intro: client_accept_new_frame client_accept_same_frame dest: sink_then_frame)

lemma client_call_ack_frame: "call_ack alive ack d = (Ok f, d') \<Longrightarrow> call_frame d f d'"
  by (auto simp: call_ack_def call_frame_def split: prod.splits outcome.splits)

lemma client_call_frame:
  assumes "call ops alive item d = (Ok f, d')"
  shows "call_frame d f d'"
proof (cases item)
  case (Item p)
  with assms show ?thesis
    by (cases p) (auto simp: unexpected_def control_call_def call_frame_same
        dest: client_call_publish_frame client_call_ack_frame)
qed (use assms in \<open>auto simp: control_call_def call_frame_same\<close>)

lemma client_control_poll_Inr:
  "control_poll ops (Inr result) cr d =
    act_then (if cr_error cr then (case r_packet result of Some pkt \<Rightarrow> on_sink (send ops pkt) | None \<Rightarrow> (\<lambda>d. (Ok (), d)))
              else (\<lambda>d. (Ok (), d)))
      (\<lambda>_. act_then (if r_disconnect result then on_sink (drop_sink ops) else (\<lambda>d. (Ok (), d)))
      (\<lambda>_ d. (Ok (Finished (Inr (if cr_error cr then None else r_packet result))), d)))
      (remove_inflight (cr_packet_id cr) d)"
  by (simp add: control_poll_def act_then_def)

lemma client_control_poll_frame:
  assumes "control_poll ops (Inr result) cr d = (r, d')"
  shows "poll_frame (some_id (cr_packet_id cr)) d d'"
  using assms unfolding client_control_poll_Inr
  by (rule poll_frame_keeps [rotated]) (auto intro: poll_frame_remove split: option.splits)

lemma client_control_poll_Inl: "control_poll ops (Inl err) cr d = (r, d') \<Longrightarrow> d' = d"
  by (auto simp: control_poll_def split: if_splits)

lemma client_control_poll_Goes_on:
  assumes "control_poll ops res cr d = (Ok (Goes_on cr'), d')"
  shows "d' = d" "cr_packet_id cr' = cr_packet_id cr"
proof -
  from assms obtain err where "res = Inl err"
    by (cases res) (auto simp: client_control_poll_Inr act_then_def split: prod.splits outcome.splits)
  with assms show "d' = d" "cr_packet_id cr' = cr_packet_id cr"
    by (auto simp: control_poll_def split: if_splits)
qed

lemma client_control_poll_Finished:
  assumes "control_poll ops res cr d = (Ok (Finished r), d')"
  obtains ids where "poll_frame ids d d'" "set ids \<subseteq> set (some_id (cr_packet_id cr))"
proof (cases res)
  case (Inl err)
  with assms have "d' = d" by (simp add: client_control_poll_Inl)
  with that [of "[]"] show ?thesis by simp
next
  case (Inr result)
  with assms that show ?thesis using client_control_poll_frame by blast
qed

lemma client_publish_poll_frame:
  assumes "publish_poll res pr d = (Ok (Finished r), d')"
  shows "poll_frame (some_id (pr_packet_id pr)) d d'"
  using assms poll_frame_remove [of "pr_packet_id pr" d]
  by (auto simp: publish_poll_def split: sum.splits if_splits)

text \<open>A publish that goes on to the control service keeps its identifier, or gives it up.\<close>

lemma client_publish_poll_Goes_on:
  assumes "publish_poll res pr d = (Ok (Goes_on pr'), d')"
  shows "d' = d" "publishing_id (PublishFuture pr') = []"
    "live_id (PublishFuture pr') \<in> {[], some_id (pr_packet_id pr)}"
  using assms by (auto simp: publish_poll_def ControlResponse_packet_id_def split: sum.splits if_splits)

lemma disp_inv_hand_over:
  assumes "disp_inv receive alias_max (d, xs @ f # ys)"
    and "live_id g \<in> {[], live_id f}" "publishing_id g = []"
  shows "disp_inv receive alias_max (d, xs @ g # ys)"
  using assms by (auto simp: disp_inv_def exclusive_def)

lemma client_disp_inv_step:
  assumes "disp_step ops s s'" "disp_inv receive alias_max s"
  shows "disp_inv receive alias_max s'"
  using assms
proof (induction rule: disp_step.induct)
  case (call alive item d f d' fs)
  then show ?case by (blast intro: disp_inv_call client_call_frame)
next
  case (published pr pub res d r d' xs ys)
  then show ?case
    using disp_inv_answer [of receive alias_max d xs "PublishFuture pr" ys "some_id (pr_packet_id pr)" d' "[]"]
    by (simp add: client_publish_poll_frame)
next
  case (publish_goes_on pr pub res d pr' d' xs ys)
  then show ?case
    using disp_inv_hand_over [of receive alias_max d xs "PublishFuture pr" ys "PublishFuture pr'"]
      client_publish_poll_Goes_on [OF publish_goes_on(2)] by simp
next
  case (publish_controlled pr cr res2 d r d' xs ys)
  then obtain ids where "poll_frame ids d d'" "set ids \<subseteq> set (some_id (cr_packet_id cr))"
    using client_control_poll_Finished by metis
  then show ?case
    using publish_controlled disp_inv_answer [of receive alias_max d xs "PublishFuture pr" ys ids d' "[]"] by simp
next
  case (publish_control_failed pr cr res2 d cr' d' xs ys)
  from publish_control_failed(3) show ?case
    using client_control_poll_Goes_on [OF publish_control_failed(2)] publish_control_failed(1)
    by (auto elim!: disp_inv_same)
next
  case (controlled res2 cr d r d' xs ys)
  then obtain ids where "poll_frame ids d d'" "set ids \<subseteq> set (some_id (cr_packet_id cr))"
    using client_control_poll_Finished by metis
  then show ?case
    using controlled disp_inv_answer [of receive alias_max d xs "ControlFuture cr" ys ids d' "[]"] by simp
next
  case (control_failed res2 cr d cr' d' xs ys)
  from control_failed(2) show ?case
    using client_control_poll_Goes_on [OF control_failed(1)] by (auto elim!: disp_inv_same)
next
  case (ready d xs r ys)
  then show ?case by (rule disp_inv_same) simp_all
next
  case (sink d fs sink')
  then show ?case by (rule disp_inv_same) simp_all
qed

lemma client_disp_inv_reachable:
  assumes "disp_reachable ops receive alias_max s"
  shows "disp_inv receive alias_max s"
  using assms
proof (induction rule: disp_reachable.induct)
  case (start sink)
  then show ?case by (simp add: disp_inv_def Dispatcher_new_def)
next
  case (step s s')
  then show ?case by (blast intro: client_disp_inv_step)
qed

section \<open>Properties\<close>

text \<open>C21: The client keeps the identifiers of the server's publishes apart as the server does: in every
  reachable state no packet identifier is worked on by two handlers, all of them are in the in-flight set,
  the recorded topic aliases are within the advertised maximum, and the publish service never works on more
  QoS 1 publishes than the receive maximum, also when publishes move on to the control service.\<close>

theorem v5_client_invariant:
  assumes "disp_reachable ops receive alias_max (d, fs)"
  shows "distinct (live_ids fs) \<and> set (live_ids fs) \<subseteq> info_inflight (d_info d) \<and>
    (\<forall>a \<in> info_aliases (d_info d). a \<le> alias_max) \<and>
    (receive \<noteq> 0 \<longrightarrow> length (publishing fs) \<le> receive)"
  using client_disp_inv_reachable [OF assms] by (simp add: disp_inv_def exclusive_def)

text \<open>A publish that the publish service has given back: the control service works on it.\<close>

definition given_back :: "(nat, bool) Dispatcher \<times> unit future list" where
  "given_back =
    (insert_inflight 7 (Dispatcher_new (MqttShared_new True Codec_new 5) 1 3),
     [PublishFuture \<lparr>pr_packet_id = 7, pr_state = Control \<lparr>cr_call = Publish (test_publish (Some 7) [0x61] None),
        cr_error = False, cr_packet_id = 7\<rparr>\<rparr>])"

lemma given_back_reachable: "disp_reachable no_publish_io 1 3 given_back"
proof -
  let ?d = "Dispatcher_new (MqttShared_new True Codec_new 5) 1 3 :: (nat, bool) Dispatcher"
  let ?pub = "test_publish (Some 7) [0x61] None"
  let ?pr = "\<lparr>pr_packet_id = 7, pr_state = PublishResponseState.Publish ?pub\<rparr>"
  have "disp_step no_publish_io (?d, []) (insert_inflight 7 ?d, [] @ [PublishFuture ?pr :: unit future])"
    by (rule disp_step.call [of _ "\<lambda>_. True" "Item (Packet.Publish ?pub)"])
       (simp add: call_publish_def accept_publish_def check_alias_def test_publish_def PublishProperties_default_def
         Dispatcher_new_def)
  then have "disp_reachable no_publish_io 1 3 (insert_inflight 7 ?d, [] @ PublishFuture ?pr # [] :: unit future list)"
    using disp_reachable.step [OF disp_reachable.start] by fastforce
  moreover have "disp_step no_publish_io (insert_inflight 7 ?d, [] @ PublishFuture ?pr # [])
      (insert_inflight 7 ?d, [] @ snd given_back)"
    unfolding given_back_def snd_conv
    by (rule disp_step.publish_goes_on [of _ ?pub "Inr (Inl ?pub)"])
       (simp_all add: publish_poll_def ControlResponse_packet_id_def ControlResponse_new_def)
  ultimately show ?thesis
    using disp_reachable.step by (fastforce simp: given_back_def)
qed

theorem v5_client_invariant_witness:
  "live_ids (snd given_back) = [7] \<and> 7 \<in> info_inflight (d_info (fst given_back)) \<and> publishing (snd given_back) = []"
  using v5_client_invariant [of no_publish_io 1 3 "fst given_back" "snd given_back"] given_back_reachable
  by (simp add: given_back_def some_id_def)

end
