(* ===== verification/V5_Connection.thy ===== *)
theory V5_Connection
  imports Connection V5_Client_Dispatcher
begin

text \<open>
  A whole MQTT 5 connection: the sink and the dispatcher of a client (\<^verbatim>\<open>v5/sink.rs\<close>,
  \<^verbatim>\<open>v5/client/dispatcher.rs\<close>), and the dispatcher of a server (\<^verbatim>\<open>v5/dispatcher.rs\<close>) in the transport loop, as
  an instance of the contract of \<open>Connection\<close>. What MQTT 5 adds are the receive maximum and the topic aliases.

  The connection is open and in use: the services answer and do not ask for a disconnect, and a packet that
  cannot be encoded is not part of a run. The sink does not look at topic aliases, nor does a sender that is woken up
  look at the credit again; \<open>within_limits\<close> is what the application has to keep to because of that.
\<close>

section \<open>Packets\<close>

text \<open>The packets that a client's sink writes and those that answer them, with the identifier and the kind
  of the request.\<close>

fun is_request :: "Packet \<Rightarrow> bool" where
  "is_request (Packet.Publish pub) = (pub_packet_id pub \<noteq> Some 0)"
| "is_request (Packet.Subscribe pkt) = (sub_packet_id pkt \<noteq> 0)"
| "is_request (Packet.Unsubscribe pkt) = (un_packet_id pkt \<noteq> 0)"
| "is_request PingRequest = True"
| "is_request _ = False"

fun request_key :: "Packet \<Rightarrow> (u16 \<times> AckType) list" where
  "request_key (Packet.Publish pub) = (case pub_packet_id pub of Some i \<Rightarrow> [(i, AckType.Publish)] | None \<Rightarrow> [])"
| "request_key (Packet.Subscribe pkt) = [(sub_packet_id pkt, AckType.Subscribe)]"
| "request_key (Packet.Unsubscribe pkt) = [(un_packet_id pkt, AckType.Unsubscribe)]"
| "request_key _ = []"

fun is_reply :: "Packet \<Rightarrow> bool" where
  "is_reply (Packet.PublishAck _) = True"
| "is_reply (Packet.SubscribeAck _) = True"
| "is_reply (Packet.UnsubscribeAck _) = True"
| "is_reply PingResponse = True"
| "is_reply _ = False"

fun reply_key :: "Packet \<Rightarrow> (u16 \<times> AckType) list" where
  "reply_key (Packet.PublishAck pkt) = [(pa_packet_id pkt, AckType.Publish)]"
| "reply_key (Packet.SubscribeAck pkt) = [(sa_packet_id pkt, AckType.Subscribe)]"
| "reply_key (Packet.UnsubscribeAck pkt) = [(ua_packet_id pkt, AckType.Unsubscribe)]"
| "reply_key _ = []"

text \<open>The topic alias that a packet gives a topic, and the sequences of packets whose aliases are known: a publish
  without a topic has an alias that has got one, and no alias that gets one is above the maximum.\<close>

fun new_alias :: "Packet \<Rightarrow> u16 set" where
  "new_alias (Packet.Publish pub) =
    (if pub_topic pub = [] then {} else set_option (pp_topic_alias (pub_properties pub)))"
| "new_alias _ = {}"

fun alias_known :: "u16 \<Rightarrow> u16 set \<Rightarrow> Packet \<Rightarrow> bool" where
  "alias_known m A (Packet.Publish pub) =
    (case pp_topic_alias (pub_properties pub) of
       None \<Rightarrow> True | Some a \<Rightarrow> if pub_topic pub = [] then a \<in> A else a \<le> m)"
| "alias_known m A _ = True"

fun aliases_known :: "u16 \<Rightarrow> u16 set \<Rightarrow> Packet list \<Rightarrow> bool" where
  "aliases_known m A [] = True"
| "aliases_known m A (p # ps) = (alias_known m A p \<and> aliases_known m (A \<union> new_alias p) ps)"

abbreviation new_aliases :: "Packet list \<Rightarrow> u16 set" where
  "new_aliases ps \<equiv> \<Union> (set (map new_alias ps))"

lemma aliases_known_append:
  "aliases_known m A (ps @ qs) \<longleftrightarrow> aliases_known m A ps \<and> aliases_known m (A \<union> new_aliases ps) qs"
  by (induction ps arbitrary: A) (auto simp: Un_assoc)

definition legal :: "u16 \<Rightarrow> Packet list \<Rightarrow> bool" where
  "legal m ps \<longleftrightarrow> list_all is_request ps \<and> aliases_known m {} ps"

section \<open>The client\<close>

text \<open>What the application can do with the sink, with the requests that wait for an acknowledgement
  afterwards.  The codec refuses a publish with QoS 0 that has an identifier.\<close>

inductive client_step ::
  "('io, Packet) io_ops \<Rightarrow> ('tx, 'io) shared \<Rightarrow> ('tx \<times> AckType) list \<Rightarrow> ('tx, 'io) shared \<Rightarrow> bool" for ops where
  at_most_once: "\<lbrakk>send_at_most_once ops pkt sh = (Ok (), sh'); pub_packet_id pkt = None\<rbrakk> \<Longrightarrow> client_step ops sh [] sh'"
| at_least_once: "send_at_least_once ops wtx tx pkt sh = (Ok r, sh') \<Longrightarrow>
    client_step ops sh (reqs_of AckType.Publish r) sh'"
| at_least_once_woken: "send_at_least_once_woken ops True tx pkt sh = (Ok r, sh') \<Longrightarrow>
    client_step ops sh (reqs_of AckType.Publish r) sh'"
| subscribe: "subscribe_send ops wtx tx b sh = (Ok r, sh') \<Longrightarrow>
    client_step ops sh (reqs_of AckType.Subscribe r) sh'"
| subscribe_woken: "subscribe_send_woken ops True tx b sh = (Ok r, sh') \<Longrightarrow>
    client_step ops sh (reqs_of AckType.Subscribe r) sh'"
| unsubscribe: "unsubscribe_send ops wtx tx u sh = (Ok r, sh') \<Longrightarrow>
    client_step ops sh (reqs_of AckType.Unsubscribe r) sh'"
| unsubscribe_woken: "unsubscribe_send_woken ops True tx u sh = (Ok r, sh') \<Longrightarrow>
    client_step ops sh (reqs_of AckType.Unsubscribe r) sh'"
| ready: "ready ops tx sh = (Ok r :: (unit, _) outcome, sh') \<Longrightarrow> client_step ops sh [] sh'"
| ping: "ping ops sh = (Ok True :: (unit, _) outcome, sh') \<Longrightarrow> client_step ops sh [] sh'"

section \<open>The server\<close>

text \<open>What a handler of control messages answers when it does not ask for a disconnect.\<close>

fun answer_to :: "'e V5_Control.ControlMessage \<Rightarrow> ControlResult \<Rightarrow> bool" where
  "answer_to V5_Control.ControlMessage.Ping k = (k = Ping_ack)"
| "answer_to (V5_Control.ControlMessage.Subscribe s) k =
    (\<exists>ack. sa_packet_id ack = sa_packet_id (s_result s) \<and> k = Subscribe_ack (s\<lparr>s_result := ack\<rparr>))"
| "answer_to (V5_Control.ControlMessage.Unsubscribe u) k =
    (\<exists>ack. ua_packet_id ack = ua_packet_id (u_result u) \<and> k = Unsubscribe_ack (u\<lparr>u_result := ack\<rparr>))"
| "answer_to _ k = False"

text \<open>The services answer: the publish service takes the publish, or fails with an error that is an
  acknowledgement, and a handler of control messages answers.\<close>

inductive completes ::
  "('sio, Packet) io_ops \<Rightarrow> ('e2 \<Rightarrow> 'e + PublishAck) \<Rightarrow> ('e2 \<Rightarrow> 'e) \<Rightarrow> 'e V5_Dispatcher.future \<Rightarrow>
   ('stx, 'sio) V5_Dispatcher.Dispatcher \<Rightarrow> 'e MqttError + Packet option \<Rightarrow>
   ('stx, 'sio) V5_Dispatcher.Dispatcher \<Rightarrow> bool" for sops try_from into where
  published: "\<lbrakk>pr_state pr = PublishResponseState.Publish pub;
     V5_Dispatcher.publish_poll try_from into res pr s = (Ok (Finished r) :: (unit, _) outcome, s')\<rbrakk> \<Longrightarrow>
    completes sops try_from into (PublishFuture pr) s r s'"
| controlled: "\<lbrakk>answer_to (cr_call cr) k;
     V5_Dispatcher.control_poll sops (Inr k) cr s = (Ok (Finished r) :: (unit, _) outcome, s')\<rbrakk> \<Longrightarrow>
    completes sops try_from into (ControlFuture cr) s r s'"
| immediate: "completes sops try_from into (ReadyPacket r) s (Inr r) s"

text \<open>A handler works on a packet.\<close>

fun control_serves :: "'e V5_Control.ControlMessage \<Rightarrow> u16 \<Rightarrow> Packet \<Rightarrow> bool" where
  "control_serves V5_Control.ControlMessage.Ping i p = (p = PingRequest \<and> i = 0)"
| "control_serves (V5_Control.ControlMessage.Subscribe s) i p =
    (p = Packet.Subscribe (s_packet s) \<and> i = sub_packet_id (s_packet s) \<and> sa_packet_id (s_result s) = i)"
| "control_serves (V5_Control.ControlMessage.Unsubscribe u) i p =
    (p = Packet.Unsubscribe (u_packet u) \<and> i = un_packet_id (u_packet u) \<and> ua_packet_id (u_result u) = i)"
| "control_serves _ i p = False"

fun serves :: "'e V5_Dispatcher.future \<Rightarrow> Packet \<Rightarrow> bool" where
  "serves (PublishFuture pr) p =
    (case pr_state pr of
       PublishResponseState.Publish pub \<Rightarrow>
         p = Packet.Publish pub \<and> pr_packet_id pr = (case pub_packet_id pub of Some i \<Rightarrow> i | None \<Rightarrow> 0)
     | _ \<Rightarrow> False)"
| "serves (ControlFuture cr) p = (\<not> cr_error cr \<and> control_serves (cr_call cr) (cr_packet_id cr) p)"
| "serves _ p = False"

section \<open>Both sides\<close>

type_synonym ('tx, 'io, 'stx, 'sio, 'e) v5_sides =
  "(('tx, 'io) V5_Dispatcher.Dispatcher, ('stx, 'sio) V5_Dispatcher.Dispatcher, 'e V5_Dispatcher.future, Packet,
    'tx \<times> AckType, 'e MqttError) peers"

type_synonym ('tx, 'io, 'stx, 'sio, 'e, 'w) v5_conn =
  "(('tx, 'io) V5_Dispatcher.Dispatcher, ('stx, 'sio) V5_Dispatcher.Dispatcher, 'e V5_Dispatcher.future, Packet,
    'tx \<times> AckType, 'e MqttError, 'w) conn"

text \<open>The limits of the server that the sink does not check, so that the application has to keep to them: topic aliases are at
  most the maximum \<open>m\<close> and have a topic before they are used without one; and the senders that were woken up do not put more
  packets in flight than the receive maximum (a woken sender does not look at the credit again).\<close>

definition within_limits :: "u16 \<Rightarrow> ('io \<Rightarrow> Packet list) \<Rightarrow> ('tx, 'io) shared \<Rightarrow> bool" where
  "within_limits m out sh \<longleftrightarrow> aliases_known m {} (out (sh_state sh)) \<and> length (flight sh) \<le> cap sh"

text \<open>The client sends within these limits.\<close>

definition v5_peers ::
  "('io, Packet) io_ops \<Rightarrow> ('sio, Packet) io_ops \<Rightarrow> ('e2 \<Rightarrow> 'e + PublishAck) \<Rightarrow> ('e2 \<Rightarrow> 'e) \<Rightarrow>
   u16 \<Rightarrow> ('io \<Rightarrow> Packet list) \<Rightarrow> ('tx, 'io, 'stx, 'sio, 'e) v5_sides" where
  "v5_peers ops sops try_from into m out =
    \<lparr>client_sends = (\<lambda>d reqs d'. \<exists>sink. client_step ops (d_sink d) reqs sink \<and> d' = d\<lparr>d_sink := sink\<rparr> \<and>
       within_limits m out sink),
     client_reads = (\<lambda>p d d'. \<exists>alive g. V5_Client_Dispatcher.call ops alive (Item p) d =
       (Ok g :: (unit, unit V5_Client_Dispatcher.future) outcome, d')),
     client_out = (\<lambda>d. out (sh_state (d_sink d))),
     server_reads = (\<lambda>p s f s'. \<exists>alive. V5_Dispatcher.call sops alive (Item p) s = (Ok f :: (unit, _) outcome, s')),
     server_answers = completes sops try_from into\<rparr>"

lemma v5_peers_simps [simp]:
  "client_out (v5_peers ops sops try_from into m out) d = out (sh_state (d_sink d))"
  "client_sends (v5_peers ops sops try_from into m out) d reqs d' \<longleftrightarrow>
    (\<exists>sink. client_step ops (d_sink d) reqs sink \<and> d' = d\<lparr>d_sink := sink\<rparr> \<and> within_limits m out sink)"
  "client_reads (v5_peers ops sops try_from into m out) p d d' \<longleftrightarrow> (\<exists>alive g. V5_Client_Dispatcher.call ops alive (Item p) d =
    (Ok g :: (unit, unit V5_Client_Dispatcher.future) outcome, d'))"
  "server_reads (v5_peers ops sops try_from into m out) p s f s' \<longleftrightarrow>
    (\<exists>alive. V5_Dispatcher.call sops alive (Item p) s = (Ok f :: (unit, _) outcome, s'))"
  "server_answers (v5_peers ops sops try_from into m out) = completes sops try_from into"
  by (simp_all add: v5_peers_def)

section \<open>The client keeps its contract\<close>

abbreviation v5_grows ::
  "('io, Packet) io_ops \<Rightarrow> ('io \<Rightarrow> Packet list) \<Rightarrow> ('tx, 'io) shared \<Rightarrow> ('tx \<times> AckType) list \<Rightarrow> ('tx, 'io) shared \<Rightarrow> bool" where
  "v5_grows \<equiv> grows request_key is_request"

lemma v5_grows_inner:
  assumes "io_logs ops out" "sink_live sh" "io_is_open ops (sh_state sh)"
  shows "send_at_least_once_inner ops tx pkt sh = (Ok r, sh') \<Longrightarrow> v5_grows ops out sh (reqs_of AckType.Publish r) sh'"
    and "subscribe_send_inner ops tx b sh = (Ok q, sh') \<Longrightarrow> v5_grows ops out sh (reqs_of AckType.Subscribe q) sh'"
    and "unsubscribe_send_inner ops tx u sh = (Ok v, sh') \<Longrightarrow> v5_grows ops out sh (reqs_of AckType.Unsubscribe v) sh'"
proof -
  have live: "\<not> borrowed sh" "inflight_idx sh \<noteq> - 1" "queue_ok sh"
    using assms(2) by (simp_all add: sink_live_def queue_ok_def)
  note send = grows_send [where key = request_key and Q = is_request, OF assms(1) live(3) assms(3)]
  show "v5_grows ops out sh (reqs_of AckType.Publish r) sh'" if ok: "send_at_least_once_inner ops tx pkt sh = (Ok r, sh')"
  proof -
    obtain idx i' where eq: "idx \<noteq> 0" "i' \<noteq> - 1"
      "send_at_least_once_inner ops tx pkt sh = act_then (allocate PublishQos1Error.PacketIdInUse idx AckType.Publish tx)
        (\<lambda>_. send_and_wait ops Codec_encode PublishQos1Error.Encode (Packet.Publish (pkt\<lparr>pub_packet_id := Some idx\<rparr>)) tx) (sh\<lparr>inflight_idx := i'\<rparr>)"
      by (rule v5_publish_inner_eq [OF live(1,2)])
    show ?thesis by (rule send [OF eq(2,1) ok [unfolded eq(3)]]) (simp_all add: eq(1))
  qed
  show "v5_grows ops out sh (reqs_of AckType.Subscribe q) sh'" if ok: "subscribe_send_inner ops tx b sh = (Ok q, sh')"
  proof -
    obtain idx i' where eq: "idx \<noteq> 0" "i' \<noteq> - 1"
      "subscribe_send_inner ops tx b sh = act_then (allocate SendPacketError.PacketIdInUse idx AckType.Subscribe tx)
        (\<lambda>_. send_and_wait ops Codec_encode SendPacketError.Encode (Packet.Subscribe ((sb_packet b)\<lparr>sub_packet_id := idx\<rparr>)) tx) (sh\<lparr>inflight_idx := i'\<rparr>)"
      by (rule v5_subscribe_inner_eq [OF live(1,2)])
    show ?thesis by (rule send [OF eq(2,1) ok [unfolded eq(3)]]) (simp_all add: eq(1))
  qed
  show "v5_grows ops out sh (reqs_of AckType.Unsubscribe v) sh'" if ok: "unsubscribe_send_inner ops tx u sh = (Ok v, sh')"
  proof -
    obtain idx i' where eq: "idx \<noteq> 0" "i' \<noteq> - 1"
      "unsubscribe_send_inner ops tx u sh = act_then (allocate SendPacketError.PacketIdInUse idx AckType.Unsubscribe tx)
        (\<lambda>_. send_and_wait ops Codec_encode SendPacketError.Encode (Packet.Unsubscribe ((ub_packet u)\<lparr>un_packet_id := idx\<rparr>)) tx) (sh\<lparr>inflight_idx := i'\<rparr>)"
      by (rule v5_unsubscribe_inner_eq [OF live(1,2)])
    show ?thesis by (rule send [OF eq(2,1) ok [unfolded eq(3)]]) (simp_all add: eq(1))
  qed
qed

lemma v5_client_step_grows:
  assumes "client_step ops sh reqs sh'" and logs: "io_logs ops out" and live: "sink_live sh" "io_is_open ops (sh_state sh)"
  shows "v5_grows ops out sh reqs sh'"
  using assms(1)
proof cases
  note ok = live(1) [unfolded sink_live_def, THEN conjunct1] live(1) [unfolded sink_live_def, THEN conjunct2]
  note inner = v5_grows_inner [OF logs live]
  {
    case (at_most_once pkt)
    then obtain b where "write_packet ops Codec_encode (Packet.Publish pkt) sh = (Ok b, sh')"
      by (auto simp: send_at_most_once_def split: if_splits prod.splits outcome.splits)
    from grows_write [where key = request_key and Q = is_request, OF logs ok live(2) this] at_most_once show ?thesis
      by simp
  next
    case (at_least_once wtx tx pkt r)
    from grows_await_credit [OF ok live(2) at_least_once(2) [unfolded send_at_least_once_def Let_def] inner(1)]
      at_least_once(1) show ?thesis by blast
  next
    case (at_least_once_woken tx pkt r)
    then show ?thesis using inner(1) by (auto simp: send_at_least_once_woken_def)
  next
    case (subscribe wtx tx b r)
    from grows_await_credit [OF ok live(2) subscribe(2) [unfolded subscribe_send_def] inner(2)] subscribe(1)
    show ?thesis by blast
  next
    case (subscribe_woken tx b r)
    then show ?thesis using inner(2) by (auto simp: subscribe_send_woken_def)
  next
    case (unsubscribe wtx tx u r)
    from grows_await_credit [OF ok live(2) unsubscribe(2) [unfolded unsubscribe_send_def] inner(3)] unsubscribe(1)
    show ?thesis by blast
  next
    case (unsubscribe_woken tx u r)
    then show ?thesis using inner(3) by (auto simp: unsubscribe_send_woken_def)
  next
    case (ready tx r)
    then show ?thesis using grows_ready [OF ok live(2)] by blast
  next
    case ping
    then obtain b where "write_packet ops Codec_encode PingRequest sh = (Ok b, sh')"
      by (auto simp: ping_def split: prod.splits outcome.splits)
    from grows_write [where key = request_key and Q = is_request, OF logs ok live(2) this] ping show ?thesis
      by simp
  }
qed

lemma v5_reply:
  fixes d :: "('tx, 'io) V5_Dispatcher.Dispatcher"
  assumes ok: "queue_ok (d_sink d)" and p: "is_reply p" "map key_of (flight (d_sink d)) = reply_key p @ rest"
  shows "\<exists>d'. V5_Client_Dispatcher.call ops alive (Item p) d =
      (Ok (ReadyPacket None) :: (unit, unit V5_Client_Dispatcher.future) outcome, d') \<and>
    (reply_key p = [] \<and> d' = d \<or>
     (\<exists>i tx tp q a. flight (d_sink d) = (i, tx, tp) # q \<and> reply_key p = [(i, tp)] \<and> answers a i tp \<and>
       d' = d\<lparr>d_sink := acked alive i tx a (d_sink d)\<rparr>))"
proof -
  have ack: "\<exists>d'. V5_Client_Dispatcher.call_ack alive a d =
      (Ok (ReadyPacket None) :: (unit, unit V5_Client_Dispatcher.future) outcome, d') \<and>
    (\<exists>tx q a. flight (d_sink d) = (i, tx, tp) # q \<and> answers a i tp \<and> d' = d\<lparr>d_sink := acked alive i tx a (d_sink d)\<rparr>)"
    if key: "reply_key p = [(i, tp)]" and a: "answers a i tp" for i tp a
  proof -
    obtain tx q where fl: "flight (d_sink d) = (i, tx, tp) # q"
      using p(2) key by (cases "flight (d_sink d)") (auto simp del: flight_Nil)
    then show ?thesis
      using a by (auto simp: V5_Client_Dispatcher.call_ack_def v5_pkt_ack_head [OF ok fl a] acked_def)
  qed
  from p(1) show ?thesis
  proof (cases p)
    case (PublishAck pkt)
    with ack [of "pa_packet_id pkt" AckType.Publish "Ack.Publish pkt"] show ?thesis by (simp add: answers_def)
  next
    case (SubscribeAck pkt)
    with ack [of "sa_packet_id pkt" AckType.Subscribe "Ack.Subscribe pkt"] show ?thesis by (simp add: answers_def)
  next
    case (UnsubscribeAck pkt)
    with ack [of "ua_packet_id pkt" AckType.Unsubscribe "Ack.Unsubscribe pkt"] show ?thesis by (simp add: answers_def)
  qed simp_all
qed

text \<open>A client whose connection is open and whose identifiers have not run out, with at most \<open>w\<close> packets in
  flight.\<close>

definition v5_good ::
  "('io, Packet) io_ops \<Rightarrow> ('io \<Rightarrow> Packet list) \<Rightarrow> u16 \<Rightarrow> nat \<Rightarrow> ('tx, 'io) V5_Dispatcher.Dispatcher \<Rightarrow> bool" where
  "v5_good ops out m w d \<longleftrightarrow> io_logs ops out \<and> sink_live (d_sink d) \<and> io_is_open ops (sh_state (d_sink d)) \<and>
     legal m (out (sh_state (d_sink d))) \<and> cap (d_sink d) = w \<and> length (flight (d_sink d)) \<le> w"

text \<open>The client takes a packet without an answer and without an error.\<close>

definition v5_accepts :: "('io, Packet) io_ops \<Rightarrow> Packet \<Rightarrow> ('tx, 'io) V5_Dispatcher.Dispatcher \<Rightarrow> bool" where
  "v5_accepts ops p d \<longleftrightarrow> (\<forall>alive. \<exists>d'. V5_Client_Dispatcher.call ops alive (Item p) d =
     (Ok (ReadyPacket None) :: (unit, unit V5_Client_Dispatcher.future) outcome, d'))"

lemma v5_good_sends:
  assumes "v5_good ops out m w d" "v5_grows ops out (d_sink d) reqs (d_sink d')" "within_limits m out (d_sink d')"
  shows "v5_good ops out m w d'"
proof -
  from assms(2) obtain ps where "queue_ok (d_sink d')" "inflight_idx (d_sink d') \<noteq> - 1"
      "io_is_open ops (sh_state (d_sink d'))" "cap (d_sink d') = cap (d_sink d)"
      "out (sh_state (d_sink d')) = out (sh_state (d_sink d)) @ ps" "list_all is_request ps"
    unfolding grows_def by auto
  with assms(1,3) show ?thesis
    by (auto simp: v5_good_def sink_live_def legal_def within_limits_def)
qed

interpretation v5_client: client_side "v5_peers ops sops try_from into m out" "v5_good ops out m w" "\<lambda>d. flight (d_sink d)"
  "\<lambda>d. delivered (d_sink d)" "v5_accepts ops" "legal m" request_key is_reply reply_key answers w
proof unfold_locales
  fix d
  assume "v5_good ops out m w d"
  then show "legal m (client_out (v5_peers ops sops try_from into m out) d) \<and> distinct (map fst (flight (d_sink d))) \<and>
      length (flight (d_sink d)) \<le> w"
    by (simp add: v5_good_def sink_live_def flight_distinct)
next
  fix d d' and reqs
  assume good: "v5_good ops out m w d" and "client_sends (v5_peers ops sops try_from into m out) d reqs d'"
  then have step: "client_step ops (d_sink d) reqs (d_sink d')" "within_limits m out (d_sink d')"
    by auto
  from good have "io_logs ops out" "sink_live (d_sink d)" "io_is_open ops (sh_state (d_sink d))"
    by (simp_all add: v5_good_def)
  note grows = v5_client_step_grows [OF step(1) this]
  from v5_good_sends [OF good grows step(2)] grows
  show "v5_good ops out m w d' \<and> delivered (d_sink d') = delivered (d_sink d) \<and>
      (\<exists>new ps. flight (d_sink d') = flight (d_sink d) @ new \<and> map snd new = reqs \<and>
        client_out (v5_peers ops sops try_from into m out) d' = client_out (v5_peers ops sops try_from into m out) d @ ps \<and>
        map key_of new = keys request_key ps)"
    by (auto simp: grows_def)
next
  fix d and p rest
  assume "v5_good ops out m w d" and p: "is_reply p" "map key_of (flight (d_sink d)) = reply_key p @ rest"
  then have "queue_ok (d_sink d)" by (simp add: v5_good_def sink_live_def)
  from v5_reply [OF this p] show "v5_accepts ops p d \<and> (\<exists>d'. client_reads (v5_peers ops sops try_from into m out) p d d')"
    unfolding v5_accepts_def v5_peers_simps by metis
next
  fix d d' and p rest
  assume good: "v5_good ops out m w d" and p: "is_reply p" "map key_of (flight (d_sink d)) = reply_key p @ rest"
    and "client_reads (v5_peers ops sops try_from into m out) p d d'"
  then obtain alive g where
    call: "V5_Client_Dispatcher.call ops alive (Item p) d = (Ok g :: (unit, unit V5_Client_Dispatcher.future) outcome, d')"
    by auto
  have ok: "queue_ok (d_sink d)" using good by (simp add: v5_good_def sink_live_def)
  from v5_reply [OF ok p, of ops alive] call consider "reply_key p = []" "d' = d"
    | i tx tp q a where "flight (d_sink d) = (i, tx, tp) # q" "reply_key p = [(i, tp)]" "answers a i tp"
        "d' = d\<lparr>d_sink := acked alive i tx a (d_sink d)\<rparr>"
    by auto
  then show "v5_good ops out m w d' \<and>
      client_out (v5_peers ops sops try_from into m out) d' = client_out (v5_peers ops sops try_from into m out) d \<and>
      (\<exists>new. flight (d_sink d) = take (length (reply_key p)) (flight (d_sink d)) @ flight (d_sink d') \<and>
        delivered (d_sink d') = delivered (d_sink d) @ new \<and>
        answered_with answers (map snd (take (length (reply_key p)) (flight (d_sink d)))) new)"
  proof cases
    case 2
    note sh' = acked_head [OF ok 2(1), of alive a]
    have "answered_with answers (map snd (take (length (reply_key p)) (flight (d_sink d)))) [(tx, a)]"
      using 2 by auto
    with 2 sh' good show ?thesis by (auto simp: v5_good_def sink_live_def)
  qed (use good in simp)
qed

section \<open>The server keeps its contract\<close>

abbreviation in_use :: "('stx, 'sio) V5_Dispatcher.Dispatcher \<Rightarrow> u16 set" where
  "in_use s \<equiv> info_inflight (d_info s)"

text \<open>The server has recorded the aliases of the packets \<open>ps\<close>, and takes \<open>w\<close> packets at a time.\<close>

definition v5_serving :: "u16 \<Rightarrow> nat \<Rightarrow> Packet list \<Rightarrow> ('stx, 'sio) V5_Dispatcher.Dispatcher \<Rightarrow> bool" where
  "v5_serving m w ps s \<longleftrightarrow> info_aliases (d_info s) = new_aliases ps \<and> max_topic_alias s = m \<and>
     (max_receive s = 0 \<or> w \<le> max_receive s)"

lemma v5_accept_publish:
  assumes "v5_serving m w ps s" "alias_known m (new_aliases ps) (Packet.Publish pub)"
  shows "\<exists>f s'. V5_Dispatcher.accept_publish pub s = (Ok f :: (unit, 'e V5_Dispatcher.future) outcome, s') \<and>
    serves f (Packet.Publish pub) \<and> v5_serving m w (ps @ [Packet.Publish pub]) s' \<and> in_use s' = in_use s"
proof -
  let ?s = "s\<lparr>d_info := (d_info s)\<lparr>info_aliases := info_aliases (d_info s) \<union> new_alias (Packet.Publish pub)\<rparr>\<rparr>"
  have "check_alias pub s = Inr ?s"
    using assms by (auto simp: check_alias_def v5_serving_def linorder_not_less split: option.splits if_splits)
  moreover have "v5_serving m w (ps @ [Packet.Publish pub]) ?s"
    using assms(1) by (auto simp: v5_serving_def)
  ultimately show ?thesis
    by (simp add: V5_Dispatcher.accept_publish_def)
qed

lemma v5_server_call:
  assumes s: "v5_serving m w ps s" and p: "legal m (ps @ [p])"
    and ids: "fst ` set (request_key p) \<inter> in_use s = {}" "card (in_use s \<union> fst ` set (request_key p)) \<le> w"
  shows "\<exists>f s'. V5_Dispatcher.call sops alive (Item p) s = (Ok f :: (unit, 'e V5_Dispatcher.future) outcome, s') \<and>
    serves f p \<and> v5_serving m w (ps @ [p]) s' \<and> in_use s' = in_use s \<union> fst ` set (request_key p)"
proof -
  have req: "is_request p" and known: "alias_known m (new_aliases ps) p"
    using p by (simp_all add: legal_def aliases_known_append)
  from req show ?thesis
  proof (cases p)
    case (Publish pub)
    show ?thesis
    proof (cases "pub_packet_id pub")
      case None
      with Publish v5_accept_publish [OF s, of pub] known show ?thesis
        by (simp add: V5_Dispatcher.call_publish_def)
    next
      case (Some i)
      then have i: "i \<notin> in_use s" "Suc (card (in_use s)) \<le> w"
        using ids Publish by simp_all
      with s have "max_receive s = 0 \<or> card (in_use s) < max_receive s"
        by (auto simp: v5_serving_def)
      moreover have "v5_serving m w ps (insert_inflight i s)"
        using s by (simp add: v5_serving_def insert_inflight_def)
      note v5_accept_publish [OF this, of pub]
      ultimately show ?thesis
        using Publish Some known i(1) by (auto simp: V5_Dispatcher.call_publish_def insert_inflight_def)
    qed
  next
    case (Subscribe pkt)
    with ids s show ?thesis
      by (auto simp: call_subscribe_def V5_Dispatcher.ControlResponse_new_def V5_Dispatcher.ControlResponse_packet_id_def
          is_error_message_def Subscribe_create_def v5_serving_def insert_inflight_def)
  next
    case (Unsubscribe pkt)
    with ids s show ?thesis
      by (auto simp: call_unsubscribe_def V5_Dispatcher.ControlResponse_new_def V5_Dispatcher.ControlResponse_packet_id_def
          is_error_message_def Unsubscribe_create_def v5_serving_def insert_inflight_def)
  next
    case PingRequest
    with s show ?thesis
      by (simp add: V5_Dispatcher.control_call_def V5_Dispatcher.ControlResponse_new_def is_error_message_def v5_serving_def)
  qed simp_all
qed

lemma v5_remove_inflight:
  "in_use (remove_inflight i s) = (if i = 0 then in_use s else in_use s - {i})"
  "v5_serving m w ps (remove_inflight i s) = v5_serving m w ps s"
  by (simp_all add: remove_inflight_def v5_serving_def)

text \<open>A handler that serves a packet answers with the reply for it.\<close>

lemma v5_publish_reply:
  assumes "pr_state pr = PublishResponseState.Publish pub" "serves (PublishFuture pr) p" "is_request p"
    and "V5_Dispatcher.publish_poll try_from into res pr s = (Ok (Finished r) :: (unit, _) outcome, s')"
  shows "(\<exists>x. r = Inr x) \<and> keys reply_key (replies_of r) = request_key p \<and> list_all is_reply (replies_of r) \<and>
    s' = remove_inflight (pr_packet_id pr) s"
  using assms
  by (auto simp: V5_Dispatcher.publish_poll_def Let_def replies_of_def remove_inflight_def
      split: if_splits sum.splits option.splits)

lemma v5_control_reply:
  assumes "answer_to (cr_call cr) k" "serves (ControlFuture cr) p"
    and "V5_Dispatcher.control_poll sops (Inr k) cr s = (Ok (Finished r) :: (unit, _) outcome, s')"
  shows "(\<exists>x. r = Inr x) \<and> keys reply_key (replies_of r) = request_key p \<and> list_all is_reply (replies_of r) \<and>
    s' = remove_inflight (cr_packet_id cr) s"
  using assms
  by (cases "cr_call cr")
     (auto simp: V5_Dispatcher.control_poll_def act_then_def replies_of_def Ping_ack_def Subscribe_ack_def Unsubscribe_ack_def)

lemma v5_completes_reply:
  assumes "completes sops try_from into f s r s'" "serves f p" "is_request p"
  shows "v5_serving m w ps s' = v5_serving m w ps s \<and> in_use s' = in_use s - fst ` set (request_key p) \<and>
    (\<exists>x. r = Inr x) \<and> keys reply_key (replies_of r) = request_key p \<and> list_all is_reply (replies_of r)"
  using assms(1)
proof cases
  case (published pr pub res)
  then have "fst ` set (request_key p) = (if pr_packet_id pr = 0 then {} else {pr_packet_id pr})"
    using assms(2,3) by (auto split: option.splits)
  with published v5_publish_reply [OF published(2) _ assms(3) published(3)] assms(2) show ?thesis
    by (simp add: v5_remove_inflight)
next
  case (controlled cr k)
  then have "fst ` set (request_key p) = (if cr_packet_id cr = 0 then {} else {cr_packet_id cr})"
    using assms(2,3) by (cases "cr_call cr") auto
  with controlled v5_control_reply [OF controlled(2) _ controlled(3), of p] assms(2) show ?thesis
    by (simp add: v5_remove_inflight)
qed (use assms(2) in auto)

lemma v5_answerable:
  fixes f :: "'e V5_Dispatcher.future"
  assumes "serves f p"
  shows "\<exists>r s'. completes sops try_from into f s r s'"
proof (cases f)
  case (PublishFuture pr)
  with assms obtain pub where pub: "pr_state pr = PublishResponseState.Publish pub"
    by (auto split: PublishResponseState.splits)
  have "\<exists>r s'. V5_Dispatcher.publish_poll try_from into (Inr V5_Control.Publish_ack) pr s = (Ok (Finished r) :: (unit, _) outcome, s')"
    by (simp add: V5_Dispatcher.publish_poll_def Let_def)
  with PublishFuture pub completes.published show ?thesis by metis
next
  case (ControlFuture cr)
  define k where "k = (case cr_call cr of V5_Control.ControlMessage.Subscribe b \<Rightarrow> Subscribe_ack b
    | V5_Control.ControlMessage.Unsubscribe u \<Rightarrow> Unsubscribe_ack u | _ \<Rightarrow> Ping_ack)"
  have "answer_to (cr_call cr) k"
    using assms ControlFuture by (cases "cr_call cr") (auto simp: k_def intro: exI [of _ "s_result _"] exI [of _ "u_result _"])
  moreover have "\<exists>r s'. V5_Dispatcher.control_poll sops (Inr k) cr s = (Ok (Finished r) :: (unit, ('e, _) polled) outcome, s')"
    using assms ControlFuture
    by (cases "cr_call cr") (simp_all add: k_def V5_Dispatcher.control_poll_def act_then_def Let_def
        Ping_ack_def Subscribe_ack_def Unsubscribe_ack_def)
  ultimately show ?thesis
    using ControlFuture completes.controlled by metis
qed (use assms in simp)

abbreviation v5_serves :: "'e V5_Dispatcher.future \<Rightarrow> Packet \<Rightarrow> bool" where
  "v5_serves f p \<equiv> serves f p \<and> is_request p"

interpretation v5_server: server_side
  "v5_peers ops sops try_from into m out :: ('tx, 'io, 'stx, 'sio, 'e) v5_sides" "v5_serving m w" in_use v5_serves "legal m"
  request_key is_reply reply_key w
proof unfold_locales
  fix ps qs
  assume "legal m (ps @ qs)"
  then show "legal m ps" by (simp add: legal_def aliases_known_append)
next
  let ?P = "v5_peers ops sops try_from into m out :: ('tx, 'io, 'stx, 'sio, 'e) v5_sides"
  fix ps p and s :: "('stx, 'sio) V5_Dispatcher.Dispatcher"
  assume "v5_serving m w ps s" "legal m (ps @ [p])" "fst ` set (request_key p) \<inter> in_use s = {}"
    "card (in_use s \<union> fst ` set (request_key p)) \<le> w"
  from v5_server_call [where 'e = 'e, OF this, of sops "\<lambda>_. True"] show "\<exists>f s'. server_reads ?P p s f s'" by auto
next
  let ?P = "v5_peers ops sops try_from into m out :: ('tx, 'io, 'stx, 'sio, 'e) v5_sides"
  fix ps p and f :: "'e V5_Dispatcher.future" and s s' :: "('stx, 'sio) V5_Dispatcher.Dispatcher"
  assume s: "v5_serving m w ps s" "legal m (ps @ [p])" "fst ` set (request_key p) \<inter> in_use s = {}"
    "card (in_use s \<union> fst ` set (request_key p)) \<le> w" and "server_reads ?P p s f s'"
  then obtain alive where "V5_Dispatcher.call sops alive (Item p) s = (Ok f :: (unit, _) outcome, s')" by auto
  with v5_server_call [where 'e = 'e, OF s, of sops alive] s(2)
  show "v5_serves f p \<and> v5_serving m w (ps @ [p]) s' \<and> in_use s' = in_use s \<union> fst ` set (request_key p)"
    by (auto simp: legal_def)
next
  let ?P = "v5_peers ops sops try_from into m out :: ('tx, 'io, 'stx, 'sio, 'e) v5_sides"
  fix ps p r and f :: "'e V5_Dispatcher.future" and s s' :: "('stx, 'sio) V5_Dispatcher.Dispatcher"
  assume s: "v5_serving m w ps s" and f: "v5_serves f p" and "server_answers ?P f s r s'"
  then have "completes sops try_from into f s r s'" by simp
  from v5_completes_reply [OF this conjunct1 [OF f] conjunct2 [OF f], of m w ps] s
  show "v5_serving m w ps s' \<and> in_use s' = in_use s - fst ` set (request_key p) \<and> (\<exists>x. r = Inr x) \<and>
      keys reply_key (replies_of r) = request_key p \<and> list_all is_reply (replies_of r)"
    by simp
next
  let ?P = "v5_peers ops sops try_from into m out :: ('tx, 'io, 'stx, 'sio, 'e) v5_sides"
  fix s p and f :: "'e V5_Dispatcher.future"
  assume "v5_serves f p"
  then have "serves f p" ..
  from v5_answerable [OF this] show "\<exists>r s'. server_answers ?P f s r s'" by simp
qed

interpretation v5_conn: connection "v5_peers ops sops try_from into m out" "v5_good ops out m w" "\<lambda>d. flight (d_sink d)"
  "\<lambda>d. delivered (d_sink d)" "v5_accepts ops" "legal m" request_key is_reply reply_key answers w "v5_serving m w" in_use v5_serves
  by unfold_locales

lemma v5_fresh:
  fixes try_from :: "'e2 \<Rightarrow> 'e + PublishAck"
  assumes "io_logs ops out" "io_is_open ops st" "out st = []" "receive = 0 \<or> n \<le> receive"
  shows "v5_conn.fresh TYPE('e) TYPE('e2) ops sops try_from into m out n
    (V5_Client_Dispatcher.Dispatcher_new (MqttShared_new st codec n) client_receive client_alias)
    (V5_Dispatcher.Dispatcher_new sink receive m)"
proof -
  have "sink_live (MqttShared_new st codec n)" by (simp add: sink_live_def)
  with assms show ?thesis
    unfolding v5_conn.fresh_def
    by (simp add: v5_good_def legal_def v5_serving_def V5_Dispatcher.Dispatcher_new_def V5_Client_Dispatcher.Dispatcher_new_def
        MqttShared_new_def flight_def delivered_def)
qed

section \<open>Properties\<close>

text \<open>C4: A whole MQTT 5 connection works, as long as the client's application keeps to the limits of the server that the sink
  does not check (\<open>within_limits\<close>): a topic alias is at most the maximum of the server and gets a topic before it is used without
  one, and woken senders do not exceed the limit of packets in flight, which is at most the server's receive maximum. The
  application publishes, subscribes, unsubscribes and pings (packets that can be encoded, on an open transport), the handlers of the
  server answer in any order, without a disconnect or an error that is not an acknowledgement, and the client
  reads the replies, in any interleaving: client and server accept every packet that the other writes, the server gives
  it to the handler for it, the senders are answered in the order in which they sent, each with an acknowledgement of its
  kind, and the others wait; once everything is read and no handler is at work, every request that was sent is answered.\<close>

theorem v5_connection_acknowledged:
  fixes c :: "('tx, 'io, 'stx, 'sio, 'e, 'w) v5_conn"
  assumes "conn_reaches (v5_peers ops sops try_from into m out) env wr
      (conn_start (V5_Client_Dispatcher.Dispatcher_new (MqttShared_new st codec n) client_receive client_alias)
        (V5_Dispatcher.Dispatcher_new sink receive m) w) c"
    and "receive = 0 \<or> n \<le> receive"
    and "io_is_open ops st" "out st = []" "wr w = []" "io_logs ops out" "loop_logs env wr"
  defines "sh \<equiv> d_sink (cl c)" and "ups \<equiv> out (sh_state (d_sink (cl c)))" and "downs \<equiv> wr (snd (sv_loop c))"
  shows "(down_read c < length downs \<longrightarrow> (\<forall>alive. \<exists>d. V5_Client_Dispatcher.call ops alive (Item (downs ! down_read c)) (cl c) =
        (Ok (ReadyPacket None) :: (unit, unit V5_Client_Dispatcher.future) outcome, d))) \<and>
    (up_read c < length ups \<longrightarrow> (\<exists>alive f s. V5_Dispatcher.call sops alive (Item (ups ! up_read c)) (sv c) =
        (Ok f :: (unit, 'e V5_Dispatcher.future) outcome, s) \<and> serves f (ups ! up_read c))) \<and>
    (\<exists>old. sent_reqs c = old @ map snd (flight sh) \<and> answered_with answers old (delivered sh)) \<and>
    (sv_tasks c = [] \<and> up_read c = length ups \<and> down_read c = length downs \<longrightarrow>
      answered_with answers (sent_reqs c) (delivered sh))"
  using v5_conn.acknowledged [OF assms(1) v5_fresh [OF assms(6,3,4,2)] assms(7,5)]
  unfolding sh_def ups_def downs_def v5_accepts_def v5_peers_simps by blast

text \<open>A publish that gives the alias 3 a topic, a publish with the alias alone, and a subscribe, sent with a
  receive maximum of 3.\<close>

definition first_publish :: Publish where
  "first_publish = publish_properties (\<lambda>props. props\<lparr>pp_topic_alias := Some 3\<rparr>) (publish [0x61] [])"

definition second_publish :: Publish where
  "second_publish = publish_properties (\<lambda>props. props\<lparr>pp_topic_alias := Some 3\<rparr>) (publish [] [])"

definition start_sink :: "(nat, Packet list) shared" where
  "start_sink = MqttShared_new [] Codec_new 3"

definition first_sent :: "(nat, Packet list) shared" where
  "first_sent = snd (send_at_least_once packets_io 10 11 first_publish start_sink)"

definition second_sent :: "(nat, Packet list) shared" where
  "second_sent = snd (send_at_least_once packets_io 20 21 second_publish first_sent)"

definition third_sent :: "(nat, Packet list) shared" where
  "third_sent = snd (subscribe_send packets_io 30 31 (subscribe None) second_sent)"

abbreviation run_peers :: "(nat, Packet list, nat, Packet list, unit) v5_sides" where
  "run_peers \<equiv> v5_peers packets_io packets_io (\<lambda>e :: unit. Inl e) id 10 id"

type_synonym run = "(nat, Packet list, nat, Packet list, unit, Packet list) v5_conn"

abbreviation run_start :: run where
  "run_start \<equiv> conn_start (V5_Client_Dispatcher.Dispatcher_new start_sink 0 0)
     (V5_Dispatcher.Dispatcher_new (MqttShared_new [] Codec_new 3) 3 10) []"

abbreviation run_sent :: run where
  "run_sent \<equiv> run_start\<lparr>cl := V5_Client_Dispatcher.Dispatcher_new third_sent 0 0,
     sent_reqs := [(11, AckType.Publish), (21, AckType.Publish), (31, AckType.Subscribe)]\<rparr>"

abbreviation run_reaches :: "run \<Rightarrow> run \<Rightarrow> bool" where
  "run_reaches \<equiv> conn_reaches run_peers packets_env id"

lemma v5_run_sends:
  "send_at_least_once packets_io 10 11 first_publish start_sink = (Ok (AwaitAck 11), first_sent)"
  "send_at_least_once packets_io 20 21 second_publish first_sent = (Ok (AwaitAck 21), second_sent)"
  "subscribe_send packets_io 30 31 (subscribe None) second_sent = (Ok (AwaitAck 31), third_sent)"
  "within_limits 10 id first_sent" "within_limits 10 id second_sent"
  "within_limits 10 id third_sent"
  by (simp_all add: first_sent_def second_sent_def third_sent_def first_publish_def second_publish_def start_sink_def
      send_at_least_once_def send_at_least_once_inner_def subscribe_send_def subscribe_send_inner_def publish_number_def
      publish_def publish_properties_def PublishProperties_default_def subscribe_def MqttShared_new_def await_credit_def has_credit_def Mapping.size_def
      next_id_def checked_add_def allocate_def with_queues_def act_then_def send_and_wait_def write_packet_def Let_def packets_io_def lookup_update'
      within_limits_def flight_def)

lemma v5_run_sent_reached: "run_reaches run_start run_sent"
proof -
  let ?d = "\<lambda>sh. V5_Client_Dispatcher.Dispatcher_new sh 0 0" and ?p = "AckType.Publish"
  have step: "conn_step run_peers packets_env id (run_start\<lparr>cl := ?d sh, sent_reqs := reqs\<rparr>)
      (run_start\<lparr>cl := ?d sh', sent_reqs := reqs @ new\<rparr>)"
    if "client_step packets_io sh new sh'" "within_limits 10 id sh'" for sh sh' reqs new
    using conn_step.client [of run_peers "run_start\<lparr>cl := ?d sh, sent_reqs := reqs\<rparr>" new "?d sh'"] that
    by (auto simp: V5_Client_Dispatcher.Dispatcher_new_def)
  have 1: "run_reaches (run_start\<lparr>cl := ?d start_sink, sent_reqs := []\<rparr>) (run_start\<lparr>cl := ?d first_sent, sent_reqs := [(11, ?p)]\<rparr>)"
    using step [OF client_step.at_least_once [OF v5_run_sends(1)] v5_run_sends(4), of "[]"] by (auto intro: r_into_rtranclp)
  have 2: "run_reaches (run_start\<lparr>cl := ?d first_sent, sent_reqs := [(11, ?p)]\<rparr>) (run_start\<lparr>cl := ?d second_sent, sent_reqs := [(11, ?p), (21, ?p)]\<rparr>)"
    using step [OF client_step.at_least_once [OF v5_run_sends(2)] v5_run_sends(5), of "[(11, ?p)]"] by (auto intro: r_into_rtranclp)
  have 3: "run_reaches (run_start\<lparr>cl := ?d second_sent, sent_reqs := [(11, ?p), (21, ?p)]\<rparr>) (run_start\<lparr>cl := ?d third_sent, sent_reqs := [(11, ?p), (21, ?p), (31, AckType.Subscribe)]\<rparr>)"
    using step [OF client_step.subscribe [OF v5_run_sends(3)] v5_run_sends(6), of "[(11, ?p), (21, ?p)]"] by (auto intro: r_into_rtranclp)
  have "run_start = run_start\<lparr>cl := ?d start_sink, sent_reqs := []\<rparr>" by (simp add: conn_start_def)
  with rtranclp_trans [OF rtranclp_trans [OF 1 2] 3] show ?thesis by (simp only:)
qed

lemma v5_run_read:
  "\<exists>c. run_reaches run_start c \<and> sv_tasks c = [] \<and> up_read c = length (up run_peers c) \<and> down_read c = length (down id c) \<and>
    sent_reqs c = [(11, AckType.Publish), (21, AckType.Publish), (31, AckType.Subscribe)]"
proof -
  note fresh = v5_fresh [OF packets_logs(1), of "[]" 3 3 packets_io "\<lambda>e :: unit. Inl e" id 10 Codec_new 0 0 "MqttShared_new [] Codec_new 3"]
  from v5_conn.catches_up [OF v5_run_sent_reached [unfolded start_sink_def] fresh packets_logs(2)] obtain c where
    "run_reaches run_sent c" "sent_reqs c = sent_reqs run_sent" "sv_tasks c = []" "up_read c = length (up run_peers c)"
    "down_read c = length (down id c)"
    by (auto simp: start_sink_def)
  with rtranclp_trans [OF v5_run_sent_reached this(1)] show ?thesis by auto
qed

theorem v5_connection_acknowledged_witness:
  "\<exists>c. run_reaches run_start c \<and> sent_reqs c = [(11, AckType.Publish), (21, AckType.Publish), (31, AckType.Subscribe)] \<and>
    answered_with answers (sent_reqs c) (delivered (d_sink (cl c)))"
proof -
  from v5_run_read obtain c where c: "run_reaches run_start c" "sv_tasks c = []" "up_read c = length (up run_peers c)"
    "down_read c = length (down id c)" "sent_reqs c = [(11, AckType.Publish), (21, AckType.Publish), (31, AckType.Subscribe)]"
    by blast
  from v5_connection_acknowledged [OF c(1) [unfolded start_sink_def] _ _ _ _ packets_logs] c show ?thesis
    by (auto simp: start_sink_def)
qed

text \<open>C5: A MQTT 5 connection can always catch up.  In every state that it can reach while the application keeps to the limits
  that the sink does not check (known topic aliases, no more packets in flight than the limit also when senders are
  woken up), the handlers can answer, the server can read what is left and the client can read the replies,
  until every request that has been sent is answered, in the order of the requests, and nothing is in flight; the sink has
  credit again then, if it has a limit above 0. Senders that wait for credit have not sent their request yet and are not counted;
  the packets of a run can be encoded, the transport stays open, and the services answer and do not ask for a disconnect.\<close>

theorem v5_connection_catches_up:
  fixes c :: "('tx, 'io, 'stx, 'sio, 'e, 'w) v5_conn"
  assumes "conn_reaches (v5_peers ops sops try_from into m out) env wr
      (conn_start (V5_Client_Dispatcher.Dispatcher_new (MqttShared_new st codec n) client_receive client_alias)
        (V5_Dispatcher.Dispatcher_new sink receive m) w) c"
    and "receive = 0 \<or> n \<le> receive"
    and "io_is_open ops st" "out st = []" "wr w = []" "io_logs ops out" "loop_logs env wr"
  shows "\<exists>c'. conn_reaches (v5_peers ops sops try_from into m out) env wr c c' \<and> sent_reqs c' = sent_reqs c \<and>
    answered_with answers (sent_reqs c) (delivered (d_sink (cl c'))) \<and> flight (d_sink (cl c')) = [] \<and>
    has_credit (d_sink (cl c')) = (Ok (n > 0) :: (unit, bool) outcome)"
  using v5_conn.catches_up [OF assms(1) v5_fresh [OF assms(6,3,4,2)] assms(7,5)]
  by (auto simp: v5_good_def sink_live_def idle_credit simp del: flight_Nil)

theorem v5_connection_catches_up_witness:
  "\<exists>c'. run_reaches run_sent c' \<and>
    answered_with answers [(11, AckType.Publish), (21, AckType.Publish), (31, AckType.Subscribe)] (delivered (d_sink (cl c'))) \<and>
    has_credit (d_sink (cl c')) = (Ok True :: (unit, bool) outcome)"
  using v5_connection_catches_up [OF v5_run_sent_reached [unfolded start_sink_def] _ _ _ _ packets_logs] by (auto simp: start_sink_def)

end
