(* ===== verification/Router.thy ===== *)
theory Router
  imports Dispatch
begin

text \<open>
  What the publish routers of both protocol versions share (\<^verbatim>\<open>v3/router.rs\<close>, \<^verbatim>\<open>v5/router.rs\<close>): the builder that
  numbers the resources, and the readiness of a list of handlers. The recogniser of topics is
  \<^verbatim>\<open>ntex::router::Router\<close>, a parameter: it is built from the table of addresses and numbers, and gives for a
  path the number of a matching resource and the path with the parameters of the match.
\<close>

section \<open>The builder\<close>

record ('a, 'f) Router =
  rt_table :: "('a \<times> nat) list"
  rt_handlers :: "'f list"
  rt_default :: 'f

definition Router_new :: "'f \<Rightarrow> ('a, 'f) Router" where
  "Router_new default_service = \<lparr>rt_table = [], rt_handlers = [], rt_default = default_service\<rparr>"

definition Router_resource :: "'a \<Rightarrow> 'f \<Rightarrow> ('a, 'f) Router \<Rightarrow> ('a, 'f) Router" where
  "Router_resource address service r =
    r\<lparr>rt_table := rt_table r @ [(address, length (rt_handlers r))],
      rt_handlers := rt_handlers r @ [service]\<rparr>"

definition Router_resources :: "('a \<times> 'f) list \<Rightarrow> 'f \<Rightarrow> ('a, 'f) Router" where
  "Router_resources rs default_service = fold (\<lambda>(address, service). Router_resource address service) rs (Router_new default_service)"

type_synonym ('a, 'path) recognizer = "('a \<times> nat) list \<Rightarrow> 'path \<Rightarrow> (nat \<times> 'path) option"

text \<open>A recogniser finds only what was registered.\<close>

definition recognizes_registered :: "('a, 'path) recognizer \<Rightarrow> bool" where
  "recognizes_registered recognize \<longleftrightarrow>
    (\<forall>table path idx path'. recognize table path = Some (idx, path') \<longrightarrow> idx \<in> snd ` set table)"

text \<open>The table of a built router numbers its handlers.\<close>

lemma Router_resources_snoc:
  "Router_resources (rs @ [(a, f)]) d = Router_resource a f (Router_resources rs d)"
  by (simp add: Router_resources_def)

lemma Router_resources_built:
  "rt_handlers (Router_resources rs d) = map snd rs"
  "rt_table (Router_resources rs d) = zip (map fst rs) [0..<length rs]"
  "rt_default (Router_resources rs d) = d"
proof (induction rs rule: rev_induct)
  case Nil
  { case 1 show ?case by (simp add: Router_resources_def Router_new_def) }
  { case 2 show ?case by (simp add: Router_resources_def Router_new_def) }
  { case 3 show ?case by (simp add: Router_resources_def Router_new_def) }
next
  case (snoc x xs)
  obtain a f where x: "x = (a, f)" by (cases x)
  { case 1 show ?case using snoc by (simp add: x Router_resources_snoc Router_resource_def) }
  { case 2 show ?case using snoc by (simp add: x Router_resources_snoc Router_resource_def) }
  { case 3 show ?case using snoc by (simp add: x Router_resources_snoc Router_resource_def) }
qed

lemma recognized_index:
  assumes "recognizes_registered recognize"
    and "recognize (rt_table (Router_resources rs d)) path = Some (idx, path')"
  shows "idx < length rs"
proof -
  have "idx \<in> snd ` set (zip (map fst rs) [0..<length rs])"
    using assms unfolding recognizes_registered_def Router_resources_built by blast
  then show ?thesis by (auto dest: set_zip_rightD)
qed

section \<open>Readiness of handlers\<close>

text \<open>Each handler is polled, an error of one ends the poll; \<open>Inr True\<close> if one is not ready.\<close>

fun poll_handlers :: "('svc \<Rightarrow> ('e + unit) option) \<Rightarrow> 'svc list \<Rightarrow> bool \<Rightarrow> 'e + bool" where
  "poll_handlers poll [] not_ready = Inr not_ready"
| "poll_handlers poll (hnd # hnds) not_ready =
    (case poll hnd of
       Some (Inl e) \<Rightarrow> Inl e
     | None \<Rightarrow> poll_handlers poll hnds True
     | Some (Inr _) \<Rightarrow> poll_handlers poll hnds not_ready)"

lemma poll_handlers_ready:
  "poll_handlers poll hnds not_ready = Inr False \<longleftrightarrow> \<not> not_ready \<and> (\<forall>h \<in> set hnds. poll h = Some (Inr ()))"
  by (induction hnds arbitrary: not_ready) (auto split: option.split sum.split)

section \<open>A recogniser\<close>

text \<open>The first resource whose address is the path.\<close>

definition exact :: "('a, 'a) recognizer" where
  "exact table path = map_option (\<lambda>(_, i). (i, path)) (List.find (\<lambda>(a, i). a = path) table)"

lemma exact_registered: "recognizes_registered exact"
  by (auto simp: recognizes_registered_def exact_def find_Some_iff) (metis image_iff nth_mem snd_conv)

end
