(* ===== verification/Handshake_Base.thy ===== *)
theory Handshake_Base
  imports Dispatch
begin

text \<open>
  What the handshakes of both protocol versions share: the session (\<^verbatim>\<open>session.rs\<close>), the first packet of a
  connection, the operations of the transport that a handshake uses beside those of the sinks, and selectors.
\<close>

section \<open>Sessions\<close>

record ('st, 'sink) Session =
  ses_st :: 'st
  ses_sink :: 'sink
  ses_max_receive :: u16
  ses_max_topic_alias :: u16

definition Session_new :: "'st \<Rightarrow> 'sink \<Rightarrow> ('st, 'sink) Session" where
  "Session_new st sink = \<lparr>ses_st = st, ses_sink = sink, ses_max_receive = 0, ses_max_topic_alias = 0\<rparr>"

definition Session_new_v5 :: "'st \<Rightarrow> 'sink \<Rightarrow> u16 \<Rightarrow> u16 \<Rightarrow> ('st, 'sink) Session" where
  "Session_new_v5 st sink receive alias_max =
    \<lparr>ses_st = st, ses_sink = sink, ses_max_receive = receive, ses_max_topic_alias = alias_max\<rparr>"

definition Session_params :: "('st, 'sink) Session \<Rightarrow> u16 \<times> u16" where
  "Session_params s = (ses_max_receive s, ses_max_topic_alias s)"

section \<open>The transport during a handshake\<close>

text \<open>\<^verbatim>\<open>State::send\<close> writes one packet and waits until it is sent, \<^verbatim>\<open>State::set_buffer_params\<close> sets the sizes
  of the buffers, \<^verbatim>\<open>WriteTask::shutdown\<close> flushes and closes.\<close>

record ('io, 'pkt, 'codec) hs_ops = "('io, 'pkt) io_ops" +
  io_send :: "'codec \<Rightarrow> 'pkt \<Rightarrow> 'io \<Rightarrow> (EncodeError + io_error, unit) outcome \<times> 'io"
  io_set_buffer_params :: "u16 \<Rightarrow> u16 \<Rightarrow> u16 \<Rightarrow> 'io \<Rightarrow> 'io"
  io_write_shutdown :: "'io \<Rightarrow> 'io"

text \<open>What the first read of a connection gives: an error, the end of the stream, or a packet.\<close>

definition first_packet :: "(DecodeError + io_error) + 'pkt option \<Rightarrow> 'e MqttError + 'pkt" where
  "first_packet res =
    (case res of
       Inl err \<Rightarrow> Inl (MqttError_from_decode err)
     | Inr None \<Rightarrow> Inl MqttError.Disconnected
     | Inr (Some packet) \<Rightarrow> Inr packet)"

section \<open>Server variants\<close>

text \<open>The loop over the variants: the first that takes the connection answers.  A variant is a function from
  the handshake to an error, the handshake given back, or the end of the connection.\<close>

fun selector_call :: "('h \<Rightarrow> ('e MqttError, 'h + unit) outcome) list \<Rightarrow> 'h \<Rightarrow> ('e MqttError, unit) outcome" where
  "selector_call [] item = Err (ServerError ''Cannot handle CONNECT packet'')"
| "selector_call (srv # servers) item =
    and_then (srv item) (\<lambda>res. case res of Inl item \<Rightarrow> selector_call servers item | Inr _ \<Rightarrow> Ok ())"

text \<open>The configuration of a selector (\<^verbatim>\<open>v3/selector.rs\<close>, \<^verbatim>\<open>v5/selector.rs\<close>), with the list of its variants, and the
  readiness of its service.\<close>

record 'srv Selector =
  sel_servers :: "'srv list"
  sel_max_size :: u32
  sel_handshake_timeout :: u16

definition Selector_new :: "'srv Selector" where
  "Selector_new = \<lparr>sel_servers = [], sel_max_size = 0, sel_handshake_timeout = 0\<rparr>"

definition Selector_handshake_timeout :: "u16 \<Rightarrow> 'srv Selector \<Rightarrow> 'srv Selector" where
  "Selector_handshake_timeout timeout sel = sel\<lparr>sel_handshake_timeout := timeout\<rparr>"

definition Selector_max_size :: "u32 \<Rightarrow> 'srv Selector \<Rightarrow> 'srv Selector" where
  "Selector_max_size sz sel = sel\<lparr>sel_max_size := sz\<rparr>"

definition Selector_variant :: "'srv \<Rightarrow> 'srv Selector \<Rightarrow> 'srv Selector" where
  "Selector_variant server sel = sel\<lparr>sel_servers := sel_servers sel @ [server]\<rparr>"

fun poll_servers :: "('srv \<Rightarrow> ('e + unit) option) \<Rightarrow> 'srv list \<Rightarrow> bool \<Rightarrow> ('e + unit) option" where
  "poll_servers poll [] all_ready = (if all_ready then Some (Inr ()) else None)"
| "poll_servers poll (srv # servers) all_ready =
    (case poll srv of
       Some (Inl e) \<Rightarrow> Some (Inl e)
     | res \<Rightarrow> poll_servers poll servers (all_ready \<and> res \<noteq> None))"

definition SelectorService_poll_ready :: "('srv \<Rightarrow> ('e + unit) option) \<Rightarrow> 'srv Selector \<Rightarrow> ('e + unit) option" where
  "SelectorService_poll_ready poll sel = poll_servers poll (sel_servers sel) True"

definition SelectorService_poll_shutdown :: "('srv \<Rightarrow> bool) \<Rightarrow> 'srv Selector \<Rightarrow> bool" where
  "SelectorService_poll_shutdown poll sel = foldl (\<lambda>all_ready srv. all_ready \<and> poll srv) True (sel_servers sel)"

text \<open>The deadline of a handshake that starts now: the timer runs in seconds.\<close>

definition handshake_delay :: "nat \<Rightarrow> nat \<Rightarrow> nat option" where
  "handshake_delay now timeout = (if timeout > 0 then Some (now + timeout) else None)"

text \<open>The first variant that does not give the handshake back decides.\<close>

lemma selector_call_decided:
  assumes "\<forall>srv \<in> set before. srv item = Ok (Inl item)"
  shows "selector_call (before @ servers) item = selector_call servers item"
  using assms by (induction before) simp_all

lemma poll_servers_ready:
  "poll_servers poll servers all_ready = Some (Inr ()) \<longleftrightarrow> all_ready \<and> (\<forall>srv \<in> set servers. poll srv = Some (Inr ()))"
  by (induction servers arbitrary: all_ready) (auto split: option.split sum.split)

end
