(* ===== verification/Service.thy ===== *)
theory Service
  imports Handshake_Base
begin

text \<open>
  Services and the factories that create them, and the services that run a connection after its handshake
  (\<^verbatim>\<open>service.rs\<close>). A service is what its users see of it: whether it is ready, whether its shutdown is done, and what
  a call gives in the end. A factory gives a service for a configuration, or the error of its creation. The
  transport loop of a connection is the parameter \<open>run\<close>.
\<close>

section \<open>Services and factories\<close>

record ('req, 'res, 'e) service =
  svc_poll_ready :: "('e + unit) option"
  svc_poll_shutdown :: "bool \<Rightarrow> bool"
  svc_call :: "'req \<Rightarrow> ('e, 'res) outcome"

type_synonym ('cfg, 'init, 'srv) factory = "'cfg \<Rightarrow> 'init + 'srv"

fun of_sum :: "'e + 'a \<Rightarrow> ('e, 'a) outcome" where
  "of_sum (Inl e) = Err e"
| "of_sum (Inr a) = Ok a"

text \<open>A service that is always ready.\<close>

definition always_ready :: "('req \<Rightarrow> ('e, 'res) outcome) \<Rightarrow> ('req, 'res, 'e) service" where
  "always_ready call = \<lparr>svc_poll_ready = Some (Inr ()), svc_poll_shutdown = (\<lambda>_. True), svc_call = call\<rparr>"

text \<open>The errors of a service, and of a creation, go through a conversion (\<^verbatim>\<open>map_err\<close>, \<^verbatim>\<open>map_init_err\<close>).\<close>

fun outcome_err :: "('e \<Rightarrow> 'f) \<Rightarrow> ('e, 'a) outcome \<Rightarrow> ('f, 'a) outcome" where
  "outcome_err f (Ok a) = Ok a"
| "outcome_err f (Err e) = Err (f e)"
| "outcome_err f Panic = Panic"
| "outcome_err f Diverge = Diverge"

definition service_err :: "('e \<Rightarrow> 'f) \<Rightarrow> ('req, 'res, 'e) service \<Rightarrow> ('req, 'res, 'f) service" where
  "service_err f srv =
    \<lparr>svc_poll_ready = map_option (map_sum f id) (svc_poll_ready srv), svc_poll_shutdown = svc_poll_shutdown srv,
     svc_call = (\<lambda>req. outcome_err f (svc_call srv req))\<rparr>"

definition factory_err ::
  "('i \<Rightarrow> 'j) \<Rightarrow> ('e \<Rightarrow> 'f) \<Rightarrow> ('cfg, 'i, ('req, 'res, 'e) service) factory \<Rightarrow> ('cfg, 'j, ('req, 'res, 'f) service) factory" where
  "factory_err init f fac cfg = map_sum init (service_err f) (fac cfg)"

lemma outcome_err_id [simp]: "outcome_err id r = r"
  by (cases r) simp_all

text \<open>The conversions of the errors of the application's publish and control services, and of their creation, into
  the errors of its handshake service.\<close>

record ('pe, 'pi, 'ce, 'ci, 'e) conversions =
  from_publish :: "'pe \<Rightarrow> 'e"
  from_publish_init :: "'pi \<Rightarrow> 'e"
  from_control :: "'ce \<Rightarrow> 'e"
  from_control_init :: "'ci \<Rightarrow> 'e"

section \<open>A connection after its handshake\<close>

text \<open>\<^verbatim>\<open>FramedService\<close> creates the handshake service once and a handler for every connection.\<close>

record ('req, 'init, 'codec, 'ses, 'h, 'e) FramedService =
  fs_connect :: "(unit, 'init, ('req, 'codec \<times> 'ses \<times> u16, 'e) service) factory"
  fs_handler :: "('ses, 'e, 'h) factory"
  fs_disconnect_timeout :: u16

record ('req, 'codec, 'ses, 'h, 'e) FramedServiceImpl =
  fi_connect :: "('req, 'codec \<times> 'ses \<times> u16, 'e) service"
  fi_handler :: "('ses, 'e, 'h) factory"
  fi_disconnect_timeout :: u16

definition FramedService_new ::
  "(unit, 'init, ('req, 'codec \<times> 'ses \<times> u16, 'e) service) factory \<Rightarrow> ('ses, 'e, 'h) factory \<Rightarrow> u16 \<Rightarrow>
   ('req, 'init, 'codec, 'ses, 'h, 'e) FramedService" where
  "FramedService_new connect service timeout =
    \<lparr>fs_connect = connect, fs_handler = service, fs_disconnect_timeout = timeout\<rparr>"

definition FramedService_new_service ::
  "('req, 'init, 'codec, 'ses, 'h, 'e) FramedService \<Rightarrow> 'init + ('req, 'codec, 'ses, 'h, 'e) FramedServiceImpl" where
  "FramedService_new_service fs =
    map_sum id (\<lambda>connect.
      \<lparr>fi_connect = connect, fi_handler = fs_handler fs, fi_disconnect_timeout = fs_disconnect_timeout fs\<rparr>)
      (fs_connect fs ())"

definition FramedServiceImpl_poll_ready :: "('req, 'codec, 'ses, 'h, 'e) FramedServiceImpl \<Rightarrow> ('e + unit) option" where
  "FramedServiceImpl_poll_ready srv = svc_poll_ready (fi_connect srv)"

definition FramedServiceImpl_poll_shutdown :: "('req, 'codec, 'ses, 'h, 'e) FramedServiceImpl \<Rightarrow> bool \<Rightarrow> bool" where
  "FramedServiceImpl_poll_shutdown srv is_error = svc_poll_shutdown (fi_connect srv) is_error"

text \<open>The handshake, then the handler of the session.\<close>

definition framed_handler ::
  "('req, 'codec, 'ses, 'h, 'e) FramedServiceImpl \<Rightarrow> 'req \<Rightarrow> ('e, 'codec \<times> u16 \<times> 'h) outcome" where
  "framed_handler srv req =
    and_then (svc_call (fi_connect srv) req) (\<lambda>(codec, session, keepalive).
      case fi_handler srv session of Inl e \<Rightarrow> Err e | Inr handler \<Rightarrow> Ok (codec, keepalive, handler))"

definition FramedServiceImpl_call ::
  "('codec \<Rightarrow> 'h \<Rightarrow> u16 \<Rightarrow> u16 \<Rightarrow> ('e, unit) outcome) \<Rightarrow> ('req, 'codec, 'ses, 'h, 'e) FramedServiceImpl \<Rightarrow> 'req \<Rightarrow>
   ('e, unit) outcome" where
  "FramedServiceImpl_call run srv req =
    and_then (framed_handler srv req) (\<lambda>(codec, keepalive, handler).
      run codec handler keepalive (fi_disconnect_timeout srv))"

text \<open>\<^verbatim>\<open>FramedService2\<close> has the same parts; its connections come with the deadline of the server for both versions.
  \<open>late\<close> says whether the deadline passes before the handler is created: the connection is then given up and
  reported as a success.\<close>

definition FramedService2_new ::
  "(unit, 'init, ('req, 'codec \<times> 'ses \<times> u16, 'e) service) factory \<Rightarrow> ('ses, 'e, 'h) factory \<Rightarrow> u16 \<Rightarrow>
   ('req, 'init, 'codec, 'ses, 'h, 'e) FramedService" where
  "FramedService2_new connect service timeout =
    \<lparr>fs_connect = connect, fs_handler = service, fs_disconnect_timeout = timeout\<rparr>"

definition FramedService2_new_service ::
  "('req, 'init, 'codec, 'ses, 'h, 'e) FramedService \<Rightarrow> 'init + ('req, 'codec, 'ses, 'h, 'e) FramedServiceImpl" where
  "FramedService2_new_service fs =
    (case fs_connect fs () of
       Inl e \<Rightarrow> Inl e
     | Inr connect \<Rightarrow>
         Inr \<lparr>fi_connect = connect, fi_handler = fs_handler fs, fi_disconnect_timeout = fs_disconnect_timeout fs\<rparr>)"

definition FramedServiceImpl2_poll_ready :: "('req, 'codec, 'ses, 'h, 'e) FramedServiceImpl \<Rightarrow> ('e + unit) option" where
  "FramedServiceImpl2_poll_ready srv = svc_poll_ready (fi_connect srv)"

definition FramedServiceImpl2_poll_shutdown :: "('req, 'codec, 'ses, 'h, 'e) FramedServiceImpl \<Rightarrow> bool \<Rightarrow> bool" where
  "FramedServiceImpl2_poll_shutdown srv is_error = svc_poll_shutdown (fi_connect srv) is_error"

definition FramedServiceImpl2_call ::
  "('codec \<Rightarrow> 'h \<Rightarrow> u16 \<Rightarrow> u16 \<Rightarrow> ('e, unit) outcome) \<Rightarrow> bool \<Rightarrow> ('req, 'codec, 'ses, 'h, 'e) FramedServiceImpl \<Rightarrow>
   'req \<times> nat option \<Rightarrow> ('e, unit) outcome" where
  "FramedServiceImpl2_call run late srv req =
    (case snd req of
       Some _ \<Rightarrow>
         if late then Ok ()
         else and_then (framed_handler srv (fst req)) (\<lambda>(codec, keepalive, handler).
                run codec handler keepalive (fi_disconnect_timeout srv))
     | None \<Rightarrow>
         and_then (framed_handler srv (fst req)) (\<lambda>(codec, keepalive, handler).
           run codec handler keepalive (fi_disconnect_timeout srv)))"

text \<open>The two differ in the deadline only.\<close>

lemma FramedServiceImpl2_call_eq:
  "FramedServiceImpl2_call run late srv (req, delay) =
    (if delay \<noteq> None \<and> late then Ok () else FramedServiceImpl_call run srv req)"
  by (simp add: FramedServiceImpl2_call_def FramedServiceImpl_call_def split: option.split)

lemma FramedService2_new_service_eq: "FramedService2_new_service fs = FramedService_new_service fs"
  by (cases "fs_connect fs ()") (simp_all add: FramedService2_new_service_def FramedService_new_service_def)

section \<open>A handshake with a timeout\<close>

text \<open>The handshake service of the application is created once; every call runs the protocol's handshake on it. The
  parameter \<open>timeout\<close> is the service \<^verbatim>\<open>ntex::util::timeout::Timeout\<close>: what it makes of a call, \<open>None\<close> for a timeout.\<close>

definition with_timeout :: "('e MqttError, 'a) outcome option \<Rightarrow> ('e MqttError, 'a) outcome" where
  "with_timeout res = (case res of Some r \<Rightarrow> r | None \<Rightarrow> Err HandshakeTimeout)"

definition handshake_factory ::
  "(('e MqttError, 'a) outcome \<Rightarrow> ('e MqttError, 'a) outcome option) \<Rightarrow>
   (('hs, 'ack, 'e MqttError) service \<Rightarrow> 'req \<Rightarrow> ('e MqttError, 'a) outcome) \<Rightarrow>
   (unit, 'init, ('hs, 'ack, 'e) service) factory \<Rightarrow> (unit, 'init, ('req, 'a, 'e MqttError) service) factory" where
  "handshake_factory timeout handshake fac cfg =
    map_sum id (\<lambda>srv.
      (let service = service_err MqttError.Service srv in
       \<lparr>svc_poll_ready = svc_poll_ready service, svc_poll_shutdown = svc_poll_shutdown service,
        svc_call = (\<lambda>req. with_timeout (timeout (handshake service req)))\<rparr>)) (fac ())"

section \<open>Selectors\<close>

text \<open>A variant of a selector asks its check and then its handshake service, each against the deadline of the
  connection, if there is one (\<^verbatim>\<open>utils::select\<close>): \<open>late\<close> says for which of them the deadline comes first.\<close>

datatype phase = Checking | Connecting

definition before_deadline :: "(phase \<Rightarrow> bool) \<Rightarrow> phase \<Rightarrow> nat option \<Rightarrow> ('e, 'a) outcome \<Rightarrow> ('e MqttError, 'a) outcome" where
  "before_deadline late phase delay res =
    (if delay \<noteq> None \<and> late phase then Err HandshakeTimeout else outcome_err MqttError.Service res)"

text \<open>A selector creates the services of its variants in their order; the first error ends it. \<^verbatim>\<open>Selector2\<close>, the selector
  of a server for both versions, has no handshake timeout of its own.\<close>

fun create_all :: "'init + 'srv list \<Rightarrow> ('init + 'srv) list \<Rightarrow> 'init + 'srv list" where
  "create_all acc [] = acc"
| "create_all acc (r # rs) =
    (case acc of Inl e \<Rightarrow> Inl e | Inr srvs \<Rightarrow> (case r of Inl e \<Rightarrow> Inl e | Inr srv \<Rightarrow> create_all (Inr (srvs @ [srv])) rs))"

definition Selector_new_service :: "('fac \<Rightarrow> 'init + 'srv) \<Rightarrow> 'fac Selector \<Rightarrow> 'init + 'srv Selector" where
  "Selector_new_service create sel =
    map_sum id (\<lambda>servers.
      \<lparr>sel_servers = servers, sel_max_size = sel_max_size sel, sel_handshake_timeout = sel_handshake_timeout sel\<rparr>)
      (create_all (Inr []) (map create (sel_servers sel)))"

text \<open>The loop of \<^verbatim>\<open>SelectorService2\<close> over the variants.\<close>

fun selector2_call :: "('h \<Rightarrow> ('e MqttError, 'h + unit) outcome) list \<Rightarrow> 'h \<Rightarrow> ('e MqttError, unit) outcome" where
  "selector2_call [] item = Err (ServerError ''Cannot handle CONNECT packet'')"
| "selector2_call (srv # servers) item =
    (case srv item of
       Ok (Inl item) \<Rightarrow> selector2_call servers item
     | Ok (Inr _) \<Rightarrow> Ok ()
     | Err e \<Rightarrow> Err e
     | Panic \<Rightarrow> Panic
     | Diverge \<Rightarrow> Diverge)"

lemma selector2_call_eq: "selector2_call servers item = selector_call servers item"
  by (induction servers arbitrary: item) (auto split: outcome.split sum.split)

record 'srv Selector2 =
  sel2_servers :: "'srv list"
  sel2_max_size :: u32

definition Selector_finish_server :: "'fac Selector \<Rightarrow> 'fac Selector2" where
  "Selector_finish_server sel = \<lparr>sel2_servers = sel_servers sel, sel2_max_size = sel_max_size sel\<rparr>"

definition Selector2_new_service :: "('fac \<Rightarrow> 'init + 'srv) \<Rightarrow> 'fac Selector2 \<Rightarrow> 'init + 'srv Selector2" where
  "Selector2_new_service create sel =
    map_sum id (\<lambda>servers. \<lparr>sel2_servers = servers, sel2_max_size = sel2_max_size sel\<rparr>)
      (create_all (Inr []) (map create (sel2_servers sel)))"

definition SelectorService2_poll_ready :: "('srv \<Rightarrow> ('e + unit) option) \<Rightarrow> 'srv Selector2 \<Rightarrow> ('e + unit) option" where
  "SelectorService2_poll_ready poll sel = poll_servers poll (sel2_servers sel) True"

definition SelectorService2_poll_shutdown :: "('srv \<Rightarrow> bool) \<Rightarrow> 'srv Selector2 \<Rightarrow> bool" where
  "SelectorService2_poll_shutdown poll sel = foldl (\<lambda>all_ready srv. all_ready \<and> poll srv) True (sel2_servers sel)"

text \<open>A selector has the services of all its variants, in their order, or is not created.\<close>

lemma selector_created:
  "create_all (Inr srvs) (map create facs) = Inr res \<longleftrightarrow> (\<exists>xs. map create facs = map Inr xs \<and> res = srvs @ xs)"
proof (induction facs arbitrary: srvs)
  case (Cons fac facs)
  show ?case
  proof (cases "create fac")
    case (Inr srv)
    with Cons [of "srvs @ [srv]"] show ?thesis by (auto simp: map_eq_Cons_conv Cons_eq_map_conv)
  qed (auto simp: Cons_eq_map_conv)
qed auto

end
