(* ===== verification/V3_Handshake.thy ===== *)
theory V3_Handshake
  imports Service V3_Dispatcher
begin

text \<open>
  The MQTT 3.1.1 handshake of the server: the configuration and the handshake function of \<^verbatim>\<open>v3/server.rs\<close>,
  the messages of \<^verbatim>\<open>v3/handshake.rs\<close> and the variants of \<^verbatim>\<open>v3/selector.rs\<close>. The handshake service of the
  application is asked between \<open>handshake_connect\<close> and \<open>handshake_finish\<close>. The socket and the pool of channels
  are handles that the code only passes on.
\<close>

section \<open>Configuration\<close>

record MqttServer =
  ms_max_size :: u32
  ms_inflight :: nat
  ms_handshake_timeout :: u16
  ms_disconnect_timeout :: u16

definition MqttServer_new :: MqttServer where
  "MqttServer_new =
    \<lparr>ms_max_size = 0, ms_inflight = 16, ms_handshake_timeout = 0, ms_disconnect_timeout = 3000\<rparr>"

definition MqttServer_handshake_timeout :: "u16 \<Rightarrow> MqttServer \<Rightarrow> MqttServer" where
  "MqttServer_handshake_timeout timeout cfg = cfg\<lparr>ms_handshake_timeout := timeout\<rparr>"

definition MqttServer_disconnect_timeout :: "u16 \<Rightarrow> MqttServer \<Rightarrow> MqttServer" where
  "MqttServer_disconnect_timeout val cfg = cfg\<lparr>ms_disconnect_timeout := val\<rparr>"

definition MqttServer_max_size :: "u32 \<Rightarrow> MqttServer \<Rightarrow> MqttServer" where
  "MqttServer_max_size sz cfg = cfg\<lparr>ms_max_size := sz\<rparr>"

definition MqttServer_inflight :: "nat \<Rightarrow> MqttServer \<Rightarrow> MqttServer" where
  "MqttServer_inflight val cfg = cfg\<lparr>ms_inflight := val\<rparr>"

section \<open>Handshake messages\<close>

record ('tx, 'io) Handshake =
  hs_pkt :: Connect
  hs_shared :: "('tx, 'io) shared"

record ('tx, 'io, 'st) HandshakeAck =
  ha_session :: "'st option"
  ha_session_present :: bool
  ha_return_code :: ConnectAckReason
  ha_shared :: "('tx, 'io) shared"
  ha_keepalive :: u16
  ha_lw :: u16
  ha_read_hw :: u16
  ha_write_hw :: u16

definition Handshake_ack :: "'st \<Rightarrow> bool \<Rightarrow> ('tx, 'io) Handshake \<Rightarrow> ('tx, 'io, 'st) HandshakeAck" where
  "Handshake_ack st present hs =
    \<lparr>ha_session = Some st, ha_session_present = present, ha_return_code = ConnectionAccepted,
     ha_shared = hs_shared hs, ha_keepalive = 30, ha_lw = 256, ha_read_hw = 4 * 1024, ha_write_hw = 4 * 1024\<rparr>"

text \<open>The four refusals build the same message with another return code.\<close>

definition refusal :: "ConnectAckReason \<Rightarrow> ('tx, 'io) Handshake \<Rightarrow> ('tx, 'io, 'st) HandshakeAck" where
  "refusal code hs =
    \<lparr>ha_session = None, ha_session_present = False, ha_return_code = code,
     ha_shared = hs_shared hs, ha_keepalive = 30, ha_lw = 256, ha_read_hw = 4 * 1024, ha_write_hw = 4 * 1024\<rparr>"

definition Handshake_identifier_rejected :: "('tx, 'io) Handshake \<Rightarrow> ('tx, 'io, 'st) HandshakeAck" where
  "Handshake_identifier_rejected = refusal IdentifierRejected"

definition Handshake_bad_username_or_pwd :: "('tx, 'io) Handshake \<Rightarrow> ('tx, 'io, 'st) HandshakeAck" where
  "Handshake_bad_username_or_pwd = refusal BadUserNameOrPassword"

definition Handshake_not_authorized :: "('tx, 'io) Handshake \<Rightarrow> ('tx, 'io, 'st) HandshakeAck" where
  "Handshake_not_authorized = refusal NotAuthorized"

definition Handshake_service_unavailable :: "('tx, 'io) Handshake \<Rightarrow> ('tx, 'io, 'st) HandshakeAck" where
  "Handshake_service_unavailable = refusal ServiceUnavailable"

definition HandshakeAck_idle_timeout :: "u16 \<Rightarrow> ('tx, 'io, 'st) HandshakeAck \<Rightarrow> ('tx, 'io, 'st) HandshakeAck" where
  "HandshakeAck_idle_timeout timeout ack = ack\<lparr>ha_keepalive := timeout\<rparr>"

definition HandshakeAck_buffer_params ::
  "u16 \<Rightarrow> u16 \<Rightarrow> u16 \<Rightarrow> ('tx, 'io, 'st) HandshakeAck \<Rightarrow> ('tx, 'io, 'st) HandshakeAck" where
  "HandshakeAck_buffer_params max_read_buf max_write_buf min_buf_size ack =
    ack\<lparr>ha_read_hw := max_read_buf, ha_write_hw := max_write_buf, ha_lw := min_buf_size\<rparr>"

definition HandshakeAck_low_watermark :: "u16 \<Rightarrow> ('tx, 'io, 'st) HandshakeAck \<Rightarrow> ('tx, 'io, 'st) HandshakeAck" where
  "HandshakeAck_low_watermark lw ack = ack\<lparr>ha_lw := lw\<rparr>"

definition HandshakeAck_read_high_watermark :: "u16 \<Rightarrow> ('tx, 'io, 'st) HandshakeAck \<Rightarrow> ('tx, 'io, 'st) HandshakeAck" where
  "HandshakeAck_read_high_watermark hw ack = ack\<lparr>ha_read_hw := hw\<rparr>"

definition HandshakeAck_write_high_watermark :: "u16 \<Rightarrow> ('tx, 'io, 'st) HandshakeAck \<Rightarrow> ('tx, 'io, 'st) HandshakeAck" where
  "HandshakeAck_write_high_watermark hw ack = ack\<lparr>ha_write_hw := hw\<rparr>"

text \<open>The deprecated setters of single sizes make up \<open>buffer_params\<close>.\<close>

lemma v3_buffer_params_eq:
  "HandshakeAck_buffer_params r w l ack =
    HandshakeAck_low_watermark l (HandshakeAck_write_high_watermark w (HandshakeAck_read_high_watermark r ack))"
  by (simp add: HandshakeAck_buffer_params_def HandshakeAck_low_watermark_def HandshakeAck_write_high_watermark_def
      HandshakeAck_read_high_watermark_def)

section \<open>The handshake\<close>

text \<open>The shared state before the first packet: sixteen publishes in flight, whatever the configuration says.\<close>

definition handshake_start :: "u32 \<Rightarrow> 'io \<Rightarrow> ('tx, 'io) shared" where
  "handshake_start sz st = MqttShared_new st (Codec_max_size Codec_new sz) 16"

definition handshake_connect ::
  "Packet \<Rightarrow> ('tx, 'io) shared \<Rightarrow> 'e MqttError + ('tx, 'io) Handshake" where
  "handshake_connect packet sh =
    (case packet of
       Packet.Connect con \<Rightarrow> Inr \<lparr>hs_pkt = con, hs_shared = sh\<rparr>
     | packet \<Rightarrow>
         Inl (Protocol (ProtocolError.Unexpected (packet_type packet) ''MQTT-3.1.0-1: Expected CONNECT packet'')))"

text \<open>Sending the CONNACK of an answer.\<close>

definition send_connack ::
  "('io, Packet, Codec) hs_ops \<Rightarrow> Packet \<Rightarrow> (('tx, 'io) shared, 'e MqttError, unit) action" where
  "send_connack ops pkt sh =
    (case io_send ops (sh_codec sh) pkt (sh_state sh) of
       (Ok _, st) \<Rightarrow> (Ok (), sh\<lparr>sh_state := st\<rparr>)
     | (Err err, st) \<Rightarrow> (Err (MqttError_from_encode err), sh\<lparr>sh_state := st\<rparr>)
     | (Panic, st) \<Rightarrow> (Panic, sh\<lparr>sh_state := st\<rparr>)
     | (Diverge, st) \<Rightarrow> (Diverge, sh\<lparr>sh_state := st\<rparr>))"

definition handshake_refuse ::
  "('io, Packet, Codec) hs_ops \<Rightarrow> ('tx, 'io, 'st) HandshakeAck \<Rightarrow> (('tx, 'io) shared, 'e MqttError, 'a) action" where
  "handshake_refuse ops ack =
    act_then (send_connack ops (Packet.ConnectAck False (ha_return_code ack)))
      (\<lambda>_ sh. (Err MqttError.Disconnected, sh))"

definition handshake_accept ::
  "('io, Packet, Codec) hs_ops \<Rightarrow> 'st \<Rightarrow> ('tx, 'io, 'st) HandshakeAck \<Rightarrow>
   (('tx, 'io) shared, 'e MqttError, ('st, ('tx, 'io) shared) Session \<times> u16) action" where
  "handshake_accept ops session ack sh =
    act_then (send_connack ops (Packet.ConnectAck (ha_session_present ack) ConnectionAccepted))
      (\<lambda>_ sh. (Ok (Session_new session sh, ha_keepalive ack), sh))
      (sh\<lparr>sh_state := io_set_buffer_params ops (ha_read_hw ack) (ha_write_hw ack) (ha_lw ack) (sh_state sh)\<rparr>)"

definition handshake_finish ::
  "('io, Packet, Codec) hs_ops \<Rightarrow> ('tx, 'io, 'st) HandshakeAck \<Rightarrow>
   ('e MqttError, ('st, ('tx, 'io) shared) Session \<times> u16) outcome \<times> ('tx, 'io) shared" where
  "handshake_finish ops ack =
    (case ha_session ack of
       Some session \<Rightarrow> handshake_accept ops session ack (ha_shared ack)
     | None \<Rightarrow> handshake_refuse ops ack (ha_shared ack))"

text \<open>The dispatcher of a session (\<^verbatim>\<open>factory\<close> of \<^verbatim>\<open>v3/dispatcher.rs\<close>), and what the server makes of the items of
  the transport loop: the dispatcher sees packets only.\<close>

definition session_dispatcher :: "('st, ('tx, 'io) shared) Session \<Rightarrow> ('tx, 'io) Dispatcher" where
  "session_dispatcher ses = Dispatcher_new (ses_sink ses)"

fun call_item ::
  "('io, Packet) io_ops \<Rightarrow> ('tx \<Rightarrow> bool) \<Rightarrow> Packet DispatchItem \<Rightarrow> (('tx, 'io) Dispatcher, 'err, 'e Future) action" where
  "call_item ops alive (Item req) d = call ops alive req d"
| "call_item ops alive DispatchItem.KeepAliveTimeout d = (Ok (ReadyResult (Inl (Protocol ProtocolError.KeepAliveTimeout))), d)"
| "call_item ops alive (EncoderError e) d = (Ok (ReadyResult (Inl (Protocol (ProtocolError.Encode e)))), d)"
| "call_item ops alive (DecoderError e) d = (Ok (ReadyResult (Inl (Protocol (ProtocolError.Decode e)))), d)"
| "call_item ops alive (IoError e) d = (Ok (ReadyResult (Inl (Protocol (ProtocolError.Io e)))), d)"
| "call_item ops alive WBackPressureEnabled d = (Ok (ReadyResult (Inr None)), d)"
| "call_item ops alive WBackPressureDisabled d = (Ok (ReadyResult (Inr None)), d)"

section \<open>Server variants\<close>

text \<open>A server of a selector (\<^verbatim>\<open>ServerSelectorImpl\<close>): its check decides whether it takes the connection, then its
  handshake service answers. \<open>va_late\<close> is about the deadline of a connection.\<close>

record ('tx, 'io, 'st, 'h, 'e) variant =
  va_cfg :: MqttServer
  va_check :: "('tx, 'io) Handshake \<Rightarrow> ('e, bool) outcome"
  va_connect :: "(('tx, 'io) Handshake, ('tx, 'io, 'st) HandshakeAck, 'e) service"
  va_handler :: "(('st, ('tx, 'io) shared) Session, 'e MqttError, 'h) factory"
  va_late :: "phase \<Rightarrow> bool"

type_synonym ('tx, 'io) select_item = "('tx, 'io) Handshake \<times> nat option"

definition selector_check ::
  "('tx, 'io, 'st, 'h, 'e) variant \<Rightarrow> ('tx, 'io) select_item \<Rightarrow> ('e MqttError, bool) outcome" where
  "selector_check va item = before_deadline (va_late va) Checking (snd item) (va_check va (fst item))"

text \<open>A variant sets its own packet size limit when it accepts.\<close>

definition selector_finish ::
  "('io, Packet, Codec) hs_ops \<Rightarrow> MqttServer \<Rightarrow> ('tx, 'io, 'st) HandshakeAck \<Rightarrow>
   ('e MqttError, ('st, ('tx, 'io) shared) Session \<times> u16) outcome \<times> ('tx, 'io) shared" where
  "selector_finish ops cfg ack =
    (case ha_session ack of
       Some session \<Rightarrow>
         (let sh = ha_shared ack in
          handshake_accept ops session ack (sh\<lparr>sh_codec := Codec_set_max_size (sh_codec sh) (ms_max_size cfg)\<rparr>))
     | None \<Rightarrow> handshake_refuse ops ack (ha_shared ack))"

text \<open>The connection of a variant: the handshake service, the CONNACK, the handler of the session, and the transport
  loop \<open>run\<close> with the keep-alive and disconnect timeouts.\<close>

definition variant_connect ::
  "('io, Packet, Codec) hs_ops \<Rightarrow> (('tx, 'io) shared \<Rightarrow> 'h \<Rightarrow> u16 \<Rightarrow> u16 \<Rightarrow> ('e MqttError, unit) outcome) \<Rightarrow>
   ('tx, 'io, 'st, 'h, 'e) variant \<Rightarrow> ('tx, 'io) select_item \<Rightarrow> ('e MqttError, unit) outcome" where
  "variant_connect ops run va item =
    and_then (before_deadline (va_late va) Connecting (snd item) (svc_call (va_connect va) (fst item))) (\<lambda>ack.
    and_then (fst (selector_finish ops (va_cfg va) ack)) (\<lambda>(session, keepalive).
      case va_handler va session of
        Inl e \<Rightarrow> Err e
      | Inr handler \<Rightarrow> run (ses_sink session) handler keepalive (ms_disconnect_timeout (va_cfg va))))"

definition ServerSelectorImpl_call ::
  "('io, Packet, Codec) hs_ops \<Rightarrow> (('tx, 'io) shared \<Rightarrow> 'h \<Rightarrow> u16 \<Rightarrow> u16 \<Rightarrow> ('e MqttError, unit) outcome) \<Rightarrow>
   ('tx, 'io, 'st, 'h, 'e) variant \<Rightarrow> ('tx, 'io) select_item \<Rightarrow> ('e MqttError, ('tx, 'io) select_item + unit) outcome" where
  "ServerSelectorImpl_call ops run va item =
    and_then (selector_check va item) (\<lambda>taken.
      if \<not> taken then Ok (Inl item) else and_then (variant_connect ops run va item) (\<lambda>_. Ok (Inr ())))"

definition ServerSelectorImpl_poll_ready :: "('tx, 'io, 'st, 'h, 'e) variant \<Rightarrow> ('e MqttError + unit) option" where
  "ServerSelectorImpl_poll_ready va = map_option (map_sum MqttError.Service id) (svc_poll_ready (va_connect va))"

definition ServerSelectorImpl_poll_shutdown :: "('tx, 'io, 'st, 'h, 'e) variant \<Rightarrow> bool \<Rightarrow> bool" where
  "ServerSelectorImpl_poll_shutdown va is_error = svc_poll_shutdown (va_connect va) is_error"

text \<open>The selector: the first packet of the connection, read into the state \<open>st\<close>, then the variants.\<close>

definition SelectorService_call ::
  "('io, Packet, Codec) hs_ops \<Rightarrow> (('tx, 'io) shared \<Rightarrow> 'h \<Rightarrow> u16 \<Rightarrow> u16 \<Rightarrow> ('e MqttError, unit) outcome) \<Rightarrow>
   ('tx, 'io, 'st, 'h, 'e) variant Selector \<Rightarrow> nat \<Rightarrow> 'io \<Rightarrow>
   (DecodeError + io_error) + Packet option \<Rightarrow> ('e MqttError, unit) outcome" where
  "SelectorService_call ops run sel now st res =
    (let shared = MqttShared_new st (Codec_max_size Codec_new (sel_max_size sel)) 16;
         delay = handshake_delay now (unat (sel_handshake_timeout sel))
     in case first_packet res of
          Inl e \<Rightarrow> Err e
        | Inr packet \<Rightarrow>
          (case packet of
             Packet.Connect con \<Rightarrow>
               selector_call (map (ServerSelectorImpl_call ops run) (sel_servers sel)) (\<lparr>hs_pkt = con, hs_shared = shared\<rparr>, delay)
           | packet \<Rightarrow>
               Err (Protocol (ProtocolError.Unexpected (packet_type packet) ''MQTT-3.1.0-1: Expected CONNECT packet''))))"

text \<open>C30: A selector hands a connection to the first variant whose check accepts the CONNECT, and to that one only:
  the variants before it refuse and leave the handshake as it was, the variants after it are not asked. If every
  check refuses, the connection ends with an error.\<close>

theorem v3_selector_first_match:
  fixes sel :: "('tx, 'io, 'st, 'h, 'e) variant Selector"
  assumes "item = (\<lparr>hs_pkt = con, hs_shared = handshake_start (sel_max_size sel) st\<rparr>,
      handshake_delay now (unat (sel_handshake_timeout sel)))"
    and "sel_servers sel = before @ servers"
    and "\<forall>va \<in> set before. selector_check va item = Ok False"
  shows "SelectorService_call ops run sel now st (Inr (Some (Packet.Connect con))) =
    (case servers of
       [] \<Rightarrow> Err (ServerError ''Cannot handle CONNECT packet'')
     | va # _ \<Rightarrow> if selector_check va item = Ok True then variant_connect ops run va item
                else SelectorService_call ops run (sel\<lparr>sel_servers := servers\<rparr>) now st (Inr (Some (Packet.Connect con))))"
proof -
  have refused: "\<forall>srv \<in> set (map (ServerSelectorImpl_call ops run) before). srv item = Ok (Inl item)"
    using assms(3) by (simp add: ServerSelectorImpl_call_def)
  have call: "SelectorService_call ops run (sel\<lparr>sel_servers := s\<rparr>) now st (Inr (Some (Packet.Connect con))) =
      selector_call (map (ServerSelectorImpl_call ops run) s) item" for s
    by (simp add: SelectorService_call_def first_packet_def handshake_start_def assms(1))
  have "sel\<lparr>sel_servers := before @ servers\<rparr> = sel" using assms(2) by (cases sel) simp
  with call [of "before @ servers"] selector_call_decided [OF refused]
  have found: "SelectorService_call ops run sel now st (Inr (Some (Packet.Connect con))) =
      selector_call (map (ServerSelectorImpl_call ops run) servers) item" by simp
  show ?thesis
  proof (cases servers)
    case (Cons va rest)
    have "selector_call (map (ServerSelectorImpl_call ops run) servers) item = variant_connect ops run va item"
      if "selector_check va item = Ok True"
      using that Cons
      by (cases "variant_connect ops run va item") (simp_all add: ServerSelectorImpl_call_def)
    with Cons call [of servers] found show ?thesis by simp
  qed (simp add: found)
qed

text \<open>A variant that takes clients with a given identifier and refuses their handshake.\<close>

definition demo_variant :: "bytestring \<Rightarrow> ConnectAckReason \<Rightarrow> (nat, unit, unit, unit, unit) variant" where
  "demo_variant cid code =
    \<lparr>va_cfg = MqttServer_new, va_check = (\<lambda>hnd. Ok (client_id (hs_pkt hnd) = cid)),
     va_connect = \<lparr>svc_poll_ready = Some (Inr ()), svc_poll_shutdown = (\<lambda>_. True), svc_call = (\<lambda>hnd. Ok (refusal code hnd))\<rparr>,
     va_handler = (\<lambda>_. Inr ()), va_late = (\<lambda>_. False)\<rparr>"

definition demo_selector :: "(nat, unit, unit, unit, unit) variant Selector" where
  "demo_selector = Selector_variant (demo_variant [2] NotAuthorized) (Selector_variant (demo_variant [1] NotAuthorized) Selector_new)"

definition demo_connect :: Connect where
  "demo_connect = \<lparr>clean_session = True, keep_alive = 0, last_will = None, client_id = [2], username = None, password = None\<rparr>"

theorem v3_selector_first_match_witness:
  "\<forall>ops run. SelectorService_call ops run demo_selector 5 () (Inr (Some (Packet.Connect demo_connect))) =
   variant_connect ops run (demo_variant [2] NotAuthorized) (\<lparr>hs_pkt = demo_connect, hs_shared = handshake_start 0 ()\<rparr>, None)"
  by (intro allI, subst v3_selector_first_match [OF refl, of _ "[demo_variant [1] NotAuthorized]" "[demo_variant [2] NotAuthorized]"])
     (simp_all add: demo_selector_def Selector_variant_def Selector_new_def demo_variant_def demo_connect_def
       selector_check_def before_deadline_def handshake_delay_def)

end
