(* ===== verification/V3_Client.thy ===== *)
theory V3_Client
  imports V3_Handshake V3_Client_Dispatcher
begin

text \<open>
  The MQTT 3.1.1 client: the connector (\<^verbatim>\<open>v3/client/connector.rs\<close>) and the connection
  (\<^verbatim>\<open>v3/client/connection.rs\<close>). Opening the socket is the connector service of \<^verbatim>\<open>ntex\<close>; the model starts with
  its result.
\<close>

section \<open>The connector\<close>

datatype 'c ClientError =
    Ack bool ConnectAckReason
  | Protocol Errors.ProtocolError
  | HandshakeTimeout
  | Disconnected
  | Connect 'c

definition ClientError_from_encode :: "EncodeError + io_error \<Rightarrow> 'c ClientError" where
  "ClientError_from_encode err =
    (case err of Inl err \<Rightarrow> ClientError.Protocol (ProtocolError.Encode err) | Inr err \<Rightarrow> ClientError.Protocol (Io err))"

definition Connect_default :: Connect where
  "Connect_default =
    \<lparr>clean_session = False, keep_alive = 0, last_will = None, client_id = [], username = None, password = None\<rparr>"

record MqttConnector =
  mc_pkt :: Connect
  mc_max_send :: nat
  mc_max_receive :: nat
  mc_max_packet_size :: u32
  mc_handshake_timeout :: u16
  mc_disconnect_timeout :: u16

definition MqttConnector_new :: MqttConnector where
  "MqttConnector_new =
    \<lparr>mc_pkt = Connect_default, mc_max_send = 16, mc_max_receive = 16, mc_max_packet_size = 64 * 1024,
     mc_handshake_timeout = 0, mc_disconnect_timeout = 3000\<rparr>"

definition MqttConnector_client_id :: "bytestring \<Rightarrow> MqttConnector \<Rightarrow> MqttConnector" where
  "MqttConnector_client_id val mc = mc\<lparr>mc_pkt := (mc_pkt mc)\<lparr>client_id := val\<rparr>\<rparr>"

definition MqttConnector_clean_session :: "MqttConnector \<Rightarrow> MqttConnector" where
  "MqttConnector_clean_session mc = mc\<lparr>mc_pkt := (mc_pkt mc)\<lparr>clean_session := True\<rparr>\<rparr>"

definition MqttConnector_keep_alive :: "u16 \<Rightarrow> MqttConnector \<Rightarrow> MqttConnector" where
  "MqttConnector_keep_alive val mc = mc\<lparr>mc_pkt := (mc_pkt mc)\<lparr>keep_alive := val\<rparr>\<rparr>"

definition MqttConnector_last_will :: "LastWill \<Rightarrow> MqttConnector \<Rightarrow> MqttConnector" where
  "MqttConnector_last_will val mc = mc\<lparr>mc_pkt := (mc_pkt mc)\<lparr>last_will := Some val\<rparr>\<rparr>"

definition MqttConnector_username :: "bytestring \<Rightarrow> MqttConnector \<Rightarrow> MqttConnector" where
  "MqttConnector_username val mc = mc\<lparr>mc_pkt := (mc_pkt mc)\<lparr>username := Some val\<rparr>\<rparr>"

definition MqttConnector_password :: "bytes \<Rightarrow> MqttConnector \<Rightarrow> MqttConnector" where
  "MqttConnector_password val mc = mc\<lparr>mc_pkt := (mc_pkt mc)\<lparr>password := Some val\<rparr>\<rparr>"

definition MqttConnector_max_send :: "u16 \<Rightarrow> MqttConnector \<Rightarrow> MqttConnector" where
  "MqttConnector_max_send val mc = mc\<lparr>mc_max_send := unat val\<rparr>"

definition MqttConnector_max_receive :: "u16 \<Rightarrow> MqttConnector \<Rightarrow> MqttConnector" where
  "MqttConnector_max_receive val mc = mc\<lparr>mc_max_receive := unat val\<rparr>"

definition MqttConnector_max_packet_size :: "u32 \<Rightarrow> MqttConnector \<Rightarrow> MqttConnector" where
  "MqttConnector_max_packet_size val mc = mc\<lparr>mc_max_packet_size := val\<rparr>"

definition MqttConnector_packet :: "(Connect \<Rightarrow> Connect) \<Rightarrow> MqttConnector \<Rightarrow> MqttConnector" where
  "MqttConnector_packet f mc = mc\<lparr>mc_pkt := f (mc_pkt mc)\<rparr>"

definition MqttConnector_handshake_timeout :: "u16 \<Rightarrow> MqttConnector \<Rightarrow> MqttConnector" where
  "MqttConnector_handshake_timeout timeout mc = mc\<lparr>mc_handshake_timeout := timeout\<rparr>"

definition MqttConnector_disconnect_timeout :: "u16 \<Rightarrow> MqttConnector \<Rightarrow> MqttConnector" where
  "MqttConnector_disconnect_timeout timeout mc = mc\<lparr>mc_disconnect_timeout := timeout\<rparr>"

record ('tx, 'io) Client =
  cl_shared :: "('tx, 'io) shared"
  cl_keepalive :: u16
  cl_disconnect_timeout :: u16
  cl_session_present :: bool
  cl_max_receive :: nat

definition Client_new ::
  "('tx, 'io) shared \<Rightarrow> bool \<Rightarrow> u16 \<Rightarrow> u16 \<Rightarrow> nat \<Rightarrow> ('tx, 'io) Client" where
  "Client_new shared present keepalive_timeout disconnect_timeout receive =
    \<lparr>cl_shared = shared, cl_keepalive = keepalive_timeout, cl_disconnect_timeout = disconnect_timeout,
     cl_session_present = present, cl_max_receive = receive\<rparr>"

section \<open>Connecting\<close>

text \<open>The socket is open: the CONNECT goes out.\<close>

definition connect_codec :: "MqttConnector \<Rightarrow> Codec" where
  "connect_codec mc = Codec_max_size Codec_new (mc_max_packet_size mc)"

definition connect_start ::
  "('io, Packet, Codec) hs_ops \<Rightarrow> MqttConnector \<Rightarrow> ('io, 'c ClientError, unit) action" where
  "connect_start ops mc st =
    (case io_send ops (connect_codec mc) (Packet.Connect (mc_pkt mc)) st of
       (Ok _, st) \<Rightarrow> (Ok (), st)
     | (Err err, st) \<Rightarrow> (Err (ClientError_from_encode err), st)
     | (Panic, st) \<Rightarrow> (Panic, st)
     | (Diverge, st) \<Rightarrow> (Diverge, st))"

text \<open>The first packet of the server has arrived.\<close>

definition connect_packet ::
  "MqttConnector \<Rightarrow> 'io \<Rightarrow> (DecodeError + io_error) + Packet option \<Rightarrow> 'c ClientError + ('tx, 'io) Client" where
  "connect_packet mc st res =
    (case res of
       Inl e \<Rightarrow> Inl (ClientError.Protocol (ProtocolError_from_decode e))
     | Inr None \<Rightarrow> Inl ClientError.Disconnected
     | Inr (Some (Packet.ConnectAck present code)) \<Rightarrow>
         (let shared = MqttShared_new st (connect_codec mc) (mc_max_send mc) in
          if code = ConnectionAccepted
          then Inr (Client_new shared present (keep_alive (mc_pkt mc)) (mc_disconnect_timeout mc) (mc_max_receive mc))
          else Inl (ClientError.Ack present code))
     | Inr (Some p) \<Rightarrow>
         Inl (ClientError.Protocol (ProtocolError.Unexpected (packet_type p) ''Expected CONNECT-ACK packet'')))"

text \<open>The whole of \<^verbatim>\<open>_connect\<close>: \<open>opened\<close> is the result of the connector service, \<open>read\<close> is \<^verbatim>\<open>State::next\<close>.\<close>

definition connect_inner ::
  "('io, Packet, Codec) hs_ops \<Rightarrow> (Codec \<Rightarrow> 'io \<Rightarrow> ((DecodeError + io_error) + Packet option) \<times> 'io) \<Rightarrow> MqttConnector \<Rightarrow>
   'c + 'io \<Rightarrow> ('c ClientError, ('tx, 'io) Client) outcome" where
  "connect_inner ops read mc opened =
    (case opened of
       Inl e \<Rightarrow> Err (ClientError.Connect e)
     | Inr st \<Rightarrow>
         (case connect_start ops mc st of (sent, st) \<Rightarrow>
            and_then sent (\<lambda>_. case read (connect_codec mc) st of (res, st) \<Rightarrow> of_sum (connect_packet mc st res))))"

text \<open>With a handshake timeout, \<open>None\<close> stands for the timer that fires first.\<close>

definition connect :: "MqttConnector \<Rightarrow> ('c ClientError + 'a) option \<Rightarrow> ('c ClientError + 'a) option" where
  "connect mc res =
    (case res of
       Some r \<Rightarrow> Some r
     | None \<Rightarrow> if mc_handshake_timeout mc > 0 then Some (Inl ClientError.HandshakeTimeout) else None)"

text \<open>A client that is connected has sent its CONNECT and has received an accepting CONNACK.\<close>

lemma v3_connected:
  assumes "connect_inner ops read mc opened = Ok client"
  obtains st st' st'' present where "opened = Inr st"
    "io_send ops (connect_codec mc) (Packet.Connect (mc_pkt mc)) st = (Ok (), st')"
    "read (connect_codec mc) st' = (Inr (Some (Packet.ConnectAck present ConnectionAccepted)), st'')"
    "client = Client_new (MqttShared_new st'' (connect_codec mc) (mc_max_send mc)) present (keep_alive (mc_pkt mc))
      (mc_disconnect_timeout mc) (mc_max_receive mc)"
  using assms
  by (auto simp: connect_inner_def connect_start_def connect_packet_def Client_new_def Let_def and_then_eq_Ok
      split: sum.splits prod.splits outcome.splits option.splits Packet.splits if_splits)

section \<open>The connection\<close>

text \<open>Starting a client: the interval of its keep-alive task, if any, and its dispatcher.  The transport loop of
  a client has no keep-alive timeout of its own.\<close>

definition Client_start :: "('tx, 'io) Client \<Rightarrow> u16 option \<times> ('tx, 'io) Dispatcher" where
  "Client_start cl =
    ((if cl_keepalive cl > 0 then Some (cl_keepalive cl) else None),
     V3_Client_Dispatcher.Dispatcher_new (cl_shared cl))"

fun client_call_item ::
  "('io, Packet) io_ops \<Rightarrow> ('tx \<Rightarrow> bool) \<Rightarrow> Packet DispatchItem \<Rightarrow>
   (('tx, 'io) Dispatcher, 'err, 'e V3_Client_Dispatcher.Future) action" where
  "client_call_item ops alive (Item req) d = V3_Client_Dispatcher.call ops alive req d"
| "client_call_item ops alive DispatchItem.KeepAliveTimeout d =
    (Ok (V3_Client_Dispatcher.ReadyResult (Inl (MqttError.Protocol ProtocolError.KeepAliveTimeout))), d)"
| "client_call_item ops alive (EncoderError e) d =
    (Ok (V3_Client_Dispatcher.ReadyResult (Inl (MqttError.Protocol (ProtocolError.Encode e)))), d)"
| "client_call_item ops alive (DecoderError e) d =
    (Ok (V3_Client_Dispatcher.ReadyResult (Inl (MqttError.Protocol (ProtocolError.Decode e)))), d)"
| "client_call_item ops alive (IoError e) d =
    (Ok (V3_Client_Dispatcher.ReadyResult (Inl (MqttError.Protocol (ProtocolError.Io e)))), d)"
| "client_call_item ops alive WBackPressureEnabled d = (Ok (V3_Client_Dispatcher.ReadyResult (Inr None)), d)"
| "client_call_item ops alive WBackPressureDisabled d = (Ok (V3_Client_Dispatcher.ReadyResult (Inr None)), d)"

text \<open>The control service of \<^verbatim>\<open>start_default\<close>, and the publish service of a client without resources.\<close>

definition default_control :: "ControlMessage \<Rightarrow> 'e + ControlResultKind" where
  "default_control msg = Inr ControlMessage_disconnect"

definition no_resources :: "Publish \<Rightarrow> 'e + (unit + Publish)" where
  "no_resources pkt = Inr (Inr pkt)"

text \<open>The keep-alive task: it sends pings until the sink refuses one.  Time passes between the rounds, in which
  the other parts of the client change the sink: one argument per round.\<close>

fun keepalive_task ::
  "('io, Packet) io_ops \<Rightarrow> (('tx, 'io) shared \<Rightarrow> ('tx, 'io) shared) list \<Rightarrow> ('tx, 'io) shared \<Rightarrow>
   bool \<times> ('tx, 'io) shared" where
  "keepalive_task ops [] sh = (True, sh)"
| "keepalive_task ops (meanwhile # rest) sh =
    (case (ping ops (meanwhile sh) :: (unit, bool) outcome \<times> _) of
       (Ok True, sh) \<Rightarrow> keepalive_task ops rest sh
     | (_, sh) \<Rightarrow> (False, sh))"

section \<open>A limit of 0\<close>

text \<open>A client with \<^verbatim>\<open>max_send(0)\<close>, which the documentation gives as the way to disable the limit of publishes
  in flight, never sends a QoS 1 publish: it waits for credit, nothing is written, and no acknowledgement can
  wake it.\<close>

theorem v3_max_send_zero_blocks:
  fixes client :: "('tx, 'io) Client"
  assumes "connect_packet (MqttConnector_max_send 0 mc) st (Inr (Some (Packet.ConnectAck present ConnectionAccepted))) =
      (Inr client :: unit ClientError + _)"
    and "io_is_open ops st"
  shows "\<exists>sh'. send_at_least_once ops wtx tx pkt (cl_shared client) =
      (Ok (AwaitCredit wtx (pkt\<lparr>qos := AtLeastOnce\<rparr>)), sh') \<and> sh_state sh' = st \<and>
      (\<forall>alive ack. fst (pkt_ack ops alive ack sh') = Err PacketIdMismatch)"
proof -
  have cl: "cl_shared client = MqttShared_new st (connect_codec mc) 0"
    using assms(1) by (auto simp: connect_packet_def Let_def Client_new_def MqttConnector_max_send_def connect_codec_def)
  let ?sh' = "(cl_shared client)\<lparr>queues := (queues (cl_shared client))\<lparr>waiters := [wtx]\<rparr>\<rparr>"
  have "send_at_least_once ops wtx tx pkt (cl_shared client) = (Ok (AwaitCredit wtx (pkt\<lparr>qos := AtLeastOnce\<rparr>)), ?sh')"
    using assms(2)
    by (simp add: cl MqttShared_new_def send_at_least_once_def Let_def await_credit_def act_then_def has_credit_def
        push_waiter_def with_queues_def)
  moreover have "fst (pkt_ack ops alive ack ?sh') = Err PacketIdMismatch" for alive ack
    by (simp add: cl MqttShared_new_def pkt_ack_def pkt_ack_queues_def with_queues_def close_def clear_queues_def act_then_def)
  ultimately show ?thesis using cl by (auto simp: MqttShared_new_def)
qed

definition test_connector :: MqttConnector where
  "test_connector = MqttConnector_clean_session (MqttConnector_client_id [0x61] MqttConnector_new)"

theorem v3_max_send_zero_blocks_witness:
  "\<exists>(client :: (nat, bool) Client) sh'.
     connect_packet (MqttConnector_max_send 0 test_connector) True (Inr (Some (Packet.ConnectAck False ConnectionAccepted))) =
       (Inr client :: unit ClientError + _) \<and>
     send_at_least_once flag_io 1 2 (publish [0x61] []) (cl_shared client) =
       (Ok (AwaitCredit 1 ((publish [0x61] [])\<lparr>qos := AtLeastOnce\<rparr>)), sh')"
proof -
  obtain client :: "(nat, bool) Client" where
    c: "connect_packet (MqttConnector_max_send 0 test_connector) True (Inr (Some (Packet.ConnectAck False ConnectionAccepted))) =
       (Inr client :: unit ClientError + _)"
    by (simp add: connect_packet_def Let_def)
  have "io_is_open flag_io True" by (simp add: flag_io_def)
  from v3_max_send_zero_blocks [OF c this, of 1 2 "publish [0x61] []"] c show ?thesis by blast
qed

end
