(* ===== verification/V3_Router.thy ===== *)
theory V3_Router
  imports Router V3_Client
begin

text \<open>
  The publish router of MQTT 3.1.1 (\<^verbatim>\<open>v3/router.rs\<close>) and the router of the client (\<^verbatim>\<open>dispatch\<close> of
  \<^verbatim>\<open>v3/client/connection.rs\<close>). All handlers of a session are created when it starts.
\<close>

text \<open>A publish on its way to a handler: the packet and the path that the router matches (\<^verbatim>\<open>v3/publish.rs\<close>).\<close>

record 'path Request =
  rq_publish :: Publish
  rq_topic :: 'path

definition Publish_new :: "(bytestring \<Rightarrow> 'path) \<Rightarrow> Publish \<Rightarrow> 'path Request" where
  "Publish_new path_new pub = \<lparr>rq_publish = pub, rq_topic = path_new (topic pub)\<rparr>"

record ('a, 'svc) RouterService =
  rs_table :: "('a \<times> nat) list"
  rs_handlers :: "'svc list"
  rs_default :: 'svc

text \<open>The factories are asked in order, the default last; the first error ends the session.\<close>

fun create_all :: "('f \<Rightarrow> 'e + 'svc) \<Rightarrow> 'f list \<Rightarrow> 'svc list \<Rightarrow> 'e + 'svc list" where
  "create_all mk [] handlers = Inr handlers"
| "create_all mk (f # fs) handlers =
    (case mk f of Inl e \<Rightarrow> Inl e | Inr h \<Rightarrow> create_all mk fs (handlers @ [h]))"

definition RouterFactory_new_service ::
  "('f \<Rightarrow> 'e + 'svc) \<Rightarrow> ('a, 'f) Router \<Rightarrow> 'e + ('a, 'svc) RouterService" where
  "RouterFactory_new_service mk r =
    (case create_all mk (rt_handlers r) [] of
       Inl e \<Rightarrow> Inl e
     | Inr handlers \<Rightarrow>
       (case mk (rt_default r) of
          Inl e \<Rightarrow> Inl e
        | Inr def \<Rightarrow> Inr \<lparr>rs_table = rt_table r, rs_handlers = handlers, rs_default = def\<rparr>))"

definition RouterService_poll_ready ::
  "('svc \<Rightarrow> ('e + unit) option) \<Rightarrow> ('a, 'svc) RouterService \<Rightarrow> ('e + unit) option" where
  "RouterService_poll_ready poll s =
    (case poll_handlers poll (rs_handlers s) False of
       Inl e \<Rightarrow> Some (Inl e)
     | Inr not_ready \<Rightarrow>
       (case poll (rs_default s) of
          Some (Inl e) \<Rightarrow> Some (Inl e)
        | None \<Rightarrow> None
        | Some (Inr _) \<Rightarrow> if not_ready then None else Some (Inr ())))"

definition RouterService_call ::
  "('a, 'path) recognizer \<Rightarrow> 'path Request \<Rightarrow> ('a, 'svc) RouterService \<Rightarrow> ('err, 'svc \<times> 'path Request) outcome" where
  "RouterService_call recognize req s =
    (case recognize (rs_table s) (rq_topic req) of
       Some (idx, path) \<Rightarrow>
         if idx < length (rs_handlers s) then Ok (rs_handlers s ! idx, req\<lparr>rq_topic := path\<rparr>) else Panic
     | None \<Rightarrow> Ok (rs_default s, req))"

section \<open>The client\<close>

text \<open>The handler that a publish goes to, or the publish given back.\<close>

definition dispatch ::
  "('a, 'path) recognizer \<Rightarrow> ('a \<times> nat) list \<Rightarrow> 'svc list \<Rightarrow> 'path Request \<Rightarrow>
   ('err, ('svc \<times> 'path Request) + 'path Request) outcome" where
  "dispatch recognize table handlers req =
    (case recognize table (rq_topic req) of
       Some (idx, path) \<Rightarrow>
         if idx < length handlers then Ok (Inl (handlers ! idx, req\<lparr>rq_topic := path\<rparr>)) else Panic
     | None \<Rightarrow> Ok (Inr req))"

definition dispatch_called :: "('perr \<Rightarrow> 'e) \<Rightarrow> 'perr + unit \<Rightarrow> 'e MqttError + (unit + 'path Request)" where
  "dispatch_called into res =
    (case res of Inr _ \<Rightarrow> Inr (Inl ()) | Inl err \<Rightarrow> Inl (Service (into err)))"

section \<open>Routing\<close>

lemma create_all_Inr:
  "create_all mk fs hs = Inr hs' \<longleftrightarrow> (\<exists>ns. hs' = hs @ ns \<and> list_all2 (\<lambda>f h. mk f = Inr h) fs ns)"
proof (induction fs arbitrary: hs)
  case Nil show ?case by auto
next
  case (Cons f fs)
  show ?case
    by (cases "mk f") (auto simp: Cons.IH list_all2_Cons1)
qed

text \<open>C29: A router session has one handler per resource, made by the factory that the resource was registered
  with, and no publish makes it panic: a publish whose topic the recogniser matches with the resource number
  \<open>i\<close> goes to the handler of the \<open>i\<close>-th registered factory, any other to the default handler, and the
  packet itself is passed on unchanged.\<close>

theorem v3_router_routes:
  assumes "recognizes_registered recognize"
    and "RouterFactory_new_service mk (Router_resources rs d) = Inr s"
  shows "\<exists>hnd req'. RouterService_call recognize req s = Ok (hnd, req') \<and> rq_publish req' = rq_publish req \<and>
    (case recognize (rt_table (Router_resources rs d)) (rq_topic req) of
       None \<Rightarrow> mk d = Inr hnd \<and> req' = req
     | Some (i, path) \<Rightarrow> i < length rs \<and> mk (snd (rs ! i)) = Inr hnd \<and> rq_topic req' = path)"
proof -
  from assms(2) obtain hs def where hs: "create_all mk (map snd rs) [] = Inr hs" and "mk d = Inr def"
    and s: "s = \<lparr>rs_table = rt_table (Router_resources rs d), rs_handlers = hs, rs_default = def\<rparr>"
    by (auto simp: RouterFactory_new_service_def Router_resources_built split: sum.splits)
  from hs have made: "list_all2 (\<lambda>f h. mk f = Inr h) (map snd rs) hs" by (simp add: create_all_Inr)
  then have len: "length hs = length rs" by (auto dest: list_all2_lengthD)
  show ?thesis
  proof (cases "recognize (rt_table (Router_resources rs d)) (rq_topic req)")
    case None
    with s \<open>mk d = Inr def\<close> show ?thesis by (simp add: RouterService_call_def)
  next
    case (Some x)
    obtain i path where x: "x = (i, path)" by (cases x)
    with Some have "i < length rs" by (intro recognized_index [OF assms(1)]) simp
    moreover from this made have "mk (snd (rs ! i)) = Inr (hs ! i)" by (simp add: list_all2_conv_all_nth)
    ultimately show ?thesis using Some x s len by (simp add: RouterService_call_def)
  qed
qed

theorem v3_router_routes_witness:
  "\<exists>s hnd req'. RouterFactory_new_service (\<lambda>f. Inr f :: unit + nat) (Router_resources [([1], 10), ([2], 20)] 30) = Inr s \<and>
     RouterService_call exact (Publish_new id (publish [2] [])) s = Ok (hnd, req') \<and> hnd = 20"
proof -
  obtain s where s: "RouterFactory_new_service (\<lambda>f. Inr f :: unit + nat) (Router_resources [([1 :: u8], 10), ([2], 20)] 30) = Inr s"
    by (simp add: RouterFactory_new_service_def Router_resources_built)
  from v3_router_routes [OF exact_registered s, of "Publish_new id (publish [2] [])"] s show ?thesis
    by (auto simp: Router_resources_built exact_def Publish_new_def publish_def upt_rec)
qed

end
