(* ===== verification/V5_Handshake.thy ===== *)
theory V5_Handshake
  imports Service V5_Dispatcher
begin

text \<open>
  The MQTT 5 handshake of the server: the configuration and the handshake function of \<^verbatim>\<open>v5/server.rs\<close>,
  the messages of \<^verbatim>\<open>v5/handshake.rs\<close> and the variants of \<^verbatim>\<open>v5/selector.rs\<close>. The handshake service of the application is asked between
  \<open>handshake_connect\<close> and \<open>handshake_finish\<close>. The socket and the pool of channels are handles that the code
  only passes on.
\<close>

section \<open>Configuration\<close>

record MqttServer =
  ms_max_size :: u32
  ms_max_receive :: u16
  ms_max_qos :: "QoS option"
  ms_handshake_timeout :: u16
  ms_disconnect_timeout :: u16
  ms_max_topic_alias :: u16

definition MqttServer_new :: MqttServer where
  "MqttServer_new =
    \<lparr>ms_max_size = 0, ms_max_receive = 15, ms_max_qos = None, ms_handshake_timeout = 0,
     ms_disconnect_timeout = 3000, ms_max_topic_alias = 32\<rparr>"

definition MqttServer_handshake_timeout :: "u16 \<Rightarrow> MqttServer \<Rightarrow> MqttServer" where
  "MqttServer_handshake_timeout timeout cfg = cfg\<lparr>ms_handshake_timeout := timeout\<rparr>"

definition MqttServer_disconnect_timeout :: "u16 \<Rightarrow> MqttServer \<Rightarrow> MqttServer" where
  "MqttServer_disconnect_timeout val cfg = cfg\<lparr>ms_disconnect_timeout := val\<rparr>"

definition MqttServer_max_size :: "u32 \<Rightarrow> MqttServer \<Rightarrow> MqttServer" where
  "MqttServer_max_size sz cfg = cfg\<lparr>ms_max_size := sz\<rparr>"

definition MqttServer_receive_max :: "u16 \<Rightarrow> MqttServer \<Rightarrow> MqttServer" where
  "MqttServer_receive_max val cfg = cfg\<lparr>ms_max_receive := val\<rparr>"

definition MqttServer_max_topic_alias :: "u16 \<Rightarrow> MqttServer \<Rightarrow> MqttServer" where
  "MqttServer_max_topic_alias val cfg = cfg\<lparr>ms_max_topic_alias := val\<rparr>"

definition MqttServer_max_qos :: "QoS \<Rightarrow> MqttServer \<Rightarrow> MqttServer" where
  "MqttServer_max_qos q cfg = cfg\<lparr>ms_max_qos := Some q\<rparr>"

section \<open>Handshake messages\<close>

record ('tx, 'io) Handshake =
  hs_pkt :: Connect
  hs_shared :: "('tx, 'io) shared"
  hs_max_size :: u32
  hs_max_receive :: u16
  hs_max_topic_alias :: u16

record ('tx, 'io, 'st) HandshakeAck =
  ha_session :: "'st option"
  ha_shared :: "('tx, 'io) shared"
  ha_packet :: ConnectAck
  ha_keepalive :: u16
  ha_lw :: u16
  ha_read_hw :: u16
  ha_write_hw :: u16

definition Handshake_ack :: "'st \<Rightarrow> ('tx, 'io) Handshake \<Rightarrow> ('tx, 'io, 'st) HandshakeAck" where
  "Handshake_ack st hs =
    (let packet = ConnectAck_default\<lparr>ca_reason_code := ConnectAckReason.Success,
           ca_topic_alias_max := hs_max_topic_alias hs\<rparr>;
         packet = (if hs_max_size hs \<noteq> 0 then packet\<lparr>ca_max_packet_size := Some (hs_max_size hs)\<rparr> else packet);
         packet = (if hs_max_receive hs \<noteq> 0 then packet\<lparr>ca_receive_max := Some (hs_max_receive hs)\<rparr> else packet)
     in \<lparr>ha_session = Some st, ha_shared = hs_shared hs, ha_packet = packet, ha_keepalive = 30,
         ha_lw = 256, ha_read_hw = 4 * 1024, ha_write_hw = 4 * 1024\<rparr>)"

definition Handshake_fail_with :: "ConnectAck \<Rightarrow> ('tx, 'io) Handshake \<Rightarrow> ('tx, 'io, 'st) HandshakeAck" where
  "Handshake_fail_with ack hs =
    \<lparr>ha_session = None, ha_shared = hs_shared hs, ha_packet = ack, ha_keepalive = 30,
     ha_lw = 256, ha_read_hw = 4 * 1024, ha_write_hw = 4 * 1024\<rparr>"

definition Handshake_failed :: "ConnectAckReason \<Rightarrow> ('tx, 'io) Handshake \<Rightarrow> ('tx, 'io, 'st) HandshakeAck" where
  "Handshake_failed reason_code hs =
    \<lparr>ha_session = None, ha_shared = hs_shared hs,
     ha_packet = ConnectAck_default\<lparr>ca_reason_code := reason_code\<rparr>, ha_keepalive = 30,
     ha_lw = 256, ha_read_hw = 4 * 1024, ha_write_hw = 4 * 1024\<rparr>"

definition HandshakeAck_keep_alive ::
  "u16 \<Rightarrow> ('tx, 'io, 'st) HandshakeAck \<Rightarrow> ('e, ('tx, 'io, 'st) HandshakeAck) outcome" where
  "HandshakeAck_keep_alive timeout ack = (if timeout = 0 then Panic else Ok (ack\<lparr>ha_keepalive := timeout\<rparr>))"

definition HandshakeAck_buffer_params ::
  "u16 \<Rightarrow> u16 \<Rightarrow> u16 \<Rightarrow> ('tx, 'io, 'st) HandshakeAck \<Rightarrow> ('tx, 'io, 'st) HandshakeAck" where
  "HandshakeAck_buffer_params max_read_buf max_write_buf min_buf_size ack =
    ack\<lparr>ha_read_hw := max_read_buf, ha_write_hw := max_write_buf, ha_lw := min_buf_size\<rparr>"

definition HandshakeAck_low_watermark :: "u16 \<Rightarrow> ('tx, 'io, 'st) HandshakeAck \<Rightarrow> ('tx, 'io, 'st) HandshakeAck" where
  "HandshakeAck_low_watermark lw ack = ack\<lparr>ha_lw := lw\<rparr>"

definition HandshakeAck_read_high_watermark :: "u16 \<Rightarrow> ('tx, 'io, 'st) HandshakeAck \<Rightarrow> ('tx, 'io, 'st) HandshakeAck" where
  "HandshakeAck_read_high_watermark hw ack = ack\<lparr>ha_read_hw := hw\<rparr>"

definition HandshakeAck_write_high_watermark :: "u16 \<Rightarrow> ('tx, 'io, 'st) HandshakeAck \<Rightarrow> ('tx, 'io, 'st) HandshakeAck" where
  "HandshakeAck_write_high_watermark hw ack = ack\<lparr>ha_write_hw := hw\<rparr>"

text \<open>The deprecated setters of single sizes make up \<open>buffer_params\<close>.\<close>

lemma v5_buffer_params_eq:
  "HandshakeAck_buffer_params r w l ack =
    HandshakeAck_low_watermark l (HandshakeAck_write_high_watermark w (HandshakeAck_read_high_watermark r ack))"
  by (simp add: HandshakeAck_buffer_params_def HandshakeAck_low_watermark_def HandshakeAck_write_high_watermark_def
      HandshakeAck_read_high_watermark_def)

definition HandshakeAck_with ::
  "(ConnectAck \<Rightarrow> ConnectAck) \<Rightarrow> ('tx, 'io, 'st) HandshakeAck \<Rightarrow> ('tx, 'io, 'st) HandshakeAck" where
  "HandshakeAck_with f ack = ack\<lparr>ha_packet := f (ha_packet ack)\<rparr>"

section \<open>The handshake\<close>

text \<open>The shared state before the first packet.\<close>

definition handshake_start :: "MqttServer \<Rightarrow> 'io \<Rightarrow> ('tx, 'io) shared" where
  "handshake_start cfg st =
    (let shared = MqttShared_new st Codec_new 0 in
     shared\<lparr>sh_codec := Codec_set_max_inbound_size (sh_codec shared) (ms_max_size cfg)\<rparr>)"

text \<open>What the client's CONNECT sets: the limit of outgoing packets and the number of publishes in flight.\<close>

definition apply_connect :: "Connect \<Rightarrow> ('tx, 'io) shared \<Rightarrow> ('tx, 'io) shared" where
  "apply_connect con sh =
    sh\<lparr>sh_codec := (case con_max_packet_size con of
           Some n \<Rightarrow> Codec_set_max_outbound_size (sh_codec sh) n | None \<Rightarrow> sh_codec sh),
       cap := unat (case con_receive_max con of Some v \<Rightarrow> v | None \<Rightarrow> 16)\<rparr>"

definition handshake_connect ::
  "MqttServer \<Rightarrow> Packet \<Rightarrow> ('tx, 'io) shared \<Rightarrow> 'e MqttError + ('tx, 'io) Handshake" where
  "handshake_connect cfg packet sh =
    (case packet of
       Packet.Connect con \<Rightarrow>
         Inr \<lparr>hs_pkt = con, hs_shared = apply_connect con sh, hs_max_size = ms_max_size cfg,
              hs_max_receive = ms_max_receive cfg, hs_max_topic_alias = ms_max_topic_alias cfg\<rparr>
     | packet \<Rightarrow>
         Inl (Protocol (ProtocolError.Unexpected (packet_type packet) ''MQTT-3.1.0-1: Expected CONNECT packet'')))"

text \<open>The CONNACK packet of a successful handshake.\<close>

definition connack_packet ::
  "QoS option \<Rightarrow> u16 \<Rightarrow> ('tx, 'io, 'st) HandshakeAck \<Rightarrow> ConnectAck" where
  "connack_packet max_qos keep_alive ack =
    (let packet = ha_packet ack;
         packet = (if ca_max_qos packet = None then packet\<lparr>ca_max_qos := max_qos\<rparr> else packet)
     in if ca_server_keepalive_sec packet = None \<and> keep_alive > ha_keepalive ack
        then packet\<lparr>ca_server_keepalive_sec := Some (ha_keepalive ack)\<rparr> else packet)"

text \<open>The answer of the handshake service: with a session the CONNACK is sent and the connection is ready;
  without one it is sent if possible, and the connection ends.\<close>

definition handshake_finish ::
  "('io, Packet, Codec) hs_ops \<Rightarrow> QoS option \<Rightarrow> u16 \<Rightarrow> ('tx, 'io, 'st) HandshakeAck \<Rightarrow>
   ('e MqttError, ('st, ('tx, 'io) shared) Session \<times> u16) outcome \<times> ('tx, 'io) shared" where
  "handshake_finish ops max_qos keep_alive ack =
    (let sh = ha_shared ack in
     case ha_session ack of
       Some session \<Rightarrow>
         (let packet = connack_packet max_qos keep_alive ack;
              sh = sh\<lparr>sh_codec := (case ca_max_packet_size packet of
                     Some n \<Rightarrow> Codec_set_max_inbound_size (sh_codec sh) n | None \<Rightarrow> sh_codec sh)\<rparr>;
              st = io_set_buffer_params ops (ha_read_hw ack) (ha_write_hw ack) (ha_lw ack) (sh_state sh)
          in case io_send ops (sh_codec sh) (Packet.ConnectAck packet) st of
               (Ok _, st) \<Rightarrow>
                 (let sh = sh\<lparr>sh_state := st\<rparr> in
                  (Ok (Session_new_v5 session sh
                     (case ca_receive_max packet of Some n \<Rightarrow> n | None \<Rightarrow> 0) (ca_topic_alias_max packet),
                   ha_keepalive ack), sh))
             | (Err err, st) \<Rightarrow> (Err (MqttError_from_encode err), sh\<lparr>sh_state := st\<rparr>)
             | (Panic, st) \<Rightarrow> (Panic, sh\<lparr>sh_state := st\<rparr>)
             | (Diverge, st) \<Rightarrow> (Diverge, sh\<lparr>sh_state := st\<rparr>))
     | None \<Rightarrow>
         if io_is_open ops (sh_state sh)
         then (case io_encode ops (Codec_encode (sh_codec sh)) (Packet.ConnectAck (ha_packet ack)) (sh_state sh) of
                 (Ok _, st) \<Rightarrow> (Err MqttError.Disconnected, sh\<lparr>sh_state := io_write_shutdown ops st\<rparr>)
               | (Err _, st) \<Rightarrow> (Err MqttError.Disconnected, sh\<lparr>sh_state := st\<rparr>)
               | (Panic, st) \<Rightarrow> (Panic, sh\<lparr>sh_state := st\<rparr>)
               | (Diverge, st) \<Rightarrow> (Diverge, sh\<lparr>sh_state := st\<rparr>))
         else (Err MqttError.Disconnected, sh))"

text \<open>The dispatcher of a session (\<^verbatim>\<open>factory\<close> of \<^verbatim>\<open>v5/dispatcher.rs\<close>).\<close>

definition session_dispatcher :: "('st, ('tx, 'io) shared) Session \<Rightarrow> ('tx, 'io) Dispatcher" where
  "session_dispatcher ses =
    (let (receive, alias_max) = Session_params ses in Dispatcher_new (ses_sink ses) (unat receive) alias_max)"

section \<open>Server variants\<close>

text \<open>A server of a selector (\<^verbatim>\<open>ServerSelectorImpl\<close>): its check decides whether it takes the connection, then its
  handshake service answers. \<open>va_late\<close> is about the deadline of a connection.\<close>

record ('tx, 'io, 'st, 'h, 'e) variant =
  va_cfg :: MqttServer
  va_check :: "('tx, 'io) Handshake \<Rightarrow> ('e, bool) outcome"
  va_connect :: "(('tx, 'io) Handshake, ('tx, 'io, 'st) HandshakeAck, 'e) service"
  va_handler :: "(('st, ('tx, 'io) shared) Session, 'e MqttError, 'h) factory"
  va_late :: "phase \<Rightarrow> bool"

type_synonym ('tx, 'io) select_item = "('tx, 'io) Handshake \<times> nat option"

definition selector_check ::
  "('tx, 'io, 'st, 'h, 'e) variant \<Rightarrow> ('tx, 'io) select_item \<Rightarrow> ('e MqttError, bool) outcome" where
  "selector_check va item = before_deadline (va_late va) Checking (snd item) (va_check va (fst item))"

text \<open>A variant that takes the connection applies the limits of the CONNECT and its own.\<close>

definition selector_take :: "MqttServer \<Rightarrow> ('tx, 'io) Handshake \<Rightarrow> ('tx, 'io) Handshake" where
  "selector_take cfg hnd =
    hnd\<lparr>hs_shared := apply_connect (hs_pkt hnd) (hs_shared hnd), hs_max_size := ms_max_size cfg,
      hs_max_receive := ms_max_receive cfg, hs_max_topic_alias := ms_max_topic_alias cfg\<rparr>"

text \<open>The connection of a variant: the handshake service, the CONNACK, the handler of the session, and the transport
  loop \<open>run\<close> with the keep-alive and disconnect timeouts.\<close>

definition variant_connect ::
  "('io, Packet, Codec) hs_ops \<Rightarrow> (('tx, 'io) shared \<Rightarrow> 'h \<Rightarrow> u16 \<Rightarrow> u16 \<Rightarrow> ('e MqttError, unit) outcome) \<Rightarrow>
   ('tx, 'io, 'st, 'h, 'e) variant \<Rightarrow> ('tx, 'io) select_item \<Rightarrow> ('e MqttError, unit) outcome" where
  "variant_connect ops run va item =
    (let hnd = selector_take (va_cfg va) (fst item) in
     and_then (before_deadline (va_late va) Connecting (snd item) (svc_call (va_connect va) hnd)) (\<lambda>ack.
     and_then (fst (handshake_finish ops (ms_max_qos (va_cfg va)) (con_keep_alive (hs_pkt hnd)) ack)) (\<lambda>(session, keepalive).
       case va_handler va session of
         Inl e \<Rightarrow> Err e
       | Inr handler \<Rightarrow> run (ses_sink session) handler keepalive (ms_disconnect_timeout (va_cfg va)))))"

definition ServerSelectorImpl_call ::
  "('io, Packet, Codec) hs_ops \<Rightarrow> (('tx, 'io) shared \<Rightarrow> 'h \<Rightarrow> u16 \<Rightarrow> u16 \<Rightarrow> ('e MqttError, unit) outcome) \<Rightarrow>
   ('tx, 'io, 'st, 'h, 'e) variant \<Rightarrow> ('tx, 'io) select_item \<Rightarrow> ('e MqttError, ('tx, 'io) select_item + unit) outcome" where
  "ServerSelectorImpl_call ops run va item =
    and_then (selector_check va item) (\<lambda>taken.
      if \<not> taken then Ok (Inl item) else and_then (variant_connect ops run va item) (\<lambda>_. Ok (Inr ())))"

definition ServerSelectorImpl_poll_ready :: "('tx, 'io, 'st, 'h, 'e) variant \<Rightarrow> ('e MqttError + unit) option" where
  "ServerSelectorImpl_poll_ready va = map_option (map_sum MqttError.Service id) (svc_poll_ready (va_connect va))"

definition ServerSelectorImpl_poll_shutdown :: "('tx, 'io, 'st, 'h, 'e) variant \<Rightarrow> bool \<Rightarrow> bool" where
  "ServerSelectorImpl_poll_shutdown va is_error = svc_poll_shutdown (va_connect va) is_error"

text \<open>The selector: the first packet of the connection, read into the state \<open>st\<close>, then the variants.\<close>

definition SelectorService_call ::
  "('io, Packet, Codec) hs_ops \<Rightarrow> (('tx, 'io) shared \<Rightarrow> 'h \<Rightarrow> u16 \<Rightarrow> u16 \<Rightarrow> ('e MqttError, unit) outcome) \<Rightarrow>
   ('tx, 'io, 'st, 'h, 'e) variant Selector \<Rightarrow> nat \<Rightarrow> 'io \<Rightarrow>
   (DecodeError + io_error) + Packet option \<Rightarrow> ('e MqttError, unit) outcome" where
  "SelectorService_call ops run sel now st res =
    (let shared = MqttShared_new st (Codec_max_inbound_size Codec_new (sel_max_size sel)) 0;
         delay = handshake_delay now (unat (sel_handshake_timeout sel))
     in case first_packet res of
          Inl e \<Rightarrow> Err e
        | Inr packet \<Rightarrow>
          (case packet of
             Packet.Connect con \<Rightarrow>
               selector_call (map (ServerSelectorImpl_call ops run) (sel_servers sel)) (\<lparr>hs_pkt = con, hs_shared = shared, hs_max_size = 0, hs_max_receive = 0, hs_max_topic_alias = 0\<rparr>, delay)
           | packet \<Rightarrow>
               Err (Protocol (ProtocolError.Unexpected (packet_type packet) ''MQTT-3.1.0-1: Expected CONNECT packet''))))"

section \<open>Lemmas\<close>

lemma connack_packet_simps [simp]:
  "ca_max_packet_size (connack_packet q k ack) = ca_max_packet_size (ha_packet ack)"
  "ca_receive_max (connack_packet q k ack) = ca_receive_max (ha_packet ack)"
  "ca_topic_alias_max (connack_packet q k ack) = ca_topic_alias_max (ha_packet ack)"
  "ca_reason_code (connack_packet q k ack) = ca_reason_code (ha_packet ack)"
  "ca_server_keepalive_sec (connack_packet q k ack) =
    (if ca_server_keepalive_sec (ha_packet ack) = None \<and> k > ha_keepalive ack then Some (ha_keepalive ack)
     else ca_server_keepalive_sec (ha_packet ack))"
  by (simp_all add: connack_packet_def Let_def)

lemma Handshake_ack_simps [simp]:
  "ha_shared (Handshake_ack ses hs) = hs_shared hs"
  "ha_session (Handshake_ack ses hs) = Some ses"
  "ca_max_packet_size (ha_packet (Handshake_ack ses hs)) = (if hs_max_size hs \<noteq> 0 then Some (hs_max_size hs) else None)"
  "ca_receive_max (ha_packet (Handshake_ack ses hs)) = (if hs_max_receive hs \<noteq> 0 then Some (hs_max_receive hs) else None)"
  "ca_topic_alias_max (ha_packet (Handshake_ack ses hs)) = hs_max_topic_alias hs"
  "ca_reason_code (ha_packet (Handshake_ack ses hs)) = ConnectAckReason.Success"
  "ca_server_keepalive_sec (ha_packet (Handshake_ack ses hs)) = None"
  by (simp_all add: Handshake_ack_def ConnectAck_default_def Let_def)

end
