(* ===== verification/V5_Client.thy ===== *)
theory V5_Client
  imports V5_Handshake V5_Client_Dispatcher
begin

text \<open>
  The MQTT 5 client: the connector (\<^verbatim>\<open>v5/client/connector.rs\<close>) and the connection (\<^verbatim>\<open>v5/client/connection.rs\<close>).
  Opening the socket is the connector service of \<^verbatim>\<open>ntex\<close>; the model starts with its result.
\<close>

section \<open>The connector\<close>

datatype 'c ClientError =
    Ack ConnectAck
  | Protocol Errors.ProtocolError
  | HandshakeTimeout
  | Disconnected
  | Connect 'c

definition ClientError_from_encode :: "EncodeError + io_error \<Rightarrow> 'c ClientError" where
  "ClientError_from_encode err =
    (case err of Inl err \<Rightarrow> ClientError.Protocol (ProtocolError.Encode err) | Inr err \<Rightarrow> ClientError.Protocol (Io err))"

record MqttConnector =
  mc_pkt :: Connect
  mc_handshake_timeout :: u16
  mc_disconnect_timeout :: u16

definition MqttConnector_new :: MqttConnector where
  "MqttConnector_new = \<lparr>mc_pkt = Connect_default, mc_handshake_timeout = 0, mc_disconnect_timeout = 3000\<rparr>"

definition MqttConnector_packet :: "(Connect \<Rightarrow> Connect) \<Rightarrow> MqttConnector \<Rightarrow> MqttConnector" where
  "MqttConnector_packet f mc = mc\<lparr>mc_pkt := f (mc_pkt mc)\<rparr>"

definition MqttConnector_client_id :: "bytestring \<Rightarrow> MqttConnector \<Rightarrow> MqttConnector" where
  "MqttConnector_client_id client_id mc = mc\<lparr>mc_pkt := (mc_pkt mc)\<lparr>con_client_id := client_id\<rparr>\<rparr>"

definition MqttConnector_clean_start :: "MqttConnector \<Rightarrow> MqttConnector" where
  "MqttConnector_clean_start mc = mc\<lparr>mc_pkt := (mc_pkt mc)\<lparr>con_clean_start := True\<rparr>\<rparr>"

definition MqttConnector_keep_alive :: "u16 \<Rightarrow> MqttConnector \<Rightarrow> MqttConnector" where
  "MqttConnector_keep_alive val mc = mc\<lparr>mc_pkt := (mc_pkt mc)\<lparr>con_keep_alive := val\<rparr>\<rparr>"

definition MqttConnector_last_will :: "LastWill \<Rightarrow> MqttConnector \<Rightarrow> MqttConnector" where
  "MqttConnector_last_will val mc = mc\<lparr>mc_pkt := (mc_pkt mc)\<lparr>con_last_will := Some val\<rparr>\<rparr>"

definition MqttConnector_auth :: "bytestring \<Rightarrow> bytes \<Rightarrow> MqttConnector \<Rightarrow> MqttConnector" where
  "MqttConnector_auth meth data mc =
    mc\<lparr>mc_pkt := (mc_pkt mc)\<lparr>con_auth_method := Some meth, con_auth_data := Some data\<rparr>\<rparr>"

definition MqttConnector_username :: "bytestring \<Rightarrow> MqttConnector \<Rightarrow> MqttConnector" where
  "MqttConnector_username val mc = mc\<lparr>mc_pkt := (mc_pkt mc)\<lparr>con_username := Some val\<rparr>\<rparr>"

definition MqttConnector_password :: "bytes \<Rightarrow> MqttConnector \<Rightarrow> MqttConnector" where
  "MqttConnector_password val mc = mc\<lparr>mc_pkt := (mc_pkt mc)\<lparr>con_password := Some val\<rparr>\<rparr>"

definition MqttConnector_max_packet_size :: "u32 \<Rightarrow> MqttConnector \<Rightarrow> MqttConnector" where
  "MqttConnector_max_packet_size val mc =
    mc\<lparr>mc_pkt := (mc_pkt mc)\<lparr>con_max_packet_size := (if val \<noteq> 0 then Some val else None)\<rparr>\<rparr>"

definition MqttConnector_receive_max :: "u16 \<Rightarrow> MqttConnector \<Rightarrow> MqttConnector" where
  "MqttConnector_receive_max val mc =
    mc\<lparr>mc_pkt := (mc_pkt mc)\<lparr>con_receive_max := (if val \<noteq> 0 then Some val else None)\<rparr>\<rparr>"

definition MqttConnector_properties :: "(UserProperties \<Rightarrow> UserProperties) \<Rightarrow> MqttConnector \<Rightarrow> MqttConnector" where
  "MqttConnector_properties f mc =
    mc\<lparr>mc_pkt := (mc_pkt mc)\<lparr>con_user_properties := f (con_user_properties (mc_pkt mc))\<rparr>\<rparr>"

definition MqttConnector_handshake_timeout :: "u16 \<Rightarrow> MqttConnector \<Rightarrow> MqttConnector" where
  "MqttConnector_handshake_timeout timeout mc = mc\<lparr>mc_handshake_timeout := timeout\<rparr>"

definition MqttConnector_disconnect_timeout :: "u16 \<Rightarrow> MqttConnector \<Rightarrow> MqttConnector" where
  "MqttConnector_disconnect_timeout timeout mc = mc\<lparr>mc_disconnect_timeout := timeout\<rparr>"

record ('tx, 'io) Client =
  cl_shared :: "('tx, 'io) shared"
  cl_keepalive :: u16
  cl_disconnect_timeout :: u16
  cl_max_receive :: nat
  cl_pkt :: ConnectAck

definition Client_new ::
  "('tx, 'io) shared \<Rightarrow> ConnectAck \<Rightarrow> u16 \<Rightarrow> u16 \<Rightarrow> u16 \<Rightarrow> ('tx, 'io) Client" where
  "Client_new shared pkt receive keepalive disconnect_timeout =
    \<lparr>cl_shared = shared, cl_keepalive = keepalive, cl_disconnect_timeout = disconnect_timeout,
     cl_max_receive = unat receive, cl_pkt = pkt\<rparr>"

section \<open>Connecting\<close>

definition or_0 :: "'a :: zero option \<Rightarrow> 'a" where
  "or_0 x = (case x of Some v \<Rightarrow> v | None \<Rightarrow> 0)"

text \<open>The socket is open: the CONNECT goes out.\<close>

definition connect_codec :: "MqttConnector \<Rightarrow> Codec" where
  "connect_codec mc = Codec_max_inbound_size Codec_new (or_0 (con_max_packet_size (mc_pkt mc)))"

definition connect_start ::
  "('io, Packet, Codec) hs_ops \<Rightarrow> MqttConnector \<Rightarrow> ('io, 'c ClientError, unit) action" where
  "connect_start ops mc st =
    (case io_send ops (connect_codec mc) (Packet.Connect (mc_pkt mc)) st of
       (Ok _, st) \<Rightarrow> (Ok (), st)
     | (Err err, st) \<Rightarrow> (Err (ClientError_from_encode err), st)
     | (Panic, st) \<Rightarrow> (Panic, st)
     | (Diverge, st) \<Rightarrow> (Diverge, st))"

text \<open>The first packet of the server has arrived.\<close>

definition connect_packet ::
  "MqttConnector \<Rightarrow> 'io \<Rightarrow> (DecodeError + io_error) + Packet option \<Rightarrow> 'c ClientError + ('tx, 'io) Client" where
  "connect_packet mc st res =
    (case res of
       Inl e \<Rightarrow> Inl (ClientError.Protocol (ProtocolError_from_decode e))
     | Inr None \<Rightarrow> Inl ClientError.Disconnected
     | Inr (Some (Packet.ConnectAck pkt)) \<Rightarrow>
         (let shared = MqttShared_new st (connect_codec mc) 0 in
          if ca_reason_code pkt = ConnectAckReason.Success
          then let shared = shared\<lparr>sh_codec := (case ca_max_packet_size pkt of
                     Some n \<Rightarrow> Codec_set_max_outbound_size (sh_codec shared) n | None \<Rightarrow> sh_codec shared)\<rparr>;
                   keep_alive = (case ca_server_keepalive_sec pkt of Some k \<Rightarrow> k | None \<Rightarrow> con_keep_alive (mc_pkt mc));
                   shared = shared\<lparr>cap := unat (or_0 (ca_receive_max pkt))\<rparr>
               in Inr (Client_new shared pkt (or_0 (con_receive_max (mc_pkt mc))) keep_alive (mc_disconnect_timeout mc))
          else Inl (Ack pkt))
     | Inr (Some p) \<Rightarrow>
         Inl (ClientError.Protocol (ProtocolError.Unexpected (packet_type p) ''Expected CONNECT-ACK packet'')))"

text \<open>The whole of \<^verbatim>\<open>_connect\<close>: \<open>opened\<close> is the result of the connector service, \<open>read\<close> is \<^verbatim>\<open>State::next\<close>.\<close>

definition connect_inner ::
  "('io, Packet, Codec) hs_ops \<Rightarrow> (Codec \<Rightarrow> 'io \<Rightarrow> ((DecodeError + io_error) + Packet option) \<times> 'io) \<Rightarrow> MqttConnector \<Rightarrow>
   'c + 'io \<Rightarrow> ('c ClientError, ('tx, 'io) Client) outcome" where
  "connect_inner ops read mc opened =
    (case opened of
       Inl e \<Rightarrow> Err (ClientError.Connect e)
     | Inr st \<Rightarrow>
         (case connect_start ops mc st of (sent, st) \<Rightarrow>
            and_then sent (\<lambda>_. case read (connect_codec mc) st of (res, st) \<Rightarrow> of_sum (connect_packet mc st res))))"

text \<open>With a handshake timeout, \<open>None\<close> stands for the timer that fires first.\<close>

definition connect :: "MqttConnector \<Rightarrow> ('c ClientError + 'a) option \<Rightarrow> ('c ClientError + 'a) option" where
  "connect mc res =
    (case res of
       Some r \<Rightarrow> Some r
     | None \<Rightarrow> if mc_handshake_timeout mc > 0 then Some (Inl ClientError.HandshakeTimeout) else None)"

text \<open>A client that is connected has sent its CONNECT and has received an accepting CONNACK.\<close>

lemma v5_connected:
  assumes "connect_inner ops read mc opened = Ok client"
  obtains st st' st'' pkt where "opened = Inr st"
    "io_send ops (connect_codec mc) (Packet.Connect (mc_pkt mc)) st = (Ok (), st')"
    "read (connect_codec mc) st' = (Inr (Some (Packet.ConnectAck pkt)), st'')"
    "ca_reason_code pkt = ConnectAckReason.Success" "cl_pkt client = pkt"
    "cap (cl_shared client) = unat (or_0 (ca_receive_max pkt))"
  using assms
  by (auto simp: connect_inner_def connect_start_def connect_packet_def Client_new_def Let_def and_then_eq_Ok
      split: sum.splits prod.splits outcome.splits option.splits Packet.splits if_splits)

section \<open>The connection\<close>

text \<open>Starting a client: the interval of its keep-alive task, if any, and its dispatcher.  The transport loop of
  a client has no keep-alive timeout of its own.\<close>

definition Client_start :: "('tx, 'io) Client \<Rightarrow> u16 option \<times> ('tx, 'io) Dispatcher" where
  "Client_start cl =
    ((if cl_keepalive cl > 0 then Some (cl_keepalive cl) else None),
     V5_Client_Dispatcher.Dispatcher_new (cl_shared cl) (cl_max_receive cl) 16)"

text \<open>The control service of \<^verbatim>\<open>start_default\<close>, and the publish service of a client without resources.\<close>

definition default_control :: "'e ControlMessage \<Rightarrow> 'e + ControlResult" where
  "default_control msg = Inr (V5_Client_Dispatcher.ControlMessage_disconnect Disconnect_default)"

definition no_resources :: "Publish \<Rightarrow> 'e + (Publish + PublishAck)" where
  "no_resources pkt = Inr (Inl pkt)"

text \<open>The keep-alive task: it sends pings until the sink refuses one.  Time passes between the rounds, in which
  the other parts of the client change the sink: one argument per round.\<close>

fun keepalive_task ::
  "('io, Packet) io_ops \<Rightarrow> (('tx, 'io) shared \<Rightarrow> ('tx, 'io) shared) list \<Rightarrow> ('tx, 'io) shared \<Rightarrow>
   bool \<times> ('tx, 'io) shared" where
  "keepalive_task ops [] sh = (True, sh)"
| "keepalive_task ops (meanwhile # rest) sh =
    (case (ping ops (meanwhile sh) :: (unit, bool) outcome \<times> _) of
       (Ok True, sh) \<Rightarrow> keepalive_task ops rest sh
     | (_, sh) \<Rightarrow> (False, sh))"

end
