(* ===== verification/V5_Router.thy ===== *)
theory V5_Router
  imports Router V5_Client
begin

text \<open>
  The publish router of MQTT 5 (\<^verbatim>\<open>v5/router.rs\<close>) and the router of the client (\<^verbatim>\<open>dispatch\<close> of
  \<^verbatim>\<open>v5/client/connection.rs\<close>). The handler of a resource is created when the first publish for it arrives; a
  publish with a topic alias and no topic goes where the topic went that the alias was last given to.
  Creating a handler is asynchronous: \<open>create_handler\<close> starts it, \<open>handler_made\<close> follows the answer of the
  factory, \<open>handler_ready\<close> the readiness of the new handler.
\<close>

section \<open>Requests and routes\<close>

text \<open>A publish on its way to a handler: the packet and the path that the router matches (\<^verbatim>\<open>v5/publish.rs\<close>).\<close>

record 'path Request =
  rq_publish :: Publish
  rq_topic :: 'path

definition Publish_new :: "(bytestring \<Rightarrow> 'path) \<Rightarrow> Publish \<Rightarrow> 'path Request" where
  "Publish_new path_new pub = \<lparr>rq_publish = pub, rq_topic = path_new (pub_topic pub)\<rparr>"

abbreviation topic_alias :: "'path Request \<Rightarrow> u16 option" where
  "topic_alias req \<equiv> pp_topic_alias (pub_properties (rq_publish req))"

abbreviation has_topic :: "'path Request \<Rightarrow> bool" where
  "has_topic req \<equiv> pub_topic (rq_publish req) \<noteq> []"

type_synonym 'path alias_map = "(u16, nat \<times> 'path) mapping"

text \<open>The resource that a publish goes to, with the path of the match or of the alias; \<open>None\<close> for the default.
  The server's router and the client's have the same code for it.\<close>

definition route ::
  "('a, 'path) recognizer \<Rightarrow> ('a \<times> nat) list \<Rightarrow> 'path Request \<Rightarrow> 'path alias_map \<Rightarrow>
   (nat \<times> 'path Request) option \<times> 'path alias_map" where
  "route recognize table req aliases =
    (if has_topic req then
       (case recognize table (rq_topic req) of
          Some (idx, path) \<Rightarrow>
            (Some (idx, req\<lparr>rq_topic := path\<rparr>),
             case topic_alias req of Some a \<Rightarrow> Mapping.update a (idx, path) aliases | None \<Rightarrow> aliases)
        | None \<Rightarrow> (None, aliases))
     else
       (case topic_alias req of
          Some a \<Rightarrow>
            (case Mapping.lookup aliases a of
               Some (idx, path) \<Rightarrow> (Some (idx, req\<lparr>rq_topic := path\<rparr>), aliases)
             | None \<Rightarrow> (None, aliases))
        | None \<Rightarrow> (None, aliases)))"

section \<open>The router of a session\<close>

record ('a, 'path, 'f, 'svc) RouterService =
  rs_table :: "('a \<times> nat) list"
  rs_default :: 'svc
  rs_factories :: "'f list"
  rs_handlers :: "'svc option list"
  rs_aliases :: "'path alias_map"
  rs_waker :: bool
  rs_creating :: bool

text \<open>A session starts when the factory of the default handler has answered.\<close>

definition RouterFactory_new_service ::
  "'e + 'svc \<Rightarrow> ('a, 'f) Router \<Rightarrow> 'e + ('a, 'path, 'f, 'svc) RouterService" where
  "RouterFactory_new_service res r =
    (case res of
       Inl e \<Rightarrow> Inl e
     | Inr def \<Rightarrow>
         Inr \<lparr>rs_table = rt_table r, rs_default = def, rs_factories = rt_handlers r,
              rs_handlers = map (\<lambda>_. None) (rt_handlers r), rs_aliases = Mapping.empty,
              rs_waker = False, rs_creating = False\<rparr>)"

text \<open>What becomes of a publish: a handler is called, or one is created for it.\<close>

datatype ('path, 'svc) routed = Call 'svc "'path Request" | Create nat "'path Request"

definition create_handler ::
  "nat \<Rightarrow> 'path Request \<Rightarrow> (('a, 'path, 'f, 'svc) RouterService, 'err, ('path, 'svc) routed) action" where
  "create_handler idx req s = (Ok (Create idx req), s\<lparr>rs_creating := True\<rparr>)"

definition call_handler ::
  "nat \<Rightarrow> 'path Request \<Rightarrow> (('a, 'path, 'f, 'svc) RouterService, 'err, ('path, 'svc) routed) action" where
  "call_handler idx req s =
    (if idx < length (rs_handlers s)
     then case rs_handlers s ! idx of
            Some hnd \<Rightarrow> (Ok (Call hnd req), s)
          | None \<Rightarrow> create_handler idx req s
     else (Panic, s))"

definition RouterService_call ::
  "('a, 'path) recognizer \<Rightarrow> 'path Request \<Rightarrow>
   (('a, 'path, 'f, 'svc) RouterService, 'err, ('path, 'svc) routed) action" where
  "RouterService_call recognize req s =
    (case route recognize (rs_table s) req (rs_aliases s) of
       (Some (idx, req), aliases) \<Rightarrow> call_handler idx req (s\<lparr>rs_aliases := aliases\<rparr>)
     | (None, aliases) \<Rightarrow> (Ok (Call (rs_default s) req), s\<lparr>rs_aliases := aliases\<rparr>))"

text \<open>The factory has answered: an error ends the future at once, a handler is then asked for its readiness.\<close>

definition handler_made ::
  "('f \<Rightarrow> 'e + 'svc) \<Rightarrow> nat \<Rightarrow> (('a, 'path, 'f, 'svc) RouterService, 'e, 'svc) action" where
  "handler_made answer idx s =
    (if idx < length (rs_factories s)
     then case answer (rs_factories s ! idx) of Inl e \<Rightarrow> (Err e, s) | Inr hnd \<Rightarrow> (Ok hnd, s)
     else (Panic, s))"

text \<open>The new handler is ready: it gets the publish and its place.\<close>

definition handler_ready ::
  "'e + unit \<Rightarrow> nat \<Rightarrow> 'svc \<Rightarrow> 'path Request \<Rightarrow>
   (('a, 'path, 'f, 'svc) RouterService, 'e, 'svc \<times> 'path Request) action" where
  "handler_ready res idx hnd req s =
    (case res of
       Inl e \<Rightarrow> (Err e, s\<lparr>rs_waker := False, rs_creating := False\<rparr>)
     | Inr _ \<Rightarrow>
       (let s = s\<lparr>rs_waker := False, rs_creating := False\<rparr> in
        if idx < length (rs_handlers s)
        then (Ok (hnd, req), s\<lparr>rs_handlers := (rs_handlers s)[idx := Some hnd]\<rparr>)
        else (Panic, s)))"

definition created :: "('a, 'path, 'f, 'svc) RouterService \<Rightarrow> 'svc list" where
  "created s = concat (map (\<lambda>h. case h of Some hnd \<Rightarrow> [hnd] | None \<Rightarrow> []) (rs_handlers s))"

definition RouterService_poll_ready ::
  "('svc \<Rightarrow> ('e + unit) option) \<Rightarrow> ('a, 'path, 'f, 'svc) RouterService \<Rightarrow>
   ('e + unit) option \<times> ('a, 'path, 'f, 'svc) RouterService" where
  "RouterService_poll_ready poll s =
    (case poll_handlers poll (created s) False of
       Inl e \<Rightarrow> (Some (Inl e), s)
     | Inr not_ready \<Rightarrow>
       (case poll (rs_default s) of
          Some (Inl e) \<Rightarrow> (Some (Inl e), s)
        | res \<Rightarrow>
          if rs_creating s then (None, s\<lparr>rs_waker := True\<rparr>)
          else if not_ready \<or> res = None then (None, s)
          else (Some (Inr ()), s)))"

section \<open>The client\<close>

text \<open>The handler that a publish goes to, or the publish given back.\<close>

definition dispatch ::
  "('a, 'path) recognizer \<Rightarrow> ('a \<times> nat) list \<Rightarrow> 'svc list \<Rightarrow> 'path Request \<Rightarrow>
   ('path alias_map, 'err, 'path Request + ('svc \<times> 'path Request)) action" where
  "dispatch recognize table handlers req aliases =
    (case route recognize table req aliases of
       (Some (idx, req), aliases) \<Rightarrow>
         if idx < length handlers then (Ok (Inr (handlers ! idx, req)), aliases) else (Panic, aliases)
     | (None, aliases) \<Rightarrow> (Ok (Inl req), aliases))"

definition dispatch_called ::
  "('perr \<Rightarrow> 'e + PublishAck) \<Rightarrow> 'perr + PublishAck \<Rightarrow> 'e + ('path Request + PublishAck)" where
  "dispatch_called try_from res =
    (case res of
       Inr ack \<Rightarrow> Inr (Inr ack)
     | Inl err \<Rightarrow> (case try_from err of Inr ack \<Rightarrow> Inr (Inr ack) | Inl err \<Rightarrow> Inl err))"

section \<open>Sessions\<close>

text \<open>A handler in creation: the factory works, or the new handler is asked for its readiness.\<close>

datatype ('path, 'svc) creation = Making nat "'path Request" | Readying nat 'svc "'path Request"

fun creation_idx :: "('path, 'svc) creation \<Rightarrow> nat" where
  "creation_idx (Making idx req) = idx"
| "creation_idx (Readying idx hnd req) = idx"

text \<open>The steps of a session. A publish is called only when the router is ready (\<^verbatim>\<open>Service::call\<close> follows
  \<^verbatim>\<open>poll_ready\<close>). The factories are code of the application: \<open>makes f r\<close> says that \<open>f\<close> may answer \<open>r\<close>. The last
  component is the list of the publishes so far.\<close>

type_synonym ('a, 'path, 'f, 'svc) session_state =
  "('a, 'path, 'f, 'svc) RouterService \<times> ('path, 'svc) creation list \<times> 'path Request list"

inductive router_step ::
  "('a, 'path) recognizer \<Rightarrow> ('f \<Rightarrow> 'e + 'svc \<Rightarrow> bool) \<Rightarrow>
   ('a, 'path, 'f, 'svc) session_state \<Rightarrow> ('a, 'path, 'f, 'svc) session_state \<Rightarrow> bool"
  for recognize and makes :: "'f \<Rightarrow> 'e + 'svc \<Rightarrow> bool" where
  called: "\<lbrakk>RouterService_poll_ready (poll :: 'svc \<Rightarrow> ('e + unit) option) s = (Some (Inr ()), s);
     RouterService_call recognize req s = (Ok (Call hnd req') :: (unit, _) outcome, s')\<rbrakk> \<Longrightarrow>
    router_step recognize makes (s, cs, hist) (s', cs, hist @ [req])"
| creates: "\<lbrakk>RouterService_poll_ready (poll :: 'svc \<Rightarrow> ('e + unit) option) s = (Some (Inr ()), s);
     RouterService_call recognize req s = (Ok (Create idx req') :: (unit, _) outcome, s')\<rbrakk> \<Longrightarrow>
    router_step recognize makes (s, cs, hist) (s', cs @ [Making idx req'], hist @ [req])"
| polled: "RouterService_poll_ready (poll :: 'svc \<Rightarrow> ('e + unit) option) s = (res, s') \<Longrightarrow>
    router_step recognize makes (s, cs, hist) (s', cs, hist)"
| made: "\<lbrakk>\<And>f. makes f (answer f); handler_made answer idx s = (Ok hnd, s')\<rbrakk> \<Longrightarrow>
    router_step recognize makes (s, xs @ Making idx req # ys, hist) (s', xs @ Readying idx hnd req # ys, hist)"
| make_failed: "\<lbrakk>\<And>f. makes f (answer f); handler_made answer idx s = (Err e, s')\<rbrakk> \<Longrightarrow>
    router_step recognize makes (s, xs @ Making idx req # ys, hist) (s', xs @ ys, hist)"
| finished: "handler_ready (res :: 'e + unit) idx hnd req s = (r, s') \<Longrightarrow>
    router_step recognize makes (s, xs @ Readying idx hnd req # ys, hist) (s', xs @ ys, hist)"

inductive router_steps ::
  "('a, 'path) recognizer \<Rightarrow> ('f \<Rightarrow> 'e + 'svc \<Rightarrow> bool) \<Rightarrow>
   ('a, 'path, 'f, 'svc) session_state \<Rightarrow> ('a, 'path, 'f, 'svc) session_state \<Rightarrow> bool"
  for recognize makes where
  none: "router_steps recognize makes x x"
| more: "\<lbrakk>router_steps recognize makes x y; router_step recognize makes y z\<rbrakk> \<Longrightarrow> router_steps recognize makes x z"

definition session ::
  "('a, 'path) recognizer \<Rightarrow> ('f \<Rightarrow> 'e + 'svc \<Rightarrow> bool) \<Rightarrow> ('a \<times> 'f) list \<Rightarrow> 'f \<Rightarrow>
   ('a, 'path, 'f, 'svc) session_state \<Rightarrow> bool" where
  "session recognize makes rs d x \<longleftrightarrow>
    (\<exists>res s. makes d res \<and> RouterFactory_new_service res (Router_resources rs d) = Inr s \<and>
       router_steps recognize makes (s, [], []) x)"

text \<open>What the aliases stand for after some publishes: for each alias, the match of the last publish that gave
  it a topic that the recogniser knows.\<close>

definition gives_alias :: "'path Request \<Rightarrow> u16 \<Rightarrow> bool" where
  "gives_alias req a \<longleftrightarrow> has_topic req \<and> topic_alias req = Some a"

fun alias_after :: "('a, 'path) recognizer \<Rightarrow> ('a \<times> nat) list \<Rightarrow> u16 \<Rightarrow> 'path Request list \<Rightarrow> (nat \<times> 'path) option" where
  "alias_after recognize table a [] = None"
| "alias_after recognize table a (req # earlier) =
    (case (if gives_alias req a then recognize table (rq_topic req) else None) of
       Some x \<Rightarrow> Some x
     | None \<Rightarrow> alias_after recognize table a earlier)"

definition alias_ok ::
  "('a, 'path) recognizer \<Rightarrow> ('a \<times> nat) list \<Rightarrow> 'path Request list \<Rightarrow> 'path alias_map \<Rightarrow> bool" where
  "alias_ok recognize table hist aliases \<longleftrightarrow>
    (\<forall>a. Mapping.lookup aliases a = alias_after recognize table a (rev hist))"

text \<open>The resource and path that a publish should go to after these publishes, \<open>None\<close> for the default.\<close>

definition target ::
  "('a, 'path) recognizer \<Rightarrow> ('a \<times> nat) list \<Rightarrow> 'path Request list \<Rightarrow> 'path Request \<Rightarrow> (nat \<times> 'path) option" where
  "target recognize table hist req =
    (if has_topic req then recognize table (rq_topic req)
     else case topic_alias req of Some a \<Rightarrow> alias_after recognize table a (rev hist) | None \<Rightarrow> None)"

definition router_inv ::
  "('a, 'path) recognizer \<Rightarrow> ('f \<Rightarrow> 'e + 'svc \<Rightarrow> bool) \<Rightarrow> ('a \<times> 'f) list \<Rightarrow> 'f \<Rightarrow>
   ('a, 'path, 'f, 'svc) session_state \<Rightarrow> bool" where
  "router_inv recognize makes rs d x \<longleftrightarrow>
    (case x of (s, cs, hist) \<Rightarrow>
      rs_table s = rt_table (Router_resources rs d) \<and> rs_factories s = map snd rs \<and> makes d (Inr (rs_default s)) \<and>
      length (rs_handlers s) = length rs \<and>
      (\<forall>i < length rs. \<forall>hnd. rs_handlers s ! i = Some hnd \<longrightarrow> makes (snd (rs ! i)) (Inr hnd)) \<and>
      length cs \<le> 1 \<and> (cs \<noteq> [] \<longrightarrow> rs_creating s) \<and>
      (\<forall>c \<in> set cs. creation_idx c < length rs \<and> rs_handlers s ! creation_idx c = None) \<and>
      (\<forall>idx hnd req. Readying idx hnd req \<in> set cs \<longrightarrow> makes (snd (rs ! idx)) (Inr hnd)) \<and>
      alias_ok recognize (rs_table s) hist (rs_aliases s))"

lemma poll_ready_state:
  assumes "RouterService_poll_ready poll s = (res, s')"
  shows "s' = s \<or> s' = s\<lparr>rs_waker := True\<rparr>" and "res = Some (Inr ()) \<Longrightarrow> \<not> rs_creating s"
  using assms by (auto simp: RouterService_poll_ready_def split: sum.splits option.splits if_splits)

text \<open>An alias stands for a registered resource.\<close>

lemma alias_after_index:
  assumes "recognizes_registered recognize"
    and "alias_after recognize (rt_table (Router_resources rs d)) a hist = Some (i, path)"
  shows "i < length rs"
  using assms(2)
proof (induction hist)
  case Nil then show ?case by simp
next
  case (Cons req earlier)
  then show ?case
    using recognized_index [OF assms(1)] by (auto split: option.splits if_splits)
qed

text \<open>Where a publish goes, in terms of the publishes before it.\<close>

lemma route_eq:
  assumes "alias_ok recognize table hist aliases"
  shows "fst (route recognize table req aliases) =
      map_option (\<lambda>(i, path). (i, req\<lparr>rq_topic := path\<rparr>)) (target recognize table hist req)"
    and "alias_ok recognize table (hist @ [req]) (snd (route recognize table req aliases))"
  using assms by (auto simp: alias_ok_def route_def target_def gives_alias_def lookup_update' split: option.split)

section \<open>The invariant of a session\<close>

lemmas inv_simps = router_inv_def prod.case

lemma target_index:
  assumes "recognizes_registered recognize" "target recognize (rt_table (Router_resources rs d)) hist req = Some (i, path)"
  shows "i < length rs"
  using assms(2) recognized_index [OF assms(1)] alias_after_index [OF assms(1)]
  by (auto simp: target_def split: if_splits option.splits)

text \<open>What a call does: it changes the aliases and, if it starts a creation, the flag.\<close>

lemma RouterService_call_target:
  assumes reg: "recognizes_registered recognize" and inv: "router_inv recognize makes rs d (s, cs, hist)"
  obtains aliases where "alias_ok recognize (rs_table s) (hist @ [req]) aliases"
    "RouterService_call recognize req s =
      (case target recognize (rs_table s) hist req of
         None \<Rightarrow> (Ok (Call (rs_default s) req), s\<lparr>rs_aliases := aliases\<rparr>)
       | Some (i, path) \<Rightarrow>
         (case rs_handlers s ! i of
            Some hnd \<Rightarrow> (Ok (Call hnd (req\<lparr>rq_topic := path\<rparr>)), s\<lparr>rs_aliases := aliases\<rparr>)
          | None \<Rightarrow> (Ok (Create i (req\<lparr>rq_topic := path\<rparr>)), s\<lparr>rs_aliases := aliases, rs_creating := True\<rparr>)))"
proof -
  have al: "alias_ok recognize (rs_table s) hist (rs_aliases s)"
    and len: "length (rs_handlers s) = length rs" and tab: "rs_table s = rt_table (Router_resources rs d)"
    using inv unfolding inv_simps by blast+
  obtain t aliases where route: "route recognize (rs_table s) req (rs_aliases s) = (t, aliases)" by fastforce
  with route_eq(1) [OF al, of req]
  have t: "t = map_option (\<lambda>(i, path). (i, req\<lparr>rq_topic := path\<rparr>)) (target recognize (rs_table s) hist req)" by simp
  show ?thesis
  proof (rule that)
    show "alias_ok recognize (rs_table s) (hist @ [req]) aliases"
      using route_eq(2) [OF al, of req] route by simp
    show "RouterService_call recognize req s =
      (case target recognize (rs_table s) hist req of
         None \<Rightarrow> (Ok (Call (rs_default s) req), s\<lparr>rs_aliases := aliases\<rparr>)
       | Some (i, path) \<Rightarrow>
         (case rs_handlers s ! i of
            Some hnd \<Rightarrow> (Ok (Call hnd (req\<lparr>rq_topic := path\<rparr>)), s\<lparr>rs_aliases := aliases\<rparr>)
          | None \<Rightarrow> (Ok (Create i (req\<lparr>rq_topic := path\<rparr>)), s\<lparr>rs_aliases := aliases, rs_creating := True\<rparr>)))"
    proof (cases "target recognize (rs_table s) hist req")
      case None
      then show ?thesis by (simp add: RouterService_call_def route t)
    next
      case (Some x)
      obtain i path where x: "x = (i, path)" by (cases x)
      with Some have "i < length rs" using target_index [OF reg] tab by metis
      with Some x show ?thesis
        by (cases "rs_handlers s ! i") (simp_all add: RouterService_call_def route t call_handler_def create_handler_def len)
    qed
  qed
qed

lemma RouterService_call_result:
  assumes "recognizes_registered recognize" "router_inv recognize makes rs d (s, cs, hist)"
  shows "fst (RouterService_call recognize req s :: ('err, _) outcome \<times> _) =
    Ok (case target recognize (rs_table s) hist req of
          None \<Rightarrow> Call (rs_default s) req
        | Some (i, path) \<Rightarrow>
          (case rs_handlers s ! i of
             Some hnd \<Rightarrow> Call hnd (req\<lparr>rq_topic := path\<rparr>) | None \<Rightarrow> Create i (req\<lparr>rq_topic := path\<rparr>)))"
proof -
  obtain aliases where "RouterService_call recognize req s =
      (case target recognize (rs_table s) hist req of
         None \<Rightarrow> (Ok (Call (rs_default s) req) :: ('err, _) outcome, s\<lparr>rs_aliases := aliases\<rparr>)
       | Some (i, path) \<Rightarrow>
         (case rs_handlers s ! i of
            Some hnd \<Rightarrow> (Ok (Call hnd (req\<lparr>rq_topic := path\<rparr>)), s\<lparr>rs_aliases := aliases\<rparr>)
          | None \<Rightarrow> (Ok (Create i (req\<lparr>rq_topic := path\<rparr>)), s\<lparr>rs_aliases := aliases, rs_creating := True\<rparr>)))"
    by (rule RouterService_call_target [OF assms])
  then show ?thesis by (simp split: option.split)
qed

text \<open>The two results of a call.\<close>

lemma RouterService_call_Call:
  assumes "recognizes_registered recognize" "router_inv recognize makes rs d (s, cs, hist)"
    and "RouterService_call recognize req s = (Ok (Call hnd req') :: (unit, _) outcome, s')"
  obtains aliases where "alias_ok recognize (rs_table s) (hist @ [req]) aliases" "s' = s\<lparr>rs_aliases := aliases\<rparr>"
proof -
  obtain aliases where al: "alias_ok recognize (rs_table s) (hist @ [req]) aliases" and
    call: "RouterService_call recognize req s =
      (case target recognize (rs_table s) hist req of
         None \<Rightarrow> (Ok (Call (rs_default s) req) :: (unit, _) outcome, s\<lparr>rs_aliases := aliases\<rparr>)
       | Some (i, path) \<Rightarrow>
         (case rs_handlers s ! i of
            Some hnd \<Rightarrow> (Ok (Call hnd (req\<lparr>rq_topic := path\<rparr>)), s\<lparr>rs_aliases := aliases\<rparr>)
          | None \<Rightarrow> (Ok (Create i (req\<lparr>rq_topic := path\<rparr>)), s\<lparr>rs_aliases := aliases, rs_creating := True\<rparr>)))"
    by (rule RouterService_call_target [OF assms(1,2)])
  from call have "s' = s\<lparr>rs_aliases := aliases\<rparr>"
    using assms(3) by (auto split: option.splits)
  with al that show ?thesis by blast
qed

lemma RouterService_call_Create:
  assumes "recognizes_registered recognize" "router_inv recognize makes rs d (s, cs, hist)"
    and "RouterService_call recognize req s = (Ok (Create idx req') :: (unit, _) outcome, s')"
  obtains aliases where "alias_ok recognize (rs_table s) (hist @ [req]) aliases"
    "s' = s\<lparr>rs_aliases := aliases, rs_creating := True\<rparr>" "idx < length rs" "rs_handlers s ! idx = None"
proof -
  obtain aliases where al: "alias_ok recognize (rs_table s) (hist @ [req]) aliases" and
    call: "RouterService_call recognize req s =
      (case target recognize (rs_table s) hist req of
         None \<Rightarrow> (Ok (Call (rs_default s) req) :: (unit, _) outcome, s\<lparr>rs_aliases := aliases\<rparr>)
       | Some (i, path) \<Rightarrow>
         (case rs_handlers s ! i of
            Some hnd \<Rightarrow> (Ok (Call hnd (req\<lparr>rq_topic := path\<rparr>)), s\<lparr>rs_aliases := aliases\<rparr>)
          | None \<Rightarrow> (Ok (Create i (req\<lparr>rq_topic := path\<rparr>)), s\<lparr>rs_aliases := aliases, rs_creating := True\<rparr>)))"
    by (rule RouterService_call_target [OF assms(1,2)])
  from call obtain path where t: "target recognize (rs_table s) hist req = Some (idx, path)"
    and "s' = s\<lparr>rs_aliases := aliases, rs_creating := True\<rparr>" "rs_handlers s ! idx = None"
    using assms(3) by (auto split: option.splits)
  moreover have "rs_table s = rt_table (Router_resources rs d)" using assms(2) by (simp add: inv_simps)
  with t have "idx < length rs" using target_index [OF assms(1)] by metis
  ultimately show ?thesis using al that by blast
qed

lemma inv_call:
  assumes "recognizes_registered recognize" "router_inv recognize makes rs d (s, cs, hist)"
    and "RouterService_call recognize req s = (Ok (Call hnd req') :: (unit, _) outcome, s')"
  shows "router_inv recognize makes rs d (s', cs, hist @ [req])"
proof -
  obtain aliases where "alias_ok recognize (rs_table s) (hist @ [req]) aliases" "s' = s\<lparr>rs_aliases := aliases\<rparr>"
    by (rule RouterService_call_Call [OF assms])
  with assms(2) show ?thesis by (simp add: inv_simps)
qed

lemma inv_create:
  assumes "recognizes_registered recognize" "router_inv recognize makes rs d (s, cs, hist)"
    and "RouterService_call recognize req s = (Ok (Create idx req') :: (unit, _) outcome, s')" and "\<not> rs_creating s"
  shows "router_inv recognize makes rs d (s', cs @ [Making idx req'], hist @ [req])"
proof -
  obtain aliases where "alias_ok recognize (rs_table s) (hist @ [req]) aliases"
    "s' = s\<lparr>rs_aliases := aliases, rs_creating := True\<rparr>" "idx < length rs" "rs_handlers s ! idx = None"
    by (rule RouterService_call_Create [OF assms(1-3)])
  with assms(2,4) show ?thesis by (auto simp: inv_simps)
qed

lemma inv_waker:
  "router_inv recognize makes rs d (s\<lparr>rs_waker := w\<rparr>, cs, hist) = router_inv recognize makes rs d (s, cs, hist)"
  by (simp add: inv_simps)

lemma inv_finished:
  assumes "router_inv recognize makes rs d (s, xs @ Readying idx hnd req # ys, hist)"
    and "handler_ready res idx hnd req s = (r, s')"
  shows "router_inv recognize makes rs d (s', xs @ ys, hist)"
proof -
  from assms(1) have empty: "xs = []" "ys = []" by (auto simp: inv_simps)
  show ?thesis
  proof (cases res)
    case (Inl e)
    with assms empty show ?thesis by (auto simp: inv_simps handler_ready_def)
  next
    case (Inr u)
    with assms empty have "s' = s\<lparr>rs_waker := False, rs_creating := False, rs_handlers := (rs_handlers s)[idx := Some hnd]\<rparr>"
      by (auto simp: inv_simps handler_ready_def Let_def split: if_splits)
    with assms(1) empty show ?thesis by (auto simp: inv_simps nth_list_update)
  qed
qed

lemma inv_step:
  assumes "recognizes_registered recognize" "router_step recognize makes x y" "router_inv recognize makes rs d x"
  shows "router_inv recognize makes rs d y"
  using assms(2,3)
proof (cases rule: router_step.cases)
  case (called poll s req hnd req' s' cs hist)
  with assms(3) show ?thesis by (simp add: inv_call [OF assms(1)])
next
  case (creates poll s req idx req' s' cs hist)
  from poll_ready_state(2) [OF creates(3)] have "\<not> rs_creating s" by simp
  with creates assms(3) show ?thesis by (simp add: inv_create [OF assms(1)])
next
  case (polled poll s res s' cs hist)
  with poll_ready_state(1) [OF polled(3)] assms(3) show ?thesis by (auto simp: inv_waker)
next
  case (made answer idx s hnd s' xs req ys hist)
  from assms(3) made(1) have idx: "idx < length rs" "rs_factories s = map snd rs" "xs = []" "ys = []"
    by (auto simp: inv_simps)
  with made(4) have "answer (snd (rs ! idx)) = Inr hnd" "s' = s"
    by (auto simp: handler_made_def split: sum.splits)
  with made(3) have "makes (snd (rs ! idx)) (Inr hnd)" by metis
  with assms(3) made(1,2) idx \<open>s' = s\<close> show ?thesis by (auto simp: inv_simps)
next
  case (make_failed answer idx s e s' xs req ys hist)
  then have "s' = s" by (auto simp: handler_made_def split: if_splits sum.splits)
  with make_failed(1,2) assms(3) show ?thesis by (auto simp: inv_simps)
next
  case (finished res idx hnd req s r s' xs ys hist)
  with assms(3) show ?thesis by (simp add: inv_finished)
qed

lemma inv_steps:
  assumes "recognizes_registered recognize" "router_steps recognize makes x y" "router_inv recognize makes rs d x"
  shows "router_inv recognize makes rs d y"
  using assms(2,3) by (induction rule: router_steps.induct) (blast intro: inv_step [OF assms(1)])+

lemma inv_session:
  assumes "recognizes_registered recognize" "session recognize makes rs d x"
  shows "router_inv recognize makes rs d x"
proof -
  from assms(2) obtain res s where res: "makes d res"
    and s: "RouterFactory_new_service res (Router_resources rs d) = Inr s"
    and steps: "router_steps recognize makes (s, [], []) x"
    by (auto simp: session_def)
  from s res have "router_inv recognize makes rs d (s, [], [])"
    by (auto simp: inv_simps alias_ok_def RouterFactory_new_service_def Router_resources_built split: sum.splits)
  with inv_steps [OF assms(1) steps] show ?thesis by blast
qed

section \<open>Properties of the router\<close>

text \<open>A handler keeps its place.\<close>

lemma step_handlers:
  assumes "recognizes_registered recognize" "router_step recognize makes (s, cs, hist) (s', cs', hist')"
    and inv: "router_inv recognize makes rs d (s, cs, hist)" and "rs_handlers s ! i = Some hnd"
  shows "rs_handlers s' ! i = Some hnd"
  using assms(2)
proof (cases rule: router_step.cases)
  case (called poll req h req')
  from RouterService_call_Call [OF assms(1) inv called(4)] assms(4) show ?thesis by fastforce
next
  case (creates poll req idx req')
  from RouterService_call_Create [OF assms(1) inv creates(4)] assms(4) show ?thesis by fastforce
next
  case (polled poll res)
  from poll_ready_state(1) [OF polled(3)] assms(4) show ?thesis by auto
next
  case (made answer idx h xs req ys)
  with assms(4) show ?thesis by (auto simp: handler_made_def split: if_splits sum.splits)
next
  case (make_failed answer idx e xs req ys)
  with assms(4) show ?thesis by (auto simp: handler_made_def split: if_splits sum.splits)
next
  case (finished res idx h req r xs ys)
  with inv assms(4) have "idx \<noteq> i" by (auto simp: inv_simps)
  with finished assms(4) show ?thesis
    by (auto simp: handler_ready_def Let_def split: if_splits sum.splits)
qed

lemma steps_handlers:
  assumes "recognizes_registered recognize" "router_steps recognize makes x y" "router_inv recognize makes rs d x"
    and "rs_handlers (fst x) ! i = Some hnd"
  shows "rs_handlers (fst y) ! i = Some hnd"
  using assms(2-)
proof (induction rule: router_steps.induct)
  case (none x)
  then show ?case by simp
next
  case (more x y z)
  obtain s cs hist s' cs' hist' where yz: "y = (s, cs, hist)" "z = (s', cs', hist')" by (metis prod_cases3)
  have "router_inv recognize makes rs d y" using inv_steps [OF assms(1) more(1)] more(4) by blast
  with step_handlers [OF assms(1)] more yz show ?case by (metis fst_conv)
qed

text \<open>C26: Whatever publishes arrive and whatever the factories answer, a session creates at most one handler at a
  time; every handler in place was made by the factory of its resource; a handler in place is never replaced,
  so all publishes for a resource go to the same handler; and no publish makes the router panic.\<close>

theorem v5_router_handlers:
  assumes "recognizes_registered recognize" "session recognize makes rs d (s, cs, hist)"
  shows "length cs \<le> 1 \<and>
    (i < length rs \<and> rs_handlers s ! i = Some hnd \<longrightarrow> makes (snd (rs ! i)) (Inr hnd) \<and>
       (\<forall>y. router_steps recognize makes (s, cs, hist) y \<longrightarrow> rs_handlers (fst y) ! i = Some hnd)) \<and>
    fst (RouterService_call recognize req s :: (unit, _) outcome \<times> _) \<noteq> Panic"
proof -
  note inv = inv_session [OF assms]
  have "fst (RouterService_call recognize req s :: (unit, _) outcome \<times> _) \<noteq> Panic"
    by (simp add: RouterService_call_result [OF assms(1) inv])
  moreover have "rs_handlers (fst y) ! i = Some hnd"
    if "rs_handlers s ! i = Some hnd" "router_steps recognize makes (s, cs, hist) y" for y
    using steps_handlers [OF assms(1) that(2) inv] that(1) by simp
  ultimately show ?thesis using inv by (auto simp: inv_simps)
qed

lemma alias_after_append:
  assumes "\<forall>r \<in> set later. gives_alias r a \<longrightarrow> recognize table (rq_topic r) = None"
    and "gives_alias given a" "recognize table (rq_topic given) = Some x"
  shows "alias_after recognize table a (rev (before @ given # later)) = Some x"
proof -
  have "alias_after recognize table a (rev later @ given # rev before) = Some x"
    using assms(1) by (induction later rule: rev_induct) (auto simp: assms(2,3))
  then show ?thesis by simp
qed

text \<open>The result of a publish that goes to a resource: the handler of the resource if there is one.\<close>

definition goes_to ::
  "('a, 'path) recognizer \<Rightarrow> 'path Request \<Rightarrow> nat \<Rightarrow> 'path \<Rightarrow> ('a, 'path, 'f, 'svc) RouterService \<Rightarrow> bool" where
  "goes_to recognize req i path s \<longleftrightarrow>
    fst (RouterService_call recognize req s :: (unit, _) outcome \<times> _) =
      Ok (case rs_handlers s ! i of
            Some hnd \<Rightarrow> Call hnd (req\<lparr>rq_topic := path\<rparr>)
          | None \<Rightarrow> Create i (req\<lparr>rq_topic := path\<rparr>))"

lemma goes_to_target:
  assumes "recognizes_registered recognize" "router_inv recognize makes rs d (s, cs, hist)"
    and "target recognize (rs_table s) hist req = Some (i, path)"
  shows "goes_to recognize req i path s"
  by (simp add: goes_to_def RouterService_call_result [OF assms(1,2)] assms(3))

text \<open>C27: A publish with a topic alias and no topic goes to the resource and with the path of the last publish that
  gave the alias a topic, if the recogniser knows that topic; any number of other publishes and creations of
  handlers may come in between.\<close>

theorem v5_router_alias:
  assumes "recognizes_registered recognize"
    and "session recognize makes rs d (s, cs, before @ given # later)"
    and "gives_alias given a" "recognize (rt_table (Router_resources rs d)) (rq_topic given) = Some (i, path)"
    and "\<forall>r \<in> set later. \<not> gives_alias r a"
    and "\<not> has_topic req" "topic_alias req = Some a"
  shows "goes_to recognize req i path s"
proof -
  note inv = inv_session [OF assms(1,2)]
  then have tab: "rs_table s = rt_table (Router_resources rs d)" by (simp add: inv_simps)
  show ?thesis
  proof (rule goes_to_target [OF assms(1) inv])
    show "target recognize (rs_table s) (before @ given # later) req = Some (i, path)"
      using alias_after_append [of later a recognize "rs_table s" given "(i, path)" before] assms(3-7) tab
      by (simp add: target_def)
  qed
qed

text \<open>C28: The router only records an alias when the recogniser knows the topic. If an alias is given a topic of a
  resource and later a topic that no resource matches, the later publish goes to the default handler, but the
  publishes that then use the alias still go to the resource of the first topic.\<close>

theorem v5_router_stale_alias:
  assumes "recognizes_registered recognize"
    and "session recognize makes rs d (s, cs, before @ given # again # later)"
    and "gives_alias given a" "recognize (rt_table (Router_resources rs d)) (rq_topic given) = Some (i, path)"
    and "gives_alias again a" "recognize (rt_table (Router_resources rs d)) (rq_topic again) = None"
    and "\<forall>r \<in> set later. \<not> gives_alias r a"
    and "\<not> has_topic req" "topic_alias req = Some a"
  shows "goes_to recognize req i path s \<and>
    fst (RouterService_call recognize again s :: (unit, _) outcome \<times> _) = Ok (Call (rs_default s) again)"
proof
  note inv = inv_session [OF assms(1,2)]
  then have tab: "rs_table s = rt_table (Router_resources rs d)" by (simp add: inv_simps)
  show "goes_to recognize req i path s"
  proof (rule goes_to_target [OF assms(1) inv])
    show "target recognize (rs_table s) (before @ given # again # later) req = Some (i, path)"
      using alias_after_append [of "again # later" a recognize "rs_table s" given "(i, path)" before] assms(3-9) tab
      by (simp add: target_def)
  qed
  show "fst (RouterService_call recognize again s :: (unit, _) outcome \<times> _) = Ok (Call (rs_default s) again)"
    using assms(5,6) tab by (simp add: RouterService_call_def route_def gives_alias_def)
qed

text \<open>When the factory of a handler fails, the flag that a creation is in progress stays set. The publish is
  answered with the error, but from then on the router is never ready again and takes no further publish.\<close>

theorem v5_router_stuck:
  assumes "recognizes_registered recognize"
    and "session recognize makes rs d (s, [Making idx req], hist)"
    and "handler_made answer idx s = (Err e, s')"
    and "router_steps recognize makes (s', [], hist) (s2, cs2, hist2)"
  shows "hist2 = hist \<and> fst (RouterService_poll_ready (poll :: 'svc \<Rightarrow> ('e + unit) option) s2) \<noteq> Some (Inr ())"
proof -
  have creating: "rs_creating s'"
    using inv_session [OF assms(1,2)] assms(3) by (auto simp: inv_simps handler_made_def split: if_splits sum.splits)
  have stuck: "rs_creating (fst y) \<and> snd y = ([], hist)"
    if "router_steps recognize makes x y" "x = (s', [], hist)" for x y
    using that
  proof (induction rule: router_steps.induct)
    case (none x) with creating show ?case by simp
  next
    case (more x y z)
    then have "rs_creating (fst y)" "snd y = ([], hist)" by auto
    with more(2) show ?case
      by (cases rule: router_step.cases) (auto dest: poll_ready_state)
  qed
  from stuck [OF assms(4)] have c: "rs_creating s2" "hist2 = hist" by simp_all
  obtain r s3 where "RouterService_poll_ready poll s2 = (r, s3)" by fastforce
  with poll_ready_state(2) [OF this] c show ?thesis by auto
qed

section \<open>A session\<close>

text \<open>Two resources; the factory of the second always fails.\<close>

definition demo_rs :: "(bytestring \<times> bool) list" where
  "demo_rs = [([1], True), ([2], False)]"

definition demo_makes :: "bool \<Rightarrow> unit + nat \<Rightarrow> bool" where
  "demo_makes f r = (r = (if f then Inr 7 else Inl ()))"

definition demo_req :: "bytestring \<Rightarrow> u16 option \<Rightarrow> bytestring Request" where
  "demo_req t al = Publish_new id (test_publish None t al)"

abbreviation demo_session ::
  "(bytestring, bytestring, bool, nat) session_state \<Rightarrow> bool" where
  "demo_session \<equiv> session exact demo_makes demo_rs True"

definition demo_start :: "(bytestring, bytestring, bool, nat) RouterService" where
  "demo_start = \<lparr>rs_table = [([1], 0), ([2], 1)], rs_default = 7, rs_factories = [True, False],
     rs_handlers = [None, None], rs_aliases = Mapping.empty, rs_waker = False, rs_creating = False\<rparr>"

definition demo_alias :: "(bytestring, bytestring, bool, nat) RouterService" where
  "demo_alias = demo_start\<lparr>rs_aliases := Mapping.update 5 (0, [1]) Mapping.empty\<rparr>"

definition demo_created :: "(bytestring, bytestring, bool, nat) RouterService" where
  "demo_created = demo_alias\<lparr>rs_handlers := [Some 7, None]\<rparr>"

lemmas demo_eval = demo_rs_def demo_makes_def demo_req_def demo_start_def demo_alias_def demo_created_def Publish_new_def
  test_publish_def PublishProperties_default_def exact_def route_def RouterService_call_def RouterService_poll_ready_def
  call_handler_def create_handler_def created_def

lemma session_step:
  assumes "session recognize makes rs d x" "router_step recognize makes x y"
  shows "session recognize makes rs d y"
  using assms router_steps.more unfolding session_def by blast

lemma demo_table: "rt_table (Router_resources demo_rs True) = [([1], 0), ([2], 1)]"
  by (simp add: Router_resources_built demo_rs_def upt_rec)

lemma demo_session_start: "demo_session (demo_start, [], [])"
proof -
  have "RouterFactory_new_service (Inr 7 :: unit + nat) (Router_resources demo_rs True) = Inr demo_start"
    using demo_table by (simp add: RouterFactory_new_service_def Router_resources_built demo_eval)
  then show ?thesis unfolding session_def
    by (intro exI [of _ "Inr 7"] exI [of _ demo_start]) (simp add: demo_makes_def router_steps.none)
qed

lemma demo_ready:
  "RouterService_poll_ready (\<lambda>_. Some (Inr ()) :: (unit + unit) option) demo_start = (Some (Inr ()), demo_start)"
  "RouterService_poll_ready (\<lambda>_. Some (Inr ()) :: (unit + unit) option) demo_created = (Some (Inr ()), demo_created)"
  by (simp_all add: demo_eval)

lemma demo_making: "demo_session (demo_start\<lparr>rs_creating := True\<rparr>, [Making 1 (demo_req [2] None)], [demo_req [2] None])"
proof (rule session_step [OF demo_session_start])
  have "RouterService_call exact (demo_req [2] None) demo_start =
      (Ok (Create 1 (demo_req [2] None)) :: (unit, _) outcome, demo_start\<lparr>rs_creating := True\<rparr>)"
    by (simp add: demo_eval)
  from router_step.creates [OF demo_ready(1) this, where makes = demo_makes and cs = "[]" and hist = "[]"]
  show "router_step exact demo_makes (demo_start, [], [])
      (demo_start\<lparr>rs_creating := True\<rparr>, [Making 1 (demo_req [2] None)], [demo_req [2] None])" by simp
qed

lemma demo_session_created: "demo_session (demo_created, [], [demo_req [1] (Some 5)])"
proof -
  let ?q = "demo_req [1] (Some 5)" and ?s = "demo_alias\<lparr>rs_creating := True\<rparr>"
  have "RouterService_call exact ?q demo_start = (Ok (Create 0 ?q) :: (unit, _) outcome, ?s)"
    by (simp add: demo_eval)
  from router_step.creates [OF demo_ready(1) this, where makes = demo_makes and cs = "[]" and hist = "[]"]
  have "demo_session (?s, [Making 0 ?q], [?q])" by (intro session_step [OF demo_session_start]) simp
  moreover have "router_step exact demo_makes (?s, [Making 0 ?q], [?q]) (?s, [Readying 0 7 ?q], [?q])"
    using router_step.made [of demo_makes "\<lambda>f. if f then Inr 7 else Inl ()" 0 ?s 7 ?s exact "[]" ?q "[]" "[?q]"]
    by (simp add: demo_makes_def handler_made_def demo_alias_def demo_start_def)
  ultimately have "demo_session (?s, [Readying 0 7 ?q], [?q])" by (rule session_step)
  moreover have "router_step exact demo_makes (?s, [Readying 0 7 ?q], [?q]) (demo_created, [], [?q])"
    using router_step.finished [of "Inr ()" 0 7 ?q ?s "Ok (7, ?q)" demo_created exact demo_makes "[]" "[]" "[?q]"]
    by (simp add: handler_ready_def demo_created_def demo_alias_def demo_start_def)
  ultimately show ?thesis by (rule session_step)
qed

lemma demo_session_again: "demo_session (demo_created, [], [demo_req [1] (Some 5), demo_req [9] (Some 5)])"
proof (rule session_step [OF demo_session_created])
  have "RouterService_call exact (demo_req [9] (Some 5)) demo_created =
      (Ok (Call 7 (demo_req [9] (Some 5))) :: (unit, _) outcome, demo_created)"
    by (simp add: demo_eval)
  from router_step.called [OF demo_ready(2) this, where makes = demo_makes and cs = "[]" and hist = "[demo_req [1] (Some 5)]"]
  show "router_step exact demo_makes (demo_created, [], [demo_req [1] (Some 5)])
      (demo_created, [], [demo_req [1] (Some 5), demo_req [9] (Some 5)])" by simp
qed

theorem v5_router_handlers_witness:
  "demo_session (demo_created, [], [demo_req [1] (Some 5)]) \<and> rs_handlers demo_created ! 0 = Some 7 \<and>
   demo_makes (snd (demo_rs ! 0)) (Inr 7)"
  using v5_router_handlers [OF exact_registered demo_session_created, of 0 7] demo_session_created
  by (simp add: demo_rs_def demo_created_def)

lemma demo_gives:
  "gives_alias (demo_req t (Some a)) b \<longleftrightarrow> t \<noteq> [] \<and> a = b"
  "exact (rt_table (Router_resources demo_rs True)) (rq_topic (demo_req [1] al)) = Some (0, [1])"
  "exact (rt_table (Router_resources demo_rs True)) (rq_topic (demo_req [9] al)) = None"
  "\<not> has_topic (demo_req [] al)" "topic_alias (demo_req t al) = al"
  unfolding demo_table by (auto simp: gives_alias_def demo_req_def Publish_new_def test_publish_def exact_def)

theorem v5_router_alias_witness:
  "demo_session (demo_created, [], [demo_req [1] (Some 5)]) \<and> goes_to exact (demo_req [] (Some 5)) 0 [1] demo_created"
proof
  show "demo_session (demo_created, [], [demo_req [1] (Some 5)])" by (rule demo_session_created)
  then have "demo_session (demo_created, [], [] @ demo_req [1] (Some 5) # [])" by simp
  from v5_router_alias [OF exact_registered this _ demo_gives(2), of 5 "demo_req [] (Some 5)"]
  show "goes_to exact (demo_req [] (Some 5)) 0 [1] demo_created" by (simp add: demo_gives)
qed

theorem v5_router_stale_alias_witness:
  "goes_to exact (demo_req [] (Some 5)) 0 [1] demo_created \<and>
   fst (RouterService_call exact (demo_req [9] (Some 5)) demo_created :: (unit, _) outcome \<times> _) =
     Ok (Call (rs_default demo_created) (demo_req [9] (Some 5)))"
proof -
  have "demo_session (demo_created, [], [] @ demo_req [1] (Some 5) # demo_req [9] (Some 5) # [])"
    using demo_session_again by simp
  from v5_router_stale_alias [OF exact_registered this _ demo_gives(2) _ demo_gives(3), of 5 "demo_req [] (Some 5)"]
  show ?thesis by (simp add: demo_gives)
qed

theorem v5_router_stuck_witness:
  "\<exists>s'. handler_made (\<lambda>f. Inl () :: unit + nat) 1 (demo_start\<lparr>rs_creating := True\<rparr>) = (Err (), s') \<and>
     fst (RouterService_poll_ready (\<lambda>_. Some (Inr ()) :: (unit + unit) option) s') \<noteq> Some (Inr ())"
proof -
  obtain s' where s': "handler_made (\<lambda>f. Inl () :: unit + nat) 1 (demo_start\<lparr>rs_creating := True\<rparr>) = (Err (), s')"
    by (simp add: handler_made_def demo_start_def)
  from v5_router_stuck [OF exact_registered demo_making s' router_steps.none] s' show ?thesis by blast
qed

end
