(* ===== verification/V3_Service.thy ===== *)
theory V3_Service
  imports V3_Handshake
begin

text \<open>
  The MQTT 3.1.1 server as a factory of services: the builder with the application's services, the handler of a
  session and the three ways to finish a server in \<^verbatim>\<open>v3/server.rs\<close> (alone, behind the server for both versions, as
  a variant of a selector), and the default services of \<^verbatim>\<open>v3/default.rs\<close>. \<open>read\<close> is \<^verbatim>\<open>State::next\<close>, which reads a packet,
  \<open>new_state\<close> a fresh \<^verbatim>\<open>State\<close>.
\<close>

section \<open>The builder\<close>

type_synonym ('tx, 'io, 'st) session = "('st, ('tx, 'io) shared) Session"

type_synonym ('tx, 'io, 'st) established = "('tx, 'io) shared \<times> ('tx, 'io, 'st) session \<times> u16"

type_synonym 'io reader = "Codec \<Rightarrow> 'io \<Rightarrow> ((DecodeError + io_error) + Packet option) \<times> 'io"

record ('tx, 'io, 'st, 'init, 'pe, 'pi, 'ce, 'ci, 'e) server =
  srv_cfg :: MqttServer
  srv_handshake :: "(unit, 'init, (('tx, 'io) Handshake, ('tx, 'io, 'st) HandshakeAck, 'e) service) factory"
  srv_publish :: "(('tx, 'io, 'st) session, 'pi, (Publish, unit, 'pe) service) factory"
  srv_control :: "(('tx, 'io, 'st) session, 'ci, (ControlMessage, ControlResultKind, 'ce) service) factory"

definition DefaultPublishService_new_service :: "('cfg, 'e, (Publish, unit, 'e) service) factory" where
  "DefaultPublishService_new_service cfg = Inr (always_ready (\<lambda>req. of_sum (DefaultPublishService_call req)))"

definition DefaultControlService_new_service :: "('cfg, 'e, (ControlMessage, ControlResultKind, 'e) service) factory" where
  "DefaultControlService_new_service cfg = Inr (always_ready (\<lambda>msg. of_sum (DefaultControlService_call msg)))"

definition server_new ::
  "(unit, 'init, (('tx, 'io) Handshake, ('tx, 'io, 'st) HandshakeAck, 'e) service) factory \<Rightarrow>
   ('tx, 'io, 'st, 'init, 'e, 'e, 'e, 'e, 'e) server" where
  "server_new handshake =
    \<lparr>srv_cfg = MqttServer_new, srv_handshake = handshake, srv_publish = DefaultPublishService_new_service,
     srv_control = DefaultControlService_new_service\<rparr>"

definition server_control ::
  "(('tx, 'io, 'st) session, 'cj, (ControlMessage, ControlResultKind, 'cf) service) factory \<Rightarrow>
   ('tx, 'io, 'st, 'init, 'pe, 'pi, 'ce, 'ci, 'e) server \<Rightarrow> ('tx, 'io, 'st, 'init, 'pe, 'pi, 'cf, 'cj, 'e) server" where
  "server_control service srv =
    \<lparr>srv_cfg = srv_cfg srv, srv_handshake = srv_handshake srv, srv_publish = srv_publish srv, srv_control = service\<rparr>"

definition server_publish ::
  "(('tx, 'io, 'st) session, 'pj, (Publish, unit, 'pf) service) factory \<Rightarrow>
   ('tx, 'io, 'st, 'init, 'pe, 'pi, 'ce, 'ci, 'e) server \<Rightarrow> ('tx, 'io, 'st, 'init, 'pf, 'pj, 'ce, 'ci, 'e) server" where
  "server_publish pub srv =
    \<lparr>srv_cfg = srv_cfg srv, srv_handshake = srv_handshake srv, srv_publish = pub, srv_control = srv_control srv\<rparr>"

text \<open>A setter of the configuration, on the whole server.\<close>

definition configured ::
  "(MqttServer \<Rightarrow> MqttServer) \<Rightarrow> ('tx, 'io, 'st, 'init, 'pe, 'pi, 'ce, 'ci, 'e) server \<Rightarrow>
   ('tx, 'io, 'st, 'init, 'pe, 'pi, 'ce, 'ci, 'e) server" where
  "configured f srv = srv\<lparr>srv_cfg := f (srv_cfg srv)\<rparr>"

section \<open>The handler of a session\<close>

text \<open>The dispatcher with its services, limited to \<open>hd_limit\<close> concurrent calls.\<close>

record ('tx, 'io, 'e) handler =
  hd_dispatcher :: "('tx, 'io) Dispatcher"
  hd_publish :: "(Publish, unit, 'e MqttError) service"
  hd_control :: "(ControlMessage, ControlResultKind, 'e MqttError) service"
  hd_limit :: nat

definition dispatcher_factory ::
  "(('tx, 'io, 'st) session, 'e MqttError, (Publish, unit, 'e MqttError) service) factory \<Rightarrow>
   (('tx, 'io, 'st) session, 'e MqttError, (ControlMessage, ControlResultKind, 'e MqttError) service) factory \<Rightarrow> nat \<Rightarrow>
   (('tx, 'io, 'st) session, 'e MqttError, ('tx, 'io, 'e) handler) factory" where
  "dispatcher_factory pub control limit ses =
    (case pub ses of
       Inl e \<Rightarrow> Inl e
     | Inr pub \<Rightarrow>
       (case control ses of
          Inl e \<Rightarrow> Inl e
        | Inr control \<Rightarrow>
            Inr \<lparr>hd_dispatcher = session_dispatcher ses, hd_publish = pub, hd_control = control, hd_limit = limit\<rparr>))"

text \<open>The part that all three ways to finish a server have in common.\<close>

definition handler_factory ::
  "('pe, 'pi, 'ce, 'ci, 'e) conversions \<Rightarrow> ('tx, 'io, 'st, 'init, 'pe, 'pi, 'ce, 'ci, 'e) server \<Rightarrow>
   (('tx, 'io, 'st) session, 'e MqttError, ('tx, 'io, 'e) handler) factory" where
  "handler_factory conv srv =
    dispatcher_factory
      (factory_err (\<lambda>e. MqttError.Service (from_publish_init conv e)) (\<lambda>e. MqttError.Service (from_publish conv e)) (srv_publish srv))
      (factory_err (\<lambda>e. MqttError.Service (from_control_init conv e)) (\<lambda>e. MqttError.Service (from_control conv e)) (srv_control srv))
      (ms_inflight (srv_cfg srv))"

section \<open>The handshake service\<close>

text \<open>The whole handshake: the first packet, the handshake service, the CONNACK. Without a state of its own the
  connection gets a new one.\<close>

definition handshake ::
  "('io, Packet, Codec) hs_ops \<Rightarrow> 'io reader \<Rightarrow> 'io \<Rightarrow>
   'io option \<Rightarrow> (('tx, 'io) Handshake, ('tx, 'io, 'st) HandshakeAck, 'e MqttError) service \<Rightarrow> u32 \<Rightarrow>
   ('e MqttError, ('tx, 'io, 'st) established) outcome" where
  "handshake ops read new_state st_opt service sz =
    (let st = (case st_opt of Some st \<Rightarrow> st | None \<Rightarrow> new_state);
         sh = handshake_start sz st;
         (res, st) = read (sh_codec sh) st
     in and_then (of_sum (first_packet res)) (\<lambda>packet.
        and_then (of_sum (handshake_connect packet (sh\<lparr>sh_state := st\<rparr>))) (\<lambda>hnd.
        and_then (svc_call service hnd) (\<lambda>ack.
          case handshake_finish ops ack of (res, sh) \<Rightarrow>
            and_then res (\<lambda>(session, keepalive). Ok (sh, session, keepalive))))))"

definition handshake_service_factory ::
  "('io, Packet, Codec) hs_ops \<Rightarrow> 'io reader \<Rightarrow> 'io \<Rightarrow>
   (u16 \<Rightarrow> ('e MqttError, ('tx, 'io, 'st) established) outcome \<Rightarrow>
     ('e MqttError, ('tx, 'io, 'st) established) outcome option) \<Rightarrow>
   (unit, 'init, (('tx, 'io) Handshake, ('tx, 'io, 'st) HandshakeAck, 'e) service) factory \<Rightarrow> u32 \<Rightarrow> u16 \<Rightarrow>
   (unit, 'init, (unit, ('tx, 'io, 'st) established, 'e MqttError) service) factory" where
  "handshake_service_factory ops read new_state timeout fac sz handshake_timeout =
    handshake_factory (timeout handshake_timeout)
      (\<lambda>service _. handshake ops read new_state None service sz) fac"

definition handshake_service_factory2 ::
  "('io, Packet, Codec) hs_ops \<Rightarrow> 'io reader \<Rightarrow> 'io \<Rightarrow>
   (u16 \<Rightarrow> ('e MqttError, ('tx, 'io, 'st) established) outcome \<Rightarrow>
     ('e MqttError, ('tx, 'io, 'st) established) outcome option) \<Rightarrow>
   (unit, 'init, (('tx, 'io) Handshake, ('tx, 'io, 'st) HandshakeAck, 'e) service) factory \<Rightarrow> u32 \<Rightarrow> u16 \<Rightarrow>
   (unit, 'init, ('io, ('tx, 'io, 'st) established, 'e MqttError) service) factory" where
  "handshake_service_factory2 ops read new_state timeout fac sz handshake_timeout =
    handshake_factory (timeout handshake_timeout)
      (\<lambda>service st. handshake ops read new_state (Some st) service sz) fac"

section \<open>Finishing a server\<close>

text \<open>A connection of a server that stands alone has a new state; behind the server for both versions it has the
  state into which the first bytes were read.\<close>

definition finish ::
  "('io, Packet, Codec) hs_ops \<Rightarrow> 'io reader \<Rightarrow> 'io \<Rightarrow>
   (u16 \<Rightarrow> ('e MqttError, ('tx, 'io, 'st) established) outcome \<Rightarrow> ('e MqttError, ('tx, 'io, 'st) established) outcome option) \<Rightarrow>
   ('pe, 'pi, 'ce, 'ci, 'e) conversions \<Rightarrow> ('tx, 'io, 'st, 'init, 'pe, 'pi, 'ce, 'ci, 'e) server \<Rightarrow>
   (unit, 'init, ('tx, 'io) shared, ('tx, 'io, 'st) session, ('tx, 'io, 'e) handler, 'e MqttError) FramedService" where
  "finish ops read new_state timeout conv srv =
    FramedService_new
      (handshake_service_factory ops read new_state timeout (srv_handshake srv) (ms_max_size (srv_cfg srv))
        (ms_handshake_timeout (srv_cfg srv)))
      (handler_factory conv srv) (ms_disconnect_timeout (srv_cfg srv))"

definition inner_finish ::
  "('io, Packet, Codec) hs_ops \<Rightarrow> 'io reader \<Rightarrow> 'io \<Rightarrow>
   (u16 \<Rightarrow> ('e MqttError, ('tx, 'io, 'st) established) outcome \<Rightarrow> ('e MqttError, ('tx, 'io, 'st) established) outcome option) \<Rightarrow>
   ('pe, 'pi, 'ce, 'ci, 'e) conversions \<Rightarrow> ('tx, 'io, 'st, 'init, 'pe, 'pi, 'ce, 'ci, 'e) server \<Rightarrow>
   ('io, 'init, ('tx, 'io) shared, ('tx, 'io, 'st) session, ('tx, 'io, 'e) handler, 'e MqttError) FramedService" where
  "inner_finish ops read new_state timeout conv srv =
    FramedService2_new
      (handshake_service_factory2 ops read new_state timeout (srv_handshake srv) (ms_max_size (srv_cfg srv))
        (ms_handshake_timeout (srv_cfg srv)))
      (handler_factory conv srv) (ms_disconnect_timeout (srv_cfg srv))"

text \<open>A variant of a selector: the factory, and the service that it creates.\<close>

record ('tx, 'io, 'st, 'init, 'h, 'e) ServerSelector =
  ss_cfg :: MqttServer
  ss_check :: "('tx, 'io) Handshake \<Rightarrow> ('e, bool) outcome"
  ss_connect :: "(unit, 'init, (('tx, 'io) Handshake, ('tx, 'io, 'st) HandshakeAck, 'e) service) factory"
  ss_handler :: "(('tx, 'io, 'st) session, 'e MqttError, 'h) factory"

definition finish_selector ::
  "('pe, 'pi, 'ce, 'ci, 'e) conversions \<Rightarrow> (('tx, 'io) Handshake \<Rightarrow> ('e, bool) outcome) \<Rightarrow>
   ('tx, 'io, 'st, 'init, 'pe, 'pi, 'ce, 'ci, 'e) server \<Rightarrow> ('tx, 'io, 'st, 'init, ('tx, 'io, 'e) handler, 'e) ServerSelector" where
  "finish_selector conv check srv =
    \<lparr>ss_cfg = srv_cfg srv, ss_check = check, ss_connect = srv_handshake srv, ss_handler = handler_factory conv srv\<rparr>"

definition ServerSelector_new_service ::
  "(phase \<Rightarrow> bool) \<Rightarrow> ('tx, 'io, 'st, 'init, 'h, 'e) ServerSelector \<Rightarrow> 'init + ('tx, 'io, 'st, 'h, 'e) variant" where
  "ServerSelector_new_service late ss =
    (case ss_connect ss () of
       Inl e \<Rightarrow> Inl e
     | Inr connect \<Rightarrow>
         Inr \<lparr>va_cfg = ss_cfg ss, va_check = ss_check ss, va_connect = connect, va_handler = ss_handler ss, va_late = late\<rparr>)"

text \<open>The selector behind the server for both versions.\<close>

definition SelectorService2_call ::
  "('io, Packet, Codec) hs_ops \<Rightarrow> (('tx, 'io) shared \<Rightarrow> 'h \<Rightarrow> u16 \<Rightarrow> u16 \<Rightarrow> ('e MqttError, unit) outcome) \<Rightarrow>
   ('tx, 'io, 'st, 'h, 'e) variant Selector2 \<Rightarrow> 'io \<times> nat option \<Rightarrow>
   (DecodeError + io_error) + Packet option \<Rightarrow> ('e MqttError, unit) outcome" where
  "SelectorService2_call ops run sel req res =
    (case req of (st, delay) \<Rightarrow>
       (let shared = MqttShared_new st (Codec_max_size Codec_new (sel2_max_size sel)) 16 in
        case res of
          Inl err \<Rightarrow> Err (MqttError_from_decode err)
        | Inr None \<Rightarrow> Err MqttError.Disconnected
        | Inr (Some (Packet.Connect con)) \<Rightarrow>
            selector2_call (map (ServerSelectorImpl_call ops run) (sel2_servers sel)) (\<lparr>hs_pkt = con, hs_shared = shared\<rparr>, delay)
        | Inr (Some packet) \<Rightarrow>
            Err (Protocol (ProtocolError.Unexpected (packet_type packet) ''MQTT-3.1.0-1: Expected CONNECT packet''))))"

section \<open>Properties\<close>

lemma v3_handshake_ok:
  fixes service :: "(('tx, 'io) Handshake, ('tx, 'io, 'st) HandshakeAck, 'e MqttError) service"
  assumes "read (sh_codec (handshake_start n st :: ('tx, 'io) shared)) st = (Inr (Some (Packet.Connect con)), st')"
    and "svc_call service \<lparr>hs_pkt = con, hs_shared = (handshake_start n st)\<lparr>sh_state := st'\<rparr>\<rparr> = Ok ack"
    and "handshake_finish ops ack = (Ok (session, keepalive) :: ('e MqttError, _) outcome, sh)"
  shows "handshake ops read new_state (Some st) service n = Ok (sh, session, keepalive)"
  using assms by (simp add: handshake_def first_packet_def handshake_connect_def Let_def)

lemma v3_handshake_new_state: "handshake ops read st None service n = handshake ops read st' (Some st) service n"
  by (simp add: handshake_def)

text \<open>The two forms of a MQTT 3.1.1 server agree, although the code of each is written out. The service of a server that
  stands alone and the one behind the server for both versions are both created or fail to be created with the same error, and
  they serve a connection with the same result, unless the deadline of the second passes first. A selector behind the
  server for both versions, whatever its own handshake timeout is, is created and serves a connection like a
  selector that stands alone and has the handshake timeout of the server.\<close>

theorem v3_server_forms_agree:
  "map_sum id (\<lambda>impl. FramedServiceImpl_call run impl ()) (FramedService_new_service (finish ops read st timeout conv srv)) =
     map_sum id (\<lambda>impl. FramedServiceImpl2_call run late impl (st, if late then None else delay))
       (FramedService2_new_service (inner_finish ops read other timeout conv srv)) \<and>
   map_sum id (\<lambda>sel. SelectorService_call sel_ops sel_run sel now io res)
       (Selector_new_service create (Selector_handshake_timeout t selector)) =
     map_sum id (\<lambda>sel. SelectorService2_call sel_ops sel_run sel (io, handshake_delay now (unat t)) res)
       (Selector2_new_service create (Selector_finish_server selector))"
proof (rule conjI)
  show "map_sum id (\<lambda>impl. FramedServiceImpl_call run impl ()) (FramedService_new_service (finish ops read st timeout conv srv)) =
     map_sum id (\<lambda>impl. FramedServiceImpl2_call run late impl (st, if late then None else delay))
       (FramedService2_new_service (inner_finish ops read other timeout conv srv))"
    by (cases "srv_handshake srv ()")
       (simp_all add: FramedService2_new_service_eq FramedService_new_service_def finish_def inner_finish_def
         FramedService_new_def FramedService2_new_def handshake_service_factory_def handshake_service_factory2_def
         handshake_factory_def FramedServiceImpl2_call_eq FramedServiceImpl_call_def framed_handler_def Let_def
         v3_handshake_new_state [of ops read st _ _ other])
  show "map_sum id (\<lambda>sel. SelectorService_call sel_ops sel_run sel now io res)
       (Selector_new_service create (Selector_handshake_timeout t selector)) =
     map_sum id (\<lambda>sel. SelectorService2_call sel_ops sel_run sel (io, handshake_delay now (unat t)) res)
       (Selector2_new_service create (Selector_finish_server selector))"
    by (cases "create_all (Inr []) (map create (sel_servers selector))")
       (simp_all add: Selector_new_service_def Selector2_new_service_def Selector_finish_server_def Selector_handshake_timeout_def
         SelectorService_call_def SelectorService2_call_def selector2_call_eq first_packet_def
         split: sum.split option.split Packet.split)
qed

text \<open>C24: A MQTT 3.1.1 server serves a connection as it was configured. When the client's first packet is a CONNECT, the
  handshake service of the application accepts it, the CONNACK is sent and the services of the session are created, the
  transport loop runs with a dispatcher that has no packet in progress, with the codec and its configured size limit, the
  converted errors of the services, the configured limit of concurrent calls, the keep-alive time of the handshake
  and the configured disconnect timeout.\<close>

theorem v3_server_serves:
  fixes srv :: "('tx, 'io, 'st, 'init, 'pe, 'pi, 'ce, 'ci, 'e) server"
    and read :: "'io reader"
  assumes "srv_handshake srv () = Inr hs" "timeout (ms_handshake_timeout (srv_cfg srv)) = Some"
    and "sh0 = handshake_start (ms_max_size (srv_cfg srv)) st"
    and "read (sh_codec sh0) st = (Inr (Some (Packet.Connect con)), st')"
    and "svc_call hs \<lparr>hs_pkt = con, hs_shared = sh0\<lparr>sh_state := st'\<rparr>\<rparr> = Ok ack"
    and "ha_session ack = Some ses" "ha_shared ack = sh0\<lparr>sh_state := st'\<rparr>"
    and "io_send ops (sh_codec sh0) (Packet.ConnectAck (ha_session_present ack) ConnectionAccepted)
      (io_set_buffer_params ops (ha_read_hw ack) (ha_write_hw ack) (ha_lw ack) st') = (Ok (), sent)"
    and "sh = sh0\<lparr>sh_state := sent\<rparr>"
    and "srv_publish srv (Session_new ses sh) = Inr pub" "srv_control srv (Session_new ses sh) = Inr ctl"
  shows "\<exists>impl. FramedService_new_service (finish ops read st timeout conv srv) = Inr impl \<and>
    FramedServiceImpl_call run impl () =
      run sh
        \<lparr>hd_dispatcher = V3_Dispatcher.Dispatcher_new sh,
         hd_publish = service_err (\<lambda>e. MqttError.Service (from_publish conv e)) pub,
         hd_control = service_err (\<lambda>e. MqttError.Service (from_control conv e)) ctl,
         hd_limit = ms_inflight (srv_cfg srv)\<rparr>
        (ha_keepalive ack) (ms_disconnect_timeout (srv_cfg srv))"
proof -
  let ?service = "service_err MqttError.Service hs"
  have call: "svc_call ?service \<lparr>hs_pkt = con, hs_shared = sh0\<lparr>sh_state := st'\<rparr>\<rparr> = Ok ack"
    using assms(5) by (simp add: service_err_def)
  have "handshake_finish ops ack = (Ok (Session_new ses sh, ha_keepalive ack) :: ('e MqttError, _) outcome, sh)"
    using assms(6-9) by (simp add: handshake_finish_def handshake_accept_def send_connack_def act_then_def)
  from v3_handshake_ok [where 'e = 'e and read = read and ops = ops and service = ?service and new_state = st,
      OF assms(4) [unfolded assms(3)] call [unfolded assms(3)] this]
  have "handshake ops read st None ?service (ms_max_size (srv_cfg srv)) = Ok (sh, Session_new ses sh, ha_keepalive ack)"
    by (simp add: v3_handshake_new_state [of ops read st _ _ st])
  with assms(1,2,10,11) show ?thesis
    by (simp add: finish_def FramedService_new_def FramedService_new_service_def handshake_service_factory_def
        handshake_factory_def with_timeout_def FramedServiceImpl_call_def framed_handler_def handler_factory_def
        dispatcher_factory_def factory_err_def session_dispatcher_def Session_new_def Let_def)
qed

text \<open>A server that accepts everyone, with the default services, and a transport on which everything succeeds.\<close>

definition demo_ops :: "(unit, Packet, Codec) hs_ops" where
  "demo_ops =
    \<lparr>io_is_open = (\<lambda>_. True), io_close = id, io_force_close = id, io_encode = (\<lambda>enc pkt s. (Ok True, s)),
     io_send = (\<lambda>codec pkt s. (Ok (), s)), io_set_buffer_params = (\<lambda>_ _ _ s. s), io_write_shutdown = id\<rparr>"

definition demo_handshake :: "((nat, unit) Handshake, (nat, unit, unit) HandshakeAck, unit) service" where
  "demo_handshake = always_ready (\<lambda>hnd. Ok (HandshakeAck_idle_timeout 60 (Handshake_ack () False hnd)))"

definition demo_srv :: "(nat, unit, unit, unit, unit, unit, unit, unit, unit) server" where
  "demo_srv = configured (MqttServer_max_size 1024) (configured (MqttServer_disconnect_timeout 100) (server_new (\<lambda>_. Inr demo_handshake)))"

definition demo_conv :: "(unit, unit, unit, unit, unit) conversions" where
  "demo_conv = \<lparr>from_publish = id, from_publish_init = id, from_control = id, from_control_init = id\<rparr>"

definition demo_shared :: "(nat, unit) shared" where
  "demo_shared = handshake_start 1024 ()"

lemmas demo_eval = demo_srv_def demo_handshake_def demo_shared_def demo_ops_def configured_def server_new_def MqttServer_new_def
  MqttServer_max_size_def MqttServer_disconnect_timeout_def HandshakeAck_idle_timeout_def Handshake_ack_def always_ready_def
  DefaultPublishService_new_service_def DefaultControlService_new_service_def

theorem v3_server_serves_witness:
  "\<forall>run. \<exists>impl. FramedService_new_service
      (finish demo_ops (\<lambda>_ s. (Inr (Some (Packet.Connect demo_connect)), s)) () (\<lambda>_. Some) demo_conv demo_srv) = Inr impl \<and>
    FramedServiceImpl_call run impl () =
      run demo_shared
        \<lparr>hd_dispatcher = V3_Dispatcher.Dispatcher_new demo_shared,
         hd_publish = service_err (\<lambda>e. MqttError.Service (from_publish demo_conv e))
           (always_ready (\<lambda>req. of_sum (DefaultPublishService_call req))),
         hd_control = service_err (\<lambda>e. MqttError.Service (from_control demo_conv e))
           (always_ready (\<lambda>msg. of_sum (DefaultControlService_call msg))),
         hd_limit = 16\<rparr> 60 100"
proof
  fix run :: "(nat, unit) shared \<Rightarrow> (nat, unit, unit) handler \<Rightarrow> u16 \<Rightarrow> u16 \<Rightarrow> (unit MqttError, unit) outcome"
  let ?ack = "HandshakeAck_idle_timeout 60 (Handshake_ack () False \<lparr>hs_pkt = demo_connect, hs_shared = demo_shared\<rparr>)"
  have shared: "sh\<lparr>sh_state := ()\<rparr> = sh" for sh :: "(nat, unit) shared"
    by (cases sh) simp
  show "\<exists>impl. FramedService_new_service
      (finish demo_ops (\<lambda>_ s. (Inr (Some (Packet.Connect demo_connect)), s)) () (\<lambda>_. Some) demo_conv demo_srv) = Inr impl \<and>
    FramedServiceImpl_call run impl () =
      run demo_shared
        \<lparr>hd_dispatcher = V3_Dispatcher.Dispatcher_new demo_shared,
         hd_publish = service_err (\<lambda>e. MqttError.Service (from_publish demo_conv e))
           (always_ready (\<lambda>req. of_sum (DefaultPublishService_call req))),
         hd_control = service_err (\<lambda>e. MqttError.Service (from_control demo_conv e))
           (always_ready (\<lambda>msg. of_sum (DefaultControlService_call msg))),
         hd_limit = 16\<rparr> 60 100"
    using v3_server_serves [where srv = demo_srv and hs = demo_handshake and timeout = "\<lambda>_. Some" and st = "()" and st' = "()"
        and read = "\<lambda>_ s. (Inr (Some (Packet.Connect demo_connect)), s)" and con = demo_connect and ack = ?ack and ses = "()"
        and ops = demo_ops and sent = "()" and run = run and conv = demo_conv
        and pub = "always_ready (\<lambda>req. of_sum (DefaultPublishService_call req))"
        and ctl = "always_ready (\<lambda>msg. of_sum (DefaultControlService_call msg))", OF _ _ refl refl _ _ _ _ refl]
    by (simp add: demo_eval shared)
qed

end
