(* ===== verification/V3_Negotiation.thy ===== *)
theory V3_Negotiation
  imports V3_Client V3_Service
begin

text \<open>
  The handshake between the crate's MQTT 3.1.1 client and server, down to the bytes: the client's connector
  (\<^verbatim>\<open>v3/client/connector.rs\<close>) on one end, the server's handshake (\<^verbatim>\<open>v3/server.rs\<close>) with an arbitrary handshake service of
  the application on the other.
\<close>

section \<open>Transports\<close>

text \<open>What a handshake relies on at its end of the transport: \<open>out st\<close> is what was written to the peer, \<open>inp st\<close> what the peer sends.
  Sending a packet that the codec can encode appends its bytes, reading takes the packet that the codec decodes from the
  front of the input, setting the sizes of the buffers changes neither.\<close>

definition byte_transport ::
  "('io, Packet, Codec) hs_ops \<Rightarrow> 'io reader \<Rightarrow> ('io \<Rightarrow> bytes) \<Rightarrow> ('io \<Rightarrow> bytes) \<Rightarrow> bool" where
  "byte_transport ops read inp out \<longleftrightarrow>
    (\<forall>c p st bs. Codec_encode c p [] = (Ok (), bs) \<longrightarrow>
      (\<exists>st'. io_send ops c p st = (Ok (), st') \<and> out st' = out st @ bs \<and> inp st' = inp st)) \<and>
    (\<forall>r w l st. out (io_set_buffer_params ops r w l st) = out st \<and> inp (io_set_buffer_params ops r w l st) = inp st) \<and>
    (\<forall>c c' st p rest. Codec_decode c (inp st) = (Ok (Some p), c', rest) \<longrightarrow>
      (\<exists>st'. read c st = (Inr (Some p), st') \<and> out st' = out st \<and> inp st' = rest))"

definition packet_bytes :: "Packet \<Rightarrow> bytes" where
  "packet_bytes p = snd (Codec_encode Codec_new p [])"

lemma packet_bytes_frame: "encodable p \<Longrightarrow> packet_bytes p = frame_bytes (header_byte p) (content p)"
  by (simp add: packet_bytes_def Codec_encode_ok)

lemma byte_transport_send:
  assumes "byte_transport ops read inp out" "encodable p"
  obtains st' where "io_send ops c p st = (Ok (), st')" "out st' = out st @ packet_bytes p" "inp st' = inp st"
proof -
  have "Codec_encode c p [] = (Ok (), packet_bytes p)"
    using assms(2) by (simp add: Codec_encode_ok packet_bytes_frame)
  with assms(1) that show ?thesis unfolding byte_transport_def by blast
qed

lemma byte_transport_read:
  assumes "byte_transport ops read inp out" "encodable p" "state c = FrameHeader"
    and "max_size c = 0 \<or> get_encoded_size p \<le> unat (max_size c)" "inp st = packet_bytes p @ rest"
  obtains st' where "read c st = (Inr (Some p), st')" "out st' = out st" "inp st' = rest"
proof -
  have "Codec_decode c (inp st) = (Ok (Some p), c, rest)"
    using assms(2-5) by (simp add: Codec_decode_image packet_bytes_frame)
  with assms(1) that show ?thesis unfolding byte_transport_def by blast
qed

lemma byte_transport_buffers:
  assumes "byte_transport ops read inp out"
  shows "out (io_set_buffer_params ops r w l st) = out st" "inp (io_set_buffer_params ops r w l st) = inp st"
  using assms by (simp_all add: byte_transport_def)

section \<open>The two ends\<close>

lemma encodable_ConnectAck: "encodable (Packet.ConnectAck present code)" "get_encoded_size (Packet.ConnectAck present code) = 2"
  by (simp_all add: encodable_def)

text \<open>The CONNACK that an answer of the application leads to.\<close>

definition answer_connack :: "('tx, 'io, 'st) HandshakeAck \<Rightarrow> Packet" where
  "answer_connack ack =
    (case ha_session ack of
       Some _ \<Rightarrow> Packet.ConnectAck (ha_session_present ack) ConnectionAccepted
     | None \<Rightarrow> Packet.ConnectAck False (ha_return_code ack))"

lemma handshake_finish_sends:
  assumes "byte_transport ops read inp out"
  obtains st' where "out st' = out (sh_state (ha_shared ack)) @ packet_bytes (answer_connack ack)"
    "inp st' = inp (sh_state (ha_shared ack))"
    "handshake_finish ops ack =
      ((case ha_session ack of
          Some ses \<Rightarrow> Ok (Session_new ses ((ha_shared ack)\<lparr>sh_state := st'\<rparr>), ha_keepalive ack)
        | None \<Rightarrow> Err MqttError.Disconnected) :: ('e MqttError, _) outcome, (ha_shared ack)\<lparr>sh_state := st'\<rparr>)"
proof (cases "ha_session ack")
  case None
  obtain st' where "io_send ops (sh_codec (ha_shared ack)) (answer_connack ack) (sh_state (ha_shared ack)) = (Ok (), st')"
    "out st' = out (sh_state (ha_shared ack)) @ packet_bytes (answer_connack ack)" "inp st' = inp (sh_state (ha_shared ack))"
    using None by (auto simp: answer_connack_def intro: byte_transport_send [OF assms encodable_ConnectAck(1)])
  with None show ?thesis
    by (intro that [of st'])
       (auto simp: handshake_finish_def handshake_refuse_def send_connack_def act_then_def answer_connack_def)
next
  case (Some ses)
  let ?st = "io_set_buffer_params ops (ha_read_hw ack) (ha_write_hw ack) (ha_lw ack) (sh_state (ha_shared ack))"
  obtain st' where "io_send ops (sh_codec (ha_shared ack)) (answer_connack ack) ?st = (Ok (), st')"
    "out st' = out ?st @ packet_bytes (answer_connack ack)" "inp st' = inp ?st"
    using Some by (auto simp: answer_connack_def intro: byte_transport_send [OF assms encodable_ConnectAck(1)])
  with Some show ?thesis
    by (intro that [of st'])
       (auto simp: handshake_finish_def handshake_accept_def send_connack_def act_then_def answer_connack_def
         byte_transport_buffers [OF assms])
qed

text \<open>A client whose peer answers the CONNECT with a CONNACK.\<close>

lemma connect_inner_acknowledged:
  assumes "byte_transport ops read inp out" "encodable (Packet.Connect (mc_pkt mc))"
    and "mc_max_packet_size mc = 0 \<or> 2 \<le> mc_max_packet_size mc"
    and "inp st = packet_bytes (Packet.ConnectAck present code)"
  obtains st' where "inp st' = []"
    "connect_inner ops read mc (Inr st) =
      (if code = ConnectionAccepted
       then Ok (Client_new (MqttShared_new st' (connect_codec mc) (mc_max_send mc)) present (keep_alive (mc_pkt mc))
         (mc_disconnect_timeout mc) (mc_max_receive mc))
       else Err (ClientError.Ack present code) :: ('c ClientError, ('tx, 'io) Client) outcome)"
proof -
  obtain st1 where st1: "io_send ops (connect_codec mc) (Packet.Connect (mc_pkt mc)) st = (Ok (), st1)" "inp st1 = inp st"
    by (rule byte_transport_send [OF assms(1,2)])
  have codec: "state (connect_codec mc) = FrameHeader" "max_size (connect_codec mc) = mc_max_packet_size mc"
    by (simp_all add: connect_codec_def Codec_max_size_def Codec_new_def)
  have limit: "max_size (connect_codec mc) = 0 \<or>
      get_encoded_size (Packet.ConnectAck present code) \<le> unat (max_size (connect_codec mc))"
    using assms(3) by (auto simp: codec word_le_nat_alt)
  have "inp st1 = packet_bytes (Packet.ConnectAck present code) @ []"
    using st1(2) assms(4) by simp
  from byte_transport_read [OF assms(1) encodable_ConnectAck(1) codec(1) limit this]
  obtain st' where "read (connect_codec mc) st1 = (Inr (Some (Packet.ConnectAck present code)), st')" "inp st' = []"
    by blast
  with st1 show ?thesis
    by (intro that [of st']) (auto simp: connect_inner_def connect_start_def connect_packet_def Let_def)
qed

text \<open>What the client has written before it reads.\<close>

lemma connect_start_sends:
  assumes "byte_transport ops read inp out" "encodable (Packet.Connect (mc_pkt mc))"
  shows "out (snd (connect_start ops mc st)) = out st @ packet_bytes (Packet.Connect (mc_pkt mc))"
  by (rule byte_transport_send [OF assms, where c = "connect_codec mc" and st = st]) (simp add: connect_start_def)

text \<open>C32: Client and server agree on the result of a handshake, whatever the handshake service of the server's application
  answers, down to the bytes between them. The client's CONNECT has to be one that the codec can read back, within the
  server's limit, and the client's limit has to admit a CONNACK. The server answers with exactly one CONNACK. If the application
  accepts, the server has a session with the codec's size limit, sixteen publishes in flight and the idle timeout of the answer, and the
  client is connected with the session-present flag of the answer and with its own limits; if the application refuses, the server
  reports a disconnected client and the client an error with the return code of the answer. Nothing is left
  to read.\<close>

theorem v3_handshake_agreed:
  fixes service :: "(('tx, 'io) Handshake, ('tx, 'io, 'st) HandshakeAck, 'e MqttError) service" and cst :: 'cio
  assumes "byte_transport sops sread sinp sout" "byte_transport cops cread cinp cout"
    and "encodable (Packet.Connect (mc_pkt mc))" "sz = 0 \<or> get_encoded_size (Packet.Connect (mc_pkt mc)) \<le> unat sz"
    and "mc_max_packet_size mc = 0 \<or> 2 \<le> mc_max_packet_size mc"
    and "cout cst = []" "sinp sst = cout (snd (connect_start cops mc cst :: (unit ClientError, _) outcome \<times> _))" "sout sst = []"
    and "sh0 = (handshake_start sz sst)\<lparr>sh_state := snd (sread (Codec_max_size Codec_new sz) sst)\<rparr>"
    and "svc_call service \<lparr>hs_pkt = mc_pkt mc, hs_shared = sh0\<rparr> = Ok ack" "ha_shared ack = sh0"
    and "ha_session ack = None \<longrightarrow> ha_return_code ack \<noteq> ConnectionAccepted"
    and "cinp cst = sout (sh_state (snd (handshake_finish sops ack :: ('e MqttError, _) outcome \<times> _)))"
  shows "\<exists>sst' cst'. sout sst' = packet_bytes (answer_connack ack) \<and> sinp sst' = [] \<and> cinp cst' = [] \<and>
    (let sh = MqttShared_new sst' (Codec_max_size Codec_new sz) 16 in
     case ha_session ack of
       Some ses \<Rightarrow>
         handshake sops sread new_state (Some sst) service sz = Ok (sh, Session_new ses sh, ha_keepalive ack) \<and>
         connect_inner cops cread mc (Inr cst) = (Ok (Client_new (MqttShared_new cst' (connect_codec mc) (mc_max_send mc))
           (ha_session_present ack) (keep_alive (mc_pkt mc)) (mc_disconnect_timeout mc) (mc_max_receive mc))
             :: ('c ClientError, ('ctx, 'cio) Client) outcome)
     | None \<Rightarrow>
         handshake sops sread new_state (Some sst) service sz = Err MqttError.Disconnected \<and>
         connect_inner cops cread mc (Inr cst) =
           (Err (ClientError.Ack False (ha_return_code ack)) :: ('c ClientError, ('ctx, 'cio) Client) outcome))"
proof -
  let ?codec = "Codec_max_size Codec_new sz"
  have codec: "state ?codec = FrameHeader" "max_size ?codec = sz"
    by (simp_all add: Codec_max_size_def Codec_new_def)
  have "sinp sst = packet_bytes (Packet.Connect (mc_pkt mc)) @ []"
    using assms(6,7) by (simp add: connect_start_sends [OF assms(2,3)])
  with byte_transport_read [OF assms(1,3) codec(1), unfolded codec(2), OF assms(4)]
  obtain st1 where st1: "sread ?codec sst = (Inr (Some (Packet.Connect (mc_pkt mc))), st1)" "sout st1 = []" "sinp st1 = []"
    using assms(8) by metis
  have shared: "(ha_shared ack)\<lparr>sh_state := st\<rparr> = MqttShared_new st ?codec 16" "sh_state (ha_shared ack) = st1" for st
    using assms(9,11) st1(1) by (simp_all add: handshake_start_def MqttShared_new_def)
  obtain sst' where sst': "sout sst' = packet_bytes (answer_connack ack)" "sinp sst' = []"
    "handshake_finish sops ack =
      ((case ha_session ack of
          Some ses \<Rightarrow> Ok (Session_new ses (MqttShared_new sst' ?codec 16), ha_keepalive ack)
        | None \<Rightarrow> Err MqttError.Disconnected) :: ('e MqttError, _) outcome, MqttShared_new sst' ?codec 16)"
    by (rule handshake_finish_sends [OF assms(1), where ack = ack and 'e = 'e, unfolded shared]) (use st1(2,3) in simp)
  have server: "handshake sops sread new_state (Some sst) service sz =
    (case ha_session ack of
       Some ses \<Rightarrow> Ok (MqttShared_new sst' ?codec 16, Session_new ses (MqttShared_new sst' ?codec 16), ha_keepalive ack)
     | None \<Rightarrow> Err MqttError.Disconnected)"
    using assms(9,10) st1(1) sst'(3)
    by (simp add: handshake_def first_packet_def handshake_connect_def handshake_start_def MqttShared_new_def Let_def
        split: option.split)
  obtain present code where pkt: "answer_connack ack = Packet.ConnectAck present code"
    by (cases "ha_session ack") (auto simp: answer_connack_def)
  have "cinp cst = packet_bytes (Packet.ConnectAck present code)"
    using assms(13) sst'(1,3) pkt by (simp add: MqttShared_new_def)
  from connect_inner_acknowledged [OF assms(2,3,5) this, where 'c = 'c and 'tx = 'ctx]
  obtain cst' where "cinp cst' = []" "connect_inner cops cread mc (Inr cst) =
      (if code = ConnectionAccepted
       then Ok (Client_new (MqttShared_new cst' (connect_codec mc) (mc_max_send mc)) present (keep_alive (mc_pkt mc))
         (mc_disconnect_timeout mc) (mc_max_receive mc))
       else Err (ClientError.Ack present code) :: ('c ClientError, ('ctx, 'cio) Client) outcome)"
    by metis
  with sst' server pkt assms(12) show ?thesis
    by (intro exI [of _ sst'] exI [of _ cst']) (auto simp: answer_connack_def Let_def split: option.splits)
qed

text \<open>A transport between two buffers, and a server that accepts with an idle timeout of a minute.\<close>

definition buffer_ops :: "(bytes \<times> bytes, Packet, Codec) hs_ops" where
  "buffer_ops =
    \<lparr>io_is_open = (\<lambda>_. True), io_close = id, io_force_close = id, io_encode = (\<lambda>enc pkt s. (Ok True, s)),
     io_send = (\<lambda>codec pkt (inp, out).
       case Codec_encode codec pkt [] of
         (Ok _, bs) \<Rightarrow> (Ok (), inp, out @ bs)
       | (Err e, bs) \<Rightarrow> (Err (Inl e), inp, out @ bs)
       | (Panic, bs) \<Rightarrow> (Panic, inp, out @ bs)
       | (Diverge, bs) \<Rightarrow> (Diverge, inp, out @ bs)),
     io_set_buffer_params = (\<lambda>_ _ _ s. s), io_write_shutdown = id\<rparr>"

definition buffer_read :: "(bytes \<times> bytes) reader" where
  "buffer_read codec st =
    (case Codec_decode codec (fst st) of
       (Ok pkt, _, rest) \<Rightarrow> (Inr pkt, rest, snd st)
     | (Err e, _, rest) \<Rightarrow> (Inl (Inl e), rest, snd st)
     | (_, _, rest) \<Rightarrow> (Inr None, rest, snd st))"

lemma buffer_transport: "byte_transport buffer_ops buffer_read fst snd"
  by (auto simp: byte_transport_def buffer_ops_def buffer_read_def)

lemma buffer_read_packet:
  assumes "encodable p" "state c = FrameHeader" "max_size c = 0"
  shows "buffer_read c (packet_bytes p @ rest, out) = (Inr (Some p), rest, out)"
  using assms by (simp add: buffer_read_def packet_bytes_frame Codec_decode_image)

definition minute_service :: "((nat, bytes \<times> bytes) Handshake, (nat, bytes \<times> bytes, unit) HandshakeAck, unit MqttError) service" where
  "minute_service = always_ready (\<lambda>hnd. Ok (HandshakeAck_idle_timeout 60 (Handshake_ack () True hnd)))"

lemma encodable_test_connector: "encodable (Packet.Connect (mc_pkt test_connector))" "mc_max_packet_size test_connector = 0x10000"
  by (simp_all add: encodable_def test_connector_def MqttConnector_clean_session_def MqttConnector_client_id_def
      MqttConnector_new_def Connect_default_def valid_Connect_def valid_ByteString_def)

theorem v3_handshake_agreed_witness:
  "\<exists>sst' cst'.
     handshake buffer_ops buffer_read ([], []) (Some (packet_bytes (Packet.Connect (mc_pkt test_connector)), [])) minute_service 0 =
       Ok (MqttShared_new sst' Codec_new 16, Session_new () (MqttShared_new sst' Codec_new 16), 60) \<and>
     connect_inner buffer_ops buffer_read test_connector (Inr (packet_bytes (Packet.ConnectAck True ConnectionAccepted), [])) =
       (Ok (Client_new (MqttShared_new cst' (connect_codec test_connector) 16) True 0 3000 16)
         :: (unit ClientError, (nat, bytes \<times> bytes) Client) outcome)"
proof -
  let ?sst = "(packet_bytes (Packet.Connect (mc_pkt test_connector)), [])"
  let ?cst = "(packet_bytes (Packet.ConnectAck True ConnectionAccepted), [])"
  define sh0 :: "(nat, bytes \<times> bytes) shared" where
    "sh0 = (handshake_start 0 ?sst)\<lparr>sh_state := snd (buffer_read (Codec_max_size Codec_new 0) ?sst)\<rparr>"
  define ack where "ack = HandshakeAck_idle_timeout 60 (Handshake_ack () True \<lparr>hs_pkt = mc_pkt test_connector, hs_shared = sh0\<rparr>)"
  have answer: "answer_connack ack = Packet.ConnectAck True ConnectionAccepted" "ha_shared ack = sh0" "ha_session ack = Some ()"
    "ha_keepalive ack = 60" "ha_session_present ack = True"
    by (simp_all add: ack_def answer_connack_def HandshakeAck_idle_timeout_def Handshake_ack_def)
  have service: "svc_call minute_service \<lparr>hs_pkt = mc_pkt test_connector, hs_shared = sh0\<rparr> = Ok ack"
    by (simp add: minute_service_def always_ready_def ack_def)
  have "sh_state sh0 = ([], [])"
    using buffer_read_packet [OF encodable_test_connector(1), of "Codec_max_size Codec_new 0" "[]"]
    by (simp add: sh0_def Codec_max_size_def Codec_new_def)
  moreover obtain st' r where "snd st' = snd (sh_state (ha_shared ack)) @ packet_bytes (answer_connack ack)"
    "handshake_finish buffer_ops ack = (r :: (unit MqttError, _) outcome, (ha_shared ack)\<lparr>sh_state := st'\<rparr>)"
    by (rule handshake_finish_sends [OF buffer_transport, where ack = ack and 'e = unit])
  ultimately have cinp: "fst ?cst = snd (sh_state (snd (handshake_finish buffer_ops ack :: (unit MqttError, _) outcome \<times> _)))"
    by (simp add: answer)
  have sinp: "fst ?sst = snd (snd (connect_start buffer_ops test_connector ?cst :: (unit ClientError, _) outcome \<times> _))"
    by (simp add: connect_start_sends [OF buffer_transport encodable_test_connector(1)])
  have limits: "mc_max_packet_size test_connector = 0 \<or> 2 \<le> mc_max_packet_size test_connector" "(0 :: u32) = 0 \<or> P" for P
    by (simp_all add: encodable_test_connector(2))
  have outs: "snd ?cst = []" "snd ?sst = []" and code: "ha_session ack = None \<longrightarrow> ha_return_code ack \<noteq> ConnectionAccepted"
    by (simp_all add: answer)
  have codec: "Codec_max_size Codec_new 0 = Codec_new"
    by (simp add: Codec_max_size_def Codec_new_def)
  have fields: "mc_max_send test_connector = 16" "keep_alive (mc_pkt test_connector) = 0"
    "mc_disconnect_timeout test_connector = 3000" "mc_max_receive test_connector = 16"
    by (simp_all add: test_connector_def MqttConnector_clean_session_def MqttConnector_client_id_def MqttConnector_new_def
        Connect_default_def)
  from v3_handshake_agreed [where 'c = unit and 'ctx = nat and new_state = "([], [])", OF buffer_transport buffer_transport
      encodable_test_connector(1) limits(2,1) outs(1) sinp outs(2) sh0_def service answer(2) code cinp]
  show ?thesis unfolding answer(3-5) codec fields Let_def option.case by blast
qed

section \<open>The default CONNECT\<close>

text \<open>The CONNECT of a connector that only has an address names no client and does not ask for a clean session: it is
  written, but a server of the crate does not read it, and the handshake ends with a decode error.\<close>

lemma default_connect_bytes:
  "packet_bytes (Packet.Connect (mc_pkt MqttConnector_new)) = [0x10, 12, 0, 4, 0x4D, 0x51, 0x54, 0x54, 4, 0, 0, 0, 0, 0]"
  by (simp add: packet_bytes_def MqttConnector_new_def Connect_default_def Codec_encode_def encode_connect_def steps.simps
      enc_seq_def put_def packet_type_defs write_variable_length_def Slice_encode_def ByteString_encode_def encode_opt_def
      connect_flags_def MQTT_def MQTT_LEVEL_3_def u16_be_def Let_def)

lemma v3_default_connect_refused:
  "fst (Codec_decode Codec_new (packet_bytes (Packet.Connect (mc_pkt MqttConnector_new)) @ rest)) = Err DecodeError.InvalidClientId"
proof -
  have "decode_variable_length (12 # xs) = Ok (Some (12, 1))" for xs
    using decode_variable_length_spec [of 12 xs] by (simp add: varlen_spec.simps)
  moreover have "decode_packet [0, 4, 0x4D, 0x51, 0x54, 0x54, 4, 0, 0, 0, 0, 0] 0x10 = Err DecodeError.InvalidClientId"
    by (simp add: decode_packet_def packet_type_defs decode_connect_packet_def get_u16_def be_u16_def get_u8_def MQTT_def
        MQTT_LEVEL_3_def advance_def flags_from_bits_def connect_flag_defs u16_decode_def ByteString_decode_def Bytes_decode_def
        split_to_def flags_contains_def)
  ultimately show ?thesis
    by (simp add: default_connect_bytes Codec_decode_def Codec_new_def frame_step_def decode_header_def decode_frame_def
        advance_def Let_def)
qed

end
