(* ===== verification/V5_Negotiation.thy ===== *)
theory V5_Negotiation
  imports V5_Client
begin

text \<open>
  The handshake between the crate's MQTT 5 client and server: what the CONNECT and CONNACK packets that they
  exchange make of the limits on both sides.
\<close>

text \<open>A connection of a client to a server: the application accepts the handshake with an acknowledgement \<open>ack\<close> for this connection,
  the server has sent its CONNACK and the client has received it. (That the packets arrive as they were
  sent is the round trip of the codec.)\<close>

definition negotiated_by ::
  "MqttServer \<Rightarrow> MqttConnector \<Rightarrow> ('io, Packet, Codec) hs_ops \<Rightarrow> ('tx, 'io, 'st) HandshakeAck \<Rightarrow>
   ('st, ('tx, 'io) shared) Session \<times> u16 \<times> ('tx, 'io) shared \<Rightarrow> ('tx2, 'io2) Client \<Rightarrow> bool" where
  "negotiated_by cfg mc ops ack server client \<longleftrightarrow>
    (\<exists>st hs st2 :: 'io2. case server of (session, timeout, sh) \<Rightarrow>
      handshake_connect cfg (Packet.Connect (mc_pkt mc)) (handshake_start cfg st) =
        (Inr hs :: unit MqttError + ('tx, 'io) Handshake) \<and>
      ha_shared ack = hs_shared hs \<and>
      handshake_finish ops (ms_max_qos cfg) (con_keep_alive (mc_pkt mc)) ack =
        (Ok (session, timeout) :: (unit MqttError, _) outcome, sh) \<and>
      connect_packet mc st2 (Inr (Some (Packet.ConnectAck
        (connack_packet (ms_max_qos cfg) (con_keep_alive (mc_pkt mc)) ack)))) = (Inr client :: unit ClientError + _))"

text \<open>The acknowledgement that \<^verbatim>\<open>Handshake::ack\<close> makes, with keep-alive timeout \<open>ka\<close>.\<close>

definition negotiated ::
  "MqttServer \<Rightarrow> MqttConnector \<Rightarrow> u16 \<Rightarrow> ('io, Packet, Codec) hs_ops \<Rightarrow>
   ('st, ('tx, 'io) shared) Session \<times> u16 \<times> ('tx, 'io) shared \<Rightarrow> ('tx2, 'io2) Client \<Rightarrow> bool" where
  "negotiated cfg mc ka ops server client \<longleftrightarrow>
    (\<exists>st hs ses ack st2 :: 'io2. case server of (session, timeout, sh) \<Rightarrow>
      handshake_connect cfg (Packet.Connect (mc_pkt mc)) (handshake_start cfg st) =
        (Inr hs :: unit MqttError + ('tx, 'io) Handshake) \<and>
      HandshakeAck_keep_alive ka (Handshake_ack ses hs) = (Ok ack :: (unit, _) outcome) \<and>
      handshake_finish ops (ms_max_qos cfg) (con_keep_alive (mc_pkt mc)) ack =
        (Ok (session, timeout) :: (unit MqttError, _) outcome, sh) \<and>
      connect_packet mc st2 (Inr (Some (Packet.ConnectAck
        (connack_packet (ms_max_qos cfg) (con_keep_alive (mc_pkt mc)) ack)))) = (Inr client :: unit ClientError + _))"

text \<open>The parts of a handshake that ends well.\<close>

lemma handshake_finish_Ok:
  assumes "handshake_finish ops q k ack = (Ok (session, t), sh)"
  obtains ses st where "t = ha_keepalive ack"
    "sh = (ha_shared ack)\<lparr>sh_codec := (case ca_max_packet_size (ha_packet ack) of
        Some n \<Rightarrow> Codec_set_max_inbound_size (sh_codec (ha_shared ack)) n | None \<Rightarrow> sh_codec (ha_shared ack)),
      sh_state := st\<rparr>"
    "session = Session_new_v5 ses sh (or_0 (ca_receive_max (ha_packet ack))) (ca_topic_alias_max (ha_packet ack))"
proof (cases "ha_session ack")
  case None
  with assms show ?thesis
    by (auto simp: handshake_finish_def Let_def split: if_splits prod.splits outcome.splits)
next
  case (Some ses)
  let ?sh = "(ha_shared ack)\<lparr>sh_codec := (case ca_max_packet_size (ha_packet ack) of
      Some n \<Rightarrow> Codec_set_max_inbound_size (sh_codec (ha_shared ack)) n | None \<Rightarrow> sh_codec (ha_shared ack))\<rparr>"
  obtain r st where r: "io_send ops (sh_codec ?sh) (Packet.ConnectAck (connack_packet q k ack))
      (io_set_buffer_params ops (ha_read_hw ack) (ha_write_hw ack) (ha_lw ack) (sh_state ?sh)) = (r, st)"
    by fastforce
  then show ?thesis
    using assms Some that [of st ses]
    by (cases r) (auto simp: handshake_finish_def Let_def or_0_def)
qed

lemma connect_packet_ack:
  assumes "connect_packet mc st (Inr (Some (Packet.ConnectAck pkt))) = Inr client"
  shows "client = Client_new ((MqttShared_new st (case ca_max_packet_size pkt of
      Some n \<Rightarrow> Codec_set_max_outbound_size (connect_codec mc) n | None \<Rightarrow> connect_codec mc) 0)
        \<lparr>cap := unat (or_0 (ca_receive_max pkt))\<rparr>) pkt (or_0 (con_receive_max (mc_pkt mc)))
      (case ca_server_keepalive_sec pkt of Some k \<Rightarrow> k | None \<Rightarrow> con_keep_alive (mc_pkt mc)) (mc_disconnect_timeout mc)"
  using assms by (auto simp: connect_packet_def Let_def MqttShared_new_def split: if_splits option.split)

lemma HandshakeAck_keep_alive_Ok:
  "HandshakeAck_keep_alive ka a = Ok ack \<longleftrightarrow> ka \<noteq> 0 \<and> ack = a\<lparr>ha_keepalive := ka\<rparr>"
  by (auto simp: HandshakeAck_keep_alive_def)

text \<open>The outcome, in the terms of the two configurations and the acknowledgement.\<close>

lemma negotiated_by_outcome:
  assumes "negotiated_by cfg mc ops ack (session, timeout, sh) client"
  shows "timeout = ha_keepalive ack"
    "max_in_size (sh_codec sh) = (case ca_max_packet_size (ha_packet ack) of Some n \<Rightarrow> n | None \<Rightarrow> ms_max_size cfg)"
    "max_out_size (sh_codec sh) = or_0 (con_max_packet_size (mc_pkt mc))"
    "cap sh = unat (case con_receive_max (mc_pkt mc) of Some v \<Rightarrow> v | None \<Rightarrow> 16)"
    "ses_sink session = sh" "ses_max_receive session = or_0 (ca_receive_max (ha_packet ack))"
    "ses_max_topic_alias session = ca_topic_alias_max (ha_packet ack)"
    "max_in_size (sh_codec (cl_shared client)) = or_0 (con_max_packet_size (mc_pkt mc))"
    "max_out_size (sh_codec (cl_shared client)) = or_0 (ca_max_packet_size (ha_packet ack))"
    "cap (cl_shared client) = unat (or_0 (ca_receive_max (ha_packet ack)))"
    "cl_max_receive client = unat (or_0 (con_receive_max (mc_pkt mc)))"
    "ca_topic_alias_max (cl_pkt client) = ca_topic_alias_max (ha_packet ack)"
    "cl_keepalive client = (case ca_server_keepalive_sec (ha_packet ack) of Some k \<Rightarrow> k
      | None \<Rightarrow> if con_keep_alive (mc_pkt mc) > ha_keepalive ack then ha_keepalive ack else con_keep_alive (mc_pkt mc))"
    "queues (cl_shared client) = \<lparr>inflight = Mapping.empty, inflight_order = [], waiters = []\<rparr>"
    "\<not> borrowed (cl_shared client)"
proof -
  from assms obtain st hs st2 where
    hs: "handshake_connect cfg (Packet.Connect (mc_pkt mc)) (handshake_start cfg st) = (Inr hs :: unit MqttError + _)" and
    ack: "ha_shared ack = hs_shared hs" and
    fin: "handshake_finish ops (ms_max_qos cfg) (con_keep_alive (mc_pkt mc)) ack =
        (Ok (session, timeout) :: (unit MqttError, _) outcome, sh)" and
    con: "connect_packet mc st2 (Inr (Some (Packet.ConnectAck
        (connack_packet (ms_max_qos cfg) (con_keep_alive (mc_pkt mc)) ack)))) = (Inr client :: unit ClientError + _)"
    by (auto simp: negotiated_by_def)
  have shared: "ha_shared ack = apply_connect (mc_pkt mc) (handshake_start cfg st)"
    using hs ack by (auto simp: handshake_connect_def)
  note client = connect_packet_ack [OF con]
  note evals = Client_new_def MqttShared_new_def connect_codec_def Codec_max_inbound_size_def Codec_new_def
    Codec_set_max_outbound_size_def Codec_set_max_inbound_size_def apply_connect_def handshake_start_def
    Session_new_v5_def or_0_def
  show "max_in_size (sh_codec (cl_shared client)) = or_0 (con_max_packet_size (mc_pkt mc))"
    "max_out_size (sh_codec (cl_shared client)) = or_0 (ca_max_packet_size (ha_packet ack))"
    "cap (cl_shared client) = unat (or_0 (ca_receive_max (ha_packet ack)))"
    "cl_max_receive client = unat (or_0 (con_receive_max (mc_pkt mc)))"
    "ca_topic_alias_max (cl_pkt client) = ca_topic_alias_max (ha_packet ack)"
    "cl_keepalive client = (case ca_server_keepalive_sec (ha_packet ack) of Some k \<Rightarrow> k
      | None \<Rightarrow> if con_keep_alive (mc_pkt mc) > ha_keepalive ack then ha_keepalive ack else con_keep_alive (mc_pkt mc))"
    "queues (cl_shared client) = \<lparr>inflight = Mapping.empty, inflight_order = [], waiters = []\<rparr>"
    "\<not> borrowed (cl_shared client)"
    unfolding client by (simp_all add: evals split: option.split)
  from fin obtain ses2 st3 where sh: "timeout = ha_keepalive ack"
    "sh = (ha_shared ack)\<lparr>sh_codec := (case ca_max_packet_size (ha_packet ack) of
        Some n \<Rightarrow> Codec_set_max_inbound_size (sh_codec (ha_shared ack)) n | None \<Rightarrow> sh_codec (ha_shared ack)),
      sh_state := st3\<rparr>"
    "session = Session_new_v5 ses2 sh (or_0 (ca_receive_max (ha_packet ack))) (ca_topic_alias_max (ha_packet ack))"
    by (rule handshake_finish_Ok)
  show "timeout = ha_keepalive ack" by (rule sh(1))
  show "ses_sink session = sh" "ses_max_receive session = or_0 (ca_receive_max (ha_packet ack))"
    "ses_max_topic_alias session = ca_topic_alias_max (ha_packet ack)"
    unfolding sh(3) by (simp_all add: evals)
  show "max_in_size (sh_codec sh) = (case ca_max_packet_size (ha_packet ack) of Some n \<Rightarrow> n | None \<Rightarrow> ms_max_size cfg)"
    "max_out_size (sh_codec sh) = or_0 (con_max_packet_size (mc_pkt mc))"
    "cap sh = unat (case con_receive_max (mc_pkt mc) of Some v \<Rightarrow> v | None \<Rightarrow> 16)"
    unfolding sh(2) shared by (simp_all add: evals split: option.split)
qed

lemma negotiated_acknowledged:
  assumes "negotiated cfg mc ka ops (session, timeout, sh) client"
  obtains ack where "negotiated_by cfg mc ops ack (session, timeout, sh) client" "ka \<noteq> 0" "ha_keepalive ack = ka"
    "ca_max_packet_size (ha_packet ack) = (if ms_max_size cfg \<noteq> 0 then Some (ms_max_size cfg) else None)"
    "ca_receive_max (ha_packet ack) = (if ms_max_receive cfg \<noteq> 0 then Some (ms_max_receive cfg) else None)"
    "ca_topic_alias_max (ha_packet ack) = ms_max_topic_alias cfg" "ca_server_keepalive_sec (ha_packet ack) = None"
proof -
  from assms obtain st hs ses ack st2 where
    hs: "handshake_connect cfg (Packet.Connect (mc_pkt mc)) (handshake_start cfg st) = (Inr hs :: unit MqttError + _)" and
    ack: "ka \<noteq> 0" "ack = (Handshake_ack ses hs)\<lparr>ha_keepalive := ka\<rparr>" and
    fin: "handshake_finish ops (ms_max_qos cfg) (con_keep_alive (mc_pkt mc)) ack =
        (Ok (session, timeout) :: (unit MqttError, _) outcome, sh)" and
    con: "connect_packet mc st2 (Inr (Some (Packet.ConnectAck
        (connack_packet (ms_max_qos cfg) (con_keep_alive (mc_pkt mc)) ack)))) = (Inr client :: unit ClientError + _)"
    by (auto simp: negotiated_def HandshakeAck_keep_alive_Ok)
  have "negotiated_by cfg mc ops ack (session, timeout, sh) client"
    using hs ack(2) fin con unfolding negotiated_by_def prod.case by (intro exI [of _ st] exI [of _ hs] exI [of _ st2]) simp
  moreover have "hs_max_size hs = ms_max_size cfg" "hs_max_receive hs = ms_max_receive cfg"
    "hs_max_topic_alias hs = ms_max_topic_alias cfg"
    using hs by (auto simp: handshake_connect_def)
  ultimately show ?thesis by (intro that [of ack]) (simp_all add: ack)
qed

lemmas negotiated_client_start = Client_start_def session_dispatcher_def Session_params_def
  V5_Dispatcher.Dispatcher_new_def V5_Client_Dispatcher.Dispatcher_new_def

text \<open>A transport on which every packet can be sent.\<close>

definition open_hs :: "(bool, Packet, Codec) hs_ops" where
  "open_hs = \<lparr>io_is_open = (\<lambda>s. s), io_close = (\<lambda>_. False), io_force_close = (\<lambda>_. False),
     io_encode = (\<lambda>enc pkt s. (Ok True, s)), io_send = (\<lambda>codec pkt s. (Ok (), s)),
     io_set_buffer_params = (\<lambda>_ _ _ s. s), io_write_shutdown = (\<lambda>_. False)\<rparr>"

lemma negotiated_exists:
  assumes "ka \<noteq> 0"
  shows "\<exists>(session :: (unit, (nat, bool) shared) Session) sh (client :: (nat, bool) Client).
    negotiated cfg mc ka open_hs (session, ka, sh) client \<and> sh_state (cl_shared client) = True"
proof -
  let ?hs = "\<lparr>hs_pkt = mc_pkt mc, hs_shared = apply_connect (mc_pkt mc) (handshake_start cfg True),
      hs_max_size = ms_max_size cfg, hs_max_receive = ms_max_receive cfg,
      hs_max_topic_alias = ms_max_topic_alias cfg\<rparr> :: (nat, bool) Handshake"
  let ?ack = "(Handshake_ack () ?hs)\<lparr>ha_keepalive := ka\<rparr>"
  obtain session sh where fin: "handshake_finish open_hs (ms_max_qos cfg) (con_keep_alive (mc_pkt mc)) ?ack =
      (Ok (session, ka) :: (unit MqttError, _) outcome, sh)"
    by (simp add: handshake_finish_def open_hs_def Let_def)
  obtain client :: "(nat, bool) Client" where
    cl: "connect_packet mc True (Inr (Some (Packet.ConnectAck
      (connack_packet (ms_max_qos cfg) (con_keep_alive (mc_pkt mc)) ?ack)))) = (Inr client :: unit ClientError + _)"
    and "sh_state (cl_shared client)"
    by (simp add: connect_packet_def Let_def Client_new_def MqttShared_new_def)
  have "handshake_connect cfg (Packet.Connect (mc_pkt mc)) (handshake_start cfg True) = (Inr ?hs :: unit MqttError + _)"
    "HandshakeAck_keep_alive ka (Handshake_ack () ?hs) = (Ok ?ack :: (unit, _) outcome)"
    using assms by (simp_all add: handshake_connect_def HandshakeAck_keep_alive_def)
  with fin cl \<open>sh_state (cl_shared client)\<close> show ?thesis
    unfolding negotiated_def prod.case by blast
qed

text \<open>C31: The two ends of a connection agree on their limits, whatever acknowledgement the application of the server accepts the
  handshake with. The server sends packets up to the size that the client accepts; the client sends packets up to the size that
  the server accepts if the acknowledgement announces a size, or the server has no limit. If it announces a Receive Maximum
  (one that is not 0), the client has at most so many publishes in flight and the server's dispatcher accepts exactly so many;
  the server has as many in flight as the client's dispatcher allows when the client sets a limit. The topic aliases
  that the server accepts are those that it announced. A client that keeps the connection alive pings within the server's timeout
  if the acknowledgement sets no server keep-alive of its own and its timeout is not 0.\<close>

theorem v5_limits_agree:
  assumes "negotiated_by cfg mc ops ack (session, timeout, sh) client"
  shows "max_out_size (sh_codec sh) = max_in_size (sh_codec (cl_shared client)) \<and>
    (ca_max_packet_size (ha_packet ack) \<noteq> None \<or> ms_max_size cfg = 0 \<longrightarrow>
      max_out_size (sh_codec (cl_shared client)) = max_in_size (sh_codec sh)) \<and>
    (\<forall>v. ca_receive_max (ha_packet ack) = Some v \<and> v \<noteq> 0 \<longrightarrow>
      cap (cl_shared client) = unat v \<and> max_receive (session_dispatcher session) = unat v) \<and>
    (cl_max_receive client \<noteq> 0 \<longrightarrow> cap sh = max_receive (snd (Client_start client))) \<and>
    max_topic_alias (session_dispatcher session) = ca_topic_alias_max (cl_pkt client) \<and>
    (con_keep_alive (mc_pkt mc) \<noteq> 0 \<and> ca_server_keepalive_sec (ha_packet ack) = None \<and> ha_keepalive ack \<noteq> 0 \<longrightarrow>
      (\<exists>k. fst (Client_start client) = Some k \<and> k \<le> timeout))"
  using negotiated_by_outcome [OF assms]
  by (auto simp: negotiated_client_start or_0_def word_neq_0_conv split: option.splits)

theorem v5_limits_agree_witness:
  "\<exists>ack (session :: (unit, (nat, bool) shared) Session) sh (client :: (nat, bool) Client).
     negotiated_by MqttServer_new MqttConnector_new open_hs ack (session, 30, sh) client \<and>
     cap (cl_shared client) = 15 \<and> max_receive (session_dispatcher session) = 15 \<and>
     max_out_size (sh_codec (cl_shared client)) = max_in_size (sh_codec sh)"
proof -
  from negotiated_exists [of 30 MqttServer_new MqttConnector_new]
  obtain session :: "(unit, (nat, bool) shared) Session" and sh and client :: "(nat, bool) Client" where
    "negotiated MqttServer_new MqttConnector_new 30 open_hs (session, 30, sh) client" by auto
  then obtain ack where ack: "negotiated_by MqttServer_new MqttConnector_new open_hs ack (session, 30, sh) client"
    "ca_receive_max (ha_packet ack) = Some 15"
    by (rule negotiated_acknowledged) (simp add: MqttServer_new_def)
  have "ms_max_size MqttServer_new = 0" by (simp add: MqttServer_new_def)
  with v5_limits_agree [OF ack(1)] ack show ?thesis
    by (intro exI [of _ ack] exI [of _ session] exI [of _ sh] exI [of _ client]) simp
qed

text \<open>A client whose keep-alive is 0, which is what the connector sends unless it is told otherwise, sends no
  pings and is not told of a server keep-alive, but the server still closes the connection after its own
  timeout without packets.\<close>

theorem v5_idle_client_timed_out:
  assumes "negotiated cfg mc ka ops (session, timeout, sh) client"
    and "con_keep_alive (mc_pkt mc) = 0"
  shows "fst (Client_start client) = None \<and> timeout \<noteq> 0"
proof -
  from assms(1) obtain ack where "negotiated_by cfg mc ops ack (session, timeout, sh) client" "ka \<noteq> 0" "ha_keepalive ack = ka"
    "ca_server_keepalive_sec (ha_packet ack) = None"
    by (rule negotiated_acknowledged)
  with negotiated_by_outcome(1,13) [OF this(1)] assms(2) show ?thesis by (simp add: negotiated_client_start)
qed

theorem v5_idle_client_timed_out_witness:
  "\<exists>(session :: (unit, (nat, bool) shared) Session) sh (client :: (nat, bool) Client).
     negotiated MqttServer_new MqttConnector_new 30 open_hs (session, 30, sh) client \<and> fst (Client_start client) = None"
proof -
  from negotiated_exists [of 30 MqttServer_new MqttConnector_new]
  obtain session :: "(unit, (nat, bool) shared) Session" and sh and client :: "(nat, bool) Client" where
    neg: "negotiated MqttServer_new MqttConnector_new 30 open_hs (session, 30, sh) client" by auto
  moreover have "con_keep_alive (mc_pkt MqttConnector_new) = 0"
    by (simp add: MqttConnector_new_def Connect_default_def)
  ultimately show ?thesis using v5_idle_client_timed_out [OF neg] by blast
qed

text \<open>C33: A server without a limit of publishes in flight (\<^verbatim>\<open>receive_max(0)\<close>) sends no receive maximum, which
  the client takes for 0: every QoS 1 publish of the client waits for credit, nothing is written, and no
  acknowledgement can ever wake it.\<close>

theorem v5_unlimited_server_blocks_client:
  assumes "negotiated cfg mc ka ops (session, timeout, sh) client"
    and "ms_max_receive cfg = 0" and "io_is_open ops2 (sh_state (cl_shared client))"
  shows "\<exists>sh'. send_at_least_once ops2 wtx tx pkt (cl_shared client) =
      (Ok (AwaitCredit wtx (pkt\<lparr>pub_qos := AtLeastOnce\<rparr>)), sh') \<and>
    sh_state sh' = sh_state (cl_shared client) \<and> (\<forall>alive ack. fst (pkt_ack alive ack sh') = Err PacketIdMismatch)"
proof -
  from assms(1) obtain ack where ack: "negotiated_by cfg mc ops ack (session, timeout, sh) client"
    "ca_receive_max (ha_packet ack) = (if ms_max_receive cfg \<noteq> 0 then Some (ms_max_receive cfg) else None)"
    by (rule negotiated_acknowledged)
  have cap: "cap (cl_shared client) = 0"
    using negotiated_by_outcome(10) [OF ack(1)] ack(2) assms(2) by (simp add: or_0_def)
  note new = negotiated_by_outcome(14,15) [OF ack(1)]
  let ?sh' = "(cl_shared client)\<lparr>queues := (queues (cl_shared client))\<lparr>waiters := [wtx]\<rparr>\<rparr>"
  have "send_at_least_once ops2 wtx tx pkt (cl_shared client) = (Ok (AwaitCredit wtx (pkt\<lparr>pub_qos := AtLeastOnce\<rparr>)), ?sh')"
    using assms(3) cap new
    by (simp add: send_at_least_once_def Let_def await_credit_def act_then_def has_credit_def push_waiter_def with_queues_def)
  moreover have "fst (pkt_ack alive ack ?sh') = Err PacketIdMismatch" for alive ack
  proof -
    have "queue_ok ?sh'" "flight ?sh' = []" using new by (simp_all add: queue_ok_def flight_def)
    from v5_pkt_ack_bad(1) [OF this(1), of ack alive] this(2) show ?thesis by simp
  qed
  ultimately show ?thesis by (intro exI conjI) (assumption, simp_all)
qed

theorem v5_unlimited_server_blocks_client_witness:
  "\<exists>(session :: (unit, (nat, bool) shared) Session) sh (client :: (nat, bool) Client) sh'.
     negotiated (MqttServer_receive_max 0 MqttServer_new) MqttConnector_new 30 open_hs (session, 30, sh) client \<and>
     send_at_least_once no_publish_io 1 2 (test_publish None [0x61] None) (cl_shared client) =
       (Ok (AwaitCredit 1 ((test_publish None [0x61] None)\<lparr>pub_qos := AtLeastOnce\<rparr>)), sh')"
proof -
  from negotiated_exists [of 30 "MqttServer_receive_max 0 MqttServer_new" MqttConnector_new]
  obtain session :: "(unit, (nat, bool) shared) Session" and sh and client :: "(nat, bool) Client" where
    neg: "negotiated (MqttServer_receive_max 0 MqttServer_new) MqttConnector_new 30 open_hs (session, 30, sh) client"
    and st: "sh_state (cl_shared client)" by auto
  have "ms_max_receive (MqttServer_receive_max 0 MqttServer_new) = 0"
    "io_is_open no_publish_io (sh_state (cl_shared client))"
    using st by (simp_all add: MqttServer_receive_max_def no_publish_io_def)
  from v5_unlimited_server_blocks_client [OF neg this, of 1 2 "test_publish None [0x61] None"] neg
  show ?thesis by blast
qed

end
