(* ===== verification/Version.thy ===== *)
theory Version
  imports VarLen V3_Codec
begin

text \<open>
  The version codec (\<^verbatim>\<open>src/version.rs\<close>): a server that speaks both protocol versions peeks at the
  CONNECT packet at the start of the connection and selects the 3.1.1 or the 5.0 server by the
  protocol level.  The codec consumes nothing, so the buffer is handed to the selected codec as it is.
\<close>

datatype ProtocolVersion = MQTT3 | MQTT5

text \<open>Slicing and indexing with the bounds checks of Rust.\<close>

definition slice :: "bytes \<Rightarrow> nat \<Rightarrow> nat \<Rightarrow> ('e, bytes) outcome" where
  "slice src i j = (if i \<le> j \<and> j \<le> length src then Ok (take (j - i) (drop i src)) else Panic)"

definition index :: "bytes \<Rightarrow> nat \<Rightarrow> ('e, u8) outcome" where
  "index src i = (if i < length src then Ok (src ! i) else Panic)"

definition u16_from_be_bytes :: "bytes \<Rightarrow> ('e, u16) outcome" where
  "u16_from_be_bytes bs = (case bs of [a, b] \<Rightarrow> Ok (be_u16 a b) | _ \<Rightarrow> Panic)"

definition VersionCodec_decode :: "bytes \<Rightarrow> (DecodeError, ProtocolVersion option) outcome" where
  "VersionCodec_decode src =
    (if length src < 2 then Ok None
     else and_then (index src 0) (\<lambda>fb.
       and_then (slice src 1 (length src)) (\<lambda>tail.
       and_then (decode_variable_length tail) (\<lambda>r. case r of
         Some (_, consumed0) \<Rightarrow>
           let consumed = consumed0 + 1 in
           if fb = CONNECT then
             if length src \<le> consumed + 6 then Ok None
             else and_then (and_then (slice src consumed (consumed + 2)) u16_from_be_bytes) (\<lambda>len.
               and_then (slice src (consumed + 2) (consumed + 6)) (\<lambda>name.
               ensure (len = 4 \<and> name = MQTT) DecodeError.InvalidProtocol
                 (and_then (index src (consumed + 6)) (\<lambda>level.
                   if level = MQTT_LEVEL_3 then Ok (Some MQTT3)
                   else if level = MQTT_LEVEL_5 then Ok (Some MQTT5)
                   else Err DecodeError.InvalidProtocol))))
           else Err DecodeError.UnsupportedPacketType
       | None \<Rightarrow> Ok None))))"

definition VersionCodec_encode :: "ProtocolVersion \<Rightarrow> EncodeError encoder" where
  "VersionCodec_encode v = enc_fail (Err EncodeError.UnsupportedVersion)"

section \<open>Lemmas\<close>

lemma slice_Ok: "\<lbrakk>i \<le> j; j \<le> length src\<rbrakk> \<Longrightarrow> slice src i j = Ok (take (j - i) (drop i src))"
  by (simp add: slice_def)

lemma index_Ok: "i < length src \<Longrightarrow> index src i = Ok (src ! i)"
  by (simp add: index_def)

lemma u16_from_slice:
  "i + 2 \<le> length src \<Longrightarrow>
   u16_from_be_bytes (take 2 (drop i src)) = Ok (be_u16 (src ! i) (src ! Suc i))"
proof -
  assume i: "i + 2 \<le> length src"
  then have "take 2 (drop i src) = [src ! i, src ! Suc i]"
    by (simp add: take_Suc_conv_app_nth numeral_2_eq_2)
  then show ?thesis by (simp add: u16_from_be_bytes_def)
qed

text \<open>The answer as a function of the decoded length and the bytes after it.\<close>

lemma version_decode_unfold:
  assumes "decode_variable_length src = Ok (Some (v, n))"
  shows "VersionCodec_decode (fb # src) =
    (if fb \<noteq> CONNECT then Err DecodeError.UnsupportedPacketType
     else if length src < n + 7 then Ok None
     else ensure (be_u16 (src ! n) (src ! Suc n) = 4 \<and> take 4 (drop (n + 2) src) = MQTT)
       DecodeError.InvalidProtocol
       (let level = src ! (n + 6) in
        if level = MQTT_LEVEL_3 then Ok (Some MQTT3)
        else if level = MQTT_LEVEL_5 then Ok (Some MQTT5)
        else Err DecodeError.InvalidProtocol))"
proof -
  have pos: "0 < length src"
    using decode_variable_length_extend(2, 3) [OF assms] by auto
  have tail: "slice (fb # src) 1 (length (fb # src)) = Ok src"
    and first: "index (fb # src) 0 = Ok fb"
    using pos by (simp_all add: slice_Ok index_Ok)
  have len: "and_then (slice (fb # src) (n + 1) (n + 1 + 2)) u16_from_be_bytes =
      Ok (be_u16 (src ! n) (src ! Suc n))"
    and name: "slice (fb # src) (n + 1 + 2) (n + 1 + 6) = Ok (take 4 (drop (n + 2) src))"
    and level: "index (fb # src) (n + 1 + 6) = Ok (src ! (n + 6))"
    if "\<not> length (fb # src) \<le> n + 1 + 6"
    using that u16_from_slice [of "n + 1" "fb # src"] by (simp_all add: slice_Ok index_Ok add.commute)
  have two: "(length (fb # src) < 2) = False" using pos by (simp add: Suc_le_eq)
  have unfold: "VersionCodec_decode (fb # src) =
      (if fb = CONNECT then
         if length (fb # src) \<le> n + 1 + 6 then Ok None
         else and_then (and_then (slice (fb # src) (n + 1) (n + 1 + 2)) u16_from_be_bytes) (\<lambda>len.
           and_then (slice (fb # src) (n + 1 + 2) (n + 1 + 6)) (\<lambda>name.
           ensure (len = 4 \<and> name = MQTT) DecodeError.InvalidProtocol
             (and_then (index (fb # src) (n + 1 + 6)) (\<lambda>level.
               if level = MQTT_LEVEL_3 then Ok (Some MQTT3)
               else if level = MQTT_LEVEL_5 then Ok (Some MQTT5)
               else Err DecodeError.InvalidProtocol))))
       else Err DecodeError.UnsupportedPacketType)"
    by (simp only: VersionCodec_decode_def two tail first assms and_then_simps option.case
        prod.case Let_def if_False)
  show ?thesis
  proof (cases "length (fb # src) \<le> n + 1 + 6")
    case True
    then show ?thesis by (simp add: unfold)
  next
    case False
    then show ?thesis
      by (simp only: unfold len [OF False] name [OF False] level [OF False] and_then_simps Let_def)
        auto
  qed
qed

lemma version_decode_None:
  "\<lbrakk>decode_variable_length src = Ok None; src \<noteq> []\<rbrakk> \<Longrightarrow> VersionCodec_decode (fb # src) = Ok None"
  by (cases src) (auto simp: VersionCodec_decode_def slice_Ok index_Ok)

lemma version_decode_Err:
  "\<lbrakk>decode_variable_length src = Err e; src \<noteq> []\<rbrakk> \<Longrightarrow> VersionCodec_decode (fb # src) = Err e"
  by (cases src) (auto simp: VersionCodec_decode_def slice_Ok index_Ok)

lemma version_decode_short: "length src < 2 \<Longrightarrow> VersionCodec_decode src = Ok None"
  by (simp add: VersionCodec_decode_def)

lemma version_decode_cases:
  obtains (short) "length src < 2"
    | (none) fb tail where "src = fb # tail" "tail \<noteq> []" "decode_variable_length tail = Ok None"
    | (err) fb tail e where "src = fb # tail" "tail \<noteq> []" "decode_variable_length tail = Err e"
    | (some) fb tail v n where "src = fb # tail" "tail \<noteq> []"
        "decode_variable_length tail = Ok (Some (v, n))"
proof (cases "length src < 2")
  case False
  then obtain fb tail where src: "src = fb # tail" "tail \<noteq> []"
    by (cases src) auto
  have "returns (decode_variable_length tail)" by (rule returns_intro)
  then show ?thesis using that src
    by (cases "decode_variable_length tail"; cases "ok_val (decode_variable_length tail)")
      (auto simp: returns_def)
qed (rule short)

lemma version_decode_connect:
  assumes "n \<le> 268435455"
  shows "VersionCodec_decode
      (CONNECT # varlen_spec n @ Bytes_image MQTT @ [level] @ rest) =
    (if level = MQTT_LEVEL_3 then Ok (Some MQTT3)
     else if level = MQTT_LEVEL_5 then Ok (Some MQTT5)
     else Err DecodeError.InvalidProtocol)"
proof -
  have "Bytes_image MQTT = [0, 4, 0x4D, 0x51, 0x54, 0x54]"
    by (simp add: Bytes_image_def MQTT_def u16_be_def)
  moreover have "be_u16 0 4 = 4" by (simp add: be_u16_def)
  ultimately show ?thesis
    using decode_variable_length_spec [OF assms, of "Bytes_image MQTT @ [level] @ rest"]
    by (simp add: version_decode_unfold nth_append MQTT_def Let_def)
qed

section \<open>Properties\<close>

text \<open>The version codec selects the 3.1.1 server for every CONNECT packet that the 3.1.1 codec
  writes, as soon as the packet is there and whatever follows it.\<close>

theorem version_selects_v3:
  assumes "encodable (Connect c)"
  shows "VersionCodec_decode (snd (Codec_encode enc (Connect c) []) @ rest) = Ok (Some MQTT3)"
proof -
  have "length (content (Connect c)) \<le> 268435455"
    using assms length_content [of "Connect c"] by (simp add: encodable_def)
  from version_decode_connect [OF this, of MQTT_LEVEL_3] show ?thesis
    by (simp add: Codec_encode_ok [OF assms] frame_bytes_def del: length_append)
qed

definition example_connect :: Connect where
  "example_connect = \<lparr>clean_session = True, keep_alive = 60, last_will = None,
     client_id = [0x64, 0x31], username = None, password = Some [1, 2, 3]\<rparr>"

theorem version_selects_v3_witness:
  "VersionCodec_decode (snd (Codec_encode Codec_new (Connect example_connect) []) @ [0xC0, 0]) =
   Ok (Some MQTT3)"
  by (rule version_selects_v3)
    (simp add: encodable_def example_connect_def valid_Connect_def valid_ByteString_def valid_Bytes_def)

text \<open>The version codec neither panics nor reads out of bounds on any bytes, and an answer other
  than "not enough data" does not change when more bytes arrive.\<close>

theorem version_decode_stable:
  "returns (VersionCodec_decode src) \<and>
   (VersionCodec_decode src = Ok None \<or> VersionCodec_decode (src @ extra) = VersionCodec_decode src)"
proof (cases src rule: version_decode_cases)
  case short
  then show ?thesis by (simp add: version_decode_short)
next
  case none
  then show ?thesis by (simp add: version_decode_None)
next
  case (err fb tail e)
  then show ?thesis
    using decode_variable_length_extend_Err(2) [OF err(3), of extra]
    by (simp add: version_decode_Err)
next
  case (some fb tail v n)
  have "length tail \<ge> n" "decode_variable_length (tail @ extra) = Ok (Some (v, n))"
    using decode_variable_length_extend(1, 2) [OF some(3)] by simp_all
  then show ?thesis
    using some by (auto simp: version_decode_unfold Let_def nth_append ensure_def)
qed

end
