(* ===== verification/Server.thy ===== *)
theory Server
  imports Version V5_Codec Service
begin

text \<open>
  The server for both protocol versions (\<^verbatim>\<open>server.rs\<close>). The two protocol servers are parameters here: their calls
  give futures, which are polled. The transport's \<^verbatim>\<open>poll_next\<close> with the version codec is a parameter as well.
\<close>

section \<open>Configuration\<close>

text \<open>A protocol server is the default one, which refuses every connection, or one that was configured.\<close>

datatype 'srv protocol_server = DefaultProtocolServer ProtocolVersion | Configured 'srv

record 'srv MqttServer =
  sv_v3 :: "'srv protocol_server"
  sv_v5 :: "'srv protocol_server"
  sv_handshake_timeout :: nat

definition MqttServer_new :: "'srv MqttServer" where
  "MqttServer_new =
    \<lparr>sv_v3 = DefaultProtocolServer MQTT3, sv_v5 = DefaultProtocolServer MQTT5, sv_handshake_timeout = 0\<rparr>"

definition MqttServer_handshake_timeout :: "nat \<Rightarrow> 'srv MqttServer \<Rightarrow> 'srv MqttServer" where
  "MqttServer_handshake_timeout timeout sv = sv\<lparr>sv_handshake_timeout := timeout\<rparr>"

definition MqttServer_v3 :: "'srv \<Rightarrow> 'srv MqttServer \<Rightarrow> 'srv MqttServer" where
  "MqttServer_v3 service sv = sv\<lparr>sv_v3 := Configured service\<rparr>"

definition MqttServer_v5 :: "'srv \<Rightarrow> 'srv MqttServer \<Rightarrow> 'srv MqttServer" where
  "MqttServer_v5 service sv = sv\<lparr>sv_v5 := Configured service\<rparr>"

text \<open>A version can also be served by the variants of a selector.\<close>

datatype ('fac, 'variant) protocol_factory = Finished 'fac | Variants "'variant Selector2"

definition MqttServer_v3_variants ::
  "'variant Selector \<Rightarrow> ('fac, 'variant) protocol_factory MqttServer \<Rightarrow> ('fac, 'variant) protocol_factory MqttServer" where
  "MqttServer_v3_variants service sv = sv\<lparr>sv_v3 := Configured (Variants (Selector_finish_server service))\<rparr>"

definition MqttServer_v5_variants ::
  "'variant Selector \<Rightarrow> ('fac, 'variant) protocol_factory MqttServer \<Rightarrow> ('fac, 'variant) protocol_factory MqttServer" where
  "MqttServer_v5_variants service sv = sv\<lparr>sv_v5 := Configured (Variants (Selector_finish_server service))\<rparr>"

section \<open>Creating the server\<close>

text \<open>The services of both versions are created together; the error of the first one comes first. The default server is
  its own service.\<close>

definition protocol_new_service :: "('fac \<Rightarrow> 'init + 'srv) \<Rightarrow> 'fac protocol_server \<Rightarrow> 'init + 'srv protocol_server" where
  "protocol_new_service create srv =
    (case srv of
       DefaultProtocolServer ver \<Rightarrow> Inr (DefaultProtocolServer ver)
     | Configured fac \<Rightarrow> map_sum id Configured (create fac))"

definition MqttServer_new_service :: "('fac \<Rightarrow> 'init + 'srv) \<Rightarrow> 'fac MqttServer \<Rightarrow> 'init + 'srv MqttServer" where
  "MqttServer_new_service create sv =
    (case (protocol_new_service create (sv_v3 sv), protocol_new_service create (sv_v5 sv)) of
       (Inl e, _) \<Rightarrow> Inl e
     | (Inr v3, Inl e) \<Rightarrow> Inl e
     | (Inr v3, Inr v5) \<Rightarrow>
         Inr \<lparr>sv_v3 = v3, sv_v5 = v5, sv_handshake_timeout = sv_handshake_timeout sv\<rparr>)"

definition protocol_poll_ready :: "('srv \<Rightarrow> ('e + unit) option) \<Rightarrow> 'srv protocol_server \<Rightarrow> ('e + unit) option" where
  "protocol_poll_ready poll srv = (case srv of DefaultProtocolServer _ \<Rightarrow> Some (Inr ()) | Configured s \<Rightarrow> poll s)"

lemma MqttServer_new_service_default:
  "MqttServer_new_service create MqttServer_new = Inr MqttServer_new"
  by (simp add: MqttServer_new_service_def protocol_new_service_def MqttServer_new_def)

lemma MqttServer_new_service_v3:
  "MqttServer_new_service create (MqttServer_v3 fac MqttServer_new) =
    map_sum id (\<lambda>srv. MqttServer_v3 srv MqttServer_new) (create fac)"
  by (cases "create fac")
     (simp_all add: MqttServer_new_service_def protocol_new_service_def MqttServer_new_def MqttServer_v3_def)

section \<open>A connection\<close>

text \<open>The environment of a connection: reading the protocol version, the futures of the configured servers and
  their polls, and \<^verbatim>\<open>io::Error::new\<close> of kind \<^verbatim>\<open>Other\<close>.\<close>

record ('io, 'srv, 'fut, 'e) server_env =
  se_next :: "'io \<Rightarrow> ((DecodeError + io_error) + ProtocolVersion option) option \<times> 'io"
  se_call :: "'srv \<Rightarrow> 'io \<Rightarrow> nat option \<Rightarrow> 'fut"
  se_poll :: "'fut \<Rightarrow> ('e MqttError + unit) option \<times> 'fut"
  se_io_other :: "string \<Rightarrow> io_error"

text \<open>The future of a protocol server: that of a configured server, or the error of the default server.\<close>

datatype ('fut, 'e) server_future = Running 'fut | ReadyErr "'e MqttError"

fun version_name :: "ProtocolVersion \<Rightarrow> string" where
  "version_name MQTT3 = ''MQTT3''"
| "version_name MQTT5 = ''MQTT5''"

definition DefaultProtocolServer_call :: "(string \<Rightarrow> io_error) \<Rightarrow> ProtocolVersion \<Rightarrow> 'e MqttError" where
  "DefaultProtocolServer_call io_other ver =
    Protocol (ProtocolError.Io (io_other (''Protocol is not supported: '' @ version_name ver)))"

definition server_call ::
  "('io, 'srv, 'fut, 'e) server_env \<Rightarrow> 'srv protocol_server \<Rightarrow> 'io \<Rightarrow> nat option \<Rightarrow> ('fut, 'e) server_future" where
  "server_call env srv io delay =
    (case srv of
       DefaultProtocolServer ver \<Rightarrow> ReadyErr (DefaultProtocolServer_call (se_io_other env) ver)
     | Configured s \<Rightarrow> Running (se_call env s io delay))"

definition future_poll ::
  "('io, 'srv, 'fut, 'e) server_env \<Rightarrow> ('fut, 'e) server_future \<Rightarrow> ('e MqttError + unit) option \<times> ('fut, 'e) server_future" where
  "future_poll env fut =
    (case fut of
       ReadyErr e \<Rightarrow> (Some (Inl e), fut)
     | Running f \<Rightarrow> (case se_poll env f of (res, f) \<Rightarrow> (res, Running f)))"

definition MqttServerImpl_poll_ready ::
  "('e + unit) option \<Rightarrow> ('e + unit) option \<Rightarrow> ('e + unit) option" where
  "MqttServerImpl_poll_ready v3 v5 = both_ready v3 v5"

definition MqttServerImpl_poll_shutdown :: "bool \<Rightarrow> bool \<Rightarrow> bool" where
  "MqttServerImpl_poll_shutdown v3 v5 = (v3 \<and> v5)"

text \<open>The state of the response: the version is not known yet, or a protocol server has the connection. The item
  is taken out when the version is known.\<close>

datatype ('io, 'fut, 'e) MqttServerImplState =
    V3 "('fut, 'e) server_future"
  | V5 "('fut, 'e) server_future"
  | Version "('io \<times> nat option) option"

definition MqttServerImpl_call :: "'srv MqttServer \<Rightarrow> nat \<Rightarrow> 'io \<Rightarrow> ('io, 'fut, 'e) MqttServerImplState" where
  "MqttServerImpl_call sv now io = Version (Some (io, handshake_delay now (sv_handshake_timeout sv)))"

definition expired :: "nat \<Rightarrow> nat option \<Rightarrow> bool" where
  "expired now delay = (case delay of Some deadline \<Rightarrow> deadline \<le> now | None \<Rightarrow> False)"

text \<open>One poll.  Once the version is known the loop goes round again and polls the new future.\<close>

definition MqttServerImplResponse_poll ::
  "('io, 'srv, 'fut, 'e) server_env \<Rightarrow> 'srv MqttServer \<Rightarrow> nat \<Rightarrow>
   (('io, 'fut, 'e) MqttServerImplState, 'err, ('e MqttError + unit) option) action" where
  "MqttServerImplResponse_poll env sv now st =
    (case st of
       V3 fut \<Rightarrow> (case future_poll env fut of (res, fut) \<Rightarrow> (Ok res, V3 fut))
     | V5 fut \<Rightarrow> (case future_poll env fut of (res, fut) \<Rightarrow> (Ok res, V5 fut))
     | Version None \<Rightarrow> (Panic, st)
     | Version (Some (io, delay)) \<Rightarrow>
         if expired now delay then (Ok (Some (Inl HandshakeTimeout)), st)
         else (case se_next env io of
             (Some (Inr (Some MQTT3)), io) \<Rightarrow>
               (case future_poll env (server_call env (sv_v3 sv) io delay) of (res, fut) \<Rightarrow> (Ok res, V3 fut))
           | (Some (Inr (Some MQTT5)), io) \<Rightarrow>
               (case future_poll env (server_call env (sv_v5 sv) io delay) of (res, fut) \<Rightarrow> (Ok res, V5 fut))
           | (Some (Inr None), io) \<Rightarrow> (Ok (Some (Inl MqttError.Disconnected)), Version (Some (io, delay)))
           | (Some (Inl err), io) \<Rightarrow> (Ok (Some (Inl (MqttError_from_decode err))), Version (Some (io, delay)))
           | (None, io) \<Rightarrow> (Ok None, Version (Some (io, delay)))))"

section \<open>The version of a connection\<close>

text \<open>A transport with the bytes that have been read so far: \<^verbatim>\<open>poll_next\<close> decodes them with the version codec, which
  takes nothing out of the buffer.\<close>

definition buffered_next :: "bytes \<Rightarrow> ((DecodeError + io_error) + ProtocolVersion option) option \<times> bytes" where
  "buffered_next buf =
    (case VersionCodec_decode buf of
       Ok (Some ver) \<Rightarrow> Some (Inr (Some ver))
     | Ok None \<Rightarrow> None
     | Err e \<Rightarrow> Some (Inl (Inl e))
     | _ \<Rightarrow> None, buf)"

text \<open>Bytes arrive and the response is polled, until it leaves the state \<open>Version\<close> or ends; the result has the
  reads that are left.\<close>

definition arrive :: "bytes \<Rightarrow> (bytes, 'fut, 'e) MqttServerImplState \<Rightarrow> (bytes, 'fut, 'e) MqttServerImplState" where
  "arrive bs st = (case st of Version (Some (buf, delay)) \<Rightarrow> Version (Some (buf @ bs, delay)) | _ \<Rightarrow> st)"

fun read_version ::
  "(bytes, 'srv, 'fut, 'e) server_env \<Rightarrow> 'srv MqttServer \<Rightarrow> (nat \<times> bytes) list \<Rightarrow> (bytes, 'fut, 'e) MqttServerImplState \<Rightarrow>
   (unit, ('e MqttError + unit) option) outcome \<times> (bytes, 'fut, 'e) MqttServerImplState \<times> (nat \<times> bytes) list" where
  "read_version env sv [] st = (Ok None, st, [])"
| "read_version env sv ((now, bs) # reads) st =
    (case MqttServerImplResponse_poll env sv now (arrive bs st) of
       (Ok None, Version x) \<Rightarrow> read_version env sv reads (Version x)
     | (res, st) \<Rightarrow> (res, st, reads))"

lemma VersionCodec_prefix:
  assumes "VersionCodec_decode (buf @ extra) = Ok (Some ver)"
  shows "VersionCodec_decode buf = Ok None \<or> VersionCodec_decode buf = Ok (Some ver)"
  using version_decode_stable [of buf extra] assms by auto

text \<open>The poll that finds the version.\<close>

definition started ::
  "(bytes, 'srv, 'fut, 'e) server_env \<Rightarrow> 'srv MqttServer \<Rightarrow> ProtocolVersion \<Rightarrow> bytes \<Rightarrow> nat option \<Rightarrow>
   ('e MqttError + unit) option \<times> (bytes, 'fut, 'e) MqttServerImplState" where
  "started env sv ver buf delay =
    (case ver of
       MQTT3 \<Rightarrow> map_prod id V3 (future_poll env (server_call env (sv_v3 sv) buf delay))
     | MQTT5 \<Rightarrow> map_prod id V5 (future_poll env (server_call env (sv_v5 sv) buf delay)))"

lemma poll_version:
  assumes "se_next env = buffered_next" "\<not> expired now delay"
  shows "VersionCodec_decode buf = Ok None \<Longrightarrow>
      MqttServerImplResponse_poll env sv now (Version (Some (buf, delay))) =
        (Ok None :: (unit, _) outcome, Version (Some (buf, delay)))"
    and "VersionCodec_decode buf = Ok (Some ver) \<Longrightarrow>
      MqttServerImplResponse_poll env sv now (Version (Some (buf, delay))) =
        map_prod (Ok :: _ \<Rightarrow> (unit, _) outcome) id (started env sv ver buf delay)"
  using assms
  by (auto simp: MqttServerImplResponse_poll_def buffered_next_def started_def
      split: prod.split ProtocolVersion.split)

lemma read_version_started:
  assumes env: "se_next env = buffered_next"
    and "\<forall>(now, bs) \<in> set reads. \<not> expired now delay"
    and "VersionCodec_decode (buf @ concat (map snd reads)) = Ok (Some ver)"
    and "VersionCodec_decode buf = Ok None"
  shows "\<exists>bs reads' res st. concat (map snd reads) = bs @ concat (map snd reads') \<and>
    started env sv ver (buf @ bs) delay = (res, st) \<and>
    read_version env sv reads (Version (Some (buf, delay))) = (Ok res, st, reads')"
  using assms(2-)
proof (induction reads arbitrary: buf)
  case Nil
  then show ?case by simp
next
  case (Cons rd reads)
  obtain now bs where rd: "rd = (now, bs)" by (cases rd)
  from Cons.prems(1) rd have now: "\<not> expired now delay" and rest: "\<forall>(now, bs) \<in> set reads. \<not> expired now delay"
    by auto
  have full: "VersionCodec_decode ((buf @ bs) @ concat (map snd reads)) = Ok (Some ver)"
    using Cons.prems(2) rd by simp
  from VersionCodec_prefix [OF full] show ?case
  proof
    assume none: "VersionCodec_decode (buf @ bs) = Ok None"
    from Cons.IH [OF rest full none] obtain bs' reads' res st where
      "concat (map snd reads) = bs' @ concat (map snd reads')" "started env sv ver ((buf @ bs) @ bs') delay = (res, st)"
      "read_version env sv reads (Version (Some (buf @ bs, delay))) = (Ok res, st, reads')" by blast
    with rd poll_version(1) [OF env now none] show ?thesis
      by (intro exI [of _ "bs @ bs'"] exI [of _ reads'] exI [of _ res] exI [of _ st]) (simp add: arrive_def)
  next
    assume some: "VersionCodec_decode (buf @ bs) = Ok (Some ver)"
    obtain res st where st: "started env sv ver (buf @ bs) delay = (res, st)" by fastforce
    then have "\<forall>x. st \<noteq> Version x" by (cases ver) (auto simp: started_def map_prod_def split: prod.splits)
    with rd st poll_version(2) [OF env now some] show ?thesis
      by (intro exI [of _ bs] exI [of _ reads] exI [of _ res] exI [of _ st])
         (simp add: arrive_def split: MqttServerImplState.split option.split)
  qed
qed

lemma fit_Connect [simp]:
  "V5_Codec.fit_packet limit (V5_Codec.Connect c) = V5_Codec.Connect c"
  "V5_Codec.strip_problem_info (V5_Codec.Connect c) = V5_Codec.Connect c"
  "V5_Codec.sent_packet enc (V5_Codec.Connect c) = V5_Codec.Connect c"
  by (simp_all add: V5_Codec.strip_problem_info_def V5_Codec.sent_packet_def)

text \<open>The version codec selects MQTT 5 for every CONNECT packet that the MQTT 5 codec writes.\<close>

lemma version_selects_v5:
  assumes "V5_Codec.can_send enc (V5_Codec.Connect c)"
  shows "VersionCodec_decode (snd (V5_Codec.Codec_encode enc (V5_Codec.Connect c) []) @ rest) =
    Ok (Some MQTT5)"
proof -
  have "length (Connect_image c) \<le> 268435455"
    using assms by (simp add: V5_Codec.can_send_def)
  from version_decode_connect [OF this, of MQTT_LEVEL_5] show ?thesis
    by (simp add: V5_Codec.Codec_encode5_ok [OF assms] frame_bytes_def Connect_image_def
        MQTT_LEVEL_3_def MQTT_LEVEL_5_def del: length_append)
qed

text \<open>C22: However the first bytes of a connection are cut into reads, the server that the client's packet was
  written for gets the connection: if the bytes start with a CONNECT that the codec of MQTT 3.1.1 (or 5) writes,
  and the handshake timeout does not pass, the polls before the version is known are pending, then the
  3.1.1 (or 5) server is called once, with every byte that was read so far still in the buffer, so that its
  codec can decode the CONNECT. A server that is not configured gives the error of the default server.\<close>

theorem server_starts_version:
  fixes sv :: "'srv MqttServer" and env :: "(bytes, 'srv, 'fut, 'e) server_env"
  assumes "ver = MQTT3 \<and> V3_Encode.encodable (V3_Packet.Connect con_a) \<and>
        packet = snd (V3_Codec.Codec_encode enc_a (V3_Packet.Connect con_a) []) \<or>
      ver = MQTT5 \<and> V5_Codec.can_send enc_b (V5_Codec.Connect con_b) \<and>
        packet = snd (V5_Codec.Codec_encode enc_b (V5_Codec.Connect con_b) [])"
    and "concat (map snd reads) = packet @ rest"
    and "se_next env = buffered_next"
    and "\<forall>(now, bs) \<in> set reads. \<not> expired now (handshake_delay begun (sv_handshake_timeout sv))"
  shows "\<exists>buf reads' res st. packet @ rest = buf @ concat (map snd reads') \<and>
    started env sv ver buf (handshake_delay begun (sv_handshake_timeout sv)) = (res, st) \<and>
    read_version env sv reads (MqttServerImpl_call sv begun []) = (Ok res, st, reads')"
proof -
  have "VersionCodec_decode (packet @ rest) = Ok (Some ver)"
    using assms(1) version_selects_v3 version_selects_v5 by blast
  with assms(2) have "VersionCodec_decode ([] @ concat (map snd reads)) = Ok (Some ver)" by simp
  from read_version_started [OF assms(3,4) this] assms(2) show ?thesis
    by (simp add: MqttServerImpl_call_def version_decode_short)
qed

text \<open>A server for MQTT 5 only, whose connections never end.\<close>

definition demo_env :: "(bytes, unit, bytes, unit) server_env" where
  "demo_env = \<lparr>se_next = buffered_next, se_call = (\<lambda>_ buf _. buf), se_poll = (\<lambda>f. (None, f)), se_io_other = (\<lambda>_. undefined)\<rparr>"

definition demo_server :: "unit MqttServer" where
  "demo_server = MqttServer_v5 () (MqttServer_handshake_timeout 10 MqttServer_new)"

definition demo_packet :: bytes where
  "demo_packet = snd (V5_Codec.Codec_encode V5_Codec.Codec_new (V5_Codec.Connect example_connect5) [])"

theorem server_starts_version_witness:
  "\<exists>buf reads' res st. demo_packet @ [0xE0] = buf @ concat (map snd reads') \<and>
    started demo_env demo_server MQTT5 buf (Some 15) = (res, st) \<and>
    read_version demo_env demo_server [(6, take 1 demo_packet), (7, drop 1 demo_packet), (8, [0xE0])]
      (MqttServerImpl_call demo_server 5 []) = (Ok res, st, reads')"
proof -
  have timeout: "handshake_delay 5 (sv_handshake_timeout demo_server) = Some 15"
    by (simp add: demo_server_def MqttServer_v5_def MqttServer_handshake_timeout_def handshake_delay_def)
  have "V5_Codec.can_send V5_Codec.Codec_new (V5_Codec.Connect example_connect5)"
    by (simp add: V5_Codec.can_send_def V5_Codec.Codec_new_fields example_connect5_facts)
  moreover have "concat (map snd [(6, take 1 demo_packet), (7, drop 1 demo_packet), (8, [0xE0])]) = demo_packet @ [0xE0]"
    by simp
  moreover have "se_next demo_env = buffered_next" by (simp add: demo_env_def)
  moreover have "\<forall>(now, bs) \<in> set [(6, take 1 demo_packet), (7, drop 1 demo_packet), (8, [0xE0])].
      \<not> expired now (handshake_delay 5 (sv_handshake_timeout demo_server))"
    unfolding timeout by (simp add: expired_def)
  ultimately show ?thesis
    using server_starts_version [where ver = MQTT5 and packet = demo_packet and sv = demo_server and env = demo_env
        and reads = "[(6, take 1 demo_packet), (7, drop 1 demo_packet), (8, [0xE0])]" and rest = "[0xE0]" and begun = 5
        and enc_b = V5_Codec.Codec_new and con_b = example_connect5]
    unfolding timeout demo_packet_def by blast
qed

end
