(* ===== verification/V5_Service.thy ===== *)
theory V5_Service
  imports V5_Handshake
begin

text \<open>
  The MQTT 5 server as a factory of services: the builder with the application's services, the handler of a
  session and the three ways to finish a server in \<^verbatim>\<open>v5/server.rs\<close> (alone, behind the server for both versions, as
  a variant of a selector), and the default services of \<^verbatim>\<open>v5/default.rs\<close>. \<open>read\<close> is \<^verbatim>\<open>State::next\<close>, which reads a packet,
  \<open>new_state\<close> a fresh \<^verbatim>\<open>State\<close>.
\<close>

section \<open>The builder\<close>

type_synonym ('tx, 'io, 'st) session = "('st, ('tx, 'io) shared) Session"

type_synonym ('tx, 'io, 'st) established = "('tx, 'io) shared \<times> ('tx, 'io, 'st) session \<times> u16"

type_synonym 'io reader = "Codec \<Rightarrow> 'io \<Rightarrow> ((DecodeError + io_error) + Packet option) \<times> 'io"

record ('tx, 'io, 'st, 'init, 'pe, 'pi, 'ce, 'ci, 'e) server =
  srv_cfg :: MqttServer
  srv_handshake :: "(unit, 'init, (('tx, 'io) Handshake, ('tx, 'io, 'st) HandshakeAck, 'e) service) factory"
  srv_publish :: "(('tx, 'io, 'st) session, 'pi, (Publish, PublishAck, 'pe) service) factory"
  srv_control :: "(('tx, 'io, 'st) session, 'ci, ('e ControlMessage, ControlResult, 'ce) service) factory"

definition DefaultPublishService_new_service :: "('cfg, 'e, (Publish, PublishAck, 'e) service) factory" where
  "DefaultPublishService_new_service cfg = Inr (always_ready (\<lambda>req. of_sum (DefaultPublishService_call req)))"

definition DefaultControlService_new_service :: "('cfg, 'e, ('e ControlMessage, ControlResult, 'e) service) factory" where
  "DefaultControlService_new_service cfg = Inr (always_ready (\<lambda>msg. of_sum (DefaultControlService_call msg)))"

definition server_new ::
  "(unit, 'init, (('tx, 'io) Handshake, ('tx, 'io, 'st) HandshakeAck, 'e) service) factory \<Rightarrow>
   ('tx, 'io, 'st, 'init, 'e, 'e, 'e, 'e, 'e) server" where
  "server_new handshake =
    \<lparr>srv_cfg = MqttServer_new, srv_handshake = handshake, srv_publish = DefaultPublishService_new_service,
     srv_control = DefaultControlService_new_service\<rparr>"

definition server_control ::
  "(('tx, 'io, 'st) session, 'cj, ('e ControlMessage, ControlResult, 'cf) service) factory \<Rightarrow>
   ('tx, 'io, 'st, 'init, 'pe, 'pi, 'ce, 'ci, 'e) server \<Rightarrow> ('tx, 'io, 'st, 'init, 'pe, 'pi, 'cf, 'cj, 'e) server" where
  "server_control service srv =
    \<lparr>srv_cfg = srv_cfg srv, srv_handshake = srv_handshake srv, srv_publish = srv_publish srv, srv_control = service\<rparr>"

definition server_publish ::
  "(('tx, 'io, 'st) session, 'pj, (Publish, PublishAck, 'pf) service) factory \<Rightarrow>
   ('tx, 'io, 'st, 'init, 'pe, 'pi, 'ce, 'ci, 'e) server \<Rightarrow> ('tx, 'io, 'st, 'init, 'pf, 'pj, 'ce, 'ci, 'e) server" where
  "server_publish pub srv =
    \<lparr>srv_cfg = srv_cfg srv, srv_handshake = srv_handshake srv, srv_publish = pub, srv_control = srv_control srv\<rparr>"

text \<open>A setter of the configuration, on the whole server.\<close>

definition configured ::
  "(MqttServer \<Rightarrow> MqttServer) \<Rightarrow> ('tx, 'io, 'st, 'init, 'pe, 'pi, 'ce, 'ci, 'e) server \<Rightarrow>
   ('tx, 'io, 'st, 'init, 'pe, 'pi, 'ce, 'ci, 'e) server" where
  "configured f srv = srv\<lparr>srv_cfg := f (srv_cfg srv)\<rparr>"

section \<open>The handler of a session\<close>

text \<open>The dispatcher with its services. The errors of the publish service stay as they are: they may become
  acknowledgements.\<close>

record ('tx, 'io, 'pe, 'e) handler =
  hd_dispatcher :: "('tx, 'io) Dispatcher"
  hd_publish :: "(Publish, PublishAck, 'pe) service"
  hd_control :: "('e ControlMessage, ControlResult, 'e) service"

definition dispatcher_factory ::
  "(('tx, 'io, 'st) session, 'e MqttError, (Publish, PublishAck, 'pe) service) factory \<Rightarrow>
   (('tx, 'io, 'st) session, 'e MqttError, ('e ControlMessage, ControlResult, 'e) service) factory \<Rightarrow>
   (('tx, 'io, 'st) session, 'e MqttError, ('tx, 'io, 'pe, 'e) handler) factory" where
  "dispatcher_factory pub control ses =
    (case pub ses of
       Inl e \<Rightarrow> Inl e
     | Inr pub \<Rightarrow>
       (case control ses of
          Inl e \<Rightarrow> Inl e
        | Inr control \<Rightarrow>
            Inr \<lparr>hd_dispatcher = session_dispatcher ses, hd_publish = pub, hd_control = control\<rparr>))"

text \<open>The part that all three ways to finish a server have in common.\<close>

definition handler_factory ::
  "('pe, 'pi, 'ce, 'ci, 'e) conversions \<Rightarrow> ('tx, 'io, 'st, 'init, 'pe, 'pi, 'ce, 'ci, 'e) server \<Rightarrow>
   (('tx, 'io, 'st) session, 'e MqttError, ('tx, 'io, 'pe, 'e) handler) factory" where
  "handler_factory conv srv =
    dispatcher_factory
      (\<lambda>ses. map_sum (\<lambda>e. MqttError.Service (from_publish_init conv e)) id (srv_publish srv ses))
      (factory_err (\<lambda>e. MqttError.Service (from_control_init conv e)) (from_control conv) (srv_control srv))"

section \<open>The handshake service\<close>

text \<open>The whole handshake: the first packet, the handshake service, the CONNACK. Without a state of its own the
  connection gets a new one.\<close>

definition handshake ::
  "('io, Packet, Codec) hs_ops \<Rightarrow> 'io reader \<Rightarrow> 'io \<Rightarrow>
   'io option \<Rightarrow> (('tx, 'io) Handshake, ('tx, 'io, 'st) HandshakeAck, 'e MqttError) service \<Rightarrow> MqttServer \<Rightarrow>
   ('e MqttError, ('tx, 'io, 'st) established) outcome" where
  "handshake ops read new_state st_opt service cfg =
    (let st = (case st_opt of Some st \<Rightarrow> st | None \<Rightarrow> new_state);
         sh = handshake_start cfg st;
         (res, st) = read (sh_codec sh) st
     in and_then (of_sum (first_packet res)) (\<lambda>packet.
        and_then (of_sum (handshake_connect cfg packet (sh\<lparr>sh_state := st\<rparr>))) (\<lambda>hnd.
        and_then (svc_call service hnd) (\<lambda>ack.
          case handshake_finish ops (ms_max_qos cfg) (con_keep_alive (hs_pkt hnd)) ack of (res, sh) \<Rightarrow>
            and_then res (\<lambda>(session, keepalive). Ok (sh, session, keepalive))))))"

definition handshake_service_factory ::
  "('io, Packet, Codec) hs_ops \<Rightarrow> 'io reader \<Rightarrow> 'io \<Rightarrow>
   (u16 \<Rightarrow> ('e MqttError, ('tx, 'io, 'st) established) outcome \<Rightarrow>
     ('e MqttError, ('tx, 'io, 'st) established) outcome option) \<Rightarrow>
   (unit, 'init, (('tx, 'io) Handshake, ('tx, 'io, 'st) HandshakeAck, 'e) service) factory \<Rightarrow> MqttServer \<Rightarrow>
   (unit, 'init, (unit, ('tx, 'io, 'st) established, 'e MqttError) service) factory" where
  "handshake_service_factory ops read new_state timeout fac cfg =
    handshake_factory (timeout (ms_handshake_timeout cfg))
      (\<lambda>service _. handshake ops read new_state None service cfg) fac"

definition handshake_service_factory2 ::
  "('io, Packet, Codec) hs_ops \<Rightarrow> 'io reader \<Rightarrow> 'io \<Rightarrow>
   (u16 \<Rightarrow> ('e MqttError, ('tx, 'io, 'st) established) outcome \<Rightarrow>
     ('e MqttError, ('tx, 'io, 'st) established) outcome option) \<Rightarrow>
   (unit, 'init, (('tx, 'io) Handshake, ('tx, 'io, 'st) HandshakeAck, 'e) service) factory \<Rightarrow> MqttServer \<Rightarrow>
   (unit, 'init, ('io, ('tx, 'io, 'st) established, 'e MqttError) service) factory" where
  "handshake_service_factory2 ops read new_state timeout fac cfg =
    handshake_factory (timeout (ms_handshake_timeout cfg))
      (\<lambda>service st. handshake ops read new_state (Some st) service cfg) fac"

section \<open>Finishing a server\<close>

text \<open>A connection of a server that stands alone has a new state; behind the server for both versions it has the
  state into which the first bytes were read.\<close>

definition finish ::
  "('io, Packet, Codec) hs_ops \<Rightarrow> 'io reader \<Rightarrow> 'io \<Rightarrow>
   (u16 \<Rightarrow> ('e MqttError, ('tx, 'io, 'st) established) outcome \<Rightarrow> ('e MqttError, ('tx, 'io, 'st) established) outcome option) \<Rightarrow>
   ('pe, 'pi, 'ce, 'ci, 'e) conversions \<Rightarrow> ('tx, 'io, 'st, 'init, 'pe, 'pi, 'ce, 'ci, 'e) server \<Rightarrow>
   (unit, 'init, ('tx, 'io) shared, ('tx, 'io, 'st) session, ('tx, 'io, 'pe, 'e) handler, 'e MqttError) FramedService" where
  "finish ops read new_state timeout conv srv =
    FramedService_new
      (handshake_service_factory ops read new_state timeout (srv_handshake srv) (srv_cfg srv))
      (handler_factory conv srv) (ms_disconnect_timeout (srv_cfg srv))"

definition inner_finish ::
  "('io, Packet, Codec) hs_ops \<Rightarrow> 'io reader \<Rightarrow> 'io \<Rightarrow>
   (u16 \<Rightarrow> ('e MqttError, ('tx, 'io, 'st) established) outcome \<Rightarrow> ('e MqttError, ('tx, 'io, 'st) established) outcome option) \<Rightarrow>
   ('pe, 'pi, 'ce, 'ci, 'e) conversions \<Rightarrow> ('tx, 'io, 'st, 'init, 'pe, 'pi, 'ce, 'ci, 'e) server \<Rightarrow>
   ('io, 'init, ('tx, 'io) shared, ('tx, 'io, 'st) session, ('tx, 'io, 'pe, 'e) handler, 'e MqttError) FramedService" where
  "inner_finish ops read new_state timeout conv srv =
    FramedService2_new
      (handshake_service_factory2 ops read new_state timeout (srv_handshake srv) (srv_cfg srv))
      (handler_factory conv srv) (ms_disconnect_timeout (srv_cfg srv))"

text \<open>A variant of a selector: the factory, and the service that it creates.\<close>

record ('tx, 'io, 'st, 'init, 'h, 'e) ServerSelector =
  ss_cfg :: MqttServer
  ss_check :: "('tx, 'io) Handshake \<Rightarrow> ('e, bool) outcome"
  ss_connect :: "(unit, 'init, (('tx, 'io) Handshake, ('tx, 'io, 'st) HandshakeAck, 'e) service) factory"
  ss_handler :: "(('tx, 'io, 'st) session, 'e MqttError, 'h) factory"

definition finish_selector ::
  "('pe, 'pi, 'ce, 'ci, 'e) conversions \<Rightarrow> (('tx, 'io) Handshake \<Rightarrow> ('e, bool) outcome) \<Rightarrow>
   ('tx, 'io, 'st, 'init, 'pe, 'pi, 'ce, 'ci, 'e) server \<Rightarrow> ('tx, 'io, 'st, 'init, ('tx, 'io, 'pe, 'e) handler, 'e) ServerSelector" where
  "finish_selector conv check srv =
    \<lparr>ss_cfg = srv_cfg srv, ss_check = check, ss_connect = srv_handshake srv, ss_handler = handler_factory conv srv\<rparr>"

definition ServerSelector_new_service ::
  "(phase \<Rightarrow> bool) \<Rightarrow> ('tx, 'io, 'st, 'init, 'h, 'e) ServerSelector \<Rightarrow> 'init + ('tx, 'io, 'st, 'h, 'e) variant" where
  "ServerSelector_new_service late ss =
    (case ss_connect ss () of
       Inl e \<Rightarrow> Inl e
     | Inr connect \<Rightarrow>
         Inr \<lparr>va_cfg = ss_cfg ss, va_check = ss_check ss, va_connect = connect, va_handler = ss_handler ss, va_late = late\<rparr>)"

text \<open>The selector behind the server for both versions.\<close>

definition SelectorService2_call ::
  "('io, Packet, Codec) hs_ops \<Rightarrow> (('tx, 'io) shared \<Rightarrow> 'h \<Rightarrow> u16 \<Rightarrow> u16 \<Rightarrow> ('e MqttError, unit) outcome) \<Rightarrow>
   ('tx, 'io, 'st, 'h, 'e) variant Selector2 \<Rightarrow> 'io \<times> nat option \<Rightarrow>
   (DecodeError + io_error) + Packet option \<Rightarrow> ('e MqttError, unit) outcome" where
  "SelectorService2_call ops run sel req res =
    (case req of (st, delay) \<Rightarrow>
       (let shared = MqttShared_new st (Codec_max_inbound_size Codec_new (sel2_max_size sel)) 0 in
        case res of
          Inl err \<Rightarrow> Err (MqttError_from_decode err)
        | Inr None \<Rightarrow> Err MqttError.Disconnected
        | Inr (Some (Packet.Connect con)) \<Rightarrow>
            selector2_call (map (ServerSelectorImpl_call ops run) (sel2_servers sel)) (\<lparr>hs_pkt = con, hs_shared = shared, hs_max_size = 0, hs_max_receive = 0, hs_max_topic_alias = 0\<rparr>, delay)
        | Inr (Some packet) \<Rightarrow>
            Err (Protocol (ProtocolError.Unexpected (packet_type packet) ''MQTT-3.1.0-1: Expected CONNECT packet''))))"

section \<open>Properties\<close>

lemma v5_handshake_new_state: "handshake ops read st None service cfg = handshake ops read st' (Some st) service cfg"
  by (simp add: handshake_def)

text \<open>C25: The two forms of a MQTT 5 server agree, although the code of each is written out. The service of a server that
  stands alone and the one behind the server for both versions are both created or fail to be created with the same error, and
  they serve a connection with the same result, unless the deadline of the second passes first. A selector behind the
  server for both versions, whatever its own handshake timeout is, is created and serves a connection like a
  selector that stands alone and has the handshake timeout of the server.\<close>

theorem v5_server_forms_agree:
  "map_sum id (\<lambda>impl. FramedServiceImpl_call run impl ()) (FramedService_new_service (finish ops read st timeout conv srv)) =
     map_sum id (\<lambda>impl. FramedServiceImpl2_call run late impl (st, if late then None else delay))
       (FramedService2_new_service (inner_finish ops read other timeout conv srv)) \<and>
   map_sum id (\<lambda>sel. SelectorService_call sel_ops sel_run sel now io res)
       (Selector_new_service create (Selector_handshake_timeout t selector)) =
     map_sum id (\<lambda>sel. SelectorService2_call sel_ops sel_run sel (io, handshake_delay now (unat t)) res)
       (Selector2_new_service create (Selector_finish_server selector))"
proof (rule conjI)
  show "map_sum id (\<lambda>impl. FramedServiceImpl_call run impl ()) (FramedService_new_service (finish ops read st timeout conv srv)) =
     map_sum id (\<lambda>impl. FramedServiceImpl2_call run late impl (st, if late then None else delay))
       (FramedService2_new_service (inner_finish ops read other timeout conv srv))"
    by (cases "srv_handshake srv ()")
       (simp_all add: FramedService2_new_service_eq FramedService_new_service_def finish_def inner_finish_def
         FramedService_new_def FramedService2_new_def handshake_service_factory_def handshake_service_factory2_def
         handshake_factory_def FramedServiceImpl2_call_eq FramedServiceImpl_call_def framed_handler_def Let_def
         v5_handshake_new_state [of ops read st _ _ other])
  show "map_sum id (\<lambda>sel. SelectorService_call sel_ops sel_run sel now io res)
       (Selector_new_service create (Selector_handshake_timeout t selector)) =
     map_sum id (\<lambda>sel. SelectorService2_call sel_ops sel_run sel (io, handshake_delay now (unat t)) res)
       (Selector2_new_service create (Selector_finish_server selector))"
    by (cases "create_all (Inr []) (map create (sel_servers selector))")
       (simp_all add: Selector_new_service_def Selector2_new_service_def Selector_finish_server_def Selector_handshake_timeout_def
         SelectorService_call_def SelectorService2_call_def selector2_call_eq first_packet_def
         split: sum.split option.split Packet.split)
qed

text \<open>C23: A MQTT 5 server serves a connection as it was configured and negotiated. When the client's first packet is a CONNECT,
  the handshake service of the application accepts it with any acknowledgement for this connection, the CONNACK is sent and the
  services of the session are created, the transport loop runs with a dispatcher that has no packet in progress and
  allows as many incoming packets and topic aliases as the acknowledgement announces; its sink allows as many packets in
  flight as the Receive Maximum of the client, or 16; incoming packets are bounded by the size that the acknowledgement
  announces, or else by the configured one, outgoing packets by the Maximum Packet Size of the client; the errors of the
  publish service are not converted, those of the control service are; the keep-alive time is that of the acknowledgement and
  the disconnect timeout the configured one.\<close>

theorem v5_server_serves:
  fixes srv :: "('tx, 'io, 'st, 'init, 'pe, 'pi, 'ce, 'ci, 'e) server"
    and read :: "'io reader"
  assumes "srv_handshake srv () = Inr hs" "timeout (ms_handshake_timeout (srv_cfg srv)) = Some"
    and "sh0 = handshake_start (srv_cfg srv) st"
    and "read (sh_codec sh0) st = (Inr (Some (Packet.Connect con)), st')"
    and "hnd = \<lparr>hs_pkt = con, hs_shared = apply_connect con (sh0\<lparr>sh_state := st'\<rparr>), hs_max_size = ms_max_size (srv_cfg srv),
      hs_max_receive = ms_max_receive (srv_cfg srv), hs_max_topic_alias = ms_max_topic_alias (srv_cfg srv)\<rparr>"
    and "svc_call hs hnd = Ok ack" "ha_session ack = Some ses" "ha_shared ack = hs_shared hnd"
    and "codec = (case ca_max_packet_size (ha_packet ack) of
      Some n \<Rightarrow> Codec_set_max_inbound_size (sh_codec (hs_shared hnd)) n | None \<Rightarrow> sh_codec (hs_shared hnd))"
    and "io_send ops codec (Packet.ConnectAck (connack_packet (ms_max_qos (srv_cfg srv)) (con_keep_alive con) ack))
      (io_set_buffer_params ops (ha_read_hw ack) (ha_write_hw ack) (ha_lw ack) st') = (Ok (), sent)"
    and "sh = (hs_shared hnd)\<lparr>sh_codec := codec, sh_state := sent\<rparr>"
    and "receive = (case ca_receive_max (ha_packet ack) of Some n \<Rightarrow> n | None \<Rightarrow> 0)"
    and "session = Session_new_v5 ses sh receive (ca_topic_alias_max (ha_packet ack))"
    and "srv_publish srv session = Inr pub" "srv_control srv session = Inr ctl"
  shows "(\<exists>impl. FramedService_new_service (finish ops read st timeout conv srv) = Inr impl \<and>
    FramedServiceImpl_call run impl () =
      run sh
        \<lparr>hd_dispatcher = V5_Dispatcher.Dispatcher_new sh (unat receive) (ca_topic_alias_max (ha_packet ack)),
         hd_publish = pub, hd_control = service_err (from_control conv) ctl\<rparr>
        (ha_keepalive ack) (ms_disconnect_timeout (srv_cfg srv))) \<and>
    cap sh = unat (case con_receive_max con of Some v \<Rightarrow> v | None \<Rightarrow> 16) \<and>
    queues sh = \<lparr>inflight = Mapping.empty, inflight_order = [], waiters = []\<rparr> \<and>
    max_in_size (sh_codec sh) =
      (case ca_max_packet_size (ha_packet ack) of Some n \<Rightarrow> n | None \<Rightarrow> ms_max_size (srv_cfg srv)) \<and>
    max_out_size (sh_codec sh) = (case con_max_packet_size con of Some n \<Rightarrow> n | None \<Rightarrow> 0)"
proof -
  let ?service = "service_err MqttError.Service hs"
  have st: "sh_state (hs_shared hnd) = st'" by (simp add: assms(5) apply_connect_def)
  have fin: "handshake_finish ops (ms_max_qos (srv_cfg srv)) (con_keep_alive con) ack =
      (Ok (session, ha_keepalive ack) :: ('e MqttError, _) outcome, sh)"
    by (simp add: handshake_finish_def Let_def assms(7,8) st assms(9) [symmetric] assms(10-13))
  have "handshake ops read st None ?service (srv_cfg srv) = Ok (sh, session, ha_keepalive ack)"
    using assms(3-6) fin
    by (simp add: handshake_def service_err_def first_packet_def handshake_connect_def Let_def)
  moreover have "session_dispatcher session = V5_Dispatcher.Dispatcher_new sh (unat receive) (ca_topic_alias_max (ha_packet ack))"
    by (simp add: assms(13) session_dispatcher_def Session_params_def Session_new_v5_def)
  ultimately have "\<exists>impl. FramedService_new_service (finish ops read st timeout conv srv) = Inr impl \<and>
    FramedServiceImpl_call run impl () =
      run sh
        \<lparr>hd_dispatcher = V5_Dispatcher.Dispatcher_new sh (unat receive) (ca_topic_alias_max (ha_packet ack)),
         hd_publish = pub, hd_control = service_err (from_control conv) ctl\<rparr>
        (ha_keepalive ack) (ms_disconnect_timeout (srv_cfg srv))"
    using assms(1,2,14,15)
    by (simp add: finish_def FramedService_new_def FramedService_new_service_def handshake_service_factory_def
        handshake_factory_def with_timeout_def FramedServiceImpl_call_def framed_handler_def handler_factory_def
        dispatcher_factory_def factory_err_def Let_def)
  moreover have hnd: "hs_shared hnd = apply_connect con ((handshake_start (srv_cfg srv) st)\<lparr>sh_state := st'\<rparr>)"
    by (simp add: assms(3,5))
  note evals = apply_connect_def handshake_start_def MqttShared_new_def Codec_new_def
    Codec_set_max_inbound_size_def Codec_set_max_outbound_size_def
  have "cap sh = unat (case con_receive_max con of Some v \<Rightarrow> v | None \<Rightarrow> 16)"
    "queues sh = \<lparr>inflight = Mapping.empty, inflight_order = [], waiters = []\<rparr>"
    "max_in_size (sh_codec sh) =
      (case ca_max_packet_size (ha_packet ack) of Some n \<Rightarrow> n | None \<Rightarrow> ms_max_size (srv_cfg srv))"
    "max_out_size (sh_codec sh) = (case con_max_packet_size con of Some n \<Rightarrow> n | None \<Rightarrow> 0)"
    unfolding assms(11,9) hnd by (simp_all add: evals split: option.split)
  ultimately show ?thesis by blast
qed

text \<open>A server that accepts everyone, announces a Receive Maximum of its own and a keep-alive time of 60 seconds, with the default
  services and a transport on which everything succeeds.\<close>

definition v5_demo_ops :: "(unit, Packet, Codec) hs_ops" where
  "v5_demo_ops =
    \<lparr>io_is_open = (\<lambda>_. True), io_close = id, io_force_close = id, io_encode = (\<lambda>enc pkt s. (Ok True, s)),
     io_send = (\<lambda>codec pkt s. (Ok (), s)), io_set_buffer_params = (\<lambda>_ _ _ s. s), io_write_shutdown = id\<rparr>"

definition v5_demo_ack :: "(nat, unit) Handshake \<Rightarrow> (nat, unit, unit) HandshakeAck" where
  "v5_demo_ack hnd = (HandshakeAck_with (\<lambda>p. p\<lparr>ca_receive_max := Some 9\<rparr>) (Handshake_ack () hnd))\<lparr>ha_keepalive := 60\<rparr>"

definition v5_demo_handshake :: "((nat, unit) Handshake, (nat, unit, unit) HandshakeAck, unit) service" where
  "v5_demo_handshake = always_ready (\<lambda>hnd.
    HandshakeAck_keep_alive 60 (HandshakeAck_with (\<lambda>p. p\<lparr>ca_receive_max := Some 9\<rparr>) (Handshake_ack () hnd)))"

definition v5_demo_srv :: "(nat, unit, unit, unit, unit, unit, unit, unit, unit) server" where
  "v5_demo_srv = configured (MqttServer_max_size 1024) (configured (MqttServer_receive_max 5) (server_new (\<lambda>_. Inr v5_demo_handshake)))"

definition v5_demo_conv :: "(unit, unit, unit, unit, unit) conversions" where
  "v5_demo_conv = \<lparr>from_publish = id, from_publish_init = id, from_control = id, from_control_init = id\<rparr>"

definition v5_demo_connect :: Connect where
  "v5_demo_connect = Connect_default\<lparr>con_receive_max := Some 7\<rparr>"

definition v5_demo_hnd :: "(nat, unit) Handshake" where
  "v5_demo_hnd = \<lparr>hs_pkt = v5_demo_connect, hs_shared = apply_connect v5_demo_connect (handshake_start (srv_cfg v5_demo_srv) ()),
    hs_max_size = 1024, hs_max_receive = 5, hs_max_topic_alias = 32\<rparr>"

definition v5_demo_shared :: "(nat, unit) shared" where
  "v5_demo_shared = (hs_shared v5_demo_hnd)\<lparr>sh_codec := Codec_set_max_inbound_size (sh_codec (hs_shared v5_demo_hnd)) 1024\<rparr>"

abbreviation v5_demo_read :: "unit reader" where
  "v5_demo_read \<equiv> \<lambda>_ s. (Inr (Some (Packet.Connect v5_demo_connect)), s)"

lemmas v5_demo_eval = v5_demo_srv_def v5_demo_handshake_def v5_demo_ops_def configured_def server_new_def MqttServer_new_def
  MqttServer_max_size_def MqttServer_receive_max_def always_ready_def HandshakeAck_keep_alive_def HandshakeAck_with_def
  v5_demo_ack_def v5_demo_hnd_def DefaultPublishService_new_service_def DefaultControlService_new_service_def

lemma v5_demo_unit: "sh\<lparr>sh_state := ()\<rparr> = sh" for sh :: "(nat, unit) shared"
  by (cases sh) simp

lemma v5_demo_facts:
  "srv_handshake v5_demo_srv () = Inr v5_demo_handshake"
  "v5_demo_hnd = \<lparr>hs_pkt = v5_demo_connect,
      hs_shared = apply_connect v5_demo_connect ((handshake_start (srv_cfg v5_demo_srv) ())\<lparr>sh_state := ()\<rparr>),
      hs_max_size = ms_max_size (srv_cfg v5_demo_srv), hs_max_receive = ms_max_receive (srv_cfg v5_demo_srv),
      hs_max_topic_alias = ms_max_topic_alias (srv_cfg v5_demo_srv)\<rparr>"
  "svc_call v5_demo_handshake v5_demo_hnd = Ok (v5_demo_ack v5_demo_hnd)"
  "ha_session (v5_demo_ack v5_demo_hnd) = Some ()" "ha_shared (v5_demo_ack v5_demo_hnd) = hs_shared v5_demo_hnd"
  "ca_max_packet_size (ha_packet (v5_demo_ack v5_demo_hnd)) = Some 1024"
  "ca_receive_max (ha_packet (v5_demo_ack v5_demo_hnd)) = Some 9"
  "ca_topic_alias_max (ha_packet (v5_demo_ack v5_demo_hnd)) = 32" "ha_keepalive (v5_demo_ack v5_demo_hnd) = 60"
  "io_send v5_demo_ops codec pkt st = (Ok (), ())"
  "ms_disconnect_timeout (srv_cfg v5_demo_srv) = 3000" "ms_max_size (srv_cfg v5_demo_srv) = 1024"
  "srv_publish v5_demo_srv session = Inr (always_ready (\<lambda>req. of_sum (DefaultPublishService_call req)))"
  "srv_control v5_demo_srv session = Inr (always_ready (\<lambda>msg. of_sum (DefaultControlService_call msg)))"
  "con_receive_max v5_demo_connect = Some 7"
  by (simp_all add: v5_demo_eval v5_demo_unit v5_demo_connect_def)

theorem v5_server_serves_witness:
  "\<forall>run :: (nat, unit) shared \<Rightarrow> (nat, unit, unit, unit) handler \<Rightarrow> u16 \<Rightarrow> u16 \<Rightarrow> (unit MqttError, unit) outcome.
   \<exists>impl. FramedService_new_service (finish v5_demo_ops v5_demo_read () (\<lambda>_. Some) v5_demo_conv v5_demo_srv) = Inr impl \<and>
    FramedServiceImpl_call run impl () =
      run v5_demo_shared
        \<lparr>hd_dispatcher = V5_Dispatcher.Dispatcher_new v5_demo_shared 9 32,
         hd_publish = always_ready (\<lambda>req. of_sum (DefaultPublishService_call req)),
         hd_control = service_err (from_control v5_demo_conv) (always_ready (\<lambda>msg. of_sum (DefaultControlService_call msg)))\<rparr>
        60 3000 \<and>
    cap v5_demo_shared = 7 \<and> max_in_size (sh_codec v5_demo_shared) = 1024"
proof
  fix run :: "(nat, unit) shared \<Rightarrow> (nat, unit, unit, unit) handler \<Rightarrow> u16 \<Rightarrow> u16 \<Rightarrow> (unit MqttError, unit) outcome"
  show "\<exists>impl. FramedService_new_service (finish v5_demo_ops v5_demo_read () (\<lambda>_. Some) v5_demo_conv v5_demo_srv) = Inr impl \<and>
    FramedServiceImpl_call run impl () =
      run v5_demo_shared
        \<lparr>hd_dispatcher = V5_Dispatcher.Dispatcher_new v5_demo_shared 9 32,
         hd_publish = always_ready (\<lambda>req. of_sum (DefaultPublishService_call req)),
         hd_control = service_err (from_control v5_demo_conv) (always_ready (\<lambda>msg. of_sum (DefaultControlService_call msg)))\<rparr>
        60 3000 \<and>
    cap v5_demo_shared = 7 \<and> max_in_size (sh_codec v5_demo_shared) = 1024"
    using v5_server_serves [where srv = v5_demo_srv and timeout = "\<lambda>_. Some" and read = v5_demo_read and ops = v5_demo_ops
        and conv = v5_demo_conv and run = run and st = "()" and sent = "()" and receive = 9 and sh = v5_demo_shared
        and codec = "sh_codec v5_demo_shared" and con = v5_demo_connect, OF v5_demo_facts(1) refl refl refl v5_demo_facts(2-5) _ _ _ _ refl v5_demo_facts(13,14)]
    by (simp add: v5_demo_facts(3-) v5_demo_unit v5_demo_shared_def)
qed

text \<open>The two forms of this server, and a selector with this server as its only variant.\<close>

definition v5_demo_selector :: "(nat, unit, unit, unit, (nat, unit, unit, unit) handler, unit) ServerSelector Selector" where
  "v5_demo_selector = Selector_variant (finish_selector v5_demo_conv (\<lambda>_. Ok True) v5_demo_srv) Selector_new"

theorem v5_server_forms_agree_witness:
  "\<forall>run. \<exists>impl impl2 sel sel2.
    FramedService_new_service (finish v5_demo_ops v5_demo_read () (\<lambda>_. Some) v5_demo_conv v5_demo_srv) = Inr impl \<and>
    FramedService2_new_service (inner_finish v5_demo_ops v5_demo_read () (\<lambda>_. Some) v5_demo_conv v5_demo_srv) = Inr impl2 \<and>
    FramedServiceImpl_call run impl () = FramedServiceImpl2_call run False impl2 ((), Some 5) \<and>
    Selector_new_service (ServerSelector_new_service (\<lambda>_. False)) (Selector_handshake_timeout 3 v5_demo_selector) = Inr sel \<and>
    Selector2_new_service (ServerSelector_new_service (\<lambda>_. False)) (Selector_finish_server v5_demo_selector) = Inr sel2 \<and>
    SelectorService_call v5_demo_ops run sel 2 () (Inr (Some (Packet.Connect v5_demo_connect))) =
      SelectorService2_call v5_demo_ops run sel2 ((), Some 5) (Inr (Some (Packet.Connect v5_demo_connect)))"
proof
  fix run :: "(nat, unit) shared \<Rightarrow> (nat, unit, unit, unit) handler \<Rightarrow> u16 \<Rightarrow> u16 \<Rightarrow> (unit MqttError, unit) outcome"
  obtain impl where impl: "FramedService_new_service (finish v5_demo_ops v5_demo_read () (\<lambda>_. Some) v5_demo_conv v5_demo_srv) = Inr impl"
    by (simp add: finish_def FramedService_new_def FramedService_new_service_def handshake_service_factory_def
        handshake_factory_def v5_demo_facts)
  obtain sel where sel: "Selector_new_service (ServerSelector_new_service (\<lambda>_. False)) (Selector_handshake_timeout 3 v5_demo_selector) = Inr sel"
    by (simp add: Selector_new_service_def Selector_handshake_timeout_def v5_demo_selector_def Selector_variant_def Selector_new_def
        ServerSelector_new_service_def finish_selector_def v5_demo_facts)
  have delay: "handshake_delay 2 (unat (3 :: u16)) = Some 5" by (simp add: handshake_delay_def)
  note agree = v5_server_forms_agree [where run = run and ops = v5_demo_ops and read = v5_demo_read and st = "()" and other = "()"
      and timeout = "\<lambda>_. Some" and conv = v5_demo_conv and srv = v5_demo_srv and late = False and delay = "Some 5"
      and sel_ops = v5_demo_ops and sel_run = run and now = 2 and io = "()" and res = "Inr (Some (Packet.Connect v5_demo_connect))"
      and create = "ServerSelector_new_service (\<lambda>_. False)" and t = 3 and selector = v5_demo_selector, unfolded impl sel delay]
  show "\<exists>impl impl2 sel sel2.
    FramedService_new_service (finish v5_demo_ops v5_demo_read () (\<lambda>_. Some) v5_demo_conv v5_demo_srv) = Inr impl \<and>
    FramedService2_new_service (inner_finish v5_demo_ops v5_demo_read () (\<lambda>_. Some) v5_demo_conv v5_demo_srv) = Inr impl2 \<and>
    FramedServiceImpl_call run impl () = FramedServiceImpl2_call run False impl2 ((), Some 5) \<and>
    Selector_new_service (ServerSelector_new_service (\<lambda>_. False)) (Selector_handshake_timeout 3 v5_demo_selector) = Inr sel \<and>
    Selector2_new_service (ServerSelector_new_service (\<lambda>_. False)) (Selector_finish_server v5_demo_selector) = Inr sel2 \<and>
    SelectorService_call v5_demo_ops run sel 2 () (Inr (Some (Packet.Connect v5_demo_connect))) =
      SelectorService2_call v5_demo_ops run sel2 ((), Some 5) (Inr (Some (Packet.Connect v5_demo_connect)))"
    using impl sel agree
    by (cases "FramedService2_new_service (inner_finish v5_demo_ops v5_demo_read () (\<lambda>_. Some) v5_demo_conv v5_demo_srv)";
        cases "Selector2_new_service (ServerSelector_new_service (\<lambda>_. False)) (Selector_finish_server v5_demo_selector)") auto
qed

end
