(* ===== verification/Spec2Isabelle.thy ===== *)
theory Spec2Isabelle
  imports Topic V5_Defects V3_Connection V5_Connection V3_Router V5_Router V3_Negotiation V5_Negotiation Server V3_Service V5_Service
begin

text \<open>
  A verification of \<^verbatim>\<open>ntex-mqtt\<close>, a client and server for MQTT 3.1.1 and MQTT 5 in Rust.

  \<^bold>\<open>The program.\<close> Bytes of a connection pass through a codec (\<^verbatim>\<open>v3/codec\<close>, \<^verbatim>\<open>v5/codec\<close>), which cuts them into frames and
  packets. A server (\<^verbatim>\<open>server.rs\<close>) reads the version of the first packet (\<^verbatim>\<open>version.rs\<close>) and hands the connection to
  the server of that version (\<^verbatim>\<open>v3/server.rs\<close>, \<^verbatim>\<open>v5/server.rs\<close>), directly or through a selector (\<^verbatim>\<open>v3/selector.rs\<close>,
  \<^verbatim>\<open>v5/selector.rs\<close>). After the handshake (\<^verbatim>\<open>v3/handshake.rs\<close>, \<^verbatim>\<open>v5/handshake.rs\<close>) the transport loop (\<^verbatim>\<open>io.rs\<close>) decodes packets,
  calls the dispatcher of the protocol (\<^verbatim>\<open>v3/dispatcher.rs\<close>, \<^verbatim>\<open>v5/dispatcher.rs\<close>) and writes its responses in the
  order of the requests. A dispatcher passes publishes to a publish service, often a router (\<^verbatim>\<open>v3/router.rs\<close>,
  \<^verbatim>\<open>v5/router.rs\<close>), everything else to a control service (\<^verbatim>\<open>v3/control.rs\<close>, \<^verbatim>\<open>v5/control.rs\<close>), and acknowledgements to the
  sink (\<^verbatim>\<open>v3/sink.rs\<close>, \<^verbatim>\<open>v5/sink.rs\<close>), with which the application sends packets and waits for their acknowledgement.
  The clients (\<^verbatim>\<open>v3/client\<close>, \<^verbatim>\<open>v5/client\<close>) have connectors, connections and dispatchers of their own and share the rest.

  \<^bold>\<open>The theories.\<close>

  \<^item> \<open>Prelude\<close>: results of fallible code, byte buffers, the unfolding of loops over the rest of a buffer.
  \<open>Types\<close>, \<open>Utils\<close>, \<open>VarLen\<close>: \<^verbatim>\<open>types.rs\<close>, \<^verbatim>\<open>error.rs\<close> and \<^verbatim>\<open>utils.rs\<close>; the locale \<open>wire\<close> is the contract of a value on
  the wire (size, encoding and decoding agree), \<open>prim_enum\<close> that of the enumerations.

  \<^item> \<open>V3_Packet\<close>, \<open>V3_Decode\<close>, \<open>V3_Encode\<close>, \<open>Framing\<close>, \<open>V3_Codec\<close>: the codec of MQTT 3.1.1. The locale \<open>framing\<close> has the state
  machine of frame headers, \<open>framed_stream\<close> what follows for streams of packets; both codecs interpret them. The
  lemmas show round trips, independence of how the stream is cut into reads, totality of the decoder on
  arbitrary bytes, and the size limits.

  \<^item> \<open>V5_Props\<close>, \<open>V5_PubAcks\<close>, \<open>V5_Subscribe\<close>, \<open>V5_Auth\<close>, \<open>V5_ConnAck\<close>, \<open>V5_Connect\<close>, \<open>V5_Publish\<close>, \<open>V5_Codec\<close>: the codec of MQTT 5, one
  theory per file of \<^verbatim>\<open>v5/codec/packet\<close>. \<open>property_reader\<close> is the contract of a property parser, \<open>encode_ltd\<close> that of a
  packet that fits a size limit. \<open>V5_Defects\<close> has the packets that the encoder writes and no decoder reads.

  \<^item> \<open>Topic\<close>: \<^verbatim>\<open>topic.rs\<close>; parsing and printing, validity, and matching, which equals a declarative specification.
  \<open>Version\<close>: \<^verbatim>\<open>version.rs\<close>. \<open>Errors\<close>: the errors of connections.

  \<^item> \<open>Sink\<close>, \<open>V3_Sink\<close>, \<open>V5_Sink\<close>: \<^verbatim>\<open>shared.rs\<close> and \<^verbatim>\<open>sink.rs\<close> of both versions. The locale \<open>ack_queue\<close> is the contract between
  senders and acknowledgements, interpreted by both sinks: acknowledgements reach the senders in the order of
  the requests, each with the identifier and kind of its request. \<open>id_source\<close> is the contract of the identifiers.

  \<^item> \<open>Control\<close>, \<open>V3_Control\<close>, \<open>V5_Control\<close>: messages of the control services and the default services.

  \<^item> \<open>Dispatch\<close>, \<open>V3_Dispatcher\<close>, \<open>V5_Dispatcher\<close>, \<open>V3_Client_Dispatcher\<close>, \<open>V5_Client_Dispatcher\<close>: the four dispatchers, each
  with its step relation: packets arrive, services answer pending futures in any order, the application uses
  the sink. By induction over the steps: an identifier is worked on by one future at a time, the receive
  maximum and the maximal topic alias hold, a publish gets exactly one acknowledgement.

  \<^item> \<open>Io_Dispatcher\<close>: the future of \<^verbatim>\<open>io.rs\<close> with its states and its queue of responses. Responses are written in the
  order of their requests although the services finish in any order; a poll returns; a connection that stops
  first writes what is pending.

  \<^item> \<open>Connection\<close>, \<open>V3_Connection\<close>, \<open>V5_Connection\<close>: client and server of the crate together: the client's sink and dispatcher,
  the two directions of the connection, the server's dispatcher and transport loop, in any interleaving. The
  locales \<open>client_side\<close> and \<open>server_side\<close> are what the two sides promise each other; \<open>connection\<close> extends both, with the
  invariant that relates the packets in flight at the client to those that are on the way, at work or answered.
  Both versions interpret them: neither side ever refuses a packet of the other, the senders are answered in
  order, and from every reachable state the connection can catch up: every request that was sent is answered and
  the credit is free again. In MQTT 5 this is about applications that keep \<open>within_limits\<close>: topic aliases up to the
  server's maximum, and no more requests in flight than the credit, which the sink itself does not ensure
  (\<open>v3_credit_overrun\<close>). A packet that cannot be encoded stays in flight (\<open>v5_failed_send_blocks\<close>): such sends are not among the steps.

  \<^item> \<open>Handshake_Base\<close>, \<open>V3_Handshake\<close>, \<open>V5_Handshake\<close>, \<open>V3_Client\<close>, \<open>V5_Client\<close>, \<open>V3_Negotiation\<close>, \<open>V5_Negotiation\<close>: sessions,
  server configuration, handshakes, selectors, connectors and connections. The last two theories put client
  and server of the crate together, for every answer of the server's application: both ends agree on the result of a
  3.1.1 handshake, down to the bytes, and on the limits of MQTT 5, with the exceptions that are shown there.

  \<^item> \<open>Router\<close>, \<open>V3_Router\<close>, \<open>V5_Router\<close>: the publish routers. The sessions of the MQTT 5 router are a step relation with
  handlers in creation; its lemmas are about the place of handlers and the meaning of topic aliases.

  \<^item> \<open>Service\<close>: services and their factories as values; \<^verbatim>\<open>service.rs\<close>, which runs a connection after its handshake, and the
  creation of selectors. \<open>V3_Service\<close>, \<open>V5_Service\<close>: the builders of \<^verbatim>\<open>v3/server.rs\<close> and \<^verbatim>\<open>v5/server.rs\<close>, the whole handshake and
  the three ways to finish a server. The lemmas show that they agree and that a connection runs with the dispatcher,
  services and limits that were configured and negotiated. \<open>Server\<close>: the server for both versions, its creation and its
  choice of the version, composed with both codecs.

  \<^bold>\<open>The model.\<close> A fallible function returns \<open>Ok\<close>, \<open>Err\<close>, \<open>Panic\<close> or \<open>Diverge\<close>; arithmetic that overflows panics, as in
  a build with overflow checks; the response counter of \<^verbatim>\<open>io.rs\<close>, which wraps, is a word. Integers of
  the wire are words of their width, \<^verbatim>\<open>usize\<close> elsewhere is \<open>nat\<close>; non-zero integers are words with a validity
  condition; strings are their UTF-8 bytes. Hash maps are \<open>mapping\<close>, hash sets are sets. A stateful function is a
  function from the state to a result and the new state (\<open>action\<close>). An asynchronous function is cut at its await
  points: one definition runs up to the wait, the next takes the awaited result, so that the steps of
  different tasks interleave freely. Channels that answer once are tokens, with a log of what was sent on
  them; whether the receiver still exists is an argument. Time is counted in seconds.

  \<^bold>\<open>Fuel.\<close> Loops over the rest of a buffer take its length as fuel, and each round consumes a byte
  (\<open>while_remaining_unfold\<close>), so the fuel never runs out. The loop of \<^verbatim>\<open>Dispatcher::poll\<close> has fuel as well; that three
  rounds more than there are items to read are enough is the theorem \<open>io_poll_returns\<close>.

  \<^bold>\<open>Parameters.\<close> Code outside the repository is a parameter: the transport \<^verbatim>\<open>ntex::framed::State\<close> with its reader,
  writer and timer (\<open>io_ops\<close>, \<open>hs_ops\<close>, \<open>io_env\<close>, with the hypotheses \<open>io_closes\<close>, that a closed transport is not
  open, \<open>finite_input\<close>, that one poll reads finitely many items, and \<open>io_logs\<close> and \<open>loop_logs\<close>, that a packet that is
  written is appended to the output, and \<open>byte_transport\<close>, that a handshake writes the bytes that the codec encodes and
  reads the packet that the codec decodes), the recogniser of topics \<^verbatim>\<open>ntex::router\<close>
  (\<open>recognizes_registered\<close>: it finds only registered resources), and the services, factories and error
  conversions of the application, whose answers are arbitrary.

  \<^bold>\<open>Not modelled.\<close> The combinators of \<^verbatim>\<open>ntex\<close> but for what they make of results and errors: of \<^verbatim>\<open>InFlightService\<close>, which limits
  the concurrent calls of a 3.1.1 session, only the limit is recorded, of \<^verbatim>\<open>Timeout\<close> only its result; sockets and TLS; JSON
  bodies; formatting for logs; accessors that only return a field; examples and tests.
\<close>

end
